(* ===== verification/Prelude.thy ===== *)
theory Prelude
  imports Main "HOL-Library.Multiset" "HOL-Library.List_Lexorder" "HOL-Library.Char_ord"
begin

text \<open>
  Shared by every component: the result type of fallible Rust functions, early-return
  sequencing (\<open>and_then\<close>, \<open>map_res\<close>), generic facts about \<open>find\<close>, \<open>filter\<close> and stable
  sorting by a key, and the \<open>named_theorems\<close> collections that carry the component proofs.
\<close>

named_theorems str_simps "evaluation and round-trip rules of the Rust string operations"
named_theorems snap_defs "definitions of the snapshot model that proofs unfold together"
named_theorems evolve_simps "effect of one structural step on a snapshot"
named_theorems apply_defs "definitions of the migration runner that proofs unfold together"

type_synonym str = string

subsection \<open>Fallible functions\<close>

text \<open>A Rust \<open>Result<T, E>\<close> is \<open>'e + 'a\<close>; \<open>?\<close> is \<open>and_then\<close>.\<close>

fun and_then :: "'e + 'a \<Rightarrow> ('a \<Rightarrow> 'e + 'b) \<Rightarrow> 'e + 'b" where
  "and_then (Inl e) f = Inl e"
| "and_then (Inr a) f = f a"

lemma and_then_Inr_iff [simp]:
  "and_then m f = Inr b \<longleftrightarrow> (\<exists>a. m = Inr a \<and> f a = Inr b)"
  by (cases m) auto

lemma and_then_Inl_iff:
  "and_then m f = Inl e \<longleftrightarrow> m = Inl e \<or> (\<exists>a. m = Inr a \<and> f a = Inl e)"
  by (cases m) auto

text \<open>\<open>iter().map(f).collect::<Result<Vec<_>, _>>()\<close>: the first error stops it.\<close>

fun map_res :: "('a \<Rightarrow> 'e + 'b) \<Rightarrow> 'a list \<Rightarrow> 'e + 'b list" where
  "map_res f [] = Inr []"
| "map_res f (x # xs) = and_then (f x) (\<lambda>y. and_then (map_res f xs) (\<lambda>ys. Inr (y # ys)))"

lemma map_res_all_Inr: "(\<And>x. x \<in> set xs \<Longrightarrow> f x = Inr (g x)) \<Longrightarrow> map_res f xs = Inr (map g xs)"
  by (induction xs) auto

lemma map_res_map: "map_res f (map g xs) = map_res (f \<circ> g) xs"
  by (induction xs) auto

lemma map_res_length: "map_res f xs = Inr ys \<Longrightarrow> length ys = length xs"
  by (induction xs arbitrary: ys) auto

lemma map_res_append:
  "map_res f xs = Inr as \<Longrightarrow> map_res f ys = Inr bs \<Longrightarrow> map_res f (xs @ ys) = Inr (as @ bs)"
  by (induction xs arbitrary: as) auto

text \<open>\<open>ok_or_else\<close>.\<close>

fun ok_or :: "'e \<Rightarrow> 'a option \<Rightarrow> 'e + 'a" where
  "ok_or e None = Inl e"
| "ok_or e (Some a) = Inr a"

lemma ok_or_Inr_iff [simp]: "ok_or e m = Inr a \<longleftrightarrow> m = Some a"
  by (cases m) auto

subsection \<open>Searching lists\<close>

lemma find_None_map_iff: "find (\<lambda>x. f x = k) xs = None \<longleftrightarrow> k \<notin> f ` set xs"
  by (auto simp: find_None_iff)

lemma find_SomeD: "find P xs = Some x \<Longrightarrow> x \<in> set xs \<and> P x"
  by (auto simp: find_Some_iff)

lemma find_distinct_key:
  "distinct (map f xs) \<Longrightarrow> find (\<lambda>x. f x = k) xs = Some x \<longleftrightarrow> x \<in> set xs \<and> f x = k"
  by (induction xs) (auto simp: image_iff)

lemma find_append: "find P (xs @ ys) = (case find P xs of None \<Rightarrow> find P ys | Some x \<Rightarrow> Some x)"
  by (induction xs) auto

lemma find_filter_key:
  "find (\<lambda>x. f x = k) (filter (\<lambda>x. f x \<noteq> n) xs) = (if k = n then None else find (\<lambda>x. f x = k) xs)"
  by (induction xs) auto

lemma find_map_same_key:
  "(\<And>x. f (g x) = f x) \<Longrightarrow> find (\<lambda>x. f x = k) (map g xs) = map_option g (find (\<lambda>x. f x = k) xs)"
  by (induction xs) auto

lemma inj_on_distinct_map: "distinct (map f xs) \<Longrightarrow> x \<in> set xs \<Longrightarrow> y \<in> set xs \<Longrightarrow> f x = f y \<Longrightarrow> x = y"
  by (induction xs) (auto simp: image_iff)

lemma map_some_eqI: "(\<And>i x. f i = Some x \<longleftrightarrow> g i = Some x) \<Longrightarrow> f = g"
  by (rule ext) (metis option.exhaust)

text \<open>\<open>iter_mut().find(p)\<close> followed by an update: the first match is replaced.\<close>

fun update_first :: "('a \<Rightarrow> bool) \<Rightarrow> ('a \<Rightarrow> 'a) \<Rightarrow> 'a list \<Rightarrow> 'a list" where
  "update_first P g [] = []"
| "update_first P g (x # xs) = (if P x then g x # xs else x # update_first P g xs)"

lemma update_first_none: "(\<And>x. x \<in> set xs \<Longrightarrow> \<not> P x) \<Longrightarrow> update_first P g xs = xs"
  by (induction xs) auto

lemma update_first_distinct:
  "distinct (map f xs) \<Longrightarrow>
   update_first (\<lambda>x. f x = k) g xs = map (\<lambda>x. if f x = k then g x else x) xs"
  by (induction xs) (auto intro!: map_idI [symmetric] simp: image_iff)

subsection \<open>Stable sorting by a key\<close>

text \<open>\<open>sort_by\<close> and \<open>sort_by_key\<close> of Rust are stable, as \<open>sort_key\<close> is.\<close>

lemma sort_key_distinct_unique:
  assumes "sorted (map f xs)" and "distinct (map f xs)" and "set xs = set ys" and "distinct ys"
  shows "sort_key f ys = xs"
proof -
  have inj: "inj_on f (set ys)" using assms(2,3) by (simp add: distinct_map)
  have dist: "distinct (map f (sort_key f ys))"
    using inj assms(4) by (simp add: distinct_map)
  have "map f (sort_key f ys) = map f xs"
    by (rule sorted_distinct_set_unique) (use assms dist in simp_all)
  then show ?thesis
    using inj assms(3) by (metis inj_on_map_eq_map set_sort sup.idem)
qed

end
