(* ===== verification/Rust_Str.thy ===== *)
theory Rust_Str
  imports Prelude
begin

text \<open>
  The operations of Rust's \<open>str\<close> that the migration engine uses, over UTF-8 bytes: a
  \<open>String\<close> is the list of its bytes, as in Rust. \<open>char::is_whitespace\<close> is the Unicode
  property \<open>White_Space\<close>, so its multi-byte members are recognised by their encodings.
  Splitting returns the pieces; a split point found by \<open>find\<close>/\<open>split_once\<close> is always a
  character boundary of a valid string.
\<close>

abbreviation nl :: str where "nl \<equiv> [CHR 0x0A]"
abbreviation dq :: char where "dq \<equiv> CHR 0x22"
abbreviation backslash :: char where "backslash \<equiv> CHR 0x5C"
abbreviation backtick :: char where "backtick \<equiv> CHR 0x60"

subsection \<open>Whitespace\<close>

definition ascii_ws :: "char \<Rightarrow> bool" where
  "ascii_ws c \<longleftrightarrow> c = CHR '' '' \<or> c = CHR 0x0A \<or> c = CHR 0x0D \<or> c = CHR 0x09 \<or> c = CHR 0x0B \<or> c = CHR 0x0C"

text \<open>U+0085 and U+00A0; U+1680, U+2000 to U+200A, U+2028, U+2029, U+202F, U+205F, U+3000.\<close>

definition ws2 :: "char \<Rightarrow> char \<Rightarrow> bool" where
  "ws2 c d \<longleftrightarrow> c = CHR 0xC2 \<and> (d = CHR 0x85 \<or> d = CHR 0xA0)"

definition ws3 :: "char \<Rightarrow> char \<Rightarrow> char \<Rightarrow> bool" where
  "ws3 c d e \<longleftrightarrow>
     c = CHR 0xE1 \<and> d = CHR 0x9A \<and> e = CHR 0x80
   \<or> c = CHR 0xE2 \<and> d = CHR 0x80 \<and>
       e \<in> set [CHR 0x80, CHR 0x81, CHR 0x82, CHR 0x83, CHR 0x84, CHR 0x85, CHR 0x86, CHR 0x87,
                CHR 0x88, CHR 0x89, CHR 0x8A, CHR 0xA8, CHR 0xA9, CHR 0xAF]
   \<or> c = CHR 0xE2 \<and> d = CHR 0x81 \<and> e = CHR 0x9F
   \<or> c = CHR 0xE3 \<and> d = CHR 0x80 \<and> e = CHR 0x80"

text \<open>The byte length of the whitespace character at the head of a string, 0 if there is none.\<close>

fun ws_len :: "str \<Rightarrow> nat" where
  "ws_len [] = 0"
| "ws_len (c # s) =
     (if ascii_ws c then 1
      else case s of [] \<Rightarrow> 0
        | d # s' \<Rightarrow> (if ws2 c d then 2
            else case s' of [] \<Rightarrow> 0 | e # _ \<Rightarrow> (if ws3 c d e then 3 else 0)))"

text \<open>The same at the end, on the reversed string.\<close>

fun ws_len_rev :: "str \<Rightarrow> nat" where
  "ws_len_rev [] = 0"
| "ws_len_rev (e # s) =
     (if ascii_ws e then 1
      else case s of [] \<Rightarrow> 0
        | d # s' \<Rightarrow> (if ws2 d e then 2
            else case s' of [] \<Rightarrow> 0 | c # _ \<Rightarrow> (if ws3 c d e then 3 else 0)))"

lemma ws_len_pos_nonempty: "0 < ws_len s \<Longrightarrow> s \<noteq> []"
  by auto

lemma ws_len_rev_pos_nonempty: "0 < ws_len_rev s \<Longrightarrow> s \<noteq> []"
  by auto

function trim_start :: "str \<Rightarrow> str" where
  "trim_start s = (if ws_len s = 0 then s else trim_start (drop (ws_len s) s))"
  by pat_completeness auto
termination
  by (relation "measure length") (auto intro!: diff_less dest: ws_len_pos_nonempty)

function trim_start_rev :: "str \<Rightarrow> str" where
  "trim_start_rev s = (if ws_len_rev s = 0 then s else trim_start_rev (drop (ws_len_rev s) s))"
  by pat_completeness auto
termination
  by (relation "measure length") (auto intro!: diff_less dest: ws_len_rev_pos_nonempty)

declare trim_start.simps [simp del] trim_start_rev.simps [simp del]

definition trim_end :: "str \<Rightarrow> str" where
  "trim_end s = rev (trim_start_rev (rev s))"

definition trim :: "str \<Rightarrow> str" where
  "trim s = trim_end (trim_start s)"

lemma trim_start_length: "length (trim_start s) \<le> length s"
proof (induction s rule: trim_start.induct)
  case (1 s)
  then show ?case by (subst trim_start.simps) (auto intro: le_trans)
qed

subsection \<open>Prefixes and splitting\<close>

text \<open>\<open>s.strip_prefix(p)\<close>; \<open>starts_with\<close> is whether it succeeds.\<close>

fun strip_prefix :: "str \<Rightarrow> str \<Rightarrow> str option" where
  "strip_prefix [] s = Some s"
| "strip_prefix (p # ps) [] = None"
| "strip_prefix (p # ps) (c # s) = (if p = c then strip_prefix ps s else None)"

definition starts_with :: "str \<Rightarrow> str \<Rightarrow> bool" where
  "starts_with p s \<longleftrightarrow> strip_prefix p s \<noteq> None"

definition strip_suffix :: "str \<Rightarrow> str \<Rightarrow> str option" where
  "strip_suffix p s = map_option rev (strip_prefix (rev p) (rev s))"

text \<open>A split of a tail, the skipped text put back in front.\<close>

definition prepend :: "str \<Rightarrow> (str \<times> 'a) option \<Rightarrow> (str \<times> 'a) option" where
  "prepend a m = map_option (\<lambda>(x, y). (a @ x, y)) m"

lemma prepend_simps [simp]:
  "prepend a None = None" "prepend a (Some (x, y)) = Some (a @ x, y)"
  "prepend [] m = m" "prepend a (prepend b m) = prepend (a @ b) m"
  by (cases m; auto simp: prepend_def)+

lemma prepend_eq_None_iff [simp]: "prepend a m = None \<longleftrightarrow> m = None"
  by (simp add: prepend_def)

lemma prepend_eq_Some_iff:
  "prepend a m = Some (x, y) \<longleftrightarrow> (\<exists>x'. m = Some (x', y) \<and> x = a @ x')"
  by (cases m) (auto simp: prepend_def)

text \<open>\<open>split_once(pat)\<close>: before and after the first match.\<close>

fun split_once :: "str \<Rightarrow> str \<Rightarrow> (str \<times> str) option" where
  "split_once p [] = (if p = [] then Some ([], []) else None)"
| "split_once p (c # s) =
     (case strip_prefix p (c # s) of
        Some r \<Rightarrow> Some ([], r)
      | None \<Rightarrow> prepend [c] (split_once p s))"

text \<open>\<open>rsplit_once(c)\<close>, and \<open>rfind(c)\<close> with the slices around it: the last match.\<close>

definition rsplit_char :: "char \<Rightarrow> str \<Rightarrow> (str \<times> str) option" where
  "rsplit_char c s = map_option (\<lambda>(a, b). (rev b, rev a)) (split_once [c] (rev s))"

text \<open>\<open>split_once(char::is_whitespace)\<close>: the first whitespace character separates.\<close>

fun split_once_ws :: "str \<Rightarrow> (str \<times> str) option" where
  "split_once_ws [] = None"
| "split_once_ws (c # s) =
     (if 0 < ws_len (c # s) then Some ([], drop (ws_len (c # s)) (c # s))
      else prepend [c] (split_once_ws s))"

lemma split_once_ws_length: "split_once_ws s = Some (a, b) \<Longrightarrow> length b < length s"
  by (induction s arbitrary: a b)
    (auto split: if_splits simp: prepend_eq_Some_iff simp del: ws_len.simps)

text \<open>\<open>splitn(2, char::is_whitespace)\<close>: the first piece, and the second if any.\<close>

definition splitn2_ws :: "str \<Rightarrow> str \<times> str option" where
  "splitn2_ws s = (case split_once_ws s of None \<Rightarrow> (s, None) | Some (a, b) \<Rightarrow> (a, Some b))"

text \<open>\<open>split(c)\<close>: every piece, empty ones included.\<close>

fun split_on :: "char \<Rightarrow> str \<Rightarrow> str list" where
  "split_on c [] = [[]]"
| "split_on c (x # s) =
     (if x = c then [] # split_on c s
      else case split_on c s of [] \<Rightarrow> [[x]] | p # ps \<Rightarrow> (x # p) # ps)"

text \<open>\<open>split_whitespace()\<close>: the non-empty runs between whitespace.\<close>

function split_whitespace :: "str \<Rightarrow> str list" where
  "split_whitespace s =
     (let t = trim_start s in
      if t = [] then []
      else case split_once_ws t of
          None \<Rightarrow> [t]
        | Some (a, b) \<Rightarrow> a # split_whitespace b)"
  by pat_completeness auto
termination
proof (relation "measure length", goal_cases)
  case (2 s t p a b)
  then have "length b < length (trim_start s)" by (auto dest: split_once_ws_length)
  then show ?case using trim_start_length [of s] by simp
qed simp

declare split_whitespace.simps [simp del]

text \<open>\<open>lines()\<close>: split at line feeds, a trailing carriage return of each line dropped, and no
  empty last line after a final line feed.\<close>

definition strip_cr :: "str \<Rightarrow> str" where
  "strip_cr l = (if l \<noteq> [] \<and> last l = CHR 0x0D then butlast l else l)"

fun lines_of :: "str list \<Rightarrow> str list" where
  "lines_of [] = []"
| "lines_of [l] = (if l = [] then [] else [l])"
| "lines_of (l # m # ls) = strip_cr l # lines_of (m # ls)"

definition lines :: "str \<Rightarrow> str list" where
  "lines s = lines_of (split_on (CHR 0x0A) s)"

text \<open>\<open>join(sep)\<close>.\<close>

fun join :: "str \<Rightarrow> str list \<Rightarrow> str" where
  "join sep [] = []"
| "join sep [x] = x"
| "join sep (x # y # ys) = x @ sep @ join sep (y # ys)"

text \<open>\<open>replace(c, r)\<close> for a one-character pattern.\<close>

definition replace_char :: "char \<Rightarrow> str \<Rightarrow> str \<Rightarrow> str" where
  "replace_char c r s = concat (map (\<lambda>x. if x = c then r else [x]) s)"

lemma strip_prefix_length: "strip_prefix p s = Some r \<Longrightarrow> length s = length p + length r"
  by (induction p s rule: strip_prefix.induct) (auto split: if_splits)

lemma split_once_shorter: "p \<noteq> [] \<Longrightarrow> split_once p s = Some (a, b) \<Longrightarrow> length b < length s"
  by (induction p s arbitrary: a b rule: split_once.induct)
    (fastforce split: if_splits option.splits simp: prepend_eq_Some_iff dest: strip_prefix_length)+

text \<open>\<open>str::replace\<close> of a pattern that is not empty.\<close>

function replace_text :: "str \<Rightarrow> str \<Rightarrow> str \<Rightarrow> str" where
  "replace_text pat rep s = (if pat = [] then s else case split_once pat s of
       None \<Rightarrow> s
     | Some (a, b) \<Rightarrow> a @ rep @ replace_text pat rep b)"
  by pat_completeness auto
termination by (relation "measure (\<lambda>(_, _, s). length s)") (auto dest: split_once_shorter)

declare replace_text.simps [simp del]

text \<open>Decimal digits of a number, as \<open>to_string\<close> and \<open>{}\<close> print it.\<close>

definition digit :: "nat \<Rightarrow> char" where
  "digit n = char_of (48 + n)"

fun dec :: "nat \<Rightarrow> str" where
  "dec n = (if n < 10 then [digit n] else dec (n div 10) @ [digit (n mod 10)])"

declare dec.simps [simp del]

lemma dec_value: "foldl (\<lambda>m c. 10 * m + ((of_char c :: nat) - 48)) 0 (dec n) = n"
proof (induction n rule: dec.induct)
  case (1 n)
  then show ?case by (subst dec.simps) (simp add: digit_def)
qed

lemma dec_chars: "c \<in> set (dec n) \<Longrightarrow> 48 \<le> (of_char c :: nat) \<and> (of_char c :: nat) \<le> 57"
proof (induction n rule: dec.induct)
  case (1 n)
  from 1(2) have "c = digit n \<and> n < 10 \<or> \<not> n < 10 \<and> (c \<in> set (dec (n div 10)) \<or> c = digit (n mod 10))"
    by (subst (asm) dec.simps) (auto split: if_splits)
  then show ?case using 1(1) by (auto simp: digit_def)
qed

lemma dec_nonempty [simp]: "dec n \<noteq> []"
  by (subst dec.simps) simp

definition int_text :: "int \<Rightarrow> str" where
  "int_text i = (if i < 0 then ''-'' @ dec (nat (- i)) else dec (nat i))"

declare ws_len.simps(2) [simp del] ws_len_rev.simps(2) [simp del]

text \<open>A final line without a line feed keeps its carriage return: \<open>lines\<close> strips only \<open>\r\n\<close>.\<close>

end
