(* ===== verification/Snapshot.thy ===== *)
theory Snapshot
  imports Rust_Str "HOL-Library.Product_Lexorder" "HOL-Library.Option_ord"
begin

text \<open>
  The neutral snapshot types of \<open>based-codegen/src/migrate/model/ir.rs\<close>: the state that the
  diff engine compares and that structural steps advance. Struct fields keep their names
  behind a prefix (\<open>s_\<close> snapshot, \<open>sd_\<close>/\<open>st_\<close> scope, \<open>t_\<close> table, \<open>c_\<close> column, \<open>ix_\<close> index,
  \<open>f_\<close> foreign key).
\<close>

record scope_term_snap =
  st_column :: str
  st_ty :: str
  st_ctx_field :: str

record scope_decl_snap =
  sd_name :: str
  sd_terms :: "scope_term_snap list"

datatype rename_decl =
    Rename_Table str str
  | Rename_Column str str str

record foreign_key_snap =
  f_columns :: "str list"
  f_ref_table :: str
  f_ref_schema :: "str option"
  f_ref_columns :: "str list"
  f_on_delete :: "str option"
  f_on_update :: "str option"

record column_snap =
  c_name :: str
  c_ty :: str
  c_nullable :: bool
  c_default :: "str option"
  c_unique :: bool
  c_fk :: "str option"
  c_generated :: "str option"

record index_snap =
  ix_name :: str
  ix_columns :: "str list"
  ix_unique :: bool
  ix_method :: "str option"
  ix_raw :: "str option"

record table_snap =
  t_name :: str
  t_schema :: "str option"
  t_soft_delete :: "(str \<times> str) option"
  t_created :: "str option"
  t_updated :: "str option"
  t_scope_alts :: "str list list"
  t_sort :: "(str \<times> str) list"
  t_no_id :: bool
  t_pk :: "str list"
  t_columns :: "column_snap list"
  t_indexes :: "index_snap list"
  t_foreign_keys :: "foreign_key_snap list"

record snapshot =
  s_scopes :: "scope_decl_snap list"
  s_tables :: "table_snap list"
  s_renames :: "rename_decl list"

definition empty_snapshot :: snapshot where
  "empty_snapshot = \<lparr>s_scopes = [], s_tables = [], s_renames = []\<rparr>"

subsection \<open>Accessors\<close>

definition find_scope :: "snapshot \<Rightarrow> str \<Rightarrow> scope_decl_snap option" where
  "find_scope s n = find (\<lambda>x. sd_name x = n) (s_scopes s)"

definition find_table :: "snapshot \<Rightarrow> str \<Rightarrow> table_snap option" where
  "find_table s n = find (\<lambda>t. t_name t = n) (s_tables s)"

definition find_column :: "table_snap \<Rightarrow> str \<Rightarrow> column_snap option" where
  "find_column t n = find (\<lambda>c. c_name c = n) (t_columns t)"

definition find_index :: "table_snap \<Rightarrow> str \<Rightarrow> index_snap option" where
  "find_index t n = find (\<lambda>i. ix_name i = n) (t_indexes t)"

text \<open>\<open>ForeignKeySnap::label\<close>.\<close>

definition fk_label :: "foreign_key_snap \<Rightarrow> str" where
  "fk_label f = (case f_columns f of
       [c] \<Rightarrow> c
     | cols \<Rightarrow> ''('' @ join '', '' cols @ '')'')"

subsection \<open>Orders\<close>

text \<open>
  The derived \<open>Ord\<close> of \<open>ForeignKeySnap\<close> compares the fields in declaration order, an absent
  option first; \<open>foreign_keys.sort()\<close> is a stable sort by that key.
\<close>

definition fk_key ::
  "foreign_key_snap \<Rightarrow> str list \<times> str \<times> str option \<times> str list \<times> str option \<times> str option" where
  "fk_key f = (f_columns f, f_ref_table f, f_ref_schema f, f_ref_columns f, f_on_delete f, f_on_update f)"

lemma fk_key_inject [simp]: "fk_key f = fk_key g \<longleftrightarrow> f = g"
  by (cases f; cases g) (simp add: fk_key_def)

text \<open>The derived \<open>Ord\<close> of \<open>Rename\<close>: variant order, then the fields.\<close>

fun rename_key :: "rename_decl \<Rightarrow> nat \<times> str \<times> str \<times> str" where
  "rename_key (Rename_Table f t) = (0, f, t, [])"
| "rename_key (Rename_Column tb f t) = (1, tb, f, t)"

lemma rename_key_inject [simp]: "rename_key a = rename_key b \<longleftrightarrow> a = b"
  by (cases a; cases b) auto

instantiation rename_decl :: linorder
begin

definition less_eq_rename_decl :: "rename_decl \<Rightarrow> rename_decl \<Rightarrow> bool" where
  "less_eq_rename_decl a b \<longleftrightarrow> rename_key a \<le> rename_key b"

definition less_rename_decl :: "rename_decl \<Rightarrow> rename_decl \<Rightarrow> bool" where
  "less_rename_decl a b \<longleftrightarrow> rename_key a < rename_key b"

instance
proof
  fix a b c :: rename_decl
  show "a < b \<longleftrightarrow> a \<le> b \<and> \<not> b \<le> a"
    unfolding less_eq_rename_decl_def less_rename_decl_def by (rule less_le_not_le)
  show "a \<le> a" by (simp add: less_eq_rename_decl_def)
  show "a \<le> b \<Longrightarrow> b \<le> c \<Longrightarrow> a \<le> c"
    unfolding less_eq_rename_decl_def by (rule order_trans)
  show "a \<le> b \<Longrightarrow> b \<le> a \<Longrightarrow> a = b"
    unfolding less_eq_rename_decl_def using rename_key_inject by (metis antisym)
  show "a \<le> b \<or> b \<le> a" unfolding less_eq_rename_decl_def by (rule linear)
qed

end

subsection \<open>Well-formedness\<close>

text \<open>
  What \<open>Snapshot::from_schema\<close> builds: scopes, tables, columns and indexes sorted by name with
  no name twice, foreign keys sorted with no local column set twice, renames sorted.
\<close>

definition sorted_names :: "('a \<Rightarrow> 'k::linorder) \<Rightarrow> 'a list \<Rightarrow> bool" where
  "sorted_names f xs \<longleftrightarrow> sorted (map f xs) \<and> distinct (map f xs)"

definition wf_table :: "table_snap \<Rightarrow> bool" where
  "wf_table t \<longleftrightarrow> sorted_names c_name (t_columns t) \<and> sorted_names ix_name (t_indexes t)
     \<and> sorted (map fk_key (t_foreign_keys t)) \<and> distinct (map f_columns (t_foreign_keys t))"

definition wf_snapshot :: "snapshot \<Rightarrow> bool" where
  "wf_snapshot s \<longleftrightarrow> sorted_names sd_name (s_scopes s) \<and> sorted_names t_name (s_tables s)
     \<and> list_all wf_table (s_tables s)"

lemma wf_tableD:
  assumes "wf_table t"
  shows "distinct (map c_name (t_columns t))" "sorted (map c_name (t_columns t))"
    "distinct (map ix_name (t_indexes t))" "sorted (map ix_name (t_indexes t))"
    "distinct (map f_columns (t_foreign_keys t))" "sorted (map fk_key (t_foreign_keys t))"
  using assms by (auto simp: wf_table_def sorted_names_def)

lemma wf_snapshotD:
  assumes "wf_snapshot s"
  shows "distinct (map t_name (s_tables s))" "sorted (map t_name (s_tables s))"
    "distinct (map sd_name (s_scopes s))" "t \<in> set (s_tables s) \<Longrightarrow> wf_table t"
  using assms by (auto simp: wf_snapshot_def sorted_names_def list_all_iff)

lemma find_table_Some_iff:
  "wf_snapshot s \<Longrightarrow> find_table s n = Some t \<longleftrightarrow> t \<in> set (s_tables s) \<and> t_name t = n"
  by (simp add: find_table_def find_distinct_key wf_snapshotD)

lemma find_table_None_iff: "find_table s n = None \<longleftrightarrow> n \<notin> t_name ` set (s_tables s)"
  by (simp add: find_table_def find_None_map_iff)

lemma find_column_None_iff: "find_column t n = None \<longleftrightarrow> n \<notin> c_name ` set (t_columns t)"
  by (simp add: find_column_def find_None_map_iff)

lemma find_column_Some_iff:
  "wf_table t \<Longrightarrow> find_column t n = Some c \<longleftrightarrow> c \<in> set (t_columns t) \<and> c_name c = n"
  by (simp add: find_column_def find_distinct_key wf_tableD)

lemma find_index_None_iff: "find_index t n = None \<longleftrightarrow> n \<notin> ix_name ` set (t_indexes t)"
  by (simp add: find_index_def find_None_map_iff)

lemma find_index_Some_iff:
  "wf_table t \<Longrightarrow> find_index t n = Some i \<longleftrightarrow> i \<in> set (t_indexes t) \<and> ix_name i = n"
  by (simp add: find_index_def find_distinct_key wf_tableD)

end
