(* ===== verification/Snap_Parse.thy ===== *)
theory Snap_Parse
  imports Snapshot
begin

text \<open>
  \<open>based-codegen/src/migrate/model/parse.rs\<close>: reading \<open>schema.snap\<close> back. Each function
  mirrors the Rust function of its name. A failure is \<open>Parse_Error\<close> with the 1-based line and
  the message; \<open>Slice_Panic\<close> is a slice whose start lies behind its end, which panics in Rust.
\<close>

datatype snap_error =
    Parse_Error nat str
  | Slice_Panic

type_synonym 'a snap_result = "snap_error + 'a"

text \<open>\<open>s.find(pat)\<close> with the two slices at the match: the match stays in the second.\<close>

definition find_at :: "str \<Rightarrow> str \<Rightarrow> (str \<times> str) option" where
  "find_at p s = map_option (\<lambda>(a, b). (a, p @ b)) (split_once p s)"

subsection \<open>Renames and scopes\<close>

definition parse_rename :: "str \<Rightarrow> nat \<Rightarrow> rename_decl snap_result" where
  "parse_rename rest line =
     (let malformed = Parse_Error line (''malformed rename: '' @ rest) in
      case strip_prefix ''table '' rest of
        Some spec \<Rightarrow> and_then (ok_or malformed (split_once ''->'' spec)) (\<lambda>(from, to).
          Inr (Rename_Table (trim from) (trim to)))
      | None \<Rightarrow> (case strip_prefix ''column '' rest of
          Some spec \<Rightarrow> and_then (ok_or malformed (split_once ''->'' spec)) (\<lambda>(lhs, to).
            and_then (ok_or malformed (split_once ''.'' (trim lhs))) (\<lambda>(table, from).
              Inr (Rename_Column (trim table) (trim from) (trim to))))
        | None \<Rightarrow> Inl malformed))"

definition parse_scope_term :: "nat \<Rightarrow> str \<Rightarrow> scope_term_snap snap_result" where
  "parse_scope_term line t =
     and_then (ok_or (Parse_Error line (''malformed scope term: '' @ t)) (split_once '' = $ctx.'' t))
       (\<lambda>(col_ty, ctx).
     and_then (ok_or (Parse_Error line (''scope term has no type: '' @ t)) (split_once '':'' col_ty))
       (\<lambda>(col, ty).
     Inr \<lparr>st_column = trim col, st_ty = trim ty, st_ctx_field = trim ctx\<rparr>))"

text \<open>\<open>rest[open + 1..close]\<close> panics when the last \<open>)\<close> stands before the first \<open>(\<close>.\<close>

definition parse_scope_decl :: "str \<Rightarrow> nat \<Rightarrow> scope_decl_snap snap_result" where
  "parse_scope_decl rest line =
     (case split_once ''('' rest of
        None \<Rightarrow> Inl (Parse_Error line (''scope decl has no term list: '' @ rest))
      | Some (pre, after) \<Rightarrow>
          let name = trim pre in
          if name = [] then Inl (Parse_Error line ''scope decl has no name'')
          else (case rsplit_char (CHR '')'') rest of
              None \<Rightarrow> Inl (Parse_Error line (''scope decl term list is not closed: '' @ rest))
            | Some _ \<Rightarrow> (case rsplit_char (CHR '')'') after of
                None \<Rightarrow> Inl Slice_Panic
              | Some (slice, _) \<Rightarrow>
                  let inner = trim slice in
                  if inner = [] then Inr \<lparr>sd_name = name, sd_terms = []\<rparr>
                  else and_then (map_res (parse_scope_term line) (split_on (CHR '','') inner))
                    (\<lambda>terms. Inr \<lparr>sd_name = name, sd_terms = terms\<rparr>))))"

subsection \<open>Table headers\<close>

definition take_group :: "str \<Rightarrow> str \<Rightarrow> (str list \<times> str) option" where
  "take_group head key =
     (case strip_prefix key head of None \<Rightarrow> None
      | Some a \<Rightarrow> (case strip_prefix ''=('' a of None \<Rightarrow> None
        | Some after \<Rightarrow> (case split_once '')'' after of None \<Rightarrow> None
          | Some (inner, tail) \<Rightarrow>
              Some (if trim inner = [] then [] else map trim (split_on (CHR '','') inner),
                    trim_start tail))))"

text \<open>\<open>splitn(2, whitespace)\<close> with both pieces defaulted and the second trimmed.\<close>

definition next_word :: "str \<Rightarrow> str \<times> str" where
  "next_word after = (case splitn2_ws after of
       (w, None) \<Rightarrow> (w, [])
     | (w, Some r) \<Rightarrow> (w, trim_start r))"

definition split_pk_marker :: "str \<Rightarrow> str \<times> str" where
  "split_pk_marker after =
     (if starts_with ''('' after
      then (case split_once '')'' after of
          None \<Rightarrow> (after, [])
        | Some (a, b) \<Rightarrow> (a @ '')'', trim_start b))
      else next_word after)"

definition parse_sort_term :: "nat \<Rightarrow> str \<Rightarrow> (str \<times> str) snap_result" where
  "parse_sort_term line t =
     and_then (ok_or (Parse_Error line (''malformed sort term: '' @ t)) (split_once_ws t))
       (\<lambda>(col, dir). Inr (trim col, trim dir))"

definition parse_col_list :: "str \<Rightarrow> str list" where
  "parse_col_list s0 =
     (let s = trim s0 in
      case Option.bind (strip_prefix ''('' s) (strip_suffix '')'') of
        Some inner \<Rightarrow> map trim (split_on (CHR '','') inner)
      | None \<Rightarrow> [s])"

text \<open>One turn of the \<open>while !head.is_empty()\<close> loop: the table with the attribute at the head
  of the text recorded, and the text after it.\<close>

definition parse_attr :: "nat \<Rightarrow> str \<Rightarrow> table_snap \<Rightarrow> (table_snap \<times> str) snap_result" where
  "parse_attr line head t =
     (if head = ''no_id'' \<or> starts_with ''no_id '' head
      then Inr (t\<lparr>t_no_id := True\<rparr>, trim_start (drop 5 head))
      else case strip_prefix ''schema='' head of
        Some after \<Rightarrow> (case next_word after of (w, r) \<Rightarrow> Inr (t\<lparr>t_schema := Some w\<rparr>, r))
      | None \<Rightarrow> (case strip_prefix ''pk='' head of
        Some after \<Rightarrow> (case split_pk_marker after of (m, r) \<Rightarrow> Inr (t\<lparr>t_pk := parse_col_list m\<rparr>, r))
      | None \<Rightarrow> (case strip_prefix ''soft_delete='' head of
        Some after \<Rightarrow> (case next_word after of (spec, r) \<Rightarrow>
          and_then (ok_or (Parse_Error line (''malformed soft_delete: '' @ spec)) (split_once '':'' spec))
            (\<lambda>cm. Inr (t\<lparr>t_soft_delete := Some cm\<rparr>, r)))
      | None \<Rightarrow> (case strip_prefix ''created='' head of
        Some after \<Rightarrow> (case next_word after of (w, r) \<Rightarrow> Inr (t\<lparr>t_created := Some w\<rparr>, r))
      | None \<Rightarrow> (case strip_prefix ''updated='' head of
        Some after \<Rightarrow> (case next_word after of (w, r) \<Rightarrow> Inr (t\<lparr>t_updated := Some w\<rparr>, r))
      | None \<Rightarrow> (case take_group head ''scope'' of
        Some (names, tail) \<Rightarrow> Inr (t\<lparr>t_scope_alts := t_scope_alts t @ [names]\<rparr>, tail)
      | None \<Rightarrow> (case take_group head ''sort'' of
        Some (terms, tail) \<Rightarrow>
          and_then (map_res (parse_sort_term line) terms) (\<lambda>sort. Inr (t\<lparr>t_sort := sort\<rparr>, tail))
      | None \<Rightarrow> Inl (Parse_Error line (''unrecognized table attribute: '' @ head)))))))))"

text \<open>The loop. Every turn consumes text; the length test only makes that visible.\<close>

function parse_attrs :: "nat \<Rightarrow> str \<Rightarrow> table_snap \<Rightarrow> table_snap snap_result" where
  "parse_attrs line head t =
     (if head = [] then Inr t
      else case parse_attr line head t of
          Inl e \<Rightarrow> Inl e
        | Inr (t', head') \<Rightarrow>
            (if length head' < length head then parse_attrs line head' t' else Inr t'))"
  by pat_completeness auto
termination
  by (relation "measure (\<lambda>(line, head, t). length head)") auto

declare parse_attrs.simps [simp del]

definition new_table :: "str \<Rightarrow> table_snap" where
  "new_table name = \<lparr>t_name = name, t_schema = None, t_soft_delete = None, t_created = None,
     t_updated = None, t_scope_alts = [], t_sort = [], t_no_id = False, t_pk = [],
     t_columns = [], t_indexes = [], t_foreign_keys = []\<rparr>"

definition parse_table_header :: "str \<Rightarrow> nat \<Rightarrow> table_snap snap_result" where
  "parse_table_header rest line =
     (case next_word rest of (name, head) \<Rightarrow>
        if name = [] then Inl (Parse_Error line ''table has no name'')
        else parse_attrs line head (new_table name))"

subsection \<open>Foreign keys\<close>

fun parse_fk_attrs :: "snap_error \<Rightarrow> str list \<Rightarrow> str option \<times> str option \<Rightarrow>
    (str option \<times> str option) snap_result" where
  "parse_fk_attrs malformed [] acts = Inr acts"
| "parse_fk_attrs malformed (tok # toks) (od, ou) =
     (case strip_prefix ''on_delete='' tok of
        Some a \<Rightarrow> parse_fk_attrs malformed toks (Some a, ou)
      | None \<Rightarrow> (case strip_prefix ''on_update='' tok of
          Some a \<Rightarrow> parse_fk_attrs malformed toks (od, Some a)
        | None \<Rightarrow> Inl malformed))"

definition fk_attrs_at :: "str \<Rightarrow> str \<times> str" where
  "fk_attrs_at tail = (case find_at '' on_delete='' tail of
       Some p \<Rightarrow> p
     | None \<Rightarrow> (case find_at '' on_update='' tail of
         Some p \<Rightarrow> p
       | None \<Rightarrow> (tail, [])))"

definition parse_fk :: "str \<Rightarrow> nat \<Rightarrow> foreign_key_snap snap_result" where
  "parse_fk rest line =
     (let malformed = Parse_Error line (''malformed fk: '' @ rest) in
      and_then (ok_or malformed (split_once ''->'' rest)) (\<lambda>(col, tail).
      case fk_attrs_at (trim tail) of (reference, attrs) \<Rightarrow>
      and_then (ok_or malformed (split_once ''.'' (trim reference))) (\<lambda>(ref_table, ref_cols).
      case (case split_once ''::'' (trim ref_table) of
              Some (sc, tbl) \<Rightarrow> (Some (trim sc), trim tbl)
            | None \<Rightarrow> (None, trim ref_table)) of (ref_schema, ref_table) \<Rightarrow>
      and_then (parse_fk_attrs malformed (split_whitespace attrs) (None, None)) (\<lambda>(od, ou).
      Inr \<lparr>f_columns = parse_col_list col, f_ref_table = ref_table, f_ref_schema = ref_schema,
           f_ref_columns = parse_col_list ref_cols, f_on_delete = od, f_on_update = ou\<rparr>))))"

subsection \<open>Columns\<close>

text \<open>
  \<open>balanced_end\<close>: the text up to the parenthesis that closes the first one, and the rest; the
  arguments are the depth, whether inside a string literal, and whether after a backslash. It
  is called on a text that opens a parenthesis before it can close one, so the depth is
  positive at every \<open>)\<close> and \<open>depth - 1\<close> does not wrap.
\<close>

fun balanced :: "nat \<Rightarrow> bool \<Rightarrow> bool \<Rightarrow> str \<Rightarrow> (str \<times> str) option" where
  "balanced depth in_str esc [] = None"
| "balanced depth in_str esc (c # s) =
     (let cons = prepend [c] in
      if esc then cons (balanced depth in_str False s)
      else if c = backslash \<and> in_str then cons (balanced depth in_str True s)
      else if c = dq then cons (balanced depth (\<not> in_str) esc s)
      else if c = CHR ''('' \<and> \<not> in_str then cons (balanced (Suc depth) in_str esc s)
      else if c = CHR '')'' \<and> \<not> in_str then
        (if depth - 1 = 0 then Some ([c], s) else cons (balanced (depth - 1) in_str esc s))
      else cons (balanced depth in_str esc s))"

definition balanced_end :: "str \<Rightarrow> (str \<times> str) option" where
  "balanced_end s = balanced 0 False False s"

definition extract_default :: "str \<Rightarrow> str option \<times> str" where
  "extract_default rest = (case split_once (''default='' @ [dq]) rest of
       None \<Rightarrow> (None, rest)
     | Some (pre, after) \<Rightarrow> (case split_once [dq] after of
         None \<Rightarrow> (None, rest)
       | Some (q, tail) \<Rightarrow> (Some ([dq] @ q @ [dq]), pre @ tail)))"

definition extract_raw :: "str \<Rightarrow> str option \<times> str" where
  "extract_raw remainder = (case find_at ''raw('' remainder of
       None \<Rightarrow> (None, remainder)
     | Some (pre, at) \<Rightarrow> (case balanced_end at of
         None \<Rightarrow> (None, remainder)
       | Some (tok, tail) \<Rightarrow> (Some tok, pre @ tail)))"

definition extract_generated :: "str \<Rightarrow> str option \<times> str" where
  "extract_generated remainder = (case split_once ''generated=('' remainder of
       None \<Rightarrow> (None, remainder)
     | Some (pre, after) \<Rightarrow> (case balanced_end (''('' @ after) of
         None \<Rightarrow> (None, remainder)
       | Some (tok, tail) \<Rightarrow> (Some (butlast (tl tok)), pre @ tail)))"

definition extract_spaced_attrs ::
  "str \<Rightarrow> str option \<times> str option \<times> str option \<times> str" where
  "extract_spaced_attrs rest =
     (case extract_default rest of (dflt, r1) \<Rightarrow>
      case extract_raw r1 of (raw_ty, r2) \<Rightarrow>
      case extract_generated r2 of (generated, r3) \<Rightarrow> (dflt, raw_ty, generated, r3))"

fun parse_column_attrs :: "nat \<Rightarrow> str list \<Rightarrow> column_snap \<Rightarrow> column_snap snap_result" where
  "parse_column_attrs line [] c = Inr c"
| "parse_column_attrs line (tok # toks) c =
     (case strip_prefix ''default='' tok of
        Some d \<Rightarrow> parse_column_attrs line toks (c\<lparr>c_default := Some d\<rparr>)
      | None \<Rightarrow>
          if tok = ''unique'' then parse_column_attrs line toks (c\<lparr>c_unique := True\<rparr>)
          else (case strip_prefix ''fk='' tok of
              Some t \<Rightarrow> parse_column_attrs line toks (c\<lparr>c_fk := Some t\<rparr>)
            | None \<Rightarrow> Inl (Parse_Error line (''unrecognized column attribute: '' @ tok))))"

text \<open>\<open>toks.next().ok_or_else(\<dots>)\<close>.\<close>

definition next_tok :: "nat \<Rightarrow> str \<Rightarrow> str list \<Rightarrow> (str \<times> str list) snap_result" where
  "next_tok line msg toks = (case toks of [] \<Rightarrow> Inl (Parse_Error line msg) | t # ts \<Rightarrow> Inr (t, ts))"

definition parse_column :: "str \<Rightarrow> nat \<Rightarrow> column_snap snap_result" where
  "parse_column rest line =
     (case extract_spaced_attrs rest of (dflt, raw_ty, generated, remainder) \<Rightarrow>
      and_then (next_tok line ''column has no name'' (split_whitespace remainder)) (\<lambda>(name, toks1).
      and_then (case raw_ty of
            Some t \<Rightarrow> Inr (t, toks1)
          | None \<Rightarrow> next_tok line ''column has no type'' toks1) (\<lambda>(ty, toks2).
      and_then (next_tok line ''column has no nullability'' toks2) (\<lambda>(nullability, toks).
      and_then (if nullability = ''null'' then Inr True
                else if nullability = ''not_null'' then Inr False
                else Inl (Parse_Error line (''expected null|not_null, got '' @ nullability)))
        (\<lambda>nullable.
      parse_column_attrs line toks
        \<lparr>c_name = name, c_ty = ty, c_nullable = nullable, c_default = dflt,
         c_unique = False, c_fk = None, c_generated = generated\<rparr>)))))"

subsection \<open>Indexes\<close>

text \<open>Unknown flags are ignored; \<open>using\<close> takes the token after it, if any.\<close>

fun parse_index_flags :: "str list \<Rightarrow> bool \<times> str option \<Rightarrow> bool \<times> str option" where
  "parse_index_flags [] acc = acc"
| "parse_index_flags (tok # toks) (u, m) =
     (if tok = ''unique'' then parse_index_flags toks (True, m)
      else if tok = ''using'' then (case toks of
            [] \<Rightarrow> (u, None)
          | t # ts \<Rightarrow> parse_index_flags ts (u, Some t))
      else parse_index_flags toks (u, m))"

definition raw_index :: "str \<Rightarrow> index_snap option" where
  "raw_index rest = (case split_once_ws (trim rest) of
       None \<Rightarrow> None
     | Some (name, body) \<Rightarrow>
         (if starts_with ''raw('' (trim body)
          then Some \<lparr>ix_name = trim name, ix_columns = [], ix_unique = False, ix_method = None,
                     ix_raw = Some (trim body)\<rparr>
          else None))"

definition parse_index :: "str \<Rightarrow> nat \<Rightarrow> index_snap snap_result" where
  "parse_index rest line =
     (case raw_index rest of
        Some i \<Rightarrow> Inr i
      | None \<Rightarrow>
          and_then (ok_or (Parse_Error line (''index missing column list: '' @ rest))
                      (split_once ''('' rest)) (\<lambda>(name, after).
          and_then (ok_or (Parse_Error line (''index column list not closed: '' @ rest))
                      (split_once '')'' after)) (\<lambda>(cols_inner, tail).
          let columns = (if trim cols_inner = [] then []
                         else map trim (split_on (CHR '','') cols_inner));
              um = parse_index_flags (split_whitespace (trim tail)) (False, None)
          in Inr \<lparr>ix_name = trim name, ix_columns = columns, ix_unique = fst um,
                  ix_method = snd um, ix_raw = None\<rparr>)))"

subsection \<open>The file\<close>

text \<open>\<open>tables.last_mut()\<close> with its update, which the line's own error precedes only when there
  is a table.\<close>

fun with_last :: "snap_error \<Rightarrow> (table_snap \<Rightarrow> table_snap snap_result) \<Rightarrow> table_snap list \<Rightarrow>
    table_snap list snap_result" where
  "with_last e f [] = Inl e"
| "with_last e f [t] = and_then (f t) (\<lambda>t'. Inr [t'])"
| "with_last e f (t # u # ts) = and_then (with_last e f (u # ts)) (\<lambda>ts'. Inr (t # ts'))"

definition push_column :: "column_snap \<Rightarrow> table_snap \<Rightarrow> table_snap" where
  "push_column c t = t\<lparr>t_columns := t_columns t @ [c]\<rparr>"

definition push_index :: "index_snap \<Rightarrow> table_snap \<Rightarrow> table_snap" where
  "push_index i t = t\<lparr>t_indexes := t_indexes t @ [i]\<rparr>"

definition push_fk :: "foreign_key_snap \<Rightarrow> table_snap \<Rightarrow> table_snap" where
  "push_fk f t = t\<lparr>t_foreign_keys := t_foreign_keys t @ [f]\<rparr>"

definition parse_member :: "str \<Rightarrow> nat \<Rightarrow> (table_snap \<Rightarrow> table_snap snap_result) \<Rightarrow> snapshot \<Rightarrow>
    snapshot snap_result" where
  "parse_member what line f s =
     and_then (with_last (Parse_Error line (what @ '' before any table'')) f (s_tables s))
       (\<lambda>ts. Inr (s\<lparr>s_tables := ts\<rparr>))"

definition parse_line :: "nat \<Rightarrow> str \<Rightarrow> snapshot \<Rightarrow> snapshot snap_result" where
  "parse_line line_no raw s =
     (let line = trim raw in
      if line = [] \<or> starts_with ''#'' line \<or> starts_with ''snapshot '' line then Inr s
      else case strip_prefix ''scope '' line of
        Some rest \<Rightarrow> and_then (parse_scope_decl rest line_no) (\<lambda>d. Inr (s\<lparr>s_scopes := s_scopes s @ [d]\<rparr>))
      | None \<Rightarrow> (case strip_prefix ''rename '' line of
        Some rest \<Rightarrow> and_then (parse_rename rest line_no) (\<lambda>r. Inr (s\<lparr>s_renames := s_renames s @ [r]\<rparr>))
      | None \<Rightarrow> (case strip_prefix ''table '' line of
        Some rest \<Rightarrow> and_then (parse_table_header rest line_no) (\<lambda>t. Inr (s\<lparr>s_tables := s_tables s @ [t]\<rparr>))
      | None \<Rightarrow> (case strip_prefix ''column '' line of
        Some rest \<Rightarrow> parse_member ''column'' line_no
          (\<lambda>t. and_then (parse_column rest line_no) (\<lambda>c. Inr (push_column c t))) s
      | None \<Rightarrow> (case strip_prefix ''index '' line of
        Some rest \<Rightarrow> parse_member ''index'' line_no
          (\<lambda>t. and_then (parse_index rest line_no) (\<lambda>i. Inr (push_index i t))) s
      | None \<Rightarrow> (case strip_prefix ''fk '' line of
        Some rest \<Rightarrow> parse_member ''fk'' line_no
          (\<lambda>t. and_then (parse_fk rest line_no) (\<lambda>f. Inr (push_fk f t))) s
      | None \<Rightarrow> Inl (Parse_Error line_no (''unrecognized line: '' @ line))))))))"

fun parse_lines :: "nat \<Rightarrow> str list \<Rightarrow> snapshot \<Rightarrow> snapshot snap_result" where
  "parse_lines n [] s = Inr s"
| "parse_lines n (l # ls) s = and_then (parse_line n l s) (\<lambda>s'. parse_lines (Suc n) ls s')"

definition parse_snapshot :: "str \<Rightarrow> snapshot snap_result" where
  "parse_snapshot text = parse_lines 1 (lines text) empty_snapshot"

end
