(* ===== verification/Snap_Render.thy ===== *)
theory Snap_Render
  imports Snapshot
begin

text \<open>
  \<open>based-codegen/src/migrate/model/render.rs\<close>: the canonical \<open>schema.snap\<close> text. Each
  function mirrors the Rust function of its name; \<open>out.push_str\<close> is concatenation.
\<close>

definition opt_text :: "str \<Rightarrow> str option \<Rightarrow> str" where
  "opt_text p o' = (case o' of None \<Rightarrow> [] | Some x \<Rightarrow> p @ x)"

lemma opt_text_simps [simp]: "opt_text p None = []" "opt_text p (Some x) = p @ x"
  by (simp_all add: opt_text_def)

definition col_list_text :: "str list \<Rightarrow> str" where
  "col_list_text cols = (case cols of
       [c] \<Rightarrow> c
     | cs \<Rightarrow> ''('' @ join '', '' cs @ '')'')"

definition render_scope_decl :: "scope_decl_snap \<Rightarrow> str" where
  "render_scope_decl s =
     (let terms = join '', '' (map (\<lambda>t. st_column t @ '': '' @ st_ty t @ '' = $ctx.'' @ st_ctx_field t)
                                   (sd_terms s))
      in ''scope '' @ sd_name s @ '' ('' @ terms @ '')'')"

fun render_rename :: "rename_decl \<Rightarrow> str" where
  "render_rename (Rename_Table from to) = ''rename table '' @ from @ '' -> '' @ to"
| "render_rename (Rename_Column table from to) =
     ''rename column '' @ table @ ''.'' @ from @ '' -> '' @ to"

definition index_spec_text :: "index_snap \<Rightarrow> str" where
  "index_spec_text i = (case ix_raw i of
       Some raw \<Rightarrow> ix_name i @ '' '' @ raw
     | None \<Rightarrow> ix_name i @ '' ('' @ join '', '' (ix_columns i) @ '')''
         @ (if ix_unique i then '' unique'' else [])
         @ opt_text '' using '' (ix_method i))"

definition fk_ref_text :: "foreign_key_snap \<Rightarrow> str" where
  "fk_ref_text f = (case f_ref_schema f of
       Some sc \<Rightarrow> sc @ ''::'' @ f_ref_table f
     | None \<Rightarrow> f_ref_table f)"

definition fk_spec_text :: "foreign_key_snap \<Rightarrow> str" where
  "fk_spec_text f = ''fk '' @ col_list_text (f_columns f) @ '' -> '' @ fk_ref_text f @ ''.''
     @ col_list_text (f_ref_columns f)
     @ opt_text '' on_delete='' (f_on_delete f)
     @ opt_text '' on_update='' (f_on_update f)"

definition null_text :: "bool \<Rightarrow> str" where
  "null_text b = (if b then ''null'' else ''not_null'')"

text \<open>The table's header line.\<close>

definition table_attrs :: "table_snap \<Rightarrow> str" where
  "table_attrs t =
     opt_text '' schema='' (t_schema t)
     @ (case t_soft_delete t of None \<Rightarrow> [] | Some (col, mode) \<Rightarrow> '' soft_delete='' @ col @ '':'' @ mode)
     @ opt_text '' created='' (t_created t)
     @ opt_text '' updated='' (t_updated t)
     @ concat (map (\<lambda>alt. '' scope=('' @ join '', '' alt @ '')'') (t_scope_alts t))
     @ (if t_sort t = [] then []
        else '' sort=('' @ join '', '' (map (\<lambda>(c, d). c @ '' '' @ d) (t_sort t)) @ '')'')
     @ (if t_no_id t then '' no_id'' else [])
     @ (if t_pk t = [] then [] else '' pk='' @ col_list_text (t_pk t))"

definition table_header :: "table_snap \<Rightarrow> str" where
  "table_header t = ''table '' @ t_name t @ table_attrs t"

definition column_line :: "column_snap \<Rightarrow> str" where
  "column_line c = ''  column '' @ c_name c @ '' '' @ c_ty c @ '' '' @ null_text (c_nullable c)
     @ opt_text '' default='' (c_default c)
     @ (if c_unique c then '' unique'' else [])
     @ opt_text '' fk='' (c_fk c)
     @ (case c_generated c of None \<Rightarrow> [] | Some g \<Rightarrow> '' generated=('' @ g @ '')'')"

definition render_table :: "table_snap \<Rightarrow> str" where
  "render_table t = table_header t @ nl
     @ concat (map (\<lambda>c. column_line c @ nl) (t_columns t))
     @ concat (map (\<lambda>i. ''  index '' @ index_spec_text i @ nl) (t_indexes t))
     @ concat (map (\<lambda>f. ''  '' @ fk_spec_text f @ nl) (t_foreign_keys t))"

text \<open>The dash of the first line is U+2014, three bytes of UTF-8.\<close>

definition snap_comment :: str where
  "snap_comment = ''# schema.snap '' @ [CHR 0xE2, CHR 0x80, CHR 0x94]
     @ '' generated by `based migrate gen`; do not edit by hand.''"

definition snap_header :: str where
  "snap_header = ''snapshot v1 dialect=neutral''"

definition render_snapshot :: "snapshot \<Rightarrow> str" where
  "render_snapshot s = snap_comment @ nl @ snap_header @ nl
     @ concat (map (\<lambda>d. render_scope_decl d @ nl) (s_scopes s))
     @ concat (map (\<lambda>r. render_rename r @ nl) (s_renames s))
     @ concat (map (\<lambda>t. nl @ render_table t) (s_tables s))"

end
