(* ===== verification/Str_Facts.thy ===== *)
theory Str_Facts
  imports Rust_Str
begin

text \<open>
  Reading back what was written: the string operations on text made of words (printable ASCII
  without spaces) and single separators. The snapshot and script round trips are built from
  these.
\<close>

subsection \<open>Character classes\<close>

definition word_char :: "char \<Rightarrow> bool" where
  "word_char c \<longleftrightarrow> 33 \<le> (of_char c :: nat) \<and> (of_char c :: nat) \<le> 126"

definition text_char :: "char \<Rightarrow> bool" where
  "text_char c \<longleftrightarrow> 32 \<le> (of_char c :: nat) \<and> (of_char c :: nat) \<le> 126"

definition ident_char :: "char \<Rightarrow> bool" where
  "ident_char c \<longleftrightarrow> (let n = (of_char c :: nat) in
     48 \<le> n \<and> n \<le> 57 \<or> 65 \<le> n \<and> n \<le> 90 \<or> n = 95 \<or> 97 \<le> n \<and> n \<le> 122)"

definition word :: "str \<Rightarrow> bool" where
  "word s \<longleftrightarrow> list_all word_char s"

definition ident :: "str \<Rightarrow> bool" where
  "ident s \<longleftrightarrow> s \<noteq> [] \<and> list_all ident_char s"

lemma ident_char_word: "ident_char c \<Longrightarrow> word_char c"
  by (auto simp: ident_char_def word_char_def Let_def)

lemma word_char_text: "word_char c \<Longrightarrow> text_char c"
  by (auto simp: text_char_def word_char_def)

lemma ident_word [simp]: "ident s \<Longrightarrow> word s"
  by (auto simp: ident_def word_def list_all_iff ident_char_word)

lemma ident_nonempty [simp]: "ident s \<Longrightarrow> s \<noteq> []"
  by (simp add: ident_def)

lemma not_ident_Nil [simp]: "\<not> ident []"
  by (simp add: ident_def)

lemma word_simps [simp]:
  "word []" "word (c # s) \<longleftrightarrow> word_char c \<and> word s" "word (a @ b) \<longleftrightarrow> word a \<and> word b"
  by (auto simp: word_def)

lemma ident_notin:
  assumes "ident s" and "\<not> ident_char c" shows "c \<notin> set s"
  using assms by (auto simp: ident_def list_all_iff)

lemma word_notin:
  assumes "word s" and "\<not> word_char c" shows "c \<notin> set s"
  using assms by (auto simp: word_def list_all_iff)

lemma text_notin:
  assumes "list_all text_char s" and "\<not> text_char c" shows "c \<notin> set s"
  using assms by (auto simp: list_all_iff)

lemma word_text: "word s \<Longrightarrow> list_all text_char s"
  by (auto simp: word_def list_all_iff word_char_text)

lemma not_ascii_ws: "word_char c \<Longrightarrow> \<not> ascii_ws c"
  by (auto simp: word_char_def ascii_ws_def)

lemma space_ws [simp]: "ascii_ws (CHR '' '')"
  by (simp add: ascii_ws_def)

lemma word_char_not_ws: "word_char c \<Longrightarrow> \<not> ws2 c d \<and> \<not> ws2 d c \<and> \<not> ws3 c d e \<and> \<not> ws3 d e c"
  by (auto simp: word_char_def ws2_def ws3_def)

lemma ws_len_word [simp]: "word_char c \<Longrightarrow> ws_len (c # s) = 0"
  by (auto simp: ws_len.simps(2) ws_len_rev.simps(2) not_ascii_ws word_char_not_ws split: list.split)

lemma ws_len_rev_word [simp]: "word_char c \<Longrightarrow> ws_len_rev (c # s) = 0"
  by (auto simp: ws_len.simps(2) ws_len_rev.simps(2) not_ascii_ws word_char_not_ws split: list.split)

lemma ws_len_space [simp]: "ws_len (CHR '' '' # s) = 1"
  by (simp add: ws_len.simps(2))

subsection \<open>Trimming\<close>

lemma trim_start_Nil [simp]: "trim_start [] = []"
  by (subst trim_start.simps) simp

lemma trim_start_word [simp]: "word_char c \<Longrightarrow> trim_start (c # s) = c # s"
  by (subst trim_start.simps) simp

lemma trim_start_space [simp]: "trim_start (CHR '' '' # s) = trim_start s"
  by (subst trim_start.simps) (simp add: ws_len.simps(2))

lemma trim_start_hd: "s \<noteq> [] \<Longrightarrow> word_char (hd s) \<Longrightarrow> trim_start s = s"
  by (cases s) auto

lemma trim_start_append_hd: "s \<noteq> [] \<Longrightarrow> word_char (hd s) \<Longrightarrow> trim_start (s @ t) = s @ t"
  by (cases s) auto

lemma trim_start_rev_word: "word_char c \<Longrightarrow> trim_start_rev (c # s) = c # s"
  by (subst trim_start_rev.simps) simp

lemma trim_start_rev_space: "trim_start_rev (CHR '' '' # s) = trim_start_rev s"
  by (subst trim_start_rev.simps) (simp add: ws_len_rev.simps(2))

lemma trim_end_Nil [simp]: "trim_end [] = []"
  by (simp add: trim_end_def trim_start_rev.simps [of "[]"])

lemma trim_end_last: "s \<noteq> [] \<Longrightarrow> word_char (last s) \<Longrightarrow> trim_end s = s"
  by (cases s rule: rev_cases) (auto simp: trim_end_def trim_start_rev_word)

lemma trim_end_space [simp]: "trim_end (s @ '' '') = trim_end s"
  by (simp add: trim_end_def trim_start_rev_space)

lemma trim_Nil [simp]: "trim [] = []"
  by (simp add: trim_def)

lemma trim_solid: "s \<noteq> [] \<Longrightarrow> word_char (hd s) \<Longrightarrow> word_char (last s) \<Longrightarrow> trim s = s"
  by (simp add: trim_def trim_start_hd trim_end_last)

lemma trim_word [simp]: "word s \<Longrightarrow> trim s = s"
  by (cases "s = []") (auto intro!: trim_solid simp: word_def list_all_iff)

lemma trim_space [simp]: "trim (CHR '' '' # s) = trim s"
  by (simp add: trim_def)

lemma trim_space_end: "s \<noteq> [] \<Longrightarrow> word_char (hd s) \<Longrightarrow> trim (s @ '' '') = trim s"
  using trim_end_space [of s] by (simp add: trim_def trim_start_append_hd trim_start_hd)

lemma trim_word_space [simp]: "word s \<Longrightarrow> trim (s @ '' '') = s"
  by (cases s) (auto simp: trim_space_end simp del: append.simps, simp add: trim_def)

text \<open>Trimming keeps a leading word character, whatever follows it.\<close>

lemma trim_first: "word_char c \<Longrightarrow> trim (c # s) = c # tl (trim (c # s)) \<and> trim (c # s) \<noteq> []"
proof -
  assume c: "word_char c"
  have no: "\<not> ascii_ws c" "\<not> ws2 c x" "\<not> ws3 c x y" for x y
    using c by (auto simp: ascii_ws_def ws2_def ws3_def word_char_def)
  have "trim_start_rev (w @ [c]) \<noteq> [] \<and> last (trim_start_rev (w @ [c])) = c" for w
  proof (induction w rule: length_induct)
    case (1 w)
    let ?s = "w @ [c]"
    show ?case
    proof (cases "ws_len_rev ?s = 0")
      case True
      then show ?thesis by (subst (1 2) trim_start_rev.simps) simp
    next
      case False
      have "ws_len_rev ?s \<le> length w"
      proof (cases w)
        case Nil
        then show ?thesis using no by (simp add: ws_len_rev.simps(2))
      next
        case (Cons e w')
        then show ?thesis using no by (cases w'; cases "tl w'") (auto simp: ws_len_rev.simps(2) split: list.split)
      qed
      then have "drop (ws_len_rev ?s) ?s = drop (ws_len_rev ?s) w @ [c]" by simp
      moreover have "length (drop (ws_len_rev ?s) w) < length w"
        using False \<open>ws_len_rev ?s \<le> length w\<close> by simp
      ultimately show ?thesis using 1 False by (subst (1 2) trim_start_rev.simps) simp
    qed
  qed
  from this [of "rev s"] have "trim_end (c # s) \<noteq> [] \<and> hd (trim_end (c # s)) = c"
    by (simp add: trim_end_def hd_rev)
  moreover have "trim (c # s) = trim_end (c # s)" using c by (simp add: trim_def)
  ultimately show ?thesis by (metis list.exhaust_sel)
qed

lemma trim_comment: "trim (CHR ''#'' # s) = CHR ''#'' # tl (trim (CHR ''#'' # s)) \<and> trim (CHR ''#'' # s) \<noteq> []"
  by (rule trim_first) (simp add: word_char_def)

subsection \<open>Prefixes\<close>

lemma strip_prefix_append [simp]: "strip_prefix p (p @ s) = Some s"
  by (induction p) auto

lemma strip_prefix_self [simp]: "strip_prefix p p = Some []"
  using strip_prefix_append [of p "[]"] by simp

lemma strip_prefix_Some_iff: "strip_prefix p s = Some r \<longleftrightarrow> s = p @ r"
  by (induction p s rule: strip_prefix.induct) auto

lemma strip_prefix_None_notin: "x \<in> set p \<Longrightarrow> x \<notin> set s \<Longrightarrow> strip_prefix p s = None"
  by (metis not_None_eq strip_prefix_Some_iff Un_iff set_append)

lemma strip_suffix_append [simp]: "strip_suffix p (s @ p) = Some s"
  by (simp add: strip_suffix_def)

lemma strip_prefix_nth:
  "strip_prefix p s = Some r \<Longrightarrow> i < length p \<Longrightarrow> i < length s \<and> s ! i = p ! i"
  by (auto simp: strip_prefix_Some_iff nth_append)

subsection \<open>Splitting\<close>

lemma split_once_Cons_skip:
  "strip_prefix p (c # s) = None \<Longrightarrow> split_once p (c # s) = prepend [c] (split_once p s)"
  by simp

lemma split_once_hit [simp]: "p \<noteq> [] \<Longrightarrow> split_once p (p @ s) = Some ([], s)"
  using strip_prefix_append [of p s] by (cases "p @ s") auto

lemma split_once_skip:
  assumes "p \<noteq> []" "hd p \<notin> set a"
  shows "split_once p (a @ s) = prepend a (split_once p s)"
  using assms(2)
proof (induction a)
  case (Cons c a)
  then have "strip_prefix p (c # a @ s) = None" using assms(1) by (cases p) auto
  then show ?case using Cons by simp
qed simp

lemma split_once_word_hit:
  "p \<noteq> [] \<Longrightarrow> hd p \<notin> set a \<Longrightarrow> split_once p (a @ p @ s) = Some (a, s)"
  by (simp add: split_once_skip)

lemma split_once_char [simp]: "c \<notin> set a \<Longrightarrow> split_once [c] (a @ c # s) = Some (a, s)"
  using split_once_word_hit [of "[c]" a s] by simp

lemma split_once_notin: "x \<in> set p \<Longrightarrow> x \<notin> set s \<Longrightarrow> split_once p s = None"
  by (induction s) (auto simp: strip_prefix_None_notin)

lemma split_once_eqD: "split_once p s = Some (a, b) \<Longrightarrow> s = a @ p @ b"
proof (induction s arbitrary: a)
  case (Cons c s)
  then show ?case by (auto simp: strip_prefix_Some_iff prepend_eq_Some_iff split: option.splits)
qed (auto split: if_splits)

text \<open>A separator outside the pattern cannot lie inside a match.\<close>

lemma strip_prefix_sep:
  "x \<notin> set p \<Longrightarrow> strip_prefix p a = None \<Longrightarrow> strip_prefix p (a @ x # s) = None"
  by (induction p a rule: strip_prefix.induct) auto

lemma split_once_sep:
  assumes "x \<notin> set p" "p \<noteq> []" "split_once p a = None"
  shows "split_once p (a @ x # s) = prepend (a @ [x]) (split_once p s)"
  using assms(3)
proof (induction a)
  case Nil
  then show ?case using assms(1,2) by (cases p) auto
next
  case (Cons c a)
  then have "strip_prefix p (c # a) = None" "split_once p a = None"
    by (auto split: option.splits)
  then show ?case
    using Cons.IH strip_prefix_sep [OF assms(1), of "c # a" s] by simp
qed

text \<open>A match ends with the pattern's last character: none ends where it does not occur.\<close>

lemma split_once_last_skip:
  assumes "x \<notin> set s" "x \<notin> set r1" "length q \<le> length r1"
  shows "split_once (q @ [x]) (s @ r1 @ r2) = prepend s (split_once (q @ [x]) (r1 @ r2))"
  using assms(1)
proof (induction s)
  case (Cons c s)
  have "strip_prefix (q @ [x]) (c # s @ r1 @ r2) = None"
  proof (rule ccontr)
    assume "strip_prefix (q @ [x]) (c # s @ r1 @ r2) \<noteq> None"
    then obtain r where "strip_prefix (q @ [x]) ((c # s @ r1) @ r2) = Some r" by auto
    then have "((c # s @ r1) @ r2) ! length q = x"
      using strip_prefix_nth [of "q @ [x]" "(c # s @ r1) @ r2" r "length q"] by simp
    moreover have "length q < length (c # s @ r1)" using assms(3) by simp
    ultimately have "x \<in> set (c # s @ r1)" by (metis nth_append nth_mem)
    then show False using Cons.prems assms(2) by simp
  qed
  then show ?case using Cons by simp
qed simp

lemma split_once_last_hit:
  assumes "x \<notin> set s" "x \<notin> set q"
  shows "split_once (q @ [x]) (s @ q @ x # r) = Some (s, r)"
  using split_once_last_skip [OF assms, of q "x # r"] split_once_hit [of "q @ [x]" r] by simp

lemma rsplit_char_hit: "c \<notin> set b \<Longrightarrow> rsplit_char c (a @ c # b) = Some (a, b)"
  by (simp add: rsplit_char_def)

lemma rsplit_char_None: "c \<notin> set a \<Longrightarrow> rsplit_char c a = None"
  by (simp add: rsplit_char_def split_once_notin)

lemma split_once_ws_word [simp]: "word w \<Longrightarrow> split_once_ws (w @ CHR '' '' # s) = Some (w, s)"
  by (induction w) (auto simp del: ws_len.simps)

lemma split_once_ws_None [simp]: "word w \<Longrightarrow> split_once_ws w = None"
  by (induction w) auto

lemma splitn2_ws_word [simp]:
  "word w \<Longrightarrow> splitn2_ws (w @ CHR '' '' # s) = (w, Some s)" "word w \<Longrightarrow> splitn2_ws w = (w, None)"
  by (simp_all add: splitn2_ws_def)

lemma split_whitespace_Nil [simp]: "split_whitespace [] = []"
  by (subst split_whitespace.simps) simp

lemma split_whitespace_space [simp]: "split_whitespace (CHR '' '' # s) = split_whitespace s"
  by (simp add: split_whitespace.simps [of "CHR '' '' # s"] split_whitespace.simps [of s])

lemma split_whitespace_word [simp]:
  assumes "word w" "w \<noteq> []"
  shows "split_whitespace w = [w]" "split_whitespace (w @ CHR '' '' # s) = w # split_whitespace s"
proof -
  have hd: "word_char (hd w)" using assms by (cases w) auto
  show "split_whitespace w = [w]"
    using assms hd by (simp add: split_whitespace.simps [of w] trim_start_hd)
  show "split_whitespace (w @ CHR '' '' # s) = w # split_whitespace s"
    using assms hd
    by (simp add: split_whitespace.simps [of "w @ CHR '' '' # s"] trim_start_append_hd)
qed

lemma split_on_notin [simp]: "c \<notin> set s \<Longrightarrow> split_on c s = [s]"
  by (induction s) auto

lemma split_on_append: "c \<notin> set a \<Longrightarrow> split_on c (a @ c # s) = a # split_on c s"
  by (induction a) auto

lemma split_on_nonempty [simp]: "split_on c s \<noteq> []"
  by (induction s) (auto split: list.split)

lemma split_on_join:
  assumes "xs \<noteq> []" "\<And>x. x \<in> set xs \<Longrightarrow> c \<notin> set x" "c \<noteq> CHR '' ''"
  shows "split_on c (join [c, CHR '' ''] xs) = hd xs # map ((#) (CHR '' '')) (tl xs)"
  using assms(1,2)
proof (induction xs rule: induct_list012)
  case (3 x y zs)
  then have IH: "split_on c (join [c, CHR '' ''] (y # zs)) = y # map ((#) (CHR '' '')) zs" by auto
  have "split_on c (CHR '' '' # join [c, CHR '' ''] (y # zs)) = (CHR '' '' # y) # map ((#) (CHR '' '')) zs"
    using assms(3) IH by simp
  then show ?case using 3 by (simp add: split_on_append)
qed auto

lemma map_trim_split_on_join:
  assumes "\<And>x. x \<in> set xs \<Longrightarrow> trim x = x \<and> CHR '','' \<notin> set x" "xs \<noteq> []"
  shows "map trim (split_on (CHR '','') (join '', '' xs)) = xs"
proof -
  have "map trim (map ((#) (CHR '' '')) (tl xs)) = tl xs"
    using assms(1) by (auto intro!: map_idI simp: list.set_sel(2) [OF assms(2)])
  moreover have "trim (hd xs) = hd xs" using assms by simp
  ultimately show ?thesis
    using assms split_on_join [of xs "CHR '',''"] by simp
qed

lemma set_join: "set (join sep xs) \<subseteq> set sep \<union> (\<Union>x \<in> set xs. set x)"
  by (induction sep xs rule: join.induct) auto

lemma join_notin: "c \<notin> set sep \<Longrightarrow> (\<And>x. x \<in> set xs \<Longrightarrow> c \<notin> set x) \<Longrightarrow> c \<notin> set (join sep xs)"
  using set_join [of sep xs] by auto

lemma join_Cons: "join sep (x # xs) = x @ concat (map (\<lambda>y. sep @ y) xs)"
  by (induction xs arbitrary: x) auto

lemma join_eq_Nil_iff: "(\<And>x. x \<in> set xs \<Longrightarrow> x \<noteq> []) \<Longrightarrow> join sep xs = [] \<longleftrightarrow> xs = []"
  by (cases xs) (auto simp: join_Cons)

text \<open>A text is solid when neither end is whitespace: \<open>trim\<close> keeps it.\<close>

definition solid :: "str \<Rightarrow> bool" where
  "solid s \<longleftrightarrow> s \<noteq> [] \<and> word_char (hd s) \<and> word_char (last s)"

lemma solid_trim [simp]: "solid s \<Longrightarrow> trim s = s"
  by (simp add: solid_def trim_solid)

lemma solid_word: "word s \<Longrightarrow> s \<noteq> [] \<Longrightarrow> solid s"
  by (auto simp: solid_def word_def list_all_iff)

lemma solid_append: "solid a \<Longrightarrow> solid b \<Longrightarrow> solid (a @ s @ b)"
  by (auto simp: solid_def)

lemma solid_join:
  "xs \<noteq> [] \<Longrightarrow> (\<And>x. x \<in> set xs \<Longrightarrow> solid x) \<Longrightarrow> solid (join sep xs)"
proof (induction sep xs rule: join.induct)
  case (3 sep x y ys)
  then show ?case by (auto intro!: solid_append)
qed auto

subsection \<open>Lines\<close>

definition unlines :: "str list \<Rightarrow> str" where
  "unlines ls = concat (map (\<lambda>l. l @ nl) ls)"

lemma unlines_simps [simp]:
  "unlines [] = []" "unlines (l # ls) = l @ CHR 0x0A # unlines ls"
  "unlines (ls @ ms) = unlines ls @ unlines ms"
  by (simp_all add: unlines_def)

definition line_ok :: "str \<Rightarrow> bool" where
  "line_ok l \<longleftrightarrow> CHR 0x0A \<notin> set l \<and> CHR 0x0D \<notin> set l"

lemma strip_cr_ok: "line_ok l \<Longrightarrow> strip_cr l = l"
  by (auto simp: strip_cr_def line_ok_def dest: last_in_set)

lemma split_on_unlines: "list_all line_ok ls \<Longrightarrow> split_on (CHR 0x0A) (unlines ls) = ls @ [[]]"
  by (induction ls) (auto simp: line_ok_def split_on_append)

lemma lines_of_snoc_Nil: "list_all line_ok ls \<Longrightarrow> lines_of (ls @ [[]]) = ls"
  by (induction ls rule: induct_list012) (auto simp: strip_cr_ok)

lemma lines_unlines: "list_all line_ok ls \<Longrightarrow> lines (unlines ls) = ls"
  by (simp add: lines_def split_on_unlines lines_of_snoc_Nil)

lemma split_on_unlines_append:
  "list_all line_ok ls \<Longrightarrow> split_on (CHR 0x0A) (unlines ls @ t) = ls @ split_on (CHR 0x0A) t"
  by (induction ls) (auto simp: line_ok_def split_on_append)

lemma lines_of_append: "list_all line_ok ls \<Longrightarrow> ms \<noteq> [] \<Longrightarrow> lines_of (ls @ ms) = ls @ lines_of ms"
proof (induction ls)
  case (Cons l ls)
  then obtain m ns where m: "ls @ ms = m # ns" by (cases "ls @ ms") auto
  then have "lines_of ((l # ls) @ ms) = strip_cr l # lines_of (ls @ ms)" by simp
  then show ?case using Cons by (simp add: strip_cr_ok)
qed simp

lemma lines_unlines_append: "list_all line_ok ls \<Longrightarrow> lines (unlines ls @ t) = ls @ lines t"
  by (simp add: lines_def split_on_unlines_append lines_of_append)

lemma line_ok_text: "list_all text_char l \<Longrightarrow> line_ok l"
  unfolding line_ok_def by (intro conjI text_notin) (simp_all add: text_char_def)

end
