(* ===== verification/Snap_Text.thy ===== *)
theory Snap_Text
  imports Snap_Parse Snap_Render Str_Facts
begin

text \<open>
  The texts \<open>schema.snap\<close> can carry (\<open>text_ok\<close>): identifiers for names, a default without inner
  quotes, types and expressions that do not spell one of the three markers the parser looks
  for. Then the table header: \<open>parse_table_header\<close> reads back what \<open>table_attrs\<close> writes,
  attribute by attribute.
\<close>

subsection \<open>Texts the format can carry\<close>

definition no_mark :: "str \<Rightarrow> bool" where
  "no_mark s \<longleftrightarrow> split_once (''default='' @ [dq]) s = None \<and> split_once ''raw('' s = None
     \<and> split_once ''generated=('' s = None"

definition scope_term_ok :: "scope_term_snap \<Rightarrow> bool" where
  "scope_term_ok t \<longleftrightarrow> ident (st_column t) \<and> ident (st_ctx_field t)
     \<and> st_ty t \<noteq> [] \<and> word (st_ty t) \<and> CHR '','' \<notin> set (st_ty t) \<and> CHR ''.'' \<notin> set (st_ty t)"

definition scope_ok :: "scope_decl_snap \<Rightarrow> bool" where
  "scope_ok d \<longleftrightarrow> ident (sd_name d) \<and> list_all scope_term_ok (sd_terms d)"

fun rename_ok :: "rename_decl \<Rightarrow> bool" where
  "rename_ok (Rename_Table f t) \<longleftrightarrow> ident f \<and> ident t"
| "rename_ok (Rename_Column tb f t) \<longleftrightarrow> ident tb \<and> ident f \<and> ident t"

fun opt_ok :: "(str \<Rightarrow> bool) \<Rightarrow> str option \<Rightarrow> bool" where
  "opt_ok P None \<longleftrightarrow> True"
| "opt_ok P (Some x) \<longleftrightarrow> P x"

definition path_text :: "str \<Rightarrow> bool" where
  "path_text s \<longleftrightarrow> s \<noteq> [] \<and> word s \<and> CHR '','' \<notin> set s \<and> CHR '')'' \<notin> set s"

definition raw_ok :: "str \<Rightarrow> bool" where
  "raw_ok r \<longleftrightarrow> starts_with ''raw('' r \<and> list_all text_char r"

text \<open>A type is a marker-free word or one balanced \<open>raw(\<dots>)\<close>.\<close>

definition ty_ok :: "str \<Rightarrow> bool" where
  "ty_ok ty \<longleftrightarrow>
     ty \<noteq> [] \<and> word ty \<and> no_mark ty
   \<or> raw_ok ty \<and> balanced_end ty = Some (ty, []) \<and> split_once (''default='' @ [dq]) ty = None"

fun default_ok :: "str option \<Rightarrow> bool" where
  "default_ok None \<longleftrightarrow> True"
| "default_ok (Some d) \<longleftrightarrow>
     (case d of [] \<Rightarrow> True
      | c # r \<Rightarrow> (if c = dq then r \<noteq> [] \<and> last r = dq \<and> dq \<notin> set (butlast r) \<and> list_all text_char r
                 else word d \<and> no_mark (''default='' @ d)))"

fun generated_ok :: "str option \<Rightarrow> bool" where
  "generated_ok None \<longleftrightarrow> True"
| "generated_ok (Some g) \<longleftrightarrow> list_all text_char g
     \<and> balanced_end (''('' @ g @ '')'') = Some (''('' @ g @ '')'', [])
     \<and> split_once (''default='' @ [dq]) (''generated=('' @ g @ '')'') = None
     \<and> split_once ''raw('' (''generated=('' @ g @ '')'') = None"

definition column_ok :: "column_snap \<Rightarrow> bool" where
  "column_ok c \<longleftrightarrow> ident (c_name c) \<and> ty_ok (c_ty c) \<and> default_ok (c_default c)
     \<and> opt_ok ident (c_fk c) \<and> generated_ok (c_generated c)"

definition index_ok :: "index_snap \<Rightarrow> bool" where
  "index_ok i \<longleftrightarrow> ident (ix_name i) \<and>
     (case ix_raw i of
        Some r \<Rightarrow> ix_columns i = [] \<and> \<not> ix_unique i \<and> ix_method i = None \<and> raw_ok r \<and> word_char (last r)
      | None \<Rightarrow> list_all path_text (ix_columns i) \<and> opt_ok ident (ix_method i))"

definition fk_ok :: "foreign_key_snap \<Rightarrow> bool" where
  "fk_ok f \<longleftrightarrow> f_columns f \<noteq> [] \<and> list_all ident (f_columns f) \<and> ident (f_ref_table f)
     \<and> opt_ok ident (f_ref_schema f) \<and> f_ref_columns f \<noteq> [] \<and> list_all ident (f_ref_columns f)
     \<and> opt_ok ident (f_on_delete f) \<and> opt_ok ident (f_on_update f)"

definition header_ok :: "table_snap \<Rightarrow> bool" where
  "header_ok t \<longleftrightarrow> ident (t_name t) \<and> opt_ok ident (t_schema t)
     \<and> (case t_soft_delete t of None \<Rightarrow> True | Some (c, m) \<Rightarrow> ident c \<and> ident m)
     \<and> opt_ok ident (t_created t) \<and> opt_ok ident (t_updated t)
     \<and> list_all (list_all path_text) (t_scope_alts t)
     \<and> list_all (\<lambda>(c, d). path_text c \<and> path_text d) (t_sort t)
     \<and> list_all ident (t_pk t)"

definition table_ok :: "table_snap \<Rightarrow> bool" where
  "table_ok t \<longleftrightarrow> header_ok t \<and> list_all column_ok (t_columns t)
     \<and> list_all index_ok (t_indexes t) \<and> list_all fk_ok (t_foreign_keys t)"

definition text_ok :: "snapshot \<Rightarrow> bool" where
  "text_ok s \<longleftrightarrow> list_all scope_ok (s_scopes s) \<and> list_all rename_ok (s_renames s)
     \<and> list_all table_ok (s_tables s)"

subsection \<open>Words and columns\<close>

lemma ident_no_punct:
  assumes "ident s"
  shows "CHR '','' \<notin> set s" "CHR '')'' \<notin> set s" "CHR ''('' \<notin> set s" "CHR '':'' \<notin> set s"
    "CHR ''.'' \<notin> set s" "CHR ''-'' \<notin> set s" "CHR '' '' \<notin> set s" "CHR ''='' \<notin> set s" "dq \<notin> set s"
    "CHR ''$'' \<notin> set s"
  by (intro ident_notin [OF assms]; simp add: ident_char_def)+

lemma word_no_space: "word s \<Longrightarrow> CHR '' '' \<notin> set s"
  by (rule word_notin) (simp_all add: word_char_def)

lemma ident_path: "ident s \<Longrightarrow> path_text s"
  by (simp add: path_text_def ident_no_punct)

lemma list_ident_path: "list_all ident xs \<Longrightarrow> list_all path_text xs"
  by (auto simp: list_all_iff ident_path)

lemma path_join_notin_close: "list_all path_text xs \<Longrightarrow> CHR '')'' \<notin> set (join '', '' xs)"
  by (rule join_notin) (auto simp: path_text_def list_all_iff)

lemma ident_hd: "ident s \<Longrightarrow> word_char (hd s)"
  by (cases s) (auto dest: ident_word)

lemma word_last: "word s \<Longrightarrow> s \<noteq> [] \<Longrightarrow> word_char (last s)"
  by (simp add: word_def list_all_iff)

lemma punct_word_chars [simp]:
  "word_char (CHR ''('')" "word_char (CHR '')'')" "word_char (CHR '':'')" "word_char (CHR '','')"
  "word_char (CHR ''='')" "word_char (CHR ''-'')" "word_char (CHR ''>'')" "word_char (CHR ''.'')"
  "word_char (CHR ''_'')" "word_char dq" "word_char (CHR ''$'')" "word_char (CHR ''#'')"
  "\<not> word_char (CHR '' '')"
  by (simp_all add: word_char_def)

lemma letters_word_chars [simp]:
  "word_char (CHR ''a'')" "word_char (CHR ''b'')" "word_char (CHR ''c'')" "word_char (CHR ''d'')"
  "word_char (CHR ''e'')" "word_char (CHR ''f'')" "word_char (CHR ''g'')" "word_char (CHR ''h'')"
  "word_char (CHR ''i'')" "word_char (CHR ''k'')" "word_char (CHR ''l'')" "word_char (CHR ''m'')"
  "word_char (CHR ''n'')" "word_char (CHR ''o'')" "word_char (CHR ''p'')" "word_char (CHR ''q'')"
  "word_char (CHR ''r'')" "word_char (CHR ''s'')" "word_char (CHR ''t'')" "word_char (CHR ''u'')"
  "word_char (CHR ''w'')" "word_char (CHR ''x'')"
  by (simp_all add: word_char_def)

lemma parse_col_list_text:
  assumes "xs \<noteq> []" "list_all ident xs"
  shows "parse_col_list (col_list_text xs) = xs"
    and "parse_col_list (col_list_text xs @ '' '') = xs"
    and "parse_col_list (CHR '' '' # col_list_text xs) = xs"
proof -
  have main: "parse_col_list s = xs" if t: "trim s = col_list_text xs" for s
  proof (cases "\<exists>x. xs = [x]")
    case True
    then obtain x where x: "xs = [x]" by auto
    then have "ident x" using assms(2) by simp
    then have "strip_prefix ''('' x = None"
      by (cases x) (auto simp: ident_no_punct dest: ident_no_punct(3))
    then show ?thesis using t x by (simp add: parse_col_list_def col_list_text_def)
  next
    case False
    then have c: "col_list_text xs = ''('' @ join '', '' xs @ '')''"
      by (auto simp: col_list_text_def split: list.split)
    have "map trim (split_on (CHR '','') (join '', '' xs)) = xs"
      using assms by (intro map_trim_split_on_join) (auto simp: list_all_iff ident_no_punct)
    then show ?thesis using t c strip_suffix_append [of "'')''" "join '', '' xs"]
      by (simp add: parse_col_list_def)
  qed
  have shape: "col_list_text xs \<noteq> [] \<and> word_char (hd (col_list_text xs)) \<and> word_char (last (col_list_text xs))"
    using assms by (auto simp: col_list_text_def ident_hd word_last split: list.split)
  then show "parse_col_list (col_list_text xs) = xs"
    and "parse_col_list (CHR '' '' # col_list_text xs) = xs"
    by (auto intro!: main simp: trim_solid)
  have "trim (col_list_text xs @ '' '') = col_list_text xs"
    using shape by (simp add: trim_space_end trim_solid)
  then show "parse_col_list (col_list_text xs @ '' '') = xs" by (rule main)
qed

subsection \<open>Table headers\<close>

definition cont :: "str \<Rightarrow> str" where
  "cont r = (if r = [] then [] else CHR '' '' # r)"

definition cont_ok :: "str \<Rightarrow> bool" where
  "cont_ok r \<longleftrightarrow> r = [] \<or> word_char (hd r)"

lemma trim_start_cont [simp]: "cont_ok r \<Longrightarrow> trim_start (cont r) = r"
  by (cases r) (auto simp: cont_def cont_ok_def)

lemma next_word_cont [simp]: "word w \<Longrightarrow> cont_ok r \<Longrightarrow> next_word (w @ cont r) = (w, r)"
  by (cases r) (auto simp: next_word_def cont_def cont_ok_def)

definition attr_step :: "str \<Rightarrow> (table_snap \<Rightarrow> table_snap) \<Rightarrow> bool" where
  "attr_step a u \<longleftrightarrow> a \<noteq> [] \<and> word_char (hd a) \<and>
     (\<forall>line r t. cont_ok r \<longrightarrow> parse_attr line (a @ cont r) t = Inr (u t, r))"

lemma step_schema: "ident s \<Longrightarrow> attr_step (''schema='' @ s) (t_schema_update (\<lambda>_. Some s))"
  by (auto simp: attr_step_def parse_attr_def starts_with_def)

lemma step_created: "ident s \<Longrightarrow> attr_step (''created='' @ s) (t_created_update (\<lambda>_. Some s))"
  by (auto simp: attr_step_def parse_attr_def starts_with_def)

lemma step_updated: "ident s \<Longrightarrow> attr_step (''updated='' @ s) (t_updated_update (\<lambda>_. Some s))"
  by (auto simp: attr_step_def parse_attr_def starts_with_def)

lemma step_soft_delete:
  assumes "ident c" "ident m"
  shows "attr_step (''soft_delete='' @ c @ '':'' @ m) (t_soft_delete_update (\<lambda>_. Some (c, m)))"
proof -
  have "next_word (c @ CHR '':'' # m @ cont r) = (c @ CHR '':'' # m, r)" if "cont_ok r" for r
    using assms that next_word_cont [of "c @ '':'' @ m" r] by simp
  then show ?thesis
    using assms by (auto simp: attr_step_def parse_attr_def starts_with_def ident_no_punct)
qed

lemma step_no_id: "attr_step ''no_id'' (t_no_id_update (\<lambda>_. True))"
proof -
  have "parse_attr line (''no_id'' @ cont r) t = Inr (t\<lparr>t_no_id := True\<rparr>, r)" if "cont_ok r" for line r t
    using that trim_start_cont [OF that] by (auto simp: parse_attr_def starts_with_def cont_def)
  then show ?thesis by (auto simp: attr_step_def)
qed

lemma take_group_join:
  assumes "\<And>x. x \<in> set xs \<Longrightarrow> solid x \<and> CHR '','' \<notin> set x \<and> CHR '')'' \<notin> set x" "cont_ok r"
  shows "take_group (key @ ''=('' @ join '', '' xs @ '')'' @ cont r) key = Some (xs, r)"
proof -
  have "CHR '')'' \<notin> set (join '', '' xs)" using assms(1) by (intro join_notin) auto
  then have s: "split_once '')'' (join '', '' xs @ CHR '')'' # cont r) = Some (join '', '' xs, cont r)"
    by simp
  have "(if trim (join '', '' xs) = [] then []
         else map trim (split_on (CHR '','') (join '', '' xs))) = xs"
  proof (cases "xs = []")
    case False
    then have "solid (join '', '' xs)" using assms(1) by (intro solid_join) auto
    moreover have "map trim (split_on (CHR '','') (join '', '' xs)) = xs"
      using assms(1) False by (intro map_trim_split_on_join) auto
    ultimately show ?thesis by (auto simp: solid_def)
  qed simp
  then show ?thesis using s assms(2) by (simp add: take_group_def)
qed

lemma path_solid: "path_text x \<Longrightarrow> solid x \<and> CHR '','' \<notin> set x \<and> CHR '')'' \<notin> set x"
  by (auto simp: path_text_def solid_word)

lemma step_scope:
  assumes "list_all path_text alt"
  shows "attr_step (''scope=('' @ join '', '' alt @ '')'') (t_scope_alts_update (\<lambda>as. as @ [alt]))"
proof -
  have "take_group (''scope=('' @ join '', '' alt @ '')'' @ cont r) ''scope'' = Some (alt, r)"
    if "cont_ok r" for r
    using take_group_join [of alt r "''scope''"] assms that by (auto simp: list_all_iff path_solid)
  then show ?thesis
    by (auto simp: attr_step_def parse_attr_def starts_with_def)
qed

lemma parse_sort_term_pair:
  "path_text c \<Longrightarrow> path_text d \<Longrightarrow> parse_sort_term line (c @ '' '' @ d) = Inr (c, d)"
  by (simp add: parse_sort_term_def path_text_def)

lemma step_sort:
  assumes "list_all (\<lambda>(c, d). path_text c \<and> path_text d) srt"
  shows "attr_step (''sort=('' @ join '', '' (map (\<lambda>(c, d). c @ '' '' @ d) srt) @ '')'')
    (t_sort_update (\<lambda>_. srt))"
proof -
  let ?xs = "map (\<lambda>(c, d). c @ '' '' @ d) srt"
  have ok: "solid x \<and> CHR '','' \<notin> set x \<and> CHR '')'' \<notin> set x" if x: "x \<in> set ?xs" for x
  proof -
    from x obtain c d where "x = c @ '' '' @ d" "path_text c" "path_text d"
      using assms by (auto simp: list_all_iff)
    then show ?thesis using path_solid [of c] path_solid [of d] solid_append [of c d "'' ''"] by simp
  qed
  have tg: "take_group (''sort=('' @ join '', '' ?xs @ '')'' @ cont r) ''sort'' = Some (?xs, r)"
    if "cont_ok r" for r
    using take_group_join [of ?xs r "''sort''"] ok that by simp
  have "map_res (parse_sort_term line) ?xs = Inr srt" for line
    using assms parse_sort_term_pair [of _ _ line] by (induction srt) (auto simp: case_prod_beta)
  with tg show ?thesis
    by (auto simp: attr_step_def parse_attr_def starts_with_def take_group_def)
qed

lemma step_pk:
  assumes "list_all ident pk" "pk \<noteq> []"
  shows "attr_step (''pk='' @ col_list_text pk) (t_pk_update (\<lambda>_. pk))"
proof -
  have "split_pk_marker (col_list_text pk @ cont r) = (col_list_text pk, r)" if r: "cont_ok r" for r
  proof (cases "\<exists>x. pk = [x]")
    case True
    then obtain x where x: "pk = [x]" "ident x" using assms by auto
    then have "\<not> starts_with ''('' (x @ cont r)"
      by (cases x) (auto simp: starts_with_def dest: ident_no_punct(3))
    then show ?thesis using x r by (simp add: split_pk_marker_def col_list_text_def)
  next
    case False
    then have c: "col_list_text pk = ''('' @ join '', '' pk @ '')''"
      by (auto simp: col_list_text_def split: list.split)
    have "split_once '')'' (''('' @ join '', '' pk @ '')'' @ cont r) = Some (''('' @ join '', '' pk, cont r)"
      using split_once_char [of "CHR '')''" "''('' @ join '', '' pk" "cont r"]
        path_join_notin_close [OF list_ident_path [OF assms(1)]] by simp
    then show ?thesis using c r by (simp add: split_pk_marker_def starts_with_def)
  qed
  moreover have "parse_col_list (col_list_text pk) = pk" using assms by (intro parse_col_list_text)
  ultimately show ?thesis
    by (auto simp: attr_step_def parse_attr_def starts_with_def)
qed

definition opt_attr :: "(str \<Rightarrow> 'a) \<Rightarrow> str option \<Rightarrow> 'a list" where
  "opt_attr f o' = (case o' of None \<Rightarrow> [] | Some x \<Rightarrow> [f x])"

definition attrs_of :: "table_snap \<Rightarrow> (str \<times> (table_snap \<Rightarrow> table_snap)) list" where
  "attrs_of t =
     opt_attr (\<lambda>s. (''schema='' @ s, t_schema_update (\<lambda>_. Some s))) (t_schema t)
     @ (case t_soft_delete t of None \<Rightarrow> []
        | Some (c, m) \<Rightarrow> [(''soft_delete='' @ c @ '':'' @ m, t_soft_delete_update (\<lambda>_. Some (c, m)))])
     @ opt_attr (\<lambda>s. (''created='' @ s, t_created_update (\<lambda>_. Some s))) (t_created t)
     @ opt_attr (\<lambda>s. (''updated='' @ s, t_updated_update (\<lambda>_. Some s))) (t_updated t)
     @ map (\<lambda>alt. (''scope=('' @ join '', '' alt @ '')'', t_scope_alts_update (\<lambda>as. as @ [alt]))) (t_scope_alts t)
     @ (if t_sort t = [] then []
        else [(''sort=('' @ join '', '' (map (\<lambda>(c, d). c @ '' '' @ d) (t_sort t)) @ '')'',
               t_sort_update (\<lambda>_. t_sort t))])
     @ (if t_no_id t then [(''no_id'', t_no_id_update (\<lambda>_. True))] else [])
     @ (if t_pk t = [] then [] else [(''pk='' @ col_list_text (t_pk t), t_pk_update (\<lambda>_. t_pk t))])"

lemma opt_attr_step:
  assumes "opt_ok P m" "\<And>x. P x \<Longrightarrow> attr_step (fst (f x)) (snd (f x))" "p \<in> set (opt_attr f m)"
  shows "attr_step (fst p) (snd p)"
  using assms by (cases m) (auto simp: opt_attr_def)

lemma attrs_of_cases:
  assumes "p \<in> set (attrs_of t)"
  obtains
    (schema) "p \<in> set (opt_attr (\<lambda>s. (''schema='' @ s, t_schema_update (\<lambda>_. Some s))) (t_schema t))"
  | (soft_delete) c m where "t_soft_delete t = Some (c, m)"
      "p = (''soft_delete='' @ c @ '':'' @ m, t_soft_delete_update (\<lambda>_. Some (c, m)))"
  | (created) "p \<in> set (opt_attr (\<lambda>s. (''created='' @ s, t_created_update (\<lambda>_. Some s))) (t_created t))"
  | (updated) "p \<in> set (opt_attr (\<lambda>s. (''updated='' @ s, t_updated_update (\<lambda>_. Some s))) (t_updated t))"
  | (scope) alt where "alt \<in> set (t_scope_alts t)"
      "p = (''scope=('' @ join '', '' alt @ '')'', t_scope_alts_update (\<lambda>as. as @ [alt]))"
  | (sort) "p = (''sort=('' @ join '', '' (map (\<lambda>(c, d). c @ '' '' @ d) (t_sort t)) @ '')'',
        t_sort_update (\<lambda>_. t_sort t))"
  | (no_id) "p = (''no_id'', t_no_id_update (\<lambda>_. True))"
  | (pk) "t_pk t \<noteq> []" "p = (''pk='' @ col_list_text (t_pk t), t_pk_update (\<lambda>_. t_pk t))"
  using assms unfolding attrs_of_def
  by (auto simp only: set_append Un_iff set_map image_iff list.set empty_iff insert_iff
      split: option.splits if_splits prod.splits)

lemma attrs_of_steps:
  assumes "header_ok t" "p \<in> set (attrs_of t)"
  shows "attr_step (fst p) (snd p)"
proof -
  have h: "opt_ok ident (t_schema t)" "opt_ok ident (t_created t)" "opt_ok ident (t_updated t)"
    using assms(1) by (simp_all add: header_ok_def)
  from assms(2) show ?thesis
  proof (cases rule: attrs_of_cases)
    case schema
    then show ?thesis by (rule opt_attr_step [OF h(1), rotated]) (use step_schema in auto)
  next
    case (soft_delete c m)
    then show ?thesis using assms(1) step_soft_delete [of c m] by (simp add: header_ok_def)
  next
    case created
    then show ?thesis by (rule opt_attr_step [OF h(2), rotated]) (use step_created in auto)
  next
    case updated
    then show ?thesis by (rule opt_attr_step [OF h(3), rotated]) (use step_updated in auto)
  next
    case (scope alt)
    then show ?thesis using assms(1) step_scope [of alt] by (simp add: header_ok_def list_all_iff)
  next
    case sort
    then show ?thesis using assms(1) step_sort [of "t_sort t"] by (simp add: header_ok_def)
  next
    case no_id
    then show ?thesis using step_no_id by simp
  next
    case pk
    then show ?thesis using assms(1) step_pk [of "t_pk t"] by (simp add: header_ok_def)
  qed
qed

lemma table_attrs_texts: "table_attrs t = concat (map (\<lambda>a. '' '' @ a) (map fst (attrs_of t)))"
  by (simp add: table_attrs_def attrs_of_def opt_attr_def opt_text_def comp_def split: option.split)

lemma fold_alts:
  "fold (\<lambda>alt. t_scope_alts_update (\<lambda>as. as @ [alt])) alts t = t\<lparr>t_scope_alts := t_scope_alts t @ alts\<rparr>"
  by (induction alts arbitrary: t) auto

lemma fold_attrs_of:
  "fold snd (attrs_of t) (new_table (t_name t))
     = t\<lparr>t_columns := [], t_indexes := [], t_foreign_keys := []\<rparr>"
  by (cases t) (auto simp: attrs_of_def opt_attr_def new_table_def fold_map comp_def fold_alts
      split: option.split)

lemma join_cont:
  assumes "\<And>x. x \<in> set xs \<Longrightarrow> x \<noteq> []"
  shows "join '' '' (x # xs) = x @ cont (join '' '' xs)"
proof (cases xs)
  case (Cons y ys)
  then have "y \<noteq> []" using assms by simp
  then show ?thesis using Cons by (simp add: cont_def join_Cons)
qed (simp add: cont_def)

lemma cont_join:
  assumes "\<And>x. x \<in> set xs \<Longrightarrow> x \<noteq> []"
  shows "cont (join '' '' xs) = concat (map (\<lambda>a. '' '' @ a) xs)"
proof (cases xs)
  case (Cons y ys)
  then have "y \<noteq> []" using assms by simp
  then show ?thesis using Cons by (simp add: cont_def join_Cons)
qed (simp add: cont_def)

lemma attr_step_ne: "attr_step a u \<Longrightarrow> a \<noteq> []"
  by (simp add: attr_step_def)

lemma parse_attrs_steps:
  assumes "\<And>p. p \<in> set ps \<Longrightarrow> attr_step (fst p) (snd p)"
  shows "parse_attrs line (join '' '' (map fst ps)) t = Inr (fold snd ps t)
    \<and> cont_ok (join '' '' (map fst ps))"
  using assms
proof (induction ps arbitrary: t)
  case Nil
  then show ?case by (simp add: parse_attrs.simps cont_ok_def)
next
  case (Cons p ps)
  obtain a u where p: "p = (a, u)" by (cases p)
  let ?r = "join '' '' (map fst ps)"
  have st: "attr_step a u" using Cons.prems [of p] p by simp
  have ne: "\<And>x. x \<in> set (map fst ps) \<Longrightarrow> x \<noteq> []"
    using Cons.prems attr_step_ne by (metis (no_types, lifting) image_iff list.set_intros(2) list.set_map)
  have ok: "cont_ok ?r" and IH: "parse_attrs line ?r (u t) = Inr (fold snd ps (u t))"
    using Cons.IH [of "u t"] Cons.prems by auto
  have shape: "join '' '' (map fst (p # ps)) = a @ cont ?r" using p by (simp only: list.map fst_conv join_cont [OF ne])
  have "parse_attr line (a @ cont ?r) t = Inr (u t, ?r)" and "a \<noteq> []" and "word_char (hd a)"
    using st ok by (auto simp: attr_step_def)
  moreover have "length ?r < length (a @ cont ?r)" using \<open>a \<noteq> []\<close> by (auto simp: cont_def)
  ultimately show ?case
    using IH p shape by (simp add: parse_attrs.simps [of line "a @ cont ?r"] cont_ok_def)
qed

lemma parse_table_header_text:
  assumes "header_ok t"
  shows "parse_table_header (t_name t @ table_attrs t) line
    = Inr (t\<lparr>t_columns := [], t_indexes := [], t_foreign_keys := []\<rparr>)"
proof -
  let ?r = "join '' '' (map fst (attrs_of t))"
    have "\<And>x. x \<in> set (map fst (attrs_of t)) \<Longrightarrow> x \<noteq> []"
    using attrs_of_steps [OF assms] attr_step_ne by (metis (no_types, lifting) image_iff list.set_map)
  then have "table_attrs t = cont ?r" unfolding table_attrs_texts by (subst cont_join) simp_all
  moreover have "ident (t_name t)" using assms by (simp add: header_ok_def)
  ultimately show ?thesis
    using parse_attrs_steps [OF attrs_of_steps [OF assms], of "attrs_of t" line "new_table (t_name t)"] by (simp add: parse_table_header_def fold_attrs_of)
qed

end
