(* ===== verification/Snap_Roundtrip.thy ===== *)
theory Snap_Roundtrip
  imports Snap_Text
begin

text \<open>
  \<open>Snapshot::parse\<close> inverts \<open>Snapshot::render\<close> on every snapshot whose texts the format can
  carry: first each member line (column, index, foreign key, scope, rename), then the file.
\<close>

subsection \<open>Chunks separated by spaces\<close>

definition sp :: "str list \<Rightarrow> str" where
  "sp cs = concat (map ((#) (CHR '' '')) cs)"

lemma sp_simps [simp]:
  "sp [] = []" "sp (c # cs) = CHR '' '' # c @ sp cs" "sp (cs @ ds) = sp cs @ sp ds"
  by (simp_all add: sp_def)

lemma split_once_sp_None:
  assumes "CHR '' '' \<notin> set p" "p \<noteq> []" "split_once p a = None" "\<And>c. c \<in> set cs \<Longrightarrow> split_once p c = None"
  shows "split_once p (a @ sp cs) = None"
  using assms(3,4)
proof (induction cs arbitrary: a)
  case (Cons c cs)
  then show ?case by (simp add: split_once_sep assms(1,2))
qed simp

lemma split_once_sp_hit:
  assumes "CHR '' '' \<notin> set p" "p \<noteq> []" "split_once p a = None" "\<And>c. c \<in> set cs \<Longrightarrow> split_once p c = None"
  shows "split_once p (a @ sp cs @ CHR '' '' # p @ s) = Some (a @ sp cs @ '' '', s)"
  using assms(3,4)
proof (induction cs arbitrary: a)
  case Nil
  then show ?case by (simp add: split_once_sep assms(1,2))
next
  case (Cons c cs)
  then show ?case by (simp add: split_once_sep assms(1,2))
qed

lemma split_whitespace_sp:
  "(\<And>c. c \<in> set cs \<Longrightarrow> word c) \<Longrightarrow> split_whitespace (sp cs) = filter (\<lambda>c. c \<noteq> []) cs"
proof (induction cs)
  case (Cons c cs)
  then have IH: "split_whitespace (sp cs) = filter (\<lambda>c. c \<noteq> []) cs" and c: "word c" by auto
  show ?case
  proof (cases "c = []")
    case False
    then show ?thesis using IH c by (cases cs) simp_all
  qed (simp add: IH)
qed simp

lemma split_whitespace_word_sp:
  assumes "word a" "a \<noteq> []" "\<And>c. c \<in> set cs \<Longrightarrow> word c"
  shows "split_whitespace (a @ sp cs) = a # filter (\<lambda>c. c \<noteq> []) cs"
  using assms split_whitespace_sp [of cs] by (cases cs) simp_all

subsection \<open>Columns\<close>

lemma balanced_append:
  "balanced d i e s = Some (a, b) \<Longrightarrow> balanced d i e (s @ t) = Some (a, b @ t)"
  by (induction d i e s arbitrary: a b rule: balanced.induct)
    (auto simp: Let_def prepend_eq_Some_iff split: if_splits)

lemma balanced_end_append: "balanced_end s = Some (s, []) \<Longrightarrow> balanced_end (s @ t) = Some (s, t)"
  using balanced_append [of 0 False False s s "[]" t] by (simp add: balanced_end_def)

lemma ident_free [simp]:
  assumes "ident s"
  shows "split_once (''default='' @ [dq]) s = None" "split_once ''raw('' s = None"
    "split_once ''generated=('' s = None"
  using ident_no_punct [OF assms] by (auto intro: split_once_notin)

lemma extract_default_None:
  "split_once (''default='' @ [dq]) s = None \<Longrightarrow> extract_default s = (None, s)"
  by (simp add: extract_default_def)

lemma extract_default_sp:
  assumes "split_once (''default='' @ [dq]) a = None"
    "\<And>c. c \<in> set cs \<Longrightarrow> split_once (''default='' @ [dq]) c = None" "dq \<notin> set q"
  shows "extract_default (a @ sp (cs @ (''default='' @ [dq] @ q @ [dq]) # ds))
    = (Some ([dq] @ q @ [dq]), a @ sp (cs @ [] # ds))"
proof -
  have "split_once (''default='' @ [dq]) (a @ sp cs @ CHR '' '' # (''default='' @ [dq]) @ q @ [dq] @ sp ds)
    = Some (a @ sp cs @ '' '', q @ dq # sp ds)"
    using split_once_sp_hit [where p = "''default='' @ [dq]" and a = a and cs = cs and s = "q @ [dq] @ sp ds"]
      assms(1,2) by simp
  then show ?thesis using assms(3) by (simp add: extract_default_def)
qed

lemma extract_raw_None: "split_once ''raw('' s = None \<Longrightarrow> extract_raw s = (None, s)"
  by (simp add: extract_raw_def find_at_def)

lemma extract_raw_sp:
  assumes "split_once ''raw('' a = None" "starts_with ''raw('' ty" "balanced_end ty = Some (ty, [])"
  shows "extract_raw (a @ sp (ty # ds)) = (Some ty, a @ sp ([] # ds))"
proof -
  obtain x where x: "ty = ''raw('' @ x"
    using assms(2) by (auto simp: starts_with_def strip_prefix_Some_iff)
  have "split_once ''raw('' (a @ sp [] @ CHR '' '' # ''raw('' @ x @ sp ds) = Some (a @ sp [] @ '' '', x @ sp ds)"
    by (rule split_once_sp_hit) (use assms(1) in simp_all)
  moreover have "balanced_end (ty @ sp ds) = Some (ty, sp ds)"
    using balanced_end_append assms(3) by blast
  ultimately show ?thesis using x by (simp add: extract_raw_def find_at_def)
qed

lemma extract_generated_None: "split_once ''generated=('' s = None \<Longrightarrow> extract_generated s = (None, s)"
  by (simp add: extract_generated_def)

lemma extract_generated_sp:
  assumes "split_once ''generated=('' a = None" "\<And>c. c \<in> set cs \<Longrightarrow> split_once ''generated=('' c = None"
    "balanced_end (''('' @ g @ '')'') = Some (''('' @ g @ '')'', [])"
  shows "extract_generated (a @ sp (cs @ [''generated=('' @ g @ '')'']))
    = (Some g, a @ sp (cs @ [[]]))"
proof -
  have "split_once ''generated=('' (a @ sp cs @ CHR '' '' # ''generated=('' @ g @ '')'')
      = Some (a @ sp cs @ '' '', g @ '')'')"
    by (rule split_once_sp_hit) (use assms(1,2) in simp_all)
  then show ?thesis using assms(3) by (simp add: extract_generated_def)
qed

definition default_chunk :: "column_snap \<Rightarrow> str list" where
  "default_chunk c = opt_attr (\<lambda>d. ''default='' @ d) (c_default c)"

definition flag_chunks :: "column_snap \<Rightarrow> str list" where
  "flag_chunks c = (if c_unique c then [''unique''] else []) @ opt_attr (\<lambda>f. ''fk='' @ f) (c_fk c)"

definition generated_chunk :: "column_snap \<Rightarrow> str list" where
  "generated_chunk c = opt_attr (\<lambda>g. ''generated=('' @ g @ '')'') (c_generated c)"

lemma column_line_sp:
  "column_line c = ''  column '' @ c_name c
     @ sp (c_ty c # null_text (c_nullable c) # default_chunk c @ flag_chunks c @ generated_chunk c)"
  by (simp add: column_line_def default_chunk_def flag_chunks_def generated_chunk_def opt_attr_def
      split: option.split)

text \<open>What each extraction leaves of a chunk: an empty one where it cut.\<close>

definition quoted :: "str \<Rightarrow> bool" where
  "quoted d \<longleftrightarrow> d \<noteq> [] \<and> hd d = dq"

definition default_left :: "column_snap \<Rightarrow> str list" where
  "default_left c = (case c_default c of None \<Rightarrow> [] | Some d \<Rightarrow> (if quoted d then [[]] else [''default='' @ d]))"

definition default_taken :: "column_snap \<Rightarrow> str option" where
  "default_taken c = (case c_default c of None \<Rightarrow> None | Some d \<Rightarrow> (if quoted d then Some d else None))"

lemma null_text_free [simp]:
  "split_once (''default='' @ [dq]) (null_text b) = None" "split_once ''raw('' (null_text b) = None"
  "split_once ''generated=('' (null_text b) = None" "word (null_text b)" "null_text b \<noteq> []"
  by (auto simp: null_text_def word_char_def)

lemma flag_chunks_free:
  assumes "opt_ok ident (c_fk c)" "x \<in> set (flag_chunks c)"
  shows "split_once (''default='' @ [dq]) x = None" "split_once ''raw('' x = None"
    "split_once ''generated=('' x = None" "word x" "x \<noteq> []"
proof -
  consider "x = ''unique''" | f where "x = ''fk='' @ f" "ident f"
    using assms by (cases "c_fk c") (auto simp: flag_chunks_def opt_attr_def split: if_splits)
  then show "split_once (''default='' @ [dq]) x = None" "split_once ''raw('' x = None"
    "split_once ''generated=('' x = None" "word x" "x \<noteq> []"
    by (cases; simp add: split_once_notin [of dq] split_once_notin [of "CHR ''(''"] ident_no_punct)+
qed

lemma default_left_free:
  assumes "default_ok (c_default c)" "x \<in> set (default_left c)"
  shows "split_once ''raw('' x = None" "split_once ''generated=('' x = None" "word x"
    "split_once (''default='' @ [dq]) x = None"
proof -
  consider "x = []" | "x = ''default=''" | d where "x = ''default='' @ d" "word d" "no_mark x"
    using assms by (cases "c_default c")
      (auto simp: default_left_def quoted_def split: if_splits list.splits)
  then show "split_once ''raw('' x = None" "split_once ''generated=('' x = None" "word x"
    "split_once (''default='' @ [dq]) x = None"
    by (cases; simp add: no_mark_def)+
qed

lemma extract_default_column:
  assumes "ident n" "\<And>x. x \<in> set cs \<Longrightarrow> split_once (''default='' @ [dq]) x = None"
    "\<And>x. x \<in> set ds \<Longrightarrow> split_once (''default='' @ [dq]) x = None" "default_ok (c_default c)"
  shows "extract_default (n @ sp (cs @ default_chunk c @ ds))
    = (default_taken c, n @ sp (cs @ default_left c @ ds))"
proof (cases "\<exists>d. c_default c = Some d \<and> quoted d")
  case True
  then obtain d where d: "c_default c = Some d" "quoted d" by blast
  then obtain r where r: "d = dq # r" by (cases d) (auto simp: quoted_def)
  then obtain q where q: "d = [dq] @ q @ [dq]" "dq \<notin> set q"
    using assms(4) d by (cases r rule: rev_cases) auto
  show ?thesis
    using extract_default_sp [OF ident_free(1) [OF assms(1)] assms(2) q(2), of cs ds] d q
    by (simp add: default_chunk_def default_left_def default_taken_def opt_attr_def)
next
  case False
  then have same: "default_chunk c = default_left c" "default_taken c = None"
    by (cases "c_default c"; simp add: default_chunk_def default_left_def default_taken_def opt_attr_def)+
  have "split_once (''default='' @ [dq]) (n @ sp (cs @ default_left c @ ds)) = None"
    by (rule split_once_sp_None)
      (use assms default_left_free(4) [OF assms(4)] ident_free(1) [OF assms(1)] in \<open>auto simp del: split_once.simps append.simps\<close>)
  then show ?thesis using same by (simp only: extract_default_None)
qed

definition raw_ty :: "column_snap \<Rightarrow> str option" where
  "raw_ty c = (if starts_with ''raw('' (c_ty c) then Some (c_ty c) else None)"

definition ty_left :: "column_snap \<Rightarrow> str" where
  "ty_left c = (if starts_with ''raw('' (c_ty c) then [] else c_ty c)"

lemma raw_not_no_mark: "starts_with ''raw('' s \<Longrightarrow> \<not> no_mark s"
  by (auto simp: starts_with_def strip_prefix_Some_iff no_mark_def)

lemma ty_cases:
  assumes "ty_ok (c_ty c)"
  obtains "starts_with ''raw('' (c_ty c)" "balanced_end (c_ty c) = Some (c_ty c, [])" "ty_left c = []"
      "raw_ty c = Some (c_ty c)"
  | "ty_left c = c_ty c" "raw_ty c = None" "c_ty c \<noteq> []" "word (c_ty c)" "no_mark (c_ty c)"
  using assms raw_not_no_mark [of "c_ty c"]
  by (cases "starts_with ''raw('' (c_ty c)") (auto simp: ty_ok_def raw_ok_def ty_left_def raw_ty_def)

lemma ty_free: "ty_ok ty \<Longrightarrow> split_once (''default='' @ [dq]) ty = None"
  by (auto simp: ty_ok_def no_mark_def)

lemma extract_raw_column:
  assumes "ident n" "ty_ok (c_ty c)" "\<And>x. x \<in> set ds \<Longrightarrow> split_once ''raw('' x = None"
  shows "extract_raw (n @ sp (c_ty c # ds)) = (raw_ty c, n @ sp (ty_left c # ds))"
  using assms(2)
proof (cases rule: ty_cases)
  case 1
  then show ?thesis using extract_raw_sp [of n "c_ty c" ds] assms(1) by simp
next
  case 2
  have "split_once ''raw('' (n @ sp (c_ty c # ds)) = None"
    by (rule split_once_sp_None) (use 2 assms in \<open>auto simp: no_mark_def\<close>)
  then show ?thesis using 2 by (simp only: extract_raw_None)
qed

definition generated_left :: "column_snap \<Rightarrow> str list" where
  "generated_left c = opt_attr (\<lambda>_. []) (c_generated c)"

lemma extract_generated_column:
  assumes "ident n" "\<And>x. x \<in> set cs \<Longrightarrow> split_once ''generated=('' x = None" "generated_ok (c_generated c)"
  shows "extract_generated (n @ sp (cs @ generated_chunk c)) = (c_generated c, n @ sp (cs @ generated_left c))"
proof (cases "c_generated c")
  case None
  have "split_once ''generated=('' (n @ sp cs) = None"
    by (rule split_once_sp_None) (use assms in auto)
  then show ?thesis
    using None by (simp add: generated_chunk_def generated_left_def opt_attr_def extract_generated_None)
next
  case (Some g)
  then show ?thesis
    using extract_generated_sp [of n cs g] assms
    by (simp add: generated_chunk_def generated_left_def opt_attr_def)
qed

lemma parse_column_attrs_flags:
  assumes "opt_ok ident (c_fk c)" "\<not> c_unique c0" "c_fk c0 = None"
  shows "parse_column_attrs line (flag_chunks c) c0 = Inr (c0\<lparr>c_unique := c_unique c, c_fk := c_fk c\<rparr>)"
  using assms by (cases "c_fk c") (auto simp: flag_chunks_def opt_attr_def)

definition default_toks :: "column_snap \<Rightarrow> str list" where
  "default_toks c = (case c_default c of None \<Rightarrow> [] | Some d \<Rightarrow> (if quoted d then [] else [''default='' @ d]))"

lemma filter_default_left: "filter (\<lambda>x. x \<noteq> []) (default_left c) = default_toks c"
  by (auto simp: default_left_def default_toks_def split: option.split)

lemma parse_column_attrs_default:
  assumes "c_default c0 = default_taken c"
  shows "parse_column_attrs line (default_toks c @ toks) c0 = parse_column_attrs line toks (c0\<lparr>c_default := c_default c\<rparr>)"
  using assms by (cases c0) (auto simp: default_toks_def default_taken_def split: option.split)

lemma split_whitespace_column:
  assumes "column_ok c"
  shows "split_whitespace (c_name c @ sp (ty_left c # null_text (c_nullable c) # default_left c @ flag_chunks c @ generated_left c))
    = c_name c # (if raw_ty c = None then [c_ty c] else []) @ null_text (c_nullable c) # default_toks c @ flag_chunks c"
proof -
  have c: "ident (c_name c)" "ty_ok (c_ty c)" "opt_ok ident (c_fk c)" "default_ok (c_default c)"
    using assms by (simp_all add: column_ok_def)
  have flags: "filter (\<lambda>x. x \<noteq> []) (flag_chunks c) = flag_chunks c"
    using flag_chunks_free(5) [OF c(3)] by (simp add: filter_id_conv)
  have gen: "filter (\<lambda>x. x \<noteq> []) (generated_left c) = []" "\<And>x. x \<in> set (generated_left c) \<Longrightarrow> x = []"
    by (cases "c_generated c"; simp add: generated_left_def opt_attr_def)+
  have ty: "word (ty_left c)" "filter (\<lambda>x. x \<noteq> []) [ty_left c] = (if raw_ty c = None then [c_ty c] else [])"
    using c(2) by (cases rule: ty_cases; simp)+
  let ?cs = "ty_left c # null_text (c_nullable c) # default_left c @ flag_chunks c @ generated_left c"
  have "word x" if "x \<in> set ?cs" for x
    using that ty(1) default_left_free(3) [OF c(4)] flag_chunks_free(4) [OF c(3)] by (auto dest!: gen(2))
  then have "split_whitespace (c_name c @ sp ?cs) = c_name c # filter (\<lambda>x. x \<noteq> []) ?cs"
    using c(1) by (intro split_whitespace_word_sp) auto
  moreover have "filter (\<lambda>x. x \<noteq> []) ?cs
      = filter (\<lambda>x. x \<noteq> []) [ty_left c] @ null_text (c_nullable c) # default_toks c @ flag_chunks c"
    by (simp add: filter_default_left flags gen(1))
  ultimately show ?thesis using ty(2) by (simp only: append.simps)
qed

lemma extract_spaced_column:
  assumes "column_ok c"
  shows "extract_spaced_attrs (c_name c
      @ sp (c_ty c # null_text (c_nullable c) # default_chunk c @ flag_chunks c @ generated_chunk c))
    = (default_taken c, raw_ty c, c_generated c,
       c_name c @ sp (ty_left c # null_text (c_nullable c) # default_left c @ flag_chunks c @ generated_left c))"
proof -
  have c: "ident (c_name c)" "ty_ok (c_ty c)" "opt_ok ident (c_fk c)" "default_ok (c_default c)"
      "generated_ok (c_generated c)"
    using assms by (simp_all add: column_ok_def)
  let ?n = "null_text (c_nullable c)"
  note free = flag_chunks_free [OF c(3)] default_left_free [OF c(4)]
  have gen: "split_once (''default='' @ [dq]) x = None \<and> split_once ''raw('' x = None"
    if "x \<in> set (generated_chunk c)" for x
    using that c(5) by (cases "c_generated c") (simp_all add: generated_chunk_def opt_attr_def)
  have "extract_default (c_name c @ sp ([c_ty c, ?n] @ default_chunk c @ flag_chunks c @ generated_chunk c))
     = (default_taken c, c_name c @ sp ([c_ty c, ?n] @ default_left c @ flag_chunks c @ generated_chunk c))"
    by (rule extract_default_column [OF c(1) _ _ c(4)])
      (use free gen ty_free [OF c(2)] in \<open>auto simp del: split_once.simps append.simps\<close>)
  moreover have "extract_raw (c_name c @ sp (c_ty c # ?n # default_left c @ flag_chunks c @ generated_chunk c))
     = (raw_ty c, c_name c @ sp (ty_left c # ?n # default_left c @ flag_chunks c @ generated_chunk c))"
    by (rule extract_raw_column [OF c(1,2)]) (use free gen in auto)
  moreover have "extract_generated
      (c_name c @ sp ((ty_left c # ?n # default_left c @ flag_chunks c) @ generated_chunk c))
     = (c_generated c, c_name c @ sp ((ty_left c # ?n # default_left c @ flag_chunks c) @ generated_left c))"
  proof (rule extract_generated_column [OF c(1) _ c(5)])
    have "split_once ''generated=('' (ty_left c) = None"
      using c(2) by (cases rule: ty_cases) (simp_all add: no_mark_def)
    then show "split_once ''generated=('' x = None"
      if "x \<in> set (ty_left c # ?n # default_left c @ flag_chunks c)" for x
      using that free by auto
  qed
  ultimately show ?thesis by (simp add: extract_spaced_attrs_def)
qed

lemma parse_column_text:
  assumes "column_ok c"
  shows "parse_column (c_name c
      @ sp (c_ty c # null_text (c_nullable c) # default_chunk c @ flag_chunks c @ generated_chunk c)) line
    = Inr c"
proof -
  have fk: "opt_ok ident (c_fk c)" and ty: "ty_ok (c_ty c)" using assms by (simp_all add: column_ok_def)
  let ?c0 = "\<lparr>c_name = c_name c, c_ty = c_ty c, c_nullable = c_nullable c, c_default = default_taken c,
    c_unique = False, c_fk = None, c_generated = c_generated c\<rparr>"
  have attrs: "parse_column_attrs line (default_toks c @ flag_chunks c) ?c0 = Inr c"
    using parse_column_attrs_default [of ?c0 c line "flag_chunks c"]
      parse_column_attrs_flags [OF fk, of "?c0\<lparr>c_default := c_default c\<rparr>" line] by simp
  have null: "(if null_text b = ''null'' then Inr True
      else if null_text b = ''not_null'' then Inr False
      else Inl (Parse_Error line (''expected null|not_null, got '' @ null_text b))) = Inr b" for b
    by (simp add: null_text_def)
  show ?thesis using ty
  proof (cases rule: ty_cases)
    case 1
    then show ?thesis using attrs null [of "c_nullable c"] split_whitespace_column [OF assms]
      by (simp add: parse_column_def extract_spaced_column [OF assms] next_tok_def
          del: sp_simps and_then_Inr_iff)
  next
    case 2
    then show ?thesis using attrs null [of "c_nullable c"] split_whitespace_column [OF assms]
      by (simp add: parse_column_def extract_spaced_column [OF assms] next_tok_def
          del: sp_simps and_then_Inr_iff)
  qed
qed

subsection \<open>Indexes\<close>

lemma solid_Cons: "word_char c \<Longrightarrow> s \<noteq> [] \<Longrightarrow> word_char (last s) \<Longrightarrow> solid (c # s)"
  by (simp add: solid_def)

lemma solid_ident [simp]: "ident s \<Longrightarrow> solid s"
  by (simp add: solid_word)

lemma word_char_last_solid: "solid s \<Longrightarrow> word_char (last s)"
  by (simp add: solid_def)

definition index_tail :: "index_snap \<Rightarrow> str" where
  "index_tail i = (if ix_unique i then '' unique'' else []) @ opt_text '' using '' (ix_method i)"

lemma index_tail_cases:
  assumes "opt_ok ident (ix_method i)"
  obtains "index_tail i = []" "\<not> ix_unique i" "ix_method i = None"
  | "index_tail i = '' unique''" "ix_unique i" "ix_method i = None"
  | m where "index_tail i = '' using '' @ m" "\<not> ix_unique i" "ix_method i = Some m" "ident m"
  | m where "index_tail i = '' unique using '' @ m" "ix_unique i" "ix_method i = Some m" "ident m"
  using assms by (cases "ix_method i"; cases "ix_unique i") (auto simp: index_tail_def)

lemma parse_index_tail:
  assumes "opt_ok ident (ix_method i)"
  shows "parse_index_flags (split_whitespace (trim (index_tail i))) (False, None) = (ix_unique i, ix_method i)"
  using assms
proof (cases rule: index_tail_cases)
  case 2
  have "trim ''unique'' = ''unique''" by (rule solid_trim) (simp add: solid_def)
  then show ?thesis using 2 split_whitespace_word [of "''unique''"] by simp
next
  case (3 m)
  have "trim (''using '' @ m) = ''using '' @ m"
    by (rule solid_trim) (use 3 word_last [of m] in \<open>simp add: solid_def\<close>)
  then show ?thesis
    using 3 split_whitespace_word(2) [of "''using''" m] by simp
next
  case (4 m)
  have "trim (''unique using '' @ m) = ''unique using '' @ m"
    by (rule solid_trim) (use 4 word_last [of m] in \<open>simp add: solid_def\<close>)
  then show ?thesis
    using 4 split_whitespace_word(2) [of "''using''" m]
      split_whitespace_word(2) [of "''unique''" "''using '' @ m"] by simp
qed simp

lemma index_tail_last:
  assumes "opt_ok ident (ix_method i)"
  shows "word_char (last (CHR '')'' # index_tail i))"
  using assms by (cases rule: index_tail_cases) (auto simp: word_last)

lemma raw_index_plain:
  assumes "ident n" "word_char (last s)" "s \<noteq> []"
  shows "raw_index (n @ '' ('' @ s) = None"
proof -
  have "trim (n @ '' ('' @ s) = n @ '' ('' @ s" and "trim (CHR ''('' # s) = CHR ''('' # s"
    using assms by (auto intro!: solid_trim simp: solid_def ident_hd)
  then show ?thesis using assms by (simp add: raw_index_def starts_with_def)
qed

lemma parse_index_text:
  assumes "index_ok i"
  shows "parse_index (index_spec_text i) line = Inr i"
proof (cases "ix_raw i")
  case (Some r)
  then have r: "raw_ok r" "word_char (last r)" "ident (ix_name i)" and rest: "ix_columns i = []" "\<not> ix_unique i" "ix_method i = None"
    using assms by (simp_all add: index_ok_def)
  obtain x where x: "r = ''raw('' @ x"
    using r(1) by (auto simp: raw_ok_def starts_with_def strip_prefix_Some_iff)
  have "trim r = r" using x r(2) by (intro solid_trim) (simp add: solid_def)
  moreover have "trim (ix_name i @ '' '' @ r) = ix_name i @ '' '' @ r"
    using x r by (intro solid_trim) (simp add: solid_def ident_hd)
  moreover have "starts_with ''raw('' r" using r(1) by (simp add: raw_ok_def)
  ultimately show ?thesis
    using Some r(3) rest by (simp add: parse_index_def raw_index_def index_spec_text_def)
next
  case None
  then have i: "ident (ix_name i)" "list_all path_text (ix_columns i)" "opt_ok ident (ix_method i)"
    using assms by (simp_all add: index_ok_def)
  let ?cols = "join '', '' (ix_columns i)"
  have spec: "index_spec_text i = ix_name i @ '' ('' @ (?cols @ '')'' @ index_tail i)"
    using None by (simp add: index_spec_text_def index_tail_def)
  have "raw_index (index_spec_text i) = None"
    unfolding spec using i index_tail_last [OF i(3)] by (intro raw_index_plain) auto
  moreover have "split_once ''('' (index_spec_text i) = Some (ix_name i @ '' '', ?cols @ '')'' @ index_tail i)"
    unfolding spec using split_once_char [of "CHR ''(''" "ix_name i @ '' ''"] i(1) by (simp add: ident_no_punct)
  moreover have "split_once '')'' (?cols @ '')'' @ index_tail i) = Some (?cols, index_tail i)"
    using path_join_notin_close [OF i(2)] by simp
  moreover have "(if trim ?cols = [] then [] else map trim (split_on (CHR '','') ?cols)) = ix_columns i"
  proof (cases "ix_columns i = []")
    case False
    have "solid ?cols" using False i(2) by (intro solid_join) (auto simp: list_all_iff path_solid)
    moreover have "map trim (split_on (CHR '','') ?cols) = ix_columns i"
      using False i(2) by (intro map_trim_split_on_join) (auto simp: list_all_iff path_text_def)
    ultimately show ?thesis by (auto simp: solid_def)
  qed simp
  ultimately show ?thesis
    using None i parse_index_tail [OF i(3)] by (simp add: parse_index_def Let_def)
qed

subsection \<open>Foreign keys\<close>

definition ref_text :: "foreign_key_snap \<Rightarrow> str" where
  "ref_text f = fk_ref_text f @ ''.'' @ col_list_text (f_ref_columns f)"

definition act_text :: "foreign_key_snap \<Rightarrow> str" where
  "act_text f = opt_text '' on_delete='' (f_on_delete f) @ opt_text '' on_update='' (f_on_update f)"

lemma col_list_text_solid:
  assumes "xs \<noteq> []" "list_all ident xs"
  shows "solid (col_list_text xs)"
  using assms by (auto simp: col_list_text_def solid_def ident_hd word_last split: list.split)

lemma col_list_text_notin:
  assumes "list_all ident xs" "\<not> ident_char c" "c \<notin> set ''(), ''"
  shows "c \<notin> set (col_list_text xs)"
proof -
  have "c \<notin> set x" if "x \<in> set xs" for x
    using that assms(1,2) by (auto simp: list_all_iff dest: ident_notin)
  moreover from this have "c \<notin> set (join '', '' xs)" using assms(3) by (intro join_notin) auto
  ultimately show ?thesis using assms(3) by (auto simp: col_list_text_def split: list.split)
qed

lemma fk_ref_notin:
  assumes "fk_ok f" "\<not> ident_char c" "c \<noteq> CHR '':''"
  shows "c \<notin> set (fk_ref_text f)"
  using assms by (cases "f_ref_schema f") (auto simp: fk_ok_def fk_ref_text_def dest: ident_notin)

lemma ref_text_notin_eq: "fk_ok f \<Longrightarrow> CHR ''='' \<notin> set (ref_text f)"
  using fk_ref_notin [of f "CHR ''=''"] col_list_text_notin [of "f_ref_columns f" "CHR ''=''"]
  by (simp add: ref_text_def ident_char_def fk_ok_def)

lemma fk_ref_solid: "fk_ok f \<Longrightarrow> solid (fk_ref_text f)"
  by (cases "f_ref_schema f") (auto simp: fk_ok_def fk_ref_text_def solid_def ident_hd word_last)

lemma ref_text_solid: "fk_ok f \<Longrightarrow> solid (ref_text f)"
  using fk_ref_solid [of f] col_list_text_solid [of "f_ref_columns f"]
    solid_append [of "fk_ref_text f" "col_list_text (f_ref_columns f)" "''.''"]
  by (simp add: ref_text_def fk_ok_def)

lemma act_text_solid: "fk_ok f \<Longrightarrow> solid (ref_text f @ act_text f)"
  using ref_text_solid [of f]
  by (cases "f_on_delete f"; cases "f_on_update f") (auto simp: act_text_def fk_ok_def solid_def word_last)

lemma fk_attrs_at_text:
  assumes "fk_ok f"
  shows "fk_attrs_at (ref_text f @ act_text f) = (ref_text f, act_text f)"
proof (cases "f_on_delete f")
  case (Some a)
  have "split_once ('' on_delete'' @ ''='') (ref_text f @ '' on_delete'' @ CHR ''='' # (a @ opt_text '' on_update='' (f_on_update f)))
      = Some (ref_text f, a @ opt_text '' on_update='' (f_on_update f))"
    using ref_text_notin_eq [OF assms] by (intro split_once_last_hit) simp_all
  then show ?thesis using Some by (simp add: fk_attrs_at_def find_at_def act_text_def)
next
  case None
  show ?thesis
  proof (cases "f_on_update f")
    case (Some b)
    then have b: "CHR ''='' \<notin> set b" using assms by (simp add: fk_ok_def ident_no_punct)
    have "split_once ('' on_delete'' @ ''='') (ref_text f @ '' on_update'' @ CHR ''='' # b)
      = prepend (ref_text f) (split_once ('' on_delete'' @ ''='') ('' on_update'' @ CHR ''='' # b))"
      using ref_text_notin_eq [OF assms] by (intro split_once_last_skip) simp_all
    then have 1: "split_once '' on_delete='' (ref_text f @ '' on_update='' @ b) = None"
      using b by (simp add: split_once_notin [of "CHR ''=''"])
    have "split_once ('' on_update'' @ ''='') (ref_text f @ '' on_update'' @ CHR ''='' # b) = Some (ref_text f, b)"
      using ref_text_notin_eq [OF assms] by (intro split_once_last_hit) simp_all
    then show ?thesis using None Some 1 by (simp add: fk_attrs_at_def find_at_def act_text_def)
  next
    case no: None
    then show ?thesis using None ref_text_notin_eq [OF assms]
      by (simp add: fk_attrs_at_def find_at_def act_text_def split_once_notin [of "CHR ''=''"])
  qed
qed

definition act_chunks :: "foreign_key_snap \<Rightarrow> str list" where
  "act_chunks f = opt_attr (\<lambda>a. ''on_delete='' @ a) (f_on_delete f)
     @ opt_attr (\<lambda>a. ''on_update='' @ a) (f_on_update f)"

lemma act_text_sp: "act_text f = sp (act_chunks f)"
  by (simp add: act_text_def act_chunks_def opt_attr_def split: option.split)

lemma act_chunks_word: "fk_ok f \<Longrightarrow> x \<in> set (act_chunks f) \<Longrightarrow> word x \<and> x \<noteq> []"
  by (cases "f_on_delete f"; cases "f_on_update f") (auto simp: fk_ok_def act_chunks_def opt_attr_def)

lemma parse_fk_attrs_text:
  assumes "fk_ok f"
  shows "parse_fk_attrs e (split_whitespace (act_text f)) (None, None) = Inr (f_on_delete f, f_on_update f)"
proof -
  have "split_whitespace (act_text f) = filter (\<lambda>c. c \<noteq> []) (act_chunks f)"
    unfolding act_text_sp using act_chunks_word [OF assms] by (intro split_whitespace_sp) auto
  also have "\<dots> = act_chunks f" using act_chunks_word [OF assms] by (simp add: filter_id_conv)
  finally show ?thesis
    by (cases "f_on_delete f"; cases "f_on_update f") (simp_all add: act_chunks_def opt_attr_def)
qed

lemma parse_ref_table:
  assumes "fk_ok f"
  shows "(case split_once ''::'' (fk_ref_text f) of
      Some (sc, tbl) \<Rightarrow> (Some (trim sc), trim tbl) | None \<Rightarrow> (None, trim (fk_ref_text f)))
    = (f_ref_schema f, f_ref_table f)"
proof (cases "f_ref_schema f")
  case None
  then have "split_once ''::'' (fk_ref_text f) = None"
    using assms by (intro split_once_notin [of "CHR '':''"]) (simp_all add: fk_ref_text_def fk_ok_def ident_no_punct)
  then show ?thesis using None assms by (simp add: fk_ref_text_def fk_ok_def)
next
  case (Some sc)
  then have "split_once ''::'' (fk_ref_text f) = Some (sc, f_ref_table f)"
    using assms split_once_word_hit [of "''::''" sc "f_ref_table f"]
    by (simp add: fk_ref_text_def fk_ok_def ident_no_punct)
  then show ?thesis using Some assms by (simp add: fk_ok_def)
qed

lemma parse_fk_text:
  assumes "fk_ok f"
  shows "parse_fk (col_list_text (f_columns f) @ '' -> '' @ ref_text f @ act_text f) line = Inr f"
proof -
  let ?cols = "col_list_text (f_columns f)"
  have f: "f_columns f \<noteq> []" "list_all ident (f_columns f)" "f_ref_columns f \<noteq> []" "list_all ident (f_ref_columns f)"
    using assms by (simp_all add: fk_ok_def)
  have "CHR ''-'' \<notin> set ?cols" using f by (intro col_list_text_notin) (simp_all add: ident_char_def)
  then have "split_once ''->'' (?cols @ '' -> '' @ ref_text f @ act_text f)
      = Some (?cols @ '' '', CHR '' '' # ref_text f @ act_text f)"
    using split_once_word_hit [of "''->''" "?cols @ '' ''" "CHR '' '' # ref_text f @ act_text f"] by simp
  moreover have "trim (CHR '' '' # ref_text f @ act_text f) = ref_text f @ act_text f"
    using act_text_solid [OF assms] by simp
  moreover have "split_once ''.'' (trim (ref_text f)) = Some (fk_ref_text f, col_list_text (f_ref_columns f))"
    using ref_text_solid [OF assms] fk_ref_notin [OF assms, of "CHR ''.''"]
    by (simp add: ident_char_def) (simp add: ref_text_def)
  moreover have "trim (fk_ref_text f) = fk_ref_text f" using fk_ref_solid [OF assms] by simp
  ultimately show ?thesis
    using fk_attrs_at_text [OF assms] parse_ref_table [OF assms] parse_fk_attrs_text [OF assms] f
    by (simp add: parse_fk_def parse_col_list_text Let_def)
qed

subsection \<open>Scopes and renames\<close>

definition scope_term_text :: "scope_term_snap \<Rightarrow> str" where
  "scope_term_text t = st_column t @ '': '' @ st_ty t @ '' = $ctx.'' @ st_ctx_field t"

lemma parse_scope_term_text:
  assumes "scope_term_ok t" "w = [] \<or> w = '' ''"
  shows "parse_scope_term line (w @ scope_term_text t) = Inr t"
proof -
  have t: "ident (st_column t)" "ident (st_ctx_field t)" "st_ty t \<noteq> []" "word (st_ty t)" "CHR ''.'' \<notin> set (st_ty t)"
    using assms(1) by (simp_all add: scope_term_ok_def)
  have col: "CHR ''.'' \<notin> set (w @ st_column t @ '': '' @ st_ty t)"
    using t assms(2) by (auto dest: ident_no_punct)
  have "split_once ('' = $ctx'' @ ''.'') ((w @ st_column t @ '': '' @ st_ty t) @ '' = $ctx'' @ CHR ''.'' # st_ctx_field t)
      = Some (w @ st_column t @ '': '' @ st_ty t, st_ctx_field t)"
    by (rule split_once_last_hit [OF col]) simp
  moreover have "CHR '':'' \<notin> set (w @ st_column t)"
    using t assms(2) by (auto dest: ident_no_punct)
  then have "split_once '':'' ((w @ st_column t) @ CHR '':'' # '' '' @ st_ty t) = Some (w @ st_column t, '' '' @ st_ty t)"
    by (rule split_once_char)
  moreover have "trim (w @ st_column t) = st_column t" using t assms(2) by auto
  ultimately show ?thesis
    using t by (simp add: parse_scope_term_def scope_term_text_def)
qed

lemma scope_term_text_ok:
  assumes "scope_term_ok t"
  shows "CHR '','' \<notin> set (scope_term_text t)" "solid (scope_term_text t)"
  using assms ident_no_punct [of "st_column t"] ident_no_punct [of "st_ctx_field t"]
  by (auto simp: scope_term_ok_def scope_term_text_def solid_def ident_hd word_last)

lemma map_res_scope_terms:
  assumes "list_all scope_term_ok ts" "ts \<noteq> []"
  shows "map_res (parse_scope_term line) (split_on (CHR '','') (join '', '' (map scope_term_text ts))) = Inr ts"
proof -
  obtain a as where ts: "ts = a # as" using assms(2) by (cases ts) auto
  have "split_on (CHR '','') (join '', '' (map scope_term_text ts))
      = scope_term_text a # map ((#) (CHR '' '')) (map scope_term_text as)"
  proof -
    have "CHR '','' \<notin> set x" if "x \<in> set (map scope_term_text ts)" for x
      using that assms(1) scope_term_text_ok by (auto simp: list_all_iff)
    then show ?thesis
      using split_on_join [of "map scope_term_text ts" "CHR '',''"] ts by (simp del: join.simps map_map)
  qed
  moreover have "map_res (parse_scope_term line) (map ((#) (CHR '' '')) (map scope_term_text as)) = Inr as"
    using assms(1) ts parse_scope_term_text [where w = "'' ''" and line = line]
      map_res_all_Inr [of as "\<lambda>t. parse_scope_term line (CHR '' '' # scope_term_text t)" id]
    by (simp add: map_res_map comp_def list_all_iff)
  ultimately show ?thesis
    using assms(1) ts parse_scope_term_text [of a "[]" line] by simp
qed

lemma parse_scope_decl_text:
  assumes "scope_ok d"
  shows "parse_scope_decl (sd_name d @ '' ('' @ join '', '' (map scope_term_text (sd_terms d)) @ '')'') line = Inr d"
proof -
  let ?terms = "join '', '' (map scope_term_text (sd_terms d))"
  have d: "ident (sd_name d)" "list_all scope_term_ok (sd_terms d)" using assms by (simp_all add: scope_ok_def)
  have 1: "split_once ''('' (sd_name d @ '' ('' @ ?terms @ '')'') = Some (sd_name d @ '' '', ?terms @ '')'')"
    using split_once_char [of "CHR ''(''" "sd_name d @ '' ''" "?terms @ '')''"] d by (simp add: ident_no_punct)
  have 2: "rsplit_char (CHR '')'') (sd_name d @ '' ('' @ ?terms @ '')'') = Some (sd_name d @ '' ('' @ ?terms, [])"
    using rsplit_char_hit [of "CHR '')''" "[]" "sd_name d @ '' ('' @ ?terms"] by simp
  have 3: "rsplit_char (CHR '')'') (?terms @ '')'') = Some (?terms, [])"
    using rsplit_char_hit [of "CHR '')''" "[]" ?terms] by simp
  have 4: "solid ?terms" if "sd_terms d \<noteq> []"
    using that d(2) by (intro solid_join) (auto simp: list_all_iff scope_term_text_ok)
  show ?thesis
  proof (cases "sd_terms d = []")
    case True
    then show ?thesis using 1 2 3 d by (cases d) (simp add: parse_scope_decl_def Let_def)
  next
    case False
    then have "?terms \<noteq> []" using 4 by (auto simp: solid_def)
    then show ?thesis using 1 2 3 4 False d map_res_scope_terms [OF d(2) False, of line]
      by (cases d) (simp add: parse_scope_decl_def Let_def del: join.simps)
  qed
qed

fun rename_spec :: "rename_decl \<Rightarrow> str" where
  "rename_spec (Rename_Table f t) = ''table '' @ f @ '' -> '' @ t"
| "rename_spec (Rename_Column tb f t) = ''column '' @ tb @ ''.'' @ f @ '' -> '' @ t"

lemma parse_rename_text:
  assumes "rename_ok r"
  shows "parse_rename (rename_spec r) line = Inr r"
proof (cases r)
  case (Rename_Table f t)
  then have "split_once ''->'' (f @ '' -> '' @ t) = Some (f @ '' '', CHR '' '' # t)"
    using assms split_once_word_hit [of "''->''" "f @ '' ''" "CHR '' '' # t"] by (simp add: ident_no_punct)
  then show ?thesis using Rename_Table assms by (simp add: parse_rename_def)
next
  case (Rename_Column tb f t)
  then have i: "ident tb" "ident f" "ident t" using assms by simp_all
  have "split_once ''->'' (tb @ ''.'' @ f @ '' -> '' @ t) = Some (tb @ ''.'' @ f @ '' '', CHR '' '' # t)"
    using i split_once_word_hit [of "''->''" "tb @ ''.'' @ f @ '' ''" "CHR '' '' # t"] by (simp add: ident_no_punct)
  moreover have "trim (tb @ ''.'' @ f @ '' '') = tb @ ''.'' @ f"
    using i trim_word_space [of "tb @ ''.'' @ f"] by simp
  moreover have "split_once ''.'' (tb @ ''.'' @ f) = Some (tb, f)"
    using i by (simp add: ident_no_punct)
  ultimately show ?thesis using Rename_Column i by (simp add: parse_rename_def)
qed

subsection \<open>The lines of the file\<close>

lemma parse_line_scope:
  assumes "scope_ok d"
  shows "parse_line n (render_scope_decl d) s = Inr (s\<lparr>s_scopes := s_scopes s @ [d]\<rparr>)"
proof -
  have t: "render_scope_decl d = ''scope '' @ sd_name d @ '' ('' @ join '', '' (map scope_term_text (sd_terms d)) @ '')''"
    by (simp add: render_scope_decl_def Let_def scope_term_text_def [abs_def])
  have "trim (render_scope_decl d) = render_scope_decl d"
    unfolding t by (rule solid_trim) (simp add: solid_def)
  then show ?thesis using parse_scope_decl_text [OF assms, of n]
    by (simp add: parse_line_def t starts_with_def)
qed

lemma parse_line_rename:
  assumes "rename_ok r"
  shows "parse_line n (render_rename r) s = Inr (s\<lparr>s_renames := s_renames s @ [r]\<rparr>)"
proof -
  have t: "render_rename r = ''rename '' @ rename_spec r" by (cases r) simp_all
  have "trim (render_rename r) = render_rename r"
    using assms by (cases r) (auto intro!: solid_trim simp: solid_def word_last)
  then show ?thesis using parse_rename_text [OF assms, of n]
    by (simp add: parse_line_def t starts_with_def)
qed

lemma attrs_of_last:
  assumes "header_ok t" "a \<in> fst ` set (attrs_of t)"
  shows "a \<noteq> [] \<and> word_char (last a)"
proof -
  obtain p where p: "p \<in> set (attrs_of t)" "a = fst p" using assms(2) by blast
  have s: "opt_ok ident (t_schema t)" "opt_ok ident (t_created t)" "opt_ok ident (t_updated t)"
    and sd: "case t_soft_delete t of None \<Rightarrow> True | Some (c, m) \<Rightarrow> ident c \<and> ident m"
    and cols: "list_all ident (t_pk t)"
    using assms(1) by (simp_all add: header_ok_def)
  have opt: "a \<noteq> [] \<and> word_char (last a)"
    if "p \<in> set (opt_attr (\<lambda>s. (k @ s, f s)) m)" "opt_ok ident m" "k \<noteq> []" for k f m
    using that p(2) by (cases m) (auto simp: opt_attr_def word_last)
  from p(1) show ?thesis
  proof (cases rule: attrs_of_cases)
    case schema then show ?thesis using opt [of "''schema=''"] s(1) by simp
  next
    case created then show ?thesis using opt [of "''created=''"] s(2) by simp
  next
    case updated then show ?thesis using opt [of "''updated=''"] s(3) by simp
  next
    case pk
    then show ?thesis using col_list_text_solid [OF pk(1) cols] p(2) by (simp add: solid_def)
  qed (use sd p(2) in \<open>auto simp: word_last\<close>)
qed

lemma solid_sp:
  assumes "solid a" "\<And>c. c \<in> set cs \<Longrightarrow> c \<noteq> [] \<and> word_char (last c)"
  shows "solid (a @ sp cs)"
  using assms(2)
proof (induction cs rule: rev_induct)
  case Nil
  then show ?case using assms(1) by simp
next
  case (snoc c cs)
  then have "c \<noteq> []" "word_char (last c)" by auto
  then show ?case using assms(1) by (simp add: solid_def)
qed

lemma parse_line_table:
  assumes "header_ok t"
  shows "parse_line n (table_header t) s
    = Inr (s\<lparr>s_tables := s_tables s @ [t\<lparr>t_columns := [], t_indexes := [], t_foreign_keys := []\<rparr>]\<rparr>)"
proof -
  have "ident (t_name t)" using assms by (simp add: header_ok_def)
  then have "solid (''table '' @ t_name t)" by (simp add: solid_def word_last)
  then have "solid (table_header t)"
    using solid_sp [of "''table '' @ t_name t" "map fst (attrs_of t)"] attrs_of_last [OF assms]
    by (simp add: table_header_def table_attrs_texts sp_def)
  then have "trim (table_header t) = table_header t" by (rule solid_trim)
  then show ?thesis using parse_table_header_text [OF assms, of n]
    by (simp add: parse_line_def starts_with_def) (simp add: table_header_def)
qed

lemma with_last_snoc: "with_last e f (ts @ [t]) = and_then (f t) (\<lambda>t'. Inr (ts @ [t']))"
proof (induction e f ts rule: with_last.induct)
  case (2 e f t')
  then show ?case by (cases "f t") auto
next
  case (3 e f u v ts)
  then show ?case by (cases "f t") auto
qed auto

lemma default_chunk_last:
  assumes "default_ok (c_default c)" "x \<in> set (default_chunk c)"
  shows "x \<noteq> [] \<and> word_char (last x) \<and> list_all text_char x"
  using assms by (cases "c_default c")
    (auto simp: default_chunk_def opt_attr_def word_last word_text text_char_def dest: word_char_text split: list.splits if_splits)

lemma flag_chunks_last: "opt_ok ident (c_fk c) \<Longrightarrow> x \<in> set (flag_chunks c) \<Longrightarrow> x \<noteq> [] \<and> word_char (last x)"
  using flag_chunks_free(4,5) [of c x] by (simp add: word_last)

lemma column_line_solid:
  assumes "column_ok c"
  shows "solid (''column '' @ c_name c
     @ sp (c_ty c # null_text (c_nullable c) # default_chunk c @ flag_chunks c @ generated_chunk c))"
proof -
  have c: "opt_ok ident (c_fk c)" "default_ok (c_default c)" using assms by (simp_all add: column_ok_def)
  have "solid (''column '' @ c_name c @ '' '' @ c_ty c @ '' '' @ null_text (c_nullable c))"
    by (simp add: solid_def null_text_def)
  moreover have "x \<noteq> [] \<and> word_char (last x)"
    if "x \<in> set (default_chunk c @ flag_chunks c @ generated_chunk c)" for x
    using that default_chunk_last [OF c(2)] flag_chunks_last [OF c(1)]
    by (cases "c_generated c") (auto simp: generated_chunk_def opt_attr_def)
  ultimately show ?thesis
    using solid_sp [of "''column '' @ c_name c @ '' '' @ c_ty c @ '' '' @ null_text (c_nullable c)"
        "default_chunk c @ flag_chunks c @ generated_chunk c"] by simp
qed

lemma parse_line_column:
  assumes "column_ok c" "s_tables s = ts @ [t]"
  shows "parse_line n (column_line c) s = Inr (s\<lparr>s_tables := ts @ [push_column c t]\<rparr>)"
proof -
  let ?rest = "c_name c
     @ sp (c_ty c # null_text (c_nullable c) # default_chunk c @ flag_chunks c @ generated_chunk c)"
  have "trim (column_line c) = trim (''column '' @ ?rest)" by (simp add: column_line_sp)
  also have "\<dots> = ''column '' @ ?rest" by (rule solid_trim [OF column_line_solid [OF assms(1)]])
  finally show ?thesis using assms(2) parse_column_text [OF assms(1), of n]
    by (simp add: parse_line_def starts_with_def parse_member_def with_last_snoc del: sp_simps)
qed

lemma index_spec_solid:
  assumes "index_ok i" shows "solid (index_spec_text i)"
proof (cases "ix_raw i")
  case None
  then have "ident (ix_name i)" "opt_ok ident (ix_method i)" using assms by (simp_all add: index_ok_def)
  then show ?thesis using None index_tail_last [of i]
    by (auto simp: index_spec_text_def index_tail_def solid_def ident_hd)
next
  case (Some r)
  then show ?thesis using assms
    by (auto simp: index_ok_def index_spec_text_def solid_def ident_hd raw_ok_def starts_with_def strip_prefix_Some_iff)
qed

lemma parse_line_index:
  assumes "index_ok i" "s_tables s = ts @ [t]"
  shows "parse_line n (''  index '' @ index_spec_text i) s = Inr (s\<lparr>s_tables := ts @ [push_index i t]\<rparr>)"
proof -
  have "trim (''  index '' @ index_spec_text i) = trim (''index '' @ index_spec_text i)" by simp
  also have "\<dots> = ''index '' @ index_spec_text i"
    using index_spec_solid [OF assms(1)] by (intro solid_trim) (simp add: solid_def)
  finally show ?thesis using assms(2) parse_index_text [OF assms(1), of n]
    by (simp add: parse_line_def starts_with_def parse_member_def with_last_snoc)
qed

lemma parse_line_fk:
  assumes "fk_ok f" "s_tables s = ts @ [t]"
  shows "parse_line n (''  '' @ fk_spec_text f) s = Inr (s\<lparr>s_tables := ts @ [push_fk f t]\<rparr>)"
proof -
  let ?rest = "col_list_text (f_columns f) @ '' -> '' @ ref_text f @ act_text f"
  have t: "fk_spec_text f = ''fk '' @ ?rest" by (simp add: fk_spec_text_def ref_text_def act_text_def)
  have "trim (''  '' @ fk_spec_text f) = trim (''fk '' @ ?rest)" using t by simp
  also have "\<dots> = ''fk '' @ ?rest"
    using act_text_solid [OF assms(1)] by (intro solid_trim) (auto simp: solid_def)
  finally show ?thesis using assms(2) parse_fk_text [OF assms(1), of n]
    by (simp add: parse_line_def starts_with_def parse_member_def with_last_snoc)
qed

subsection \<open>The file\<close>

lemma parse_lines_append:
  "parse_lines n (ls @ ms) s = and_then (parse_lines n ls s) (\<lambda>s'. parse_lines (n + length ls) ms s')"
proof (induction ls arbitrary: n s)
  case (Cons l ls)
  then show ?case by (cases "parse_line n l s") simp_all
qed simp

text \<open>Lines that each push one item, in order.\<close>

lemma parse_lines_push:
  assumes "\<And>n x s. x \<in> set xs \<Longrightarrow> Inv s \<Longrightarrow> parse_line n (g x) s = Inr (u x s) \<and> Inv (u x s)" "Inv s"
  shows "parse_lines n (map g xs) s = Inr (fold u xs s)"
  using assms
proof (induction xs arbitrary: n s)
  case (Cons x xs)
  then have "parse_line n (g x) s = Inr (u x s)" "Inv (u x s)" by auto
  then show ?case using Cons by simp
qed simp

definition table_lines :: "table_snap \<Rightarrow> str list" where
  "table_lines t = [] # table_header t # map column_line (t_columns t)
     @ map (\<lambda>i. ''  index '' @ index_spec_text i) (t_indexes t)
     @ map (\<lambda>f. ''  '' @ fk_spec_text f) (t_foreign_keys t)"

definition snap_lines :: "snapshot \<Rightarrow> str list" where
  "snap_lines s = snap_comment # snap_header # map render_scope_decl (s_scopes s)
     @ map render_rename (s_renames s) @ concat (map table_lines (s_tables s))"

lemma unlines_map: "unlines (map g xs) = concat (map (\<lambda>x. g x @ nl) xs)"
  by (induction xs) auto

lemma unlines_concat: "unlines (concat lss) = concat (map unlines lss)"
  by (induction lss) auto

lemma render_unlines: "render_snapshot s = unlines (snap_lines s)"
  by (simp add: render_snapshot_def snap_lines_def unlines_map unlines_concat table_lines_def
      render_table_def comp_def)

lemma fold_push_members:
  "fold (\<lambda>c s. s\<lparr>s_tables := ts @ [push_column c (last (s_tables s))]\<rparr>) cs (s\<lparr>s_tables := ts @ [t]\<rparr>)
     = s\<lparr>s_tables := ts @ [t\<lparr>t_columns := t_columns t @ cs\<rparr>]\<rparr>"
  "fold (\<lambda>i s. s\<lparr>s_tables := ts @ [push_index i (last (s_tables s))]\<rparr>) is (s\<lparr>s_tables := ts @ [t]\<rparr>)
     = s\<lparr>s_tables := ts @ [t\<lparr>t_indexes := t_indexes t @ is\<rparr>]\<rparr>"
  "fold (\<lambda>f s. s\<lparr>s_tables := ts @ [push_fk f (last (s_tables s))]\<rparr>) fs (s\<lparr>s_tables := ts @ [t]\<rparr>)
     = s\<lparr>s_tables := ts @ [t\<lparr>t_foreign_keys := t_foreign_keys t @ fs\<rparr>]\<rparr>"
proof -
  show "fold (\<lambda>c s. s\<lparr>s_tables := ts @ [push_column c (last (s_tables s))]\<rparr>) cs (s\<lparr>s_tables := ts @ [t]\<rparr>)
     = s\<lparr>s_tables := ts @ [t\<lparr>t_columns := t_columns t @ cs\<rparr>]\<rparr>"
    by (induction cs arbitrary: t) (simp_all add: push_column_def)
  show "fold (\<lambda>i s. s\<lparr>s_tables := ts @ [push_index i (last (s_tables s))]\<rparr>) is (s\<lparr>s_tables := ts @ [t]\<rparr>)
     = s\<lparr>s_tables := ts @ [t\<lparr>t_indexes := t_indexes t @ is\<rparr>]\<rparr>"
    by (induction "is" arbitrary: t) (simp_all add: push_index_def)
  show "fold (\<lambda>f s. s\<lparr>s_tables := ts @ [push_fk f (last (s_tables s))]\<rparr>) fs (s\<lparr>s_tables := ts @ [t]\<rparr>)
     = s\<lparr>s_tables := ts @ [t\<lparr>t_foreign_keys := t_foreign_keys t @ fs\<rparr>]\<rparr>"
    by (induction fs arbitrary: t) (simp_all add: push_fk_def)
qed

lemma parse_line_blank: "parse_line n [] s = Inr s"
  by (simp add: parse_line_def)

lemma parse_table_lines:
  assumes "table_ok t"
  shows "parse_lines n (table_lines t) s = Inr (s\<lparr>s_tables := s_tables s @ [t]\<rparr>)"
proof -
  let ?ts = "s_tables s"
  let ?Inv = "\<lambda>s'. \<exists>t'. s_tables s' = ?ts @ [t']"
  let ?t0 = "t\<lparr>t_columns := [], t_indexes := [], t_foreign_keys := []\<rparr>"
  have ok: "header_ok t" "list_all column_ok (t_columns t)" "list_all index_ok (t_indexes t)"
      "list_all fk_ok (t_foreign_keys t)"
    using assms by (simp_all add: table_ok_def)
  have cols: "parse_lines n (map column_line (t_columns t)) s'
      = Inr (fold (\<lambda>c s. s\<lparr>s_tables := ?ts @ [push_column c (last (s_tables s))]\<rparr>) (t_columns t) s')"
    if "?Inv s'" for n s'
    by (rule parse_lines_push [where Inv = ?Inv, OF _ that])
      (use ok(2) parse_line_column in \<open>auto simp: list_all_iff\<close>)
  have ixs: "parse_lines n (map (\<lambda>i. ''  index '' @ index_spec_text i) (t_indexes t)) s'
      = Inr (fold (\<lambda>i s. s\<lparr>s_tables := ?ts @ [push_index i (last (s_tables s))]\<rparr>) (t_indexes t) s')"
    if "?Inv s'" for n s'
    by (rule parse_lines_push [where Inv = ?Inv, OF _ that])
      (use ok(3) parse_line_index in \<open>auto simp: list_all_iff simp del: append.simps\<close>)
  have fks: "parse_lines n (map (\<lambda>f. ''  '' @ fk_spec_text f) (t_foreign_keys t)) s'
      = Inr (fold (\<lambda>f s. s\<lparr>s_tables := ?ts @ [push_fk f (last (s_tables s))]\<rparr>) (t_foreign_keys t) s')"
    if "?Inv s'" for n s'
    by (rule parse_lines_push [where Inv = ?Inv, OF _ that])
      (use ok(4) parse_line_fk in \<open>auto simp: list_all_iff simp del: append.simps\<close>)
  show ?thesis
    by (simp only: table_lines_def parse_lines.simps parse_line_blank parse_line_table [OF ok(1)]
        and_then.simps parse_lines_append cols ixs fks fold_push_members snapshot.simps)
      (simp add: cols ixs fks fold_push_members del: append.simps)
qed

lemma parse_tables_lines:
  assumes "list_all table_ok ts"
  shows "parse_lines n (concat (map table_lines ts)) s = Inr (s\<lparr>s_tables := s_tables s @ ts\<rparr>)"
  using assms
proof (induction ts arbitrary: n s)
  case (Cons t ts)
  then show ?case by (simp add: parse_lines_append parse_table_lines)
qed simp

lemma fold_push_scopes:
  "fold (\<lambda>d s. s\<lparr>s_scopes := s_scopes s @ [d]\<rparr>) ds s = s\<lparr>s_scopes := s_scopes s @ ds\<rparr>"
  by (induction ds arbitrary: s) simp_all

lemma fold_push_renames:
  "fold (\<lambda>r s. s\<lparr>s_renames := s_renames s @ [r]\<rparr>) rs s = s\<lparr>s_renames := s_renames s @ rs\<rparr>"
  by (induction rs arbitrary: s) simp_all

lemma parse_line_comment: "parse_line n (CHR ''#'' # l) s = Inr s"
proof -
  have "starts_with ''#'' (trim (CHR ''#'' # l))"
    using trim_comment [of l] by (metis starts_with_def strip_prefix.simps(1,3) option.simps(3))
  then show ?thesis by (simp add: parse_line_def)
qed

lemma parse_line_header: "parse_line n snap_header s = Inr s"
proof -
  have "trim snap_header = snap_header" by (rule solid_trim) (simp add: snap_header_def solid_def word_char_def)
  then show ?thesis by (simp add: parse_line_def starts_with_def snap_header_def)
qed

lemma parse_snap_lines:
  assumes "text_ok s"
  shows "parse_lines n (snap_lines s) empty_snapshot = Inr s"
proof -
  have ok: "list_all scope_ok (s_scopes s)" "list_all rename_ok (s_renames s)" "list_all table_ok (s_tables s)"
    using assms by (simp_all add: text_ok_def)
  have scopes: "parse_lines n (map render_scope_decl (s_scopes s)) s' = Inr (s'\<lparr>s_scopes := s_scopes s' @ s_scopes s\<rparr>)" for n s'
  proof -
    have "parse_lines n (map render_scope_decl (s_scopes s)) s'
        = Inr (fold (\<lambda>d s. s\<lparr>s_scopes := s_scopes s @ [d]\<rparr>) (s_scopes s) s')"
      by (rule parse_lines_push [where Inv = "\<lambda>_. True"]) (use ok(1) in \<open>auto simp: list_all_iff parse_line_scope\<close>)
    then show ?thesis by (simp only: fold_push_scopes)
  qed
  have renames: "parse_lines n (map render_rename (s_renames s)) s' = Inr (s'\<lparr>s_renames := s_renames s' @ s_renames s\<rparr>)" for n s'
  proof -
    have "parse_lines n (map render_rename (s_renames s)) s'
        = Inr (fold (\<lambda>r s. s\<lparr>s_renames := s_renames s @ [r]\<rparr>) (s_renames s) s')"
      by (rule parse_lines_push [where Inv = "\<lambda>_. True"]) (use ok(2) in \<open>auto simp: list_all_iff parse_line_rename\<close>)
    then show ?thesis by (simp only: fold_push_renames)
  qed
  have comment: "parse_line n snap_comment s' = Inr s'" for n s'
    unfolding snap_comment_def by (simp add: parse_line_comment)
  show ?thesis
    by (simp add: snap_lines_def comment parse_line_header parse_lines_append scopes renames
        parse_tables_lines ok empty_snapshot_def)
qed

subsection \<open>No line break inside a line\<close>

lemma list_all_text_join:
  "list_all text_char sep \<Longrightarrow> (\<And>x. x \<in> set xs \<Longrightarrow> list_all text_char x) \<Longrightarrow> list_all text_char (join sep xs)"
  using set_join [of sep xs] by (fastforce simp: list_all_iff)

lemma text_char_lits [simp]: "text_char (CHR '' '')" "text_char (CHR ''v'')" "text_char (CHR ''1'')" "text_char (CHR ''`'')" "text_char (CHR '';'')" "text_char (CHR ''y'')"
  by (simp_all add: text_char_def)

lemma word_chars_text [simp]: "word_char c \<Longrightarrow> text_char c" by (rule word_char_text)

lemma ident_text [simp]: "ident s \<Longrightarrow> list_all text_char s"
  by (simp add: word_text)

lemma col_list_text_text:
  assumes "list_all ident xs"
  shows "list_all text_char (col_list_text xs)"
proof -
  have "list_all text_char (join '', '' xs)"
    using assms by (intro list_all_text_join) (auto simp: list_all_iff [of ident])
  then show ?thesis using assms by (auto simp: col_list_text_def split: list.split)
qed

lemma list_all_text_sp: "(\<And>c. c \<in> set cs \<Longrightarrow> list_all text_char c) \<Longrightarrow> list_all text_char (sp cs)"
  by (induction cs) auto

lemma no_id_text [simp]: "list_all text_char (null_text b)"
  by (simp add: word_text)

lemma render_scope_text: "scope_ok d \<Longrightarrow> list_all text_char (render_scope_decl d)"
proof -
  assume d: "scope_ok d"
  have "list_all text_char (scope_term_text t)" if "t \<in> set (sd_terms d)" for t
    using d that by (auto simp: scope_ok_def list_all_iff [of scope_term_ok] scope_term_ok_def scope_term_text_def word_text)
  then have "list_all text_char (join '', '' (map scope_term_text (sd_terms d)))"
    by (intro list_all_text_join) auto
  then show ?thesis using d
    by (simp add: render_scope_decl_def Let_def scope_ok_def scope_term_text_def [abs_def])
qed

lemma render_rename_text: "rename_ok r \<Longrightarrow> list_all text_char (render_rename r)"
  by (cases r) auto

lemma path_join_text: "list_all path_text xs \<Longrightarrow> list_all text_char (join '', '' xs)"
  by (rule list_all_text_join) (auto simp: list_all_iff path_text_def word_text intro: word_text [unfolded list_all_iff, rule_format])

lemma attrs_of_text:
  assumes "header_ok t" "a \<in> fst ` set (attrs_of t)"
  shows "list_all text_char a"
proof -
  have srt: "list_all text_char (join '', '' (map (\<lambda>(c, d). c @ '' '' @ d) (t_sort t)))"
  proof (rule list_all_text_join)
    fix x
    assume "x \<in> set (map (\<lambda>(c, d). c @ '' '' @ d) (t_sort t))"
    then obtain c d where "x = c @ '' '' @ d" "(c, d) \<in> set (t_sort t)" by auto
    moreover from this have "path_text c \<and> path_text d"
      using assms(1) by (auto simp: header_ok_def list_all_iff)
    ultimately show "list_all text_char x" by (simp add: path_text_def word_text)
  qed simp
  have alts: "list_all text_char (join '', '' alt)" if "alt \<in> set (t_scope_alts t)" for alt
    using assms(1) that by (intro path_join_text) (auto simp: header_ok_def list_all_iff)
  have "list_all ident (t_pk t)" using assms(1) by (simp add: header_ok_def)
  note cols = col_list_text_text [OF this]
  obtain p where p: "p \<in> set (attrs_of t)" "a = fst p" using assms(2) by blast
  have s: "opt_ok ident (t_schema t)" "opt_ok ident (t_created t)" "opt_ok ident (t_updated t)"
    and sd: "case t_soft_delete t of None \<Rightarrow> True | Some (c, m) \<Rightarrow> ident c \<and> ident m"
    using assms(1) by (simp_all add: header_ok_def)
  have opt: "list_all text_char a"
    if "p \<in> set (opt_attr (\<lambda>s. (k @ s, f s)) m)" "opt_ok ident m" "list_all text_char k" for k f m
    using that p(2) by (cases m) (auto simp: opt_attr_def)
  from p(1) show ?thesis
  proof (cases rule: attrs_of_cases)
    case schema then show ?thesis using opt [of "''schema=''"] s(1) by simp
  next
    case created then show ?thesis using opt [of "''created=''"] s(2) by simp
  next
    case updated then show ?thesis using opt [of "''updated=''"] s(3) by simp
  qed (use p(2) sd srt alts cols in auto)
qed

lemma table_header_chars: "header_ok t \<Longrightarrow> list_all text_char (table_header t)"
  using attrs_of_text [of t] list_all_text_sp [of "map fst (attrs_of t)"]
  by (simp add: table_header_def table_attrs_texts sp_def header_ok_def)

lemma column_line_text:
  assumes "column_ok c" shows "list_all text_char (column_line c)"
proof -
  have c: "ident (c_name c)" "ty_ok (c_ty c)" "opt_ok ident (c_fk c)" "default_ok (c_default c)"
      "generated_ok (c_generated c)"
    using assms by (simp_all add: column_ok_def)
  have ty: "list_all text_char (c_ty c)" using c(2) by (auto simp: ty_ok_def raw_ok_def word_text)
  have g: "list_all text_char x" if "x \<in> set (generated_chunk c)" for x
    using that c(5) by (cases "c_generated c") (auto simp: generated_chunk_def opt_attr_def)
  have "list_all text_char (sp (c_ty c # null_text (c_nullable c) # default_chunk c @ flag_chunks c @ generated_chunk c))"
    using ty g default_chunk_last [OF c(4)] flag_chunks_free(4) [OF c(3)]
    by (intro list_all_text_sp) (auto simp: word_text)
  then show ?thesis using c(1) by (simp add: column_line_sp del: sp_simps)
qed

lemma index_line_text: "index_ok i \<Longrightarrow> list_all text_char (index_spec_text i)"
  by (cases "ix_raw i"; cases "ix_method i")
    (auto simp: index_ok_def index_spec_text_def raw_ok_def path_join_text)

lemma fk_line_text: "fk_ok f \<Longrightarrow> list_all text_char (fk_spec_text f)"
  by (cases "f_ref_schema f"; cases "f_on_delete f"; cases "f_on_update f")
    (auto simp: fk_ok_def fk_spec_text_def fk_ref_text_def col_list_text_text)

lemma table_lines_ok: "table_ok t \<Longrightarrow> list_all line_ok (table_lines t)"
  using table_header_chars [of t] column_line_text index_line_text fk_line_text
  by (auto simp: table_ok_def table_lines_def list_all_iff [of column_ok] list_all_iff [of index_ok]
      list_all_iff [of fk_ok] list_all_iff [of line_ok] line_ok_def text_notin text_char_def)

lemma snap_lines_ok:
  assumes "text_ok s" shows "list_all line_ok (snap_lines s)"
proof -
  have "line_ok snap_comment" "line_ok snap_header" by (simp_all add: snap_comment_def snap_header_def line_ok_def)
  then show ?thesis
    using assms render_scope_text render_rename_text table_lines_ok
    by (auto simp: text_ok_def snap_lines_def list_all_iff [of scope_ok] list_all_iff [of rename_ok]
        list_all_iff [of table_ok] list_all_iff [of line_ok] intro: line_ok_text)
qed

lemma parse_render: "text_ok s \<Longrightarrow> parse_snapshot (render_snapshot s) = Inr s"
  using parse_snap_lines [of s] lines_unlines [OF snap_lines_ok [of s]]
  by (simp add: parse_snapshot_def render_unlines)


definition order_table :: table_snap where
  "order_table = \<lparr>t_name = ''order'', t_schema = Some ''shop'',
     t_soft_delete = Some (''deleted_at'', ''timestamp''), t_created = Some ''created_at'',
     t_updated = None, t_scope_alts = [[''A'', ''B''], [''C'']],
     t_sort = [(''placed_at'', ''desc''), (''id'', ''asc'')], t_no_id = False, t_pk = [''a'', ''b''],
     t_columns =
       [\<lparr>c_name = ''note'', c_ty = ''text'', c_nullable = True, c_default = Some ([dq] @ ''a b'' @ [dq]),
         c_unique = True, c_fk = Some ''User'', c_generated = None\<rparr>,
        \<lparr>c_name = ''net'', c_ty = ''decimal(12,2)'', c_nullable = False, c_default = None,
         c_unique = False, c_fk = None, c_generated = Some ''(a - b) * 2''\<rparr>],
     t_indexes =
       [\<lparr>ix_name = ''idx_a'', ix_columns = [''a'', ''b''], ix_unique = True, ix_method = Some ''btree'',
         ix_raw = None\<rparr>],
     t_foreign_keys =
       [\<lparr>f_columns = [''a'', ''b''], f_ref_table = ''user'', f_ref_schema = Some ''x'',
         f_ref_columns = [''c'', ''d''], f_on_delete = Some ''cascade'', f_on_update = Some ''no_action''\<rparr>]\<rparr>"

definition order_snapshot :: snapshot where
  "order_snapshot =
     \<lparr>s_scopes = [\<lparr>sd_name = ''Tenant'',
        sd_terms = [\<lparr>st_column = ''org'', st_ty = ''Org'', st_ctx_field = ''org_id''\<rparr>]\<rparr>],
      s_tables = [order_table],
      s_renames = [Rename_Table ''a'' ''b'', Rename_Column ''t'' ''x'' ''y'']\<rparr>"


text \<open>
  The side condition is needed: a quoted default that holds an escaped quote, as \<open>render_default\<close>
  writes for the literal \<open>a"b\<close>, is cut at its first inner quote, and what is left of it is not a
  column attribute.
\<close>

definition quoted_default_snapshot :: snapshot where
  "quoted_default_snapshot = \<lparr>s_scopes = [],
     s_tables = [(new_table ''t'')\<lparr>t_columns :=
       [\<lparr>c_name = ''a'', c_ty = ''text'', c_nullable = False,
         c_default = Some ([dq] @ ''a'' @ [backslash, dq] @ ''b'' @ [dq]), c_unique = False, c_fk = None,
         c_generated = None\<rparr>]\<rparr>],
     s_renames = []\<rparr>"

lemma quoted_default_unreadable:
  "parse_snapshot (render_snapshot quoted_default_snapshot)
     = Inl (Parse_Error 5 (''unrecognized column attribute: b'' @ [dq]))"
  by code_simp

text \<open>A string enum whose wire value holds a space splits into two tokens when read back.\<close>

definition spaced_enum_snapshot :: snapshot where
  "spaced_enum_snapshot = \<lparr>s_scopes = [],
     s_tables = [(new_table ''t'')\<lparr>t_columns :=
       [\<lparr>c_name = ''state'', c_ty = ''enum(in progress,done)'', c_nullable = False,
         c_default = None, c_unique = False, c_fk = None, c_generated = None\<rparr>]\<rparr>],
     s_renames = []\<rparr>"

lemma spaced_enum_unreadable:
  "parse_snapshot (render_snapshot spaced_enum_snapshot)
     = Inl (Parse_Error 5 ''expected null|not_null, got progress,done)'')"
  by code_simp

text \<open>A scope term of a decimal type splits at the comma of its precision.\<close>

definition decimal_scope_snapshot :: snapshot where
  "decimal_scope_snapshot = \<lparr>s_scopes = [\<lparr>sd_name = ''Budget'',
       sd_terms = [\<lparr>st_column = ''cap'', st_ty = ''decimal(12,2)'', st_ctx_field = ''cap''\<rparr>]\<rparr>],
     s_tables = [], s_renames = []\<rparr>"

lemma decimal_scope_unreadable:
  "parse_snapshot (render_snapshot decimal_scope_snapshot)
     = Inl (Parse_Error 3 (''malformed scope term: cap: decimal(12''))"
  by code_simp

text \<open>A scope line whose last closing parenthesis precedes its first opening one panics.\<close>

lemma scope_decl_slice_panics: "parse_scope_decl ''A )('' n = Inl Slice_Panic"
  by code_simp

end
