(* ===== verification/Dialect.thy ===== *)
theory Dialect
  imports Rust_Str
begin

text \<open>
  The dialect seam of \<open>based-codegen/src/lib.rs\<close>: names, identifier quoting, and the round
  trips: a dialect's name parses back to it, and a quoted identifier, whatever it contains,
  is read back by the database as that identifier and nothing more.
\<close>

datatype dialect = Maria_Db | My_Sql | Sqlite | Postgres

definition try_parse_dialect :: "str \<Rightarrow> dialect option" where
  "try_parse_dialect s =
     (if s = ''sqlite'' then Some Sqlite
      else if s = ''postgres'' \<or> s = ''postgresql'' then Some Postgres
      else if s = ''mysql'' then Some My_Sql
      else if s = ''mariadb'' then Some Maria_Db
      else None)"

definition parse_dialect :: "str \<Rightarrow> dialect" where
  "parse_dialect s = (case try_parse_dialect s of Some d \<Rightarrow> d | None \<Rightarrow> Maria_Db)"

fun dialect_name :: "dialect \<Rightarrow> str" where
  "dialect_name Maria_Db = ''mariadb''"
| "dialect_name My_Sql = ''mysql''"
| "dialect_name Sqlite = ''sqlite''"
| "dialect_name Postgres = ''postgres''"

definition is_mysql_family :: "dialect \<Rightarrow> bool" where
  "is_mysql_family d \<longleftrightarrow> d = Maria_Db \<or> d = My_Sql"

definition quote_char :: "dialect \<Rightarrow> char" where
  "quote_char d = (case d of Postgres \<Rightarrow> dq | _ \<Rightarrow> backtick)"

fun quote :: "dialect \<Rightarrow> str \<Rightarrow> str" where
  "quote Postgres s = [dq] @ replace_char dq [dq, dq] s @ [dq]"
| "quote d s = [backtick] @ replace_char backtick [backtick, backtick] s @ [backtick]"

definition qcol :: "dialect \<Rightarrow> str \<Rightarrow> str \<Rightarrow> str" where
  "qcol d table col = quote d table @ ''.'' @ quote d col"

definition quote_table :: "dialect \<Rightarrow> str option \<Rightarrow> str \<Rightarrow> str" where
  "quote_table d sc table = (case sc of
       Some s \<Rightarrow> quote d s @ ''.'' @ quote d table
     | None \<Rightarrow> quote d table)"

definition wipe_all :: "dialect \<Rightarrow> str \<Rightarrow> str" where
  "wipe_all d table = (case d of
       Postgres \<Rightarrow> ''TRUNCATE '' @ table @ '';'' @ nl
     | _ \<Rightarrow> ''DELETE FROM '' @ table @ '';'' @ nl)"

definition now_sql :: "dialect \<Rightarrow> str" where
  "now_sql d = (if d = Sqlite
     then ''(strftime('' @ [CHR 0x27] @ ''%Y-%m-%dT%H:%M:%f000Z'' @ [CHR 0x27] @ '', '' @ [CHR 0x27] @ ''now'' @ [CHR 0x27] @ ''))''
     else ''CURRENT_TIMESTAMP'')"

definition bool_lit :: "dialect \<Rightarrow> bool \<Rightarrow> str" where
  "bool_lit d b =
     (if d = Sqlite then (if b then ''1'' else ''0'') else (if b then ''TRUE'' else ''FALSE''))"

text \<open>A string literal of SQL.\<close>

definition sql_quote_char :: char where
  "sql_quote_char = CHR 0x27"

definition sql_string :: "str \<Rightarrow> str" where
  "sql_string s = [sql_quote_char] @ replace_char sql_quote_char [sql_quote_char, sql_quote_char] s @ [sql_quote_char]"

text \<open>U+2014 as its bytes.\<close>

definition em_dash :: str where
  "em_dash = [CHR 0xE2, CHR 0x80, CHR 0x94]"

subsection \<open>Names\<close>

lemma try_parse_dialect_name [simp]: "try_parse_dialect (dialect_name d) = Some d"
  by (cases d) (simp_all add: try_parse_dialect_def)

lemma parse_dialect_name [simp]: "parse_dialect (dialect_name d) = d"
  by (simp add: parse_dialect_def)

subsection \<open>Quoting\<close>

lemma replace_char_simps [simp]:
  "replace_char c r [] = []"
  "replace_char c r (x # s) = (if x = c then r else [x]) @ replace_char c r s"
  by (simp_all add: replace_char_def)

text \<open>How a database reads a quoted identifier: a doubled quote is one, a single one ends it.\<close>

fun read_quoted :: "char \<Rightarrow> str \<Rightarrow> (str \<times> str) option" where
  "read_quoted q [] = None"
| "read_quoted q [c] = (if c = q then Some ([], []) else None)"
| "read_quoted q (c # d # s) =
     (if c = q then (if d = q then prepend [q] (read_quoted q s) else Some ([], d # s))
      else prepend [c] (read_quoted q (d # s)))"

lemma read_quoted_skip: "c \<noteq> q \<Longrightarrow> s \<noteq> [] \<Longrightarrow> read_quoted q (c # s) = prepend [c] (read_quoted q s)"
  by (cases s) auto

lemma read_quoted_end: "rest = [] \<or> hd rest \<noteq> q \<Longrightarrow> read_quoted q (q # rest) = Some ([], rest)"
  by (cases rest) auto

lemma read_quoted_replace:
  assumes "rest = [] \<or> hd rest \<noteq> q"
  shows "read_quoted q (replace_char q [q, q] s @ q # rest) = Some (s, rest)"
  using assms by (induction s) (auto simp: read_quoted_end read_quoted_skip)

definition read_ident :: "dialect \<Rightarrow> str \<Rightarrow> (str \<times> str) option" where
  "read_ident d s = (case s of [] \<Rightarrow> None
     | c # r \<Rightarrow> (if c = quote_char d then read_quoted c r else None))"

lemma quote_shape: "quote d s = quote_char d # replace_char (quote_char d) [quote_char d, quote_char d] s @ [quote_char d]"
  by (cases d) (simp_all add: quote_char_def)

lemma read_ident_quote:
  assumes "rest = [] \<or> hd rest \<noteq> quote_char d"
  shows "read_ident d (quote d s @ rest) = Some (s, rest)"
  using read_quoted_replace [OF assms] by (simp add: read_ident_def quote_shape)

lemma quote_inject [simp]: "quote d s = quote d t \<longleftrightarrow> s = t"
proof
  assume "quote d s = quote d t"
  then have "read_ident d (quote d s @ []) = read_ident d (quote d t @ [])" by (rule arg_cong)
  then show "s = t" by (simp only: read_ident_quote simp_thms option.inject prod.inject)
qed (rule arg_cong)

lemma quote_table_inject:
  "quote_table d sc t = quote_table d sc' t' \<longleftrightarrow> sc = sc' \<and> t = t'"
proof
  assume eq: "quote_table d sc t = quote_table d sc' t'"
  have rd: "read_ident d (quote_table d sc t)
      = (case sc of Some s \<Rightarrow> Some (s, ''.'' @ quote d t) | None \<Rightarrow> Some (t, []))" for sc t
    using read_ident_quote [of "''.'' @ quote d t" d] read_ident_quote [of "[]" d t]
    by (cases sc) (cases d; simp add: quote_table_def quote_char_def)+
  show "sc = sc' \<and> t = t'"
    using eq rd [of sc t] rd [of sc' t'] by (cases sc; cases sc') auto
qed simp

end
