(* ===== verification/Diff.thy ===== *)
theory Diff
  imports Snapshot Dialect
begin

text \<open>
  \<open>based-codegen/src/migrate/diff.rs\<close>: the neutral step vocabulary, the destructive marker and
  the diff engine. Each \<open>Step\<close> variant is a constructor with the fields in the source's order;
  a function that pushes onto \<open>steps\<close> returns the steps it pushes.
\<close>

subsection \<open>Steps\<close>

datatype column_change =
    Type_Change str str
  | Set_Null
  | Set_Not_Null bool
  | Set_Default str
  | Drop_Default

datatype scope_change =
    Scope_Add scope_decl_snap
  | Scope_Drop str
  | Scope_Alter scope_decl_snap
  | Scope_Table str "str list list"

datatype step =
    Create_Table table_snap
  | Drop_Table str "str option"
  | Add_Column str "str option" column_snap
  | Drop_Column str "str option" str
  | Alter_Column str "str option" str "column_change list" column_snap
  | Add_Index str "str option" index_snap
  | Drop_Index str "str option" str
  | Add_Unique str "str option" index_snap
  | Drop_Unique str "str option" str
  | Add_Foreign_Key str "str option" foreign_key_snap
  | Drop_Foreign_Key str "str option" "str list"
  | Step_Rename_Table str str "str option"
  | Step_Rename_Column str "str option" str str
  | Alter_Schema str "str option" "str option"
  | Raw_Step dialect str
  | Scope_Change scope_change

definition is_narrowing :: "str \<Rightarrow> str \<Rightarrow> bool" where
  "is_narrowing from to \<longleftrightarrow> from \<noteq> to \<and> to \<noteq> ''text''"

fun change_destructive :: "column_change \<Rightarrow> bool" where
  "change_destructive (Type_Change from to) = is_narrowing from to"
| "change_destructive (Set_Not_Null has_default) = (\<not> has_default)"
| "change_destructive _ = False"

fun destructive :: "step \<Rightarrow> bool" where
  "destructive (Drop_Table _ _) = True"
| "destructive (Drop_Column _ _ _) = True"
| "destructive (Add_Unique _ _ _) = True"
| "destructive (Alter_Column _ _ _ changes _) = list_ex change_destructive changes"
| "destructive _ = False"

fun table_name :: "step \<Rightarrow> str option" where
  "table_name (Create_Table t) = Some (t_name t)"
| "table_name (Drop_Table n _) = Some n"
| "table_name (Add_Column t _ _) = Some t"
| "table_name (Drop_Column t _ _) = Some t"
| "table_name (Alter_Column t _ _ _ _) = Some t"
| "table_name (Add_Index t _ _) = Some t"
| "table_name (Drop_Index t _ _) = Some t"
| "table_name (Add_Unique t _ _) = Some t"
| "table_name (Drop_Unique t _ _) = Some t"
| "table_name (Add_Foreign_Key t _ _) = Some t"
| "table_name (Drop_Foreign_Key t _ _) = Some t"
| "table_name (Step_Rename_Table from _ _) = Some from"
| "table_name (Step_Rename_Column t _ _ _) = Some t"
| "table_name (Alter_Schema t _ _) = Some t"
| "table_name (Raw_Step _ _) = None"
| "table_name (Scope_Change _) = None"

subsection \<open>Columns\<close>

definition column_changes :: "column_snap \<Rightarrow> column_snap \<Rightarrow> column_change list" where
  "column_changes old now =
     (if c_ty old \<noteq> c_ty now then [Type_Change (c_ty old) (c_ty now)] else [])
     @ (if c_nullable old \<noteq> c_nullable now then
          (if c_nullable now then [Set_Null] else [Set_Not_Null (c_default now \<noteq> None)])
        else [])
     @ (if c_default old \<noteq> c_default now then
          (case c_default now of Some d \<Rightarrow> [Set_Default d] | None \<Rightarrow> [Drop_Default])
        else [])"

text \<open>\<open>AlterColumn\<close> when the changes are not empty.\<close>

definition alter_step :: "table_snap \<Rightarrow> column_snap \<Rightarrow> column_snap \<Rightarrow> step list" where
  "alter_step now old new =
     (let changes = column_changes old new in
      if changes = [] then []
      else [Alter_Column (t_name now) (t_schema now) (c_name new) changes new])"

text \<open>The column renames that are taken, in order; their steps, sources and targets.\<close>

fun column_rename_of :: "table_snap \<Rightarrow> table_snap \<Rightarrow> rename_decl \<Rightarrow> (str \<times> str) option" where
  "column_rename_of prev now (Rename_Column table from to) =
     (if table \<noteq> t_name now \<or> find_column prev from = None \<or> find_column prev to \<noteq> None
         \<or> find_column now to = None
      then None else Some (from, to))"
| "column_rename_of prev now (Rename_Table _ _) = None"

definition column_renames :: "table_snap \<Rightarrow> table_snap \<Rightarrow> rename_decl list \<Rightarrow> (str \<times> str) list" where
  "column_renames prev now renames = List.map_filter (column_rename_of prev now) renames"

definition rename_column_steps :: "table_snap \<Rightarrow> table_snap \<Rightarrow> str \<times> str \<Rightarrow> step list" where
  "rename_column_steps prev now r = (case r of (from, to) \<Rightarrow>
     Step_Rename_Column (t_name now) (t_schema now) from to
     # (case (find_column prev from, find_column now to) of
          (Some old, Some new) \<Rightarrow>
            (let changes = column_changes old new in
             if changes = [] then []
             else [Alter_Column (t_name now) (t_schema now) to changes new])
        | _ \<Rightarrow> []))"

definition survivor_column_steps :: "table_snap \<Rightarrow> table_snap \<Rightarrow> column_snap \<Rightarrow> step list" where
  "survivor_column_steps prev now c = (case find_column prev (c_name c) of
       None \<Rightarrow> []
     | Some old \<Rightarrow>
         (if c_generated old \<noteq> c_generated c
          then [Drop_Column (t_name now) (t_schema now) (c_name c),
                Add_Column (t_name now) (t_schema now) c]
          else alter_step now old c))"

definition diff_columns :: "table_snap \<Rightarrow> table_snap \<Rightarrow> rename_decl list \<Rightarrow> step list" where
  "diff_columns prev now renames =
     (let rs = column_renames prev now renames;
          renamed_from = map fst rs; renamed_to = map snd rs in
      concat (map (rename_column_steps prev now) rs)
      @ map (Add_Column (t_name now) (t_schema now))
          (filter (\<lambda>c. find_column prev (c_name c) = None \<and> c_name c \<notin> set renamed_to) (t_columns now))
      @ concat (map (survivor_column_steps prev now)
          (filter (\<lambda>c. c_name c \<notin> set renamed_to) (t_columns now)))
      @ map (\<lambda>c. Drop_Column (t_name now) (t_schema now) (c_name c))
          (filter (\<lambda>c. find_column now (c_name c) = None \<and> c_name c \<notin> set renamed_from) (t_columns prev)))"

subsection \<open>Indexes and foreign keys\<close>

definition add_index_step :: "table_snap \<Rightarrow> index_snap \<Rightarrow> step" where
  "add_index_step now i =
     (if ix_unique i then Add_Unique (t_name now) (t_schema now) i
      else Add_Index (t_name now) (t_schema now) i)"

definition drop_index_step :: "index_snap \<Rightarrow> table_snap \<Rightarrow> step" where
  "drop_index_step i table =
     (if ix_unique i then Drop_Unique (t_name table) (t_schema table) (ix_name i)
      else Drop_Index (t_name table) (t_schema table) (ix_name i))"

definition diff_indexes :: "table_snap \<Rightarrow> table_snap \<Rightarrow> step list" where
  "diff_indexes prev now =
     concat (map (\<lambda>i. case find_index prev (ix_name i) of
           None \<Rightarrow> [add_index_step now i]
         | Some old \<Rightarrow> (if old \<noteq> i then [drop_index_step old now, add_index_step now i] else []))
       (t_indexes now))
     @ map (\<lambda>i. drop_index_step i now) (filter (\<lambda>i. find_index now (ix_name i) = None) (t_indexes prev))"

definition find_fk :: "table_snap \<Rightarrow> str list \<Rightarrow> foreign_key_snap option" where
  "find_fk t cols = find (\<lambda>f. f_columns f = cols) (t_foreign_keys t)"

definition diff_foreign_keys :: "table_snap \<Rightarrow> table_snap \<Rightarrow> step list" where
  "diff_foreign_keys prev now =
     concat (map (\<lambda>f. case find_fk prev (f_columns f) of
           None \<Rightarrow> [Add_Foreign_Key (t_name now) (t_schema now) f]
         | Some old \<Rightarrow> (if old = f then []
             else [Drop_Foreign_Key (t_name now) (t_schema now) (f_columns f),
                   Add_Foreign_Key (t_name now) (t_schema now) f]))
       (t_foreign_keys now))
     @ map (\<lambda>f. Drop_Foreign_Key (t_name now) (t_schema now) (f_columns f))
         (filter (\<lambda>f. find_fk now (f_columns f) = None) (t_foreign_keys prev))"

definition diff_table :: "table_snap \<Rightarrow> table_snap \<Rightarrow> rename_decl list \<Rightarrow> step list" where
  "diff_table prev now renames =
     (if t_schema prev \<noteq> t_schema now then [Alter_Schema (t_name now) (t_schema prev) (t_schema now)] else [])
     @ diff_columns prev now renames
     @ diff_indexes prev now
     @ diff_foreign_keys prev now"

subsection \<open>Scopes\<close>

definition diff_scopes :: "snapshot \<Rightarrow> snapshot \<Rightarrow> step list" where
  "diff_scopes prev now =
     (if s_tables prev = [] \<and> s_scopes prev = [] then []
      else
        concat (map (\<lambda>s. case find_scope prev (sd_name s) of
              None \<Rightarrow> [Scope_Change (Scope_Add s)]
            | Some old \<Rightarrow> (if old \<noteq> s then [Scope_Change (Scope_Alter s)] else []))
          (s_scopes now))
        @ map (\<lambda>s. Scope_Change (Scope_Drop (sd_name s)))
            (filter (\<lambda>s. find_scope now (sd_name s) = None) (s_scopes prev))
        @ concat (map (\<lambda>t. case find_table prev (t_name t) of
              None \<Rightarrow> []
            | Some p \<Rightarrow> (if t_scope_alts p \<noteq> t_scope_alts t
                then [Scope_Change (Scope_Table (t_name t) (t_scope_alts t))] else []))
          (s_tables now)))"

subsection \<open>Snapshots\<close>

definition is_valid_table_rename :: "snapshot \<Rightarrow> snapshot \<Rightarrow> str \<Rightarrow> str \<Rightarrow> bool" where
  "is_valid_table_rename prev now from to \<longleftrightarrow>
     find_table prev from \<noteq> None \<and> find_table prev to = None \<and> find_table now to \<noteq> None"

fun table_rename_of :: "snapshot \<Rightarrow> snapshot \<Rightarrow> rename_decl \<Rightarrow> (str \<times> str) option" where
  "table_rename_of prev now (Rename_Table from to) =
     (if is_valid_table_rename prev now from to then Some (from, to) else None)"
| "table_rename_of prev now (Rename_Column _ _ _) = None"

definition table_renames :: "snapshot \<Rightarrow> snapshot \<Rightarrow> (str \<times> str) list" where
  "table_renames prev now = List.map_filter (table_rename_of prev now) (s_renames now)"

text \<open>\<open>rename_source\<close> looks at every declared table rename, valid or not.\<close>

fun rename_source :: "rename_decl list \<Rightarrow> str \<Rightarrow> str option" where
  "rename_source [] to = None"
| "rename_source (Rename_Table from t # rs) to = (if t = to then Some from else rename_source rs to)"
| "rename_source (Rename_Column _ _ _ # rs) to = rename_source rs to"

definition survivor_steps :: "snapshot \<Rightarrow> snapshot \<Rightarrow> str list \<Rightarrow> table_snap \<Rightarrow> step list" where
  "survivor_steps prev now renamed_to now_t =
     (let prev_t = (if t_name now_t \<in> set renamed_to
                    then Option.bind (rename_source (s_renames now) (t_name now_t)) (find_table prev)
                    else find_table prev (t_name now_t))
      in case prev_t of None \<Rightarrow> [] | Some p \<Rightarrow> diff_table p now_t (s_renames now))"

definition diff_snapshots :: "snapshot \<Rightarrow> snapshot \<Rightarrow> step list" where
  "diff_snapshots prev now =
     (let rs = table_renames prev now; renamed_from = map fst rs; renamed_to = map snd rs in
      map (\<lambda>(from, to). Step_Rename_Table from to (Option.bind (find_table prev from) t_schema)) rs
      @ map Create_Table
          (filter (\<lambda>t. find_table prev (t_name t) = None \<and> t_name t \<notin> set renamed_to) (s_tables now))
      @ concat (map (survivor_steps prev now renamed_to) (s_tables now))
      @ map (\<lambda>t. Drop_Table (t_name t) (t_schema t))
          (filter (\<lambda>t. find_table now (t_name t) = None \<and> t_name t \<notin> set renamed_from) (s_tables prev))
      @ diff_scopes prev now)"

subsection \<open>Presentation\<close>

definition arrow :: str where
  "arrow = [CHR 0xE2, CHR 0x86, CHR 0x92]"

definition tick :: "str \<Rightarrow> str" where
  "tick s = [backtick] @ s @ [backtick]"

definition or_default :: "str option \<Rightarrow> str" where
  "or_default m = (case m of Some s \<Rightarrow> s | None \<Rightarrow> ''(default)'')"

fun describe :: "step \<Rightarrow> str" where
  "describe (Create_Table t) = ''new table '' @ tick (t_name t)"
| "describe (Drop_Table n _) = ''dropped table '' @ tick n"
| "describe (Add_Column t _ c) = ''added column '' @ tick (t @ ''.'' @ c_name c)"
| "describe (Drop_Column t _ c) = ''dropped column '' @ tick (t @ ''.'' @ c)"
| "describe (Alter_Column t _ c _ _) = ''altered column '' @ tick (t @ ''.'' @ c)"
| "describe (Add_Index _ _ i) = ''added index '' @ tick (ix_name i)"
| "describe (Add_Unique _ _ i) = ''added index '' @ tick (ix_name i)"
| "describe (Drop_Index _ _ n) = ''dropped index '' @ tick n"
| "describe (Drop_Unique _ _ n) = ''dropped index '' @ tick n"
| "describe (Add_Foreign_Key t _ f) = ''added foreign key '' @ tick (t @ ''.'' @ fk_label f)"
| "describe (Drop_Foreign_Key t _ cols) = ''dropped foreign key '' @ tick (t @ ''.'' @ join '', '' cols)"
| "describe (Step_Rename_Table from to _) = ''renamed table '' @ tick from @ '' '' @ arrow @ '' '' @ tick to"
| "describe (Step_Rename_Column t _ from to) =
     ''renamed column '' @ tick (t @ ''.'' @ from) @ '' '' @ arrow @ '' '' @ tick to"
| "describe (Alter_Schema t from to) =
     ''moved table '' @ tick t @ '' from schema '' @ tick (or_default from) @ '' '' @ arrow @ '' ''
     @ tick (or_default to)"
| "describe (Raw_Step d _) = ''raw('' @ dialect_name d @ '') step''"
| "describe (Scope_Change _) = ''scope contract change''"

end
