(* ===== verification/Scan.thy ===== *)
theory Scan
  imports Diff
begin

text \<open>
  \<open>based-codegen/src/migrate/script/scan.rs\<close>: splitting an authored script into the format
  marker, its structural residue, the \<open>raw(\<dots>)\<close> escapes and the data steps. Where the source
  keeps an index into the lines, the model keeps the lines from that index on.
\<close>

datatype item_kind =
    Item_Raw step
  | Item_Data str

record item =
  it_line :: nat
  it_after :: nat
  it_kind :: item_kind

record scanned =
  sc_in_order :: bool
  sc_structural :: "str list"
  sc_items :: "item list"
  sc_saw_raw :: bool

datatype entry =
    Marker
  | Raw_Entry "step option"
  | Data_Entry str
  | Structural str

definition format_marker :: str where
  "format_marker = ''format 2''"

definition is_canonical :: "str \<Rightarrow> bool" where
  "is_canonical line \<longleftrightarrow> (let t = trim line in t \<noteq> [] \<and> \<not> starts_with ''#'' t)"

subsection \<open>Raw regions\<close>

definition raw_line_opener :: "str \<Rightarrow> (str \<times> str) option" where
  "raw_line_opener line =
     Option.bind (strip_prefix ''raw('' (trim line)) (\<lambda>rest.
     Option.bind (split_once '')'' rest) (\<lambda>(tok, after).
     Option.bind (split_once [backtick] after) (\<lambda>(_, opener).
     Some (trim tok, opener))))"

text \<open>The lines up to the first lone backtick, and the lines after it.\<close>

fun split_at_tick :: "str list \<Rightarrow> (str list \<times> str list) option" where
  "split_at_tick [] = None"
| "split_at_tick (l # ls) =
     (if trim l = [backtick] then Some ([], ls)
      else map_option (\<lambda>(a, b). (l # a, b)) (split_at_tick ls))"

definition raw_body :: "str list \<Rightarrow> str \<Rightarrow> (str \<times> str list) option" where
  "raw_body rest opener = (case rsplit_char backtick opener of
       Some (body, _) \<Rightarrow> Some (trim body, rest)
     | None \<Rightarrow> map_option (\<lambda>(ls, after). (trim (join nl (trim opener # ls)), after)) (split_at_tick rest))"

definition raw_step :: "str \<Rightarrow> str \<Rightarrow> step option" where
  "raw_step tok sql =
     (case (if tok = ''sqlite'' then Some Sqlite
            else if tok = ''mysql'' then Some My_Sql
            else if tok = ''mariadb'' then Some Maria_Db
            else if tok = ''postgres'' \<or> tok = ''postgresql'' then Some Postgres
            else None) of
        None \<Rightarrow> None
      | Some d \<Rightarrow> (if sql = [] then None else Some (Raw_Step d sql)))"

subsection \<open>Data steps\<close>

definition is_data_opener :: "str \<Rightarrow> bool" where
  "is_data_opener trimmed = (case split_whitespace trimmed of
       a # b # ws \<Rightarrow>
         if a = ''update'' \<or> a = ''delete'' then True
         else if a = ''create'' then
           (if b = ''table'' then
              (case ws of name # _ \<Rightarrow> starts_with ''{'' name \<or> starts_with ''['' name | [] \<Rightarrow> True)
            else True)
         else False
     | _ \<Rightarrow> False)"

definition continues :: "str list \<Rightarrow> bool" where
  "continues next = (case next of
       [] \<Rightarrow> False
     | l # _ \<Rightarrow> starts_with ''on conflict'' (trim_start l) \<or> starts_with ''chunk '' (trim_start l))"

fun bracket_delta_from :: "bool \<Rightarrow> bool \<Rightarrow> int \<Rightarrow> str \<Rightarrow> int" where
  "bracket_delta_from in_str escaped depth [] = depth"
| "bracket_delta_from in_str escaped depth (c # s) =
     (if in_str then
        (if escaped then bracket_delta_from True False depth s
         else if c = backslash then bracket_delta_from True True depth s
         else if c = dq then bracket_delta_from False escaped depth s
         else bracket_delta_from True escaped depth s)
      else if c = dq then bracket_delta_from True escaped depth s
      else if c = CHR ''#'' then depth
      else if c = CHR ''('' \<or> c = CHR ''['' \<or> c = CHR ''{'' then bracket_delta_from in_str escaped (depth + 1) s
      else if c = CHR '')'' \<or> c = CHR '']'' \<or> c = CHR ''}'' then bracket_delta_from in_str escaped (depth - 1) s
      else bracket_delta_from in_str escaped depth s)"

definition bracket_delta :: "str \<Rightarrow> int" where
  "bracket_delta line = bracket_delta_from False False 0 line"

text \<open>\<open>data_extent\<close>: the lines of the data step that starts the list, and the lines after it.\<close>

fun data_extent :: "int \<Rightarrow> str list \<Rightarrow> str list \<times> str list" where
  "data_extent depth [] = ([], [])"
| "data_extent depth (l # ls) =
     (let d = depth + bracket_delta l in
      if d \<le> 0 \<and> \<not> continues ls then ([l], ls)
      else case data_extent d ls of (a, b) \<Rightarrow> (l # a, b))"

subsection \<open>The scan\<close>

definition entry_at :: "str \<Rightarrow> str list \<Rightarrow> entry \<times> str list" where
  "entry_at line rest =
     (let trimmed = trim line in
      if trimmed = format_marker then (Marker, rest)
      else case Option.bind (raw_line_opener line)
                  (\<lambda>(tok, opener). map_option (\<lambda>(sql, next). (raw_step tok sql, next)) (raw_body rest opener)) of
          Some (st, next) \<Rightarrow> (Raw_Entry st, next)
        | None \<Rightarrow>
            if is_data_opener trimmed then
              (case data_extent 0 (line # rest) of (ls, next) \<Rightarrow> (Data_Entry (join nl ls), next))
            else (Structural line, rest))"

lemma split_at_tick_length: "split_at_tick ls = Some (a, b) \<Longrightarrow> length b < length ls"
  by (induction ls arbitrary: a) (auto split: if_splits)

lemma data_extent_snd: "length (snd (data_extent d ls)) \<le> length ls"
  by (induction d ls rule: data_extent.induct) (auto simp: Let_def split: prod.splits)

lemma data_extent_length: "data_extent d ls = (a, b) \<Longrightarrow> length b \<le> length ls"
  using data_extent_snd [of d ls] by simp

lemma data_extent_consumes: "data_extent d (l # ls) = (a, b) \<Longrightarrow> length b \<le> length ls"
  using data_extent_snd [of "d + bracket_delta l" ls]
  by (auto simp: Let_def split: if_splits prod.splits)

lemma entry_at_length:
  assumes "entry_at line rest = (e, next)"
  shows "length next \<le> length rest"
proof (cases "trim line = format_marker")
  case True
  then show ?thesis using assms by (simp add: entry_at_def)
next
  case False
  note nm = False
  show ?thesis
  proof (cases "Option.bind (raw_line_opener line)
      (\<lambda>(tok, opener). map_option (\<lambda>(sql, next). (raw_step tok sql, next)) (raw_body rest opener))")
    case None
    then show ?thesis using assms nm
      by (auto simp: entry_at_def Let_def simp del: data_extent.simps dest: data_extent_consumes split: if_splits prod.splits)
  next
    case (Some p)
    then have "p = (case e of Raw_Entry st \<Rightarrow> st, next)"
      using assms nm by (cases p) (auto simp: entry_at_def Let_def)
    then show ?thesis using Some
      by (auto simp: bind_eq_Some_conv raw_body_def dest: split_at_tick_length split: option.splits)
  qed
qed

definition item_at :: "nat \<Rightarrow> nat \<Rightarrow> item_kind \<Rightarrow> item" where
  "item_at line canonical k = \<lparr>it_line = line, it_after = canonical, it_kind = k\<rparr>"

definition raw_items :: "nat \<Rightarrow> nat \<Rightarrow> step option \<Rightarrow> item list" where
  "raw_items line canonical st = (case st of None \<Rightarrow> [] | Some s \<Rightarrow> [item_at line canonical (Item_Raw s)])"

function scan_from :: "nat \<Rightarrow> nat \<Rightarrow> str list \<Rightarrow> scanned \<Rightarrow> scanned" where
  "scan_from line canonical [] out = out"
| "scan_from line canonical (l # rest) out =
     (case entry_at l rest of (kind, next) \<Rightarrow>
      let line' = line + (length (l # rest) - length next) in
      case kind of
        Marker \<Rightarrow> scan_from line' canonical next (out\<lparr>sc_in_order := True\<rparr>)
      | Raw_Entry st \<Rightarrow>
          scan_from line' canonical next
            (out\<lparr>sc_saw_raw := True, sc_items := sc_items out @ raw_items line canonical st\<rparr>)
      | Data_Entry text \<Rightarrow>
          scan_from line' canonical next (out\<lparr>sc_items := sc_items out @ [item_at line canonical (Item_Data text)]\<rparr>)
      | Structural s \<Rightarrow>
          scan_from line' (if is_canonical s then Suc canonical else canonical) next
            (out\<lparr>sc_structural := sc_structural out @ [s]\<rparr>))"
  by pat_completeness auto
termination
  by (relation "measure (\<lambda>(_, _, ls, _). length ls)") (auto dest!: entry_at_length [OF sym])

definition scan :: "str \<Rightarrow> scanned" where
  "scan up_text = scan_from 1 0 (lines up_text)
     \<lparr>sc_in_order = False, sc_structural = [], sc_items = [], sc_saw_raw = False\<rparr>"

subsection \<open>What callers read of a scan\<close>

definition is_data_item :: "item \<Rightarrow> bool" where
  "is_data_item i = (case it_kind i of Item_Data _ \<Rightarrow> True | Item_Raw _ \<Rightarrow> False)"

definition has_data_step :: "str \<Rightarrow> bool" where
  "has_data_step up_text = list_ex is_data_item (sc_items (scan up_text))"

definition parse_raw_steps :: "str \<Rightarrow> step list" where
  "parse_raw_steps up_text = List.map_filter
     (\<lambda>i. case it_kind i of Item_Raw s \<Rightarrow> Some s | Item_Data _ \<Rightarrow> None) (sc_items (scan up_text))"

definition has_raw_step :: "str \<Rightarrow> bool" where
  "has_raw_step up_text = sc_saw_raw (scan up_text)"

definition strip_raw_steps :: "str \<Rightarrow> str" where
  "strip_raw_steps up_text = join nl (sc_structural (scan up_text))"

end
