(* ===== verification/Keyed_Store.thy ===== *)
theory Keyed_Store
  imports Prelude
begin

text \<open>
  What the evolver relies on of a collection of named parts (the tables of a snapshot, the
  columns, indexes and foreign keys of a table): replacing, removing and altering by key.
  The contract is a locale; its consequences, proved once, say what a whole run of edits
  leaves at each key and when two stores are the same. \<open>put_by\<close>, \<open>del_by\<close> and \<open>alter_by\<close> are
  the list operations of \<open>evolve.rs\<close>, which the component theories show to satisfy it.
\<close>

subsection \<open>Edits\<close>

datatype ('k, 'a) edit =
    Put 'a
  | Del 'k
  | Alter 'k 'a

fun edit_key :: "('a \<Rightarrow> 'k) \<Rightarrow> ('k, 'a) edit \<Rightarrow> 'k" where
  "edit_key key (Put x) = key x"
| "edit_key key (Del k) = k"
| "edit_key key (Alter k x) = k"

text \<open>What an edit of the key does to the entry there.\<close>

fun edit_entry :: "('k, 'a) edit \<Rightarrow> 'a option \<Rightarrow> 'a option" where
  "edit_entry (Put x) m = Some x"
| "edit_entry (Del k) m = None"
| "edit_entry (Alter k x) m = (if m = None then None else Some x)"

definition edit_ok :: "('a \<Rightarrow> 'k) \<Rightarrow> ('k, 'a) edit \<Rightarrow> bool" where
  "edit_ok key e = (case e of Alter k x \<Rightarrow> key x = k | _ \<Rightarrow> True)"

definition no_alter :: "('k, 'a) edit \<Rightarrow> bool" where
  "no_alter e = (case e of Alter k x \<Rightarrow> False | _ \<Rightarrow> True)"

subsection \<open>Stores changed entry by entry\<close>

text \<open>An event changes the entry at its key, by its effect, and nothing else; entries determine
  the store.\<close>

locale entry_store =
  fixes find_at :: "'s \<Rightarrow> 'k \<Rightarrow> 'a option"
    and ok :: "'s \<Rightarrow> bool"
    and app :: "'e \<Rightarrow> 's \<Rightarrow> 's"
    and at :: "'e \<Rightarrow> 'k option"
    and effect :: "'e \<Rightarrow> 'a option \<Rightarrow> 'a option"
    and valid :: "'e \<Rightarrow> bool"
  assumes ok_app: "ok s \<Longrightarrow> valid e \<Longrightarrow> ok (app e s)"
    and find_app: "ok s \<Longrightarrow> valid e \<Longrightarrow>
      find_at (app e s) k = (if at e = Some k then effect e (find_at s k) else find_at s k)"
    and ext: "ok s \<Longrightarrow> ok s' \<Longrightarrow> (\<And>k. find_at s k = find_at s' k) \<Longrightarrow> s = s'"
begin

lemma ok_run: "ok s \<Longrightarrow> list_all valid es \<Longrightarrow> ok (fold app es s)"
  by (induction es arbitrary: s) (auto simp: ok_app)

text \<open>Only the events of a key matter to its entry, in their order.\<close>

lemma find_run:
  "ok s \<Longrightarrow> list_all valid es \<Longrightarrow>
   find_at (fold app es s) k = fold effect (filter (\<lambda>e. at e = Some k) es) (find_at s k)"
  by (induction es arbitrary: s) (auto simp: ok_app find_app)

text \<open>A run reaches a target when the events of each key leave the target's entry.\<close>

lemma run_reaches:
  assumes "ok s" "ok s'" "list_all valid es"
    "\<And>k. fold effect (filter (\<lambda>e. at e = Some k) es) (find_at s k) = find_at s' k"
  shows "fold app es s = s'"
  using assms by (intro ext) (simp_all add: ok_run find_run)

text \<open>Two runs that order the events of each key alike end in the same store.\<close>

lemma run_reorder:
  assumes "ok s" "list_all valid es" "list_all valid es'"
    "\<And>k. filter (\<lambda>e. at e = Some k) es = filter (\<lambda>e. at e = Some k) es'"
  shows "fold app es s = fold app es' s"
  using assms by (intro ext) (simp_all add: ok_run find_run)

end

subsection \<open>The contract of a keyed store\<close>

locale keyed_store =
  fixes key :: "'a \<Rightarrow> 'k"
    and find_at :: "'s \<Rightarrow> 'k \<Rightarrow> 'a option"
    and put :: "'a \<Rightarrow> 's \<Rightarrow> 's"
    and del :: "'k \<Rightarrow> 's \<Rightarrow> 's"
    and ok :: "'s \<Rightarrow> bool"
  assumes find_put: "ok s \<Longrightarrow> find_at (put x s) k = (if k = key x then Some x else find_at s k)"
    and find_del: "ok s \<Longrightarrow> find_at (del j s) k = (if k = j then None else find_at s k)"
    and ok_put: "ok s \<Longrightarrow> ok (put x s)"
    and ok_del: "ok s \<Longrightarrow> ok (del j s)"
    and entries: "ok s \<Longrightarrow> ok s' \<Longrightarrow> (\<And>k. find_at s k = find_at s' k) \<Longrightarrow> s = s'"
begin

fun put_del :: "('k, 'a) edit \<Rightarrow> 's \<Rightarrow> 's" where
  "put_del (Put x) s = put x s"
| "put_del (Del k) s = del k s"
| "put_del (Alter k x) s = s"

lemma put_absorbs: "ok s \<Longrightarrow> key x = key y \<Longrightarrow> put y (put x s) = put y s"
  by (intro entries) (auto simp: ok_put find_put)

lemma del_put_absent: "ok s \<Longrightarrow> find_at s (key x) = None \<Longrightarrow> del (key x) (put x s) = s"
  by (intro entries) (auto simp: ok_put ok_del find_put find_del)

end

sublocale keyed_store \<subseteq> edits: entry_store find_at ok put_del "\<lambda>e. Some (edit_key key e)" edit_entry no_alter
proof
  fix s s' :: 's and e :: "('k, 'a) edit" and k :: 'k
  show "ok s \<Longrightarrow> no_alter e \<Longrightarrow> ok (put_del e s)"
    by (cases e) (auto simp: ok_put ok_del no_alter_def)
  show "ok s \<Longrightarrow> no_alter e \<Longrightarrow>
      find_at (put_del e s) k = (if Some (edit_key key e) = Some k then edit_entry e (find_at s k) else find_at s k)"
    by (cases e) (auto simp: find_put find_del no_alter_def)
  show "ok s \<Longrightarrow> ok s' \<Longrightarrow> (\<And>k. find_at s k = find_at s' k) \<Longrightarrow> s = s'" by (rule entries)
qed

text \<open>A store whose entries can also be altered in place.\<close>

locale altering_store = keyed_store key find_at put del ok
  for key :: "'a \<Rightarrow> 'k" and find_at :: "'s \<Rightarrow> 'k \<Rightarrow> 'a option"
    and put :: "'a \<Rightarrow> 's \<Rightarrow> 's" and del :: "'k \<Rightarrow> 's \<Rightarrow> 's" and ok :: "'s \<Rightarrow> bool" +
  fixes alter :: "'k \<Rightarrow> 'a \<Rightarrow> 's \<Rightarrow> 's"
  assumes find_alter: "ok s \<Longrightarrow> key x = j \<Longrightarrow>
      find_at (alter j x s) k = (if k = j \<and> find_at s j \<noteq> None then Some x else find_at s k)"
    and ok_alter: "ok s \<Longrightarrow> key x = j \<Longrightarrow> ok (alter j x s)"
begin

fun edit :: "('k, 'a) edit \<Rightarrow> 's \<Rightarrow> 's" where
  "edit (Put x) s = put x s"
| "edit (Del k) s = del k s"
| "edit (Alter k x) s = alter k x s"

end

sublocale altering_store \<subseteq> changes: entry_store find_at ok edit "\<lambda>e. Some (edit_key key e)" edit_entry "edit_ok key"
proof
  fix s s' :: 's and e :: "('k, 'a) edit" and k :: 'k
  show "ok s \<Longrightarrow> edit_ok key e \<Longrightarrow> ok (edit e s)"
    by (cases e) (auto simp: ok_put ok_del ok_alter edit_ok_def)
  show "ok s \<Longrightarrow> edit_ok key e \<Longrightarrow>
      find_at (edit e s) k = (if Some (edit_key key e) = Some k then edit_entry e (find_at s k) else find_at s k)"
    by (cases e) (auto simp: find_put find_del find_alter edit_ok_def)
  show "ok s \<Longrightarrow> ok s' \<Longrightarrow> (\<And>k. find_at s k = find_at s' k) \<Longrightarrow> s = s'" by (rule entries)
qed

text \<open>A store observed through a view of its entries, for targets that agree only up to it.\<close>

locale viewed_store = altering_store key find_at put del ok alter
  for key :: "'a \<Rightarrow> 'k" and find_at :: "'s \<Rightarrow> 'k \<Rightarrow> 'a option"
    and put :: "'a \<Rightarrow> 's \<Rightarrow> 's" and del :: "'k \<Rightarrow> 's \<Rightarrow> 's" and ok :: "'s \<Rightarrow> bool"
    and alter :: "'k \<Rightarrow> 'a \<Rightarrow> 's \<Rightarrow> 's" +
  fixes items :: "'s \<Rightarrow> 'a list" and view :: "'a \<Rightarrow> 'v"
  assumes view_ext: "ok s \<Longrightarrow> ok s' \<Longrightarrow>
      (\<And>k. map_option view (find_at s k) = map_option view (find_at s' k)) \<Longrightarrow>
      map view (items s) = map view (items s')"
begin

lemma run_reaches_view:
  assumes "ok s" "ok s'" "list_all (edit_ok key) es"
    "\<And>k. map_option view (fold edit_entry (filter (\<lambda>e. edit_key key e = k) es) (find_at s k))
        = map_option view (find_at s' k)"
  shows "map view (items (fold edit es s)) = map view (items s')"
  using assms by (intro view_ext) (simp_all add: changes.ok_run changes.find_run)

end

subsection \<open>The list operations\<close>

text \<open>\<open>put_named\<close>: drop the entry with that key, push the new one, sort stably.\<close>

definition put_by :: "('a \<Rightarrow> 'k) \<Rightarrow> ('a \<Rightarrow> 'o::linorder) \<Rightarrow> 'a \<Rightarrow> 'a list \<Rightarrow> 'a list" where
  "put_by key ord x xs = sort_key ord (filter (\<lambda>y. key y \<noteq> key x) xs @ [x])"

definition del_by :: "('a \<Rightarrow> 'k) \<Rightarrow> 'k \<Rightarrow> 'a list \<Rightarrow> 'a list" where
  "del_by key k xs = filter (\<lambda>y. key y \<noteq> k) xs"

definition alter_by :: "('a \<Rightarrow> 'k) \<Rightarrow> 'k \<Rightarrow> 'a \<Rightarrow> 'a list \<Rightarrow> 'a list" where
  "alter_by key k x xs = update_first (\<lambda>y. key y = k) (\<lambda>_. x) xs"

definition find_by :: "('a \<Rightarrow> 'k) \<Rightarrow> 'a list \<Rightarrow> 'k \<Rightarrow> 'a option" where
  "find_by key xs k = find (\<lambda>y. key y = k) xs"

definition keyed_ok :: "('a \<Rightarrow> 'k) \<Rightarrow> ('a \<Rightarrow> 'o::linorder) \<Rightarrow> 'a list \<Rightarrow> bool" where
  "keyed_ok key ord xs \<longleftrightarrow> sorted (map ord xs) \<and> distinct (map key xs)"

lemma find_by_key: "find_by key xs k = Some x \<Longrightarrow> key x = k"
  by (auto simp: find_by_def dest: find_SomeD)

text \<open>The contract on lists: the order refines the key, and a replacement keeps its place.\<close>

lemma find_by_iff: "distinct (map key xs) \<Longrightarrow> find_by key xs k = Some x \<longleftrightarrow> x \<in> set xs \<and> key x = k"
  by (simp add: find_by_def find_distinct_key)

lemma find_by_None: "find_by key xs k = None \<longleftrightarrow> k \<notin> key ` set xs"
  by (simp add: find_by_def find_None_map_iff)

lemma option_eqI: "(\<And>x. a = Some x \<longleftrightarrow> b = Some x) \<Longrightarrow> a = b"
  by (cases a; cases b) auto

lemma keyed_put:
  assumes "keyed_ok key ord xs"
  shows "keyed_ok key ord (put_by key ord x xs)"
    and "find_by key (put_by key ord x xs) k = (if k = key x then Some x else find_by key xs k)"
proof -
  have d: "distinct (map key (filter (\<lambda>y. key y \<noteq> key x) xs @ [x]))"
    using assms by (auto simp: keyed_ok_def distinct_map_filter)
  then have "distinct (map key (put_by key ord x xs))"
    by (simp add: put_by_def distinct_map)
  then show "keyed_ok key ord (put_by key ord x xs)" by (simp add: keyed_ok_def put_by_def)
  show "find_by key (put_by key ord x xs) k = (if k = key x then Some x else find_by key xs k)"
  proof (rule option_eqI)
    fix y
    show "find_by key (put_by key ord x xs) k = Some y \<longleftrightarrow> (if k = key x then Some x else find_by key xs k) = Some y"
      using find_by_iff [OF \<open>distinct (map key (put_by key ord x xs))\<close>, of k y] assms
      by (auto simp: put_by_def keyed_ok_def find_by_iff)
  qed
qed

lemma keyed_del:
  assumes "keyed_ok key ord xs"
  shows "keyed_ok key ord (del_by key j xs)"
    and "find_by key (del_by key j xs) k = (if k = j then None else find_by key xs k)"
  using assms find_filter_key [of key k j xs]
  by (auto simp: keyed_ok_def del_by_def distinct_map_filter sorted_filter find_by_def)

lemma keyed_alter:
  assumes "keyed_ok key ord xs" "\<And>y. key y = j \<Longrightarrow> y \<in> set xs \<Longrightarrow> ord x = ord y" "key x = j"
  shows "keyed_ok key ord (alter_by key j x xs)"
    and "find_by key (alter_by key j x xs) k
      = (if k = j \<and> find_by key xs j \<noteq> None then Some x else find_by key xs k)"
proof -
  have u: "alter_by key j x xs = map (\<lambda>y. if key y = j then x else y) xs"
    using assms(1) by (simp add: alter_by_def keyed_ok_def update_first_distinct)
  have "map ord (alter_by key j x xs) = map ord xs" "map key (alter_by key j x xs) = map key xs"
    unfolding u using assms(2,3) by auto
  then show ok: "keyed_ok key ord (alter_by key j x xs)"
    using assms(1) by (simp add: keyed_ok_def)
  have "find_by key (alter_by key j x xs) k = map_option (\<lambda>y. if key y = j then x else y) (find_by key xs k)"
    unfolding u find_by_def by (rule find_map_same_key) (simp add: assms(3))
  then show "find_by key (alter_by key j x xs) k
      = (if k = j \<and> find_by key xs j \<noteq> None then Some x else find_by key xs k)"
  proof (cases "find_by key xs k")
    case (Some z)
    then have "key z = k" by (auto simp: find_by_def dest: find_SomeD)
    then show ?thesis using Some \<open>find_by key (alter_by key j x xs) k = _\<close> by auto
  qed auto
qed

lemma keyed_ext:
  assumes "keyed_ok key ord xs" "keyed_ok key ord ys" "\<And>x y. ord x = ord y \<Longrightarrow> key x = key y"
    "\<And>k. find_by key xs k = find_by key ys k"
  shows "xs = ys"
proof -
  have d: "distinct (map key xs)" "distinct (map key ys)" using assms(1,2) by (simp_all add: keyed_ok_def)
  have mem: "x \<in> set xs \<longleftrightarrow> x \<in> set ys" for x
    using find_by_iff [OF d(1), of "key x" x] find_by_iff [OF d(2), of "key x" x] assms(4) [of "key x"] by simp
  then have set: "set xs = set ys" by blast
  have "inj_on key (set xs)" using d by (simp add: distinct_map)
  then have "inj_on ord (set xs)" using assms(3) unfolding inj_on_def by blast
  then have "distinct (map ord xs)" using d(1) by (simp add: distinct_map)
  moreover have "sorted (map ord xs)" "sorted (map ord ys)" "distinct ys"
    using assms(1,2) d by (auto simp: keyed_ok_def distinct_map)
  ultimately have "sort_key ord ys = xs" using set by (intro sort_key_distinct_unique)
  moreover have "sort_key ord ys = ys" using \<open>sorted (map ord ys)\<close> by (rule sort_key_id_if_sorted)
  ultimately show ?thesis by simp
qed

text \<open>Stores sorted by their key that agree through a view at each key.\<close>

lemma keyed_view_ext:
  assumes "keyed_ok key key xs" "keyed_ok key key ys"
    "\<And>k. map_option v (find_by key xs k) = map_option v (find_by key ys k)"
  shows "map v xs = map v ys"
proof -
  have d: "distinct (map key xs)" "distinct (map key ys)" using assms(1,2) by (simp_all add: keyed_ok_def)
  have "find_by key xs k = None \<longleftrightarrow> find_by key ys k = None" for k
    using assms(3) [of k] by (metis option.map_disc_iff)
  then have "key ` set xs = key ` set ys" unfolding find_by_None by blast
  then have keys: "map key xs = map key ys"
    using assms(1,2) by (intro sorted_distinct_set_unique) (auto simp: keyed_ok_def)
  then have len: "length xs = length ys" by (metis length_map)
  show ?thesis
  proof (rule nth_equalityI)
    fix i
    assume "i < length (map v xs)"
    then have i: "i < length xs" "i < length ys" using len by simp_all
    then have k: "key (xs ! i) = key (ys ! i)" using keys by (metis nth_map)
    have "find_by key xs (key (xs ! i)) = Some (xs ! i)" using i d by (simp add: find_by_iff)
    moreover have "find_by key ys (key (xs ! i)) = Some (ys ! i)" using i d k by (simp add: find_by_iff)
    ultimately show "map v xs ! i = map v ys ! i"
      using assms(3) [of "key (xs ! i)"] i by simp
  qed (simp add: len)
qed

end
