(* ===== verification/Evolve.thy ===== *)
theory Evolve
  imports Diff Keyed_Store
begin

text \<open>
  \<open>based-codegen/src/migrate/evolve.rs\<close>: advancing a snapshot by one structural step, and
  \<open>step_order.rs\<close>: the order of a \<open>format 2\<close> script. The collections of a snapshot and of a
  table satisfy the keyed-store contract, and a run of steps is a run of edits on each.
\<close>

subsection \<open>Evolving one table\<close>

definition put_named :: "('a \<Rightarrow> str) \<Rightarrow> 'a \<Rightarrow> 'a list \<Rightarrow> 'a list" where
  "put_named name = put_by name name"

definition rename_str :: "str \<Rightarrow> str \<Rightarrow> str \<Rightarrow> str" where
  "rename_str from to c = (if c = from then to else c)"

definition rename_in_table :: "str \<Rightarrow> str \<Rightarrow> table_snap \<Rightarrow> table_snap" where
  "rename_in_table from to t =
     t\<lparr>t_columns := sort_key c_name (map (\<lambda>c. c\<lparr>c_name := rename_str from to (c_name c)\<rparr>) (t_columns t)),
       t_pk := map (rename_str from to) (t_pk t),
       t_indexes := map (\<lambda>i. i\<lparr>ix_columns := map (rename_str from to) (ix_columns i)\<rparr>) (t_indexes t),
       t_foreign_keys := map (\<lambda>f. f\<lparr>f_columns := map (rename_str from to) (f_columns f)\<rparr>) (t_foreign_keys t),
       t_soft_delete := map_option (\<lambda>(c, m). (rename_str from to c, m)) (t_soft_delete t)\<rparr>"

fun evolve_table :: "step \<Rightarrow> table_snap \<Rightarrow> table_snap" where
  "evolve_table (Add_Column _ _ c) t = t\<lparr>t_columns := put_named c_name c (t_columns t)\<rparr>"
| "evolve_table (Drop_Column _ _ n) t = t\<lparr>t_columns := del_by c_name n (t_columns t)\<rparr>"
| "evolve_table (Alter_Column _ _ n _ after) t = t\<lparr>t_columns := alter_by c_name n after (t_columns t)\<rparr>"
| "evolve_table (Step_Rename_Column _ _ from to) t = rename_in_table from to t"
| "evolve_table (Add_Index _ _ i) t = t\<lparr>t_indexes := put_named ix_name i (t_indexes t)\<rparr>"
| "evolve_table (Add_Unique _ _ i) t = t\<lparr>t_indexes := put_named ix_name i (t_indexes t)\<rparr>"
| "evolve_table (Drop_Index _ _ n) t = t\<lparr>t_indexes := del_by ix_name n (t_indexes t)\<rparr>"
| "evolve_table (Drop_Unique _ _ n) t = t\<lparr>t_indexes := del_by ix_name n (t_indexes t)\<rparr>"
| "evolve_table (Add_Foreign_Key _ _ f) t = t\<lparr>t_foreign_keys := put_by f_columns fk_key f (t_foreign_keys t)\<rparr>"
| "evolve_table (Drop_Foreign_Key _ _ cols) t = t\<lparr>t_foreign_keys := del_by f_columns cols (t_foreign_keys t)\<rparr>"
| "evolve_table _ t = t"

subsection \<open>Evolving a snapshot\<close>

text \<open>\<open>table_mut(snap, name)\<close> with its update.\<close>

definition on_table :: "str \<Rightarrow> (table_snap \<Rightarrow> table_snap) \<Rightarrow> table_snap list \<Rightarrow> table_snap list" where
  "on_table n f ts = update_first (\<lambda>t. t_name t = n) f ts"

definition retarget :: "str \<Rightarrow> str \<Rightarrow> table_snap \<Rightarrow> table_snap" where
  "retarget from to t = t\<lparr>t_foreign_keys :=
     map (\<lambda>f. if f_ref_table f = from then f\<lparr>f_ref_table := to\<rparr> else f) (t_foreign_keys t)\<rparr>"

fun evolve_tables :: "step \<Rightarrow> table_snap list \<Rightarrow> table_snap list" where
  "evolve_tables (Create_Table t) ts = put_named t_name t ts"
| "evolve_tables (Drop_Table n _) ts = del_by t_name n ts"
| "evolve_tables (Step_Rename_Table from to _) ts =
     sort_key t_name (map (retarget from to) (on_table from (\<lambda>t. t\<lparr>t_name := to\<rparr>) ts))"
| "evolve_tables (Alter_Schema n _ to) ts = on_table n (\<lambda>t. t\<lparr>t_schema := to\<rparr>) ts"
| "evolve_tables st ts = (case table_name st of
       None \<Rightarrow> ts
     | Some n \<Rightarrow> on_table n (evolve_table st) ts)"

definition evolve :: "step \<Rightarrow> snapshot \<Rightarrow> snapshot" where
  "evolve st s = s\<lparr>s_tables := evolve_tables st (s_tables s)\<rparr>"

lemma fold_evolve: "fold evolve sts s = s\<lparr>s_tables := fold evolve_tables sts (s_tables s)\<rparr>"
  by (induction sts arbitrary: s) (simp_all add: evolve_def)

subsection \<open>Step order\<close>

fun phase :: "step \<Rightarrow> nat" where
  "phase (Drop_Foreign_Key _ _ _) = 0"
| "phase (Drop_Index _ _ _) = 1"
| "phase (Drop_Unique _ _ _) = 1"
| "phase (Add_Index _ _ _) = 3"
| "phase (Add_Unique _ _ _) = 3"
| "phase (Add_Foreign_Key _ _ _) = 4"
| "phase _ = 2"

definition constraint_safe :: "step list \<Rightarrow> step list" where
  "constraint_safe steps = sort_key phase steps"

lemma constraint_safe_perm: "mset (constraint_safe steps) = mset steps"
  by (simp add: constraint_safe_def)

lemma filter_constraint_safe: "filter P (constraint_safe steps) = constraint_safe (filter P steps)"
  by (simp add: constraint_safe_def filter_sort)

subsection \<open>The collections are keyed stores\<close>

text \<open>What a migration promises of a column: every attribute its DDL carries. The \<open>unique\<close> and
  \<open>fk\<close> flags restate the table's indexes and constraints, and no step changes them alone.\<close>

definition col_view :: "column_snap \<Rightarrow> column_snap" where
  "col_view c = c\<lparr>c_unique := False, c_fk := None\<rparr>"

text \<open>What a migration promises of a table.\<close>

definition ddl_view :: "table_snap \<Rightarrow> str \<times> str option \<times> column_snap list \<times> index_snap list \<times> foreign_key_snap list" where
  "ddl_view t = (t_name t, t_schema t, map col_view (t_columns t), t_indexes t, t_foreign_keys t)"

interpretation columns: viewed_store c_name "find_by c_name" "put_named c_name" "del_by c_name"
  "keyed_ok c_name c_name" "alter_by c_name" "\<lambda>cs. cs" col_view
  by unfold_locales
    (simp_all add: put_named_def keyed_put keyed_del keyed_alter, (blast intro: keyed_ext keyed_view_ext)+)

interpretation tables: viewed_store t_name "find_by t_name" "put_named t_name" "del_by t_name"
  "keyed_ok t_name t_name" "alter_by t_name" "\<lambda>ts. ts" ddl_view
  by unfold_locales
    (simp_all add: put_named_def keyed_put keyed_del keyed_alter, (blast intro: keyed_ext keyed_view_ext)+)

interpretation indexes: keyed_store ix_name "find_by ix_name" "put_named ix_name" "del_by ix_name"
  "keyed_ok ix_name ix_name"
  by unfold_locales (simp_all add: put_named_def keyed_put keyed_del, blast intro: keyed_ext)

lemma fk_key_columns: "fk_key f = fk_key g \<Longrightarrow> f_columns f = f_columns g"
  by simp

interpretation fks: keyed_store f_columns "find_by f_columns" "put_by f_columns fk_key" "del_by f_columns"
  "keyed_ok f_columns fk_key"
  by unfold_locales (simp_all add: keyed_put keyed_del, blast intro: keyed_ext fk_key_columns)

subsection \<open>A run of steps, table by table\<close>

text \<open>What a step does to the table it names.\<close>

definition table_step :: "step \<Rightarrow> table_snap \<Rightarrow> table_snap" where
  "table_step st = (case st of Alter_Schema _ _ to \<Rightarrow> t_schema_update (\<lambda>_. to) | _ \<Rightarrow> evolve_table st)"

fun step_effect :: "step \<Rightarrow> table_snap option \<Rightarrow> table_snap option" where
  "step_effect (Create_Table t) m = Some t"
| "step_effect (Drop_Table _ _) m = None"
| "step_effect st m = map_option (table_step st) m"

fun renames_table :: "step \<Rightarrow> bool" where
  "renames_table (Step_Rename_Table _ _ _) = True"
| "renames_table _ = False"

lemma rename_in_table_name [simp]: "t_name (rename_in_table from to t) = t_name t"
  by (simp add: rename_in_table_def)

lemma evolve_table_name [simp]: "t_name (evolve_table st t) = t_name t"
  by (cases st) simp_all

lemma keyed_on_table:
  assumes "keyed_ok t_name t_name ts" "\<And>t. t_name (f t) = t_name t"
  shows "keyed_ok t_name t_name (on_table n f ts)"
    and "find_by t_name (on_table n f ts) k = (if n = k then map_option f (find_by t_name ts k) else find_by t_name ts k)"
proof -
  have u: "on_table n f ts = map (\<lambda>t. if t_name t = n then f t else t) ts"
    using assms(1) by (simp add: on_table_def keyed_ok_def update_first_distinct)
  have "map t_name (on_table n f ts) = map t_name ts" unfolding u using assms(2) by auto
  then show "keyed_ok t_name t_name (on_table n f ts)" using assms(1) by (simp add: keyed_ok_def)
  have "find_by t_name (on_table n f ts) k = map_option (\<lambda>t. if t_name t = n then f t else t) (find_by t_name ts k)"
    unfolding u find_by_def by (rule find_map_same_key) (simp add: assms(2))
  then show "find_by t_name (on_table n f ts) k = (if n = k then map_option f (find_by t_name ts k) else find_by t_name ts k)"
    by (cases "find_by t_name ts k") (auto simp: find_by_def dest!: find_SomeD)
qed

interpretation evolution: entry_store "find_by t_name" "keyed_ok t_name t_name" evolve_tables table_name
  step_effect "\<lambda>st. \<not> renames_table st"
proof
  fix s s' :: "table_snap list" and e :: step and k :: str
  show "keyed_ok t_name t_name s \<Longrightarrow> \<not> renames_table e \<Longrightarrow> keyed_ok t_name t_name (evolve_tables e s)"
    by (cases e) (simp_all add: tables.ok_put tables.ok_del keyed_on_table)
  show "keyed_ok t_name t_name s \<Longrightarrow> \<not> renames_table e \<Longrightarrow>
      find_by t_name (evolve_tables e s) k = (if table_name e = Some k then step_effect e (find_by t_name s k) else find_by t_name s k)"
    by (cases e) (simp_all add: tables.find_put tables.find_del keyed_on_table table_step_def)
  show "keyed_ok t_name t_name s \<Longrightarrow> keyed_ok t_name t_name s' \<Longrightarrow> (\<And>k. find_by t_name s k = find_by t_name s' k) \<Longrightarrow> s = s'"
    by (rule tables.entries)
qed

subsection \<open>A run of steps inside a table\<close>

fun col_edit :: "step \<Rightarrow> (str, column_snap) edit option" where
  "col_edit (Add_Column _ _ c) = Some (Put c)"
| "col_edit (Drop_Column _ _ n) = Some (Del n)"
| "col_edit (Alter_Column _ _ n _ after) = Some (Alter n after)"
| "col_edit _ = None"

fun ix_edit :: "step \<Rightarrow> (str, index_snap) edit option" where
  "ix_edit (Add_Index _ _ i) = Some (Put i)"
| "ix_edit (Add_Unique _ _ i) = Some (Put i)"
| "ix_edit (Drop_Index _ _ n) = Some (Del n)"
| "ix_edit (Drop_Unique _ _ n) = Some (Del n)"
| "ix_edit _ = None"

fun fk_edit :: "step \<Rightarrow> (str list, foreign_key_snap) edit option" where
  "fk_edit (Add_Foreign_Key _ _ f) = Some (Put f)"
| "fk_edit (Drop_Foreign_Key _ _ cols) = Some (Del cols)"
| "fk_edit _ = None"

fun schema_edit :: "step \<Rightarrow> str option \<Rightarrow> str option" where
  "schema_edit (Alter_Schema _ _ to) sc = to"
| "schema_edit _ sc = sc"

fun inside_table :: "step \<Rightarrow> bool" where
  "inside_table (Create_Table _) = False"
| "inside_table (Drop_Table _ _) = False"
| "inside_table (Step_Rename_Table _ _ _) = False"
| "inside_table (Step_Rename_Column _ _ _ _) = False"
| "inside_table _ = True"

lemma table_step_parts:
  assumes "inside_table st"
  shows "t_name (table_step st t) = t_name t"
    "t_schema (table_step st t) = schema_edit st (t_schema t)"
    "t_columns (table_step st t) = (case col_edit st of None \<Rightarrow> t_columns t | Some e \<Rightarrow> columns.edit e (t_columns t))"
    "t_indexes (table_step st t) = (case ix_edit st of None \<Rightarrow> t_indexes t | Some e \<Rightarrow> indexes.put_del e (t_indexes t))"
    "t_foreign_keys (table_step st t) = (case fk_edit st of None \<Rightarrow> t_foreign_keys t | Some e \<Rightarrow> fks.put_del e (t_foreign_keys t))"
  using assms by (cases st; simp add: table_step_def)+

lemma map_filter_simps2 [simp]:
  "List.map_filter f [] = []"
  "List.map_filter f (x # xs) = (case f x of None \<Rightarrow> List.map_filter f xs | Some y \<Rightarrow> y # List.map_filter f xs)"
  "List.map_filter f (xs @ ys) = List.map_filter f xs @ List.map_filter f ys"
  by (simp_all add: List.map_filter_def split: option.split)

lemma fold_table_step:
  assumes "list_all inside_table sts"
  shows "t_name (fold table_step sts t) = t_name t"
    "t_schema (fold table_step sts t) = fold schema_edit sts (t_schema t)"
    "t_columns (fold table_step sts t) = fold columns.edit (List.map_filter col_edit sts) (t_columns t)"
    "t_indexes (fold table_step sts t) = fold indexes.put_del (List.map_filter ix_edit sts) (t_indexes t)"
    "t_foreign_keys (fold table_step sts t) = fold fks.put_del (List.map_filter fk_edit sts) (t_foreign_keys t)"
  using assms by (induction sts arbitrary: t) (simp_all add: table_step_parts split: option.split)

lemma fold_step_effect: "list_all inside_table sts \<Longrightarrow> fold step_effect sts (Some t) = Some (fold table_step sts t)"
proof (induction sts arbitrary: t)
  case (Cons st sts)
  then show ?case by (cases st) simp_all
qed simp

end
