(* ===== verification/Diff_Correct.thy ===== *)
theory Diff_Correct
  imports Evolve
begin

text \<open>
  The diff engine is right: running the steps it derives on the previous snapshot, in either
  order a script can have, reaches the current one. Each collection of a table is followed
  entry by entry through the keyed-store contract; an order that keeps the steps of each
  entry in their order changes nothing.
\<close>

subsection \<open>Either order\<close>

text \<open>The order of a script: the diff's own, or the constraint-safe one of \<open>format 2\<close>.\<close>

definition ordered :: "bool \<Rightarrow> step list \<Rightarrow> step list" where
  "ordered in_order steps = (if in_order then constraint_safe steps else steps)"

lemma filter_ordered: "filter P (ordered b xs) = ordered b (filter P xs)"
  by (simp add: ordered_def filter_constraint_safe)

lemma set_ordered [simp]: "set (ordered b xs) = set xs"
  by (simp add: ordered_def constraint_safe_def)

lemma ordered_sorted: "sorted (map phase xs) \<Longrightarrow> ordered b xs = xs"
  by (simp add: ordered_def constraint_safe_def sort_key_id_if_sorted)

lemma ordered_small [simp]: "ordered b [] = []" "ordered b [x] = [x]"
  by (simp_all add: ordered_sorted)

lemma map_filter_cong_filter:
  "List.map_filter f xs = List.map_filter f (filter (\<lambda>x. f x \<noteq> None) xs)"
  by (induction xs) (auto split: option.split)

lemma filter_map_filter:
  "filter P (List.map_filter f xs) = List.map_filter f (filter (\<lambda>x. case f x of None \<Rightarrow> False | Some y \<Rightarrow> P y) xs)"
  by (induction xs) (auto split: option.split)

text \<open>The edits of one key, when the diff already lists them in phase order.\<close>

lemma edits_ordered:
  assumes "sorted (map phase (filter (\<lambda>x. case f x of None \<Rightarrow> False | Some y \<Rightarrow> P y) steps))"
  shows "filter P (List.map_filter f (ordered b steps)) = filter P (List.map_filter f steps)"
  using assms by (simp add: filter_map_filter filter_ordered ordered_sorted)

subsection \<open>Lists built entry by entry\<close>

lemma keyed_concat:
  assumes "distinct (map key xs)" "\<And>x y. x \<in> set xs \<Longrightarrow> y \<in> set (g x) \<Longrightarrow> K y = Some (key x)"
  shows "filter (\<lambda>y. K y = Some k) (concat (map g xs)) = (case find_by key xs k of None \<Rightarrow> [] | Some x \<Rightarrow> g x)"
  using assms
proof (induction xs)
  case Nil
  then show ?case by (simp add: find_by_def)
next
  case (Cons x xs)
  have IH: "filter (\<lambda>y. K y = Some k) (concat (map g xs)) = (case find_by key xs k of None \<Rightarrow> [] | Some x \<Rightarrow> g x)"
    using Cons by simp
  show ?case
  proof (cases "key x = k")
    case True
    then have "filter (\<lambda>y. K y = Some k) (g x) = g x" using Cons.prems(2) [of x] by (simp add: filter_id_conv)
    moreover have "find_by key xs k = None" using Cons.prems(1) True by (auto simp: find_by_None)
    ultimately show ?thesis using IH True by (simp add: find_by_def)
  next
    case False
    then have "filter (\<lambda>y. K y = Some k) (g x) = []" using Cons.prems(2) [of x] by (simp add: filter_empty_conv)
    then show ?thesis using IH False by (simp add: find_by_def)
  qed
qed

lemma map_filter_concat: "map h (filter P xs) = concat (map (\<lambda>x. if P x then [h x] else []) xs)"
  by (induction xs) auto

lemma concat_map_filter: "concat (map g (filter P xs)) = concat (map (\<lambda>x. if P x then g x else []) xs)"
  by (induction xs) auto

lemma list_all_concat_map: "(\<And>x. x \<in> set xs \<Longrightarrow> list_all P (g x)) \<Longrightarrow> list_all P (concat (map g xs))"
  by (induction xs) auto

lemma find_column_by: "find_column t k = find_by c_name (t_columns t) k"
  by (simp add: find_column_def find_by_def)

lemma find_index_by: "find_index t k = find_by ix_name (t_indexes t) k"
  by (simp add: find_index_def find_by_def)

lemma find_fk_by: "find_fk t k = find_by f_columns (t_foreign_keys t) k"
  by (simp add: find_fk_def find_by_def)

lemma find_table_by: "find_table s k = find_by t_name (s_tables s) k"
  by (simp add: find_table_def find_by_def)

lemma wf_keyed:
  assumes "wf_table t"
  shows "keyed_ok c_name c_name (t_columns t)" "keyed_ok ix_name ix_name (t_indexes t)"
    "keyed_ok f_columns fk_key (t_foreign_keys t)"
  using wf_tableD [OF assms] by (simp_all add: keyed_ok_def)

lemma wf_tables_keyed: "wf_snapshot s \<Longrightarrow> keyed_ok t_name t_name (s_tables s)"
  using wf_snapshotD [of s] by (simp add: keyed_ok_def)

subsection \<open>Columns\<close>

definition col_key :: "step \<Rightarrow> str option" where
  "col_key st = (case col_edit st of None \<Rightarrow> None | Some e \<Rightarrow> Some (edit_key c_name e))"

lemma alter_step_key: "x \<in> set (alter_step now old c) \<Longrightarrow> col_key x = Some (c_name c) \<and> inside_table x
    \<and> table_name x = Some (t_name now) \<and> (\<forall>e. col_edit x = Some e \<longrightarrow> edit_ok c_name e) \<and> phase x = 2"
  by (auto simp: alter_step_def Let_def col_key_def edit_ok_def split: if_splits)

lemma survivor_key: "x \<in> set (survivor_column_steps prev now c) \<Longrightarrow> col_key x = Some (c_name c) \<and> inside_table x
    \<and> table_name x = Some (t_name now) \<and> (\<forall>e. col_edit x = Some e \<longrightarrow> edit_ok c_name e) \<and> phase x = 2"
  by (auto simp: survivor_column_steps_def col_key_def edit_ok_def dest: alter_step_key
      split: option.splits if_splits)

lemma diff_columns_no_renames:
  assumes "column_renames prev now rs = []"
  shows "diff_columns prev now rs =
      concat (map (\<lambda>c. if find_column prev (c_name c) = None then [Add_Column (t_name now) (t_schema now) c] else []) (t_columns now))
      @ concat (map (survivor_column_steps prev now) (t_columns now))
      @ concat (map (\<lambda>c. if find_column now (c_name c) = None then [Drop_Column (t_name now) (t_schema now) (c_name c)] else []) (t_columns prev))"
  by (simp add: diff_columns_def assms map_filter_concat)

lemma diff_columns_steps:
  assumes "column_renames prev now rs = []" "x \<in> set (diff_columns prev now rs)"
  shows "inside_table x \<and> table_name x = Some (t_name now) \<and> col_key x \<noteq> None
    \<and> (\<forall>e. col_edit x = Some e \<longrightarrow> edit_ok c_name e) \<and> phase x = 2"
  using assms(2) unfolding diff_columns_no_renames [OF assms(1)]
  by (auto simp: col_key_def edit_ok_def dest: survivor_key split: if_splits)

lemma diff_columns_at:
  assumes "wf_table prev" "wf_table now" "column_renames prev now rs = []"
  shows "filter (\<lambda>st. col_key st = Some k) (diff_columns prev now rs) =
    (case (find_column prev k, find_column now k) of
       (None, None) \<Rightarrow> []
     | (None, Some c) \<Rightarrow> [Add_Column (t_name now) (t_schema now) c]
     | (Some old, None) \<Rightarrow> [Drop_Column (t_name now) (t_schema now) k]
     | (Some old, Some c) \<Rightarrow> survivor_column_steps prev now c)"
proof -
  have d: "distinct (map c_name (t_columns prev))" "distinct (map c_name (t_columns now))"
    using wf_tableD assms by blast+
  have key: "find_by c_name cs k = Some c \<Longrightarrow> c_name c = k" for cs c
    by (auto simp: find_by_def dest: find_SomeD)
  have add: "filter (\<lambda>st. col_key st = Some k) (concat (map (\<lambda>c. if find_column prev (c_name c) = None then [Add_Column (t_name now) (t_schema now) c] else []) (t_columns now)))
    = (case find_by c_name (t_columns now) k of None \<Rightarrow> [] | Some c \<Rightarrow> if find_column prev (c_name c) = None then [Add_Column (t_name now) (t_schema now) c] else [])"
    by (rule keyed_concat [OF d(2)]) (auto simp: col_key_def split: if_splits)
  have sur: "filter (\<lambda>st. col_key st = Some k) (concat (map (survivor_column_steps prev now) (t_columns now)))
    = (case find_by c_name (t_columns now) k of None \<Rightarrow> [] | Some c \<Rightarrow> survivor_column_steps prev now c)"
    by (rule keyed_concat [OF d(2)]) (auto dest: survivor_key)
  have dro: "filter (\<lambda>st. col_key st = Some k) (concat (map (\<lambda>c. if find_column now (c_name c) = None then [Drop_Column (t_name now) (t_schema now) (c_name c)] else []) (t_columns prev)))
    = (case find_by c_name (t_columns prev) k of None \<Rightarrow> [] | Some c \<Rightarrow> if find_column now (c_name c) = None then [Drop_Column (t_name now) (t_schema now) (c_name c)] else [])"
    by (rule keyed_concat [OF d(1)]) (auto simp: col_key_def split: if_splits)
  show ?thesis
    unfolding diff_columns_no_renames [OF assms(3)] filter_append add sur dro
    by (auto simp: find_column_by survivor_column_steps_def dest: key split: option.split)
qed

lemma col_view_changes:
  "column_changes old c = [] \<Longrightarrow> c_generated old = c_generated c \<Longrightarrow> c_name old = c_name c \<Longrightarrow> col_view old = col_view c"
  by (cases old; cases c) (auto simp: column_changes_def col_view_def split: if_splits option.splits)

lemma survivor_effect:
  assumes "find_column prev (c_name c) = Some old" "c_name old = c_name c"
  shows "map_option col_view (fold edit_entry (List.map_filter col_edit (survivor_column_steps prev now c)) (Some old))
    = Some (col_view c)"
  using assms col_view_changes [of old c]
  by (auto simp: survivor_column_steps_def alter_step_def Let_def)

lemma col_key_filter:
  "filter (\<lambda>e. Some (edit_key c_name e) = Some k) (List.map_filter col_edit sts)
     = List.map_filter col_edit (filter (\<lambda>st. col_key st = Some k) sts)"
  by (induction sts) (auto simp: col_key_def split: option.split)

text \<open>A list of steps whose column steps are the diff's, in their order, ends with its columns.\<close>

lemma columns_reached:
  assumes "wf_table prev" "wf_table now" "column_renames prev now rs = []"
    "list_all (edit_ok c_name) (List.map_filter col_edit sts)"
    "\<And>k. filter (\<lambda>st. col_key st = Some k) sts = filter (\<lambda>st. col_key st = Some k) (diff_columns prev now rs)"
  shows "map col_view (fold columns.edit (List.map_filter col_edit sts) (t_columns prev)) = map col_view (t_columns now)"
proof (rule columns.run_reaches_view)
  show "keyed_ok c_name c_name (t_columns prev)" "keyed_ok c_name c_name (t_columns now)"
    using assms wf_keyed by blast+
  show "list_all (edit_ok c_name) (List.map_filter col_edit sts)" by (rule assms(4))
  fix k
  have key: "find_column t k = Some c \<Longrightarrow> c_name c = k" for t c
    by (auto simp: find_column_def dest: find_SomeD)
  show "map_option col_view (fold edit_entry (filter (\<lambda>e. edit_key c_name e = k) (List.map_filter col_edit sts))
        (find_by c_name (t_columns prev) k))
      = map_option col_view (find_by c_name (t_columns now) k)"
    using col_key_filter [of k sts] survivor_effect [of prev _ "the (find_column prev k)"] key
    unfolding option.inject assms(5) diff_columns_at [OF assms(1-3)] find_column_by [symmetric]
    by (auto split: option.split)
qed

subsection \<open>Indexes\<close>

definition ix_key :: "step \<Rightarrow> str option" where
  "ix_key st = (case ix_edit st of None \<Rightarrow> None | Some e \<Rightarrow> Some (edit_key ix_name e))"

lemma ix_key_filter:
  "filter (\<lambda>e. Some (edit_key ix_name e) = Some k) (List.map_filter ix_edit sts)
     = List.map_filter ix_edit (filter (\<lambda>st. ix_key st = Some k) sts)"
  by (induction sts) (auto simp: ix_key_def split: option.split)

lemma index_steps [simp]:
  "ix_edit (add_index_step now i) = Some (Put i)" "ix_edit (drop_index_step i now) = Some (Del (ix_name i))"
  "col_edit (add_index_step now i) = None" "col_edit (drop_index_step i now) = None"
  "fk_edit (add_index_step now i) = None" "fk_edit (drop_index_step i now) = None"
  "inside_table (add_index_step now i)" "inside_table (drop_index_step i now)"
  "table_name (add_index_step now i) = Some (t_name now)" "table_name (drop_index_step i now) = Some (t_name now)"
  "phase (add_index_step now i) = 3" "phase (drop_index_step i now) = 1"
  "schema_edit (add_index_step now i) = (\<lambda>s. s)" "schema_edit (drop_index_step i now) = (\<lambda>s. s)"
  by (auto simp: add_index_step_def drop_index_step_def)

lemma diff_indexes_steps:
  assumes "x \<in> set (diff_indexes prev now)"
  shows "inside_table x \<and> table_name x = Some (t_name now) \<and> ix_key x \<noteq> None \<and> col_key x = None
    \<and> (\<forall>e. ix_edit x = Some e \<longrightarrow> no_alter e)"
  using assms by (auto simp: diff_indexes_def ix_key_def col_key_def no_alter_def split: option.splits if_splits)

lemma diff_indexes_at:
  assumes "wf_table prev" "wf_table now"
  shows "filter (\<lambda>st. ix_key st = Some k) (diff_indexes prev now) =
    (case (find_index prev k, find_index now k) of
       (None, None) \<Rightarrow> []
     | (None, Some i) \<Rightarrow> [add_index_step now i]
     | (Some old, None) \<Rightarrow> [drop_index_step old now]
     | (Some old, Some i) \<Rightarrow> (if old \<noteq> i then [drop_index_step old now, add_index_step now i] else []))"
proof -
  have d: "distinct (map ix_name (t_indexes prev))" "distinct (map ix_name (t_indexes now))"
    using wf_tableD assms by blast+
  have key: "find_by ix_name cs k = Some c \<Longrightarrow> ix_name c = k" for cs c k
    by (auto simp: find_by_def dest: find_SomeD)
  let ?g = "\<lambda>i. case find_index prev (ix_name i) of
           None \<Rightarrow> [add_index_step now i]
         | Some old \<Rightarrow> (if old \<noteq> i then [drop_index_step old now, add_index_step now i] else [])"
  let ?h = "\<lambda>i. if find_index now (ix_name i) = None then [drop_index_step i now] else []"
  have add: "filter (\<lambda>st. ix_key st = Some k) (concat (map ?g (t_indexes now)))
      = (case find_by ix_name (t_indexes now) k of None \<Rightarrow> [] | Some i \<Rightarrow> ?g i)"
    by (rule keyed_concat [OF d(2)]) (auto simp: ix_key_def find_index_by split: option.splits if_splits, metis find_by_key)
  have dro: "filter (\<lambda>st. ix_key st = Some k) (concat (map ?h (t_indexes prev)))
      = (case find_by ix_name (t_indexes prev) k of None \<Rightarrow> [] | Some i \<Rightarrow> ?h i)"
    by (rule keyed_concat [OF d(1)]) (auto simp: ix_key_def split: if_splits)
  show ?thesis
    unfolding diff_indexes_def map_filter_concat filter_append add dro
    by (auto simp: find_index_by dest: key split: option.split)
qed

lemma indexes_reached:
  assumes "wf_table prev" "wf_table now" "list_all no_alter (List.map_filter ix_edit sts)"
    "\<And>k. filter (\<lambda>st. ix_key st = Some k) sts = filter (\<lambda>st. ix_key st = Some k) (diff_indexes prev now)"
  shows "fold indexes.put_del (List.map_filter ix_edit sts) (t_indexes prev) = t_indexes now"
proof (rule indexes.edits.run_reaches)
  show "keyed_ok ix_name ix_name (t_indexes prev)" "keyed_ok ix_name ix_name (t_indexes now)"
    using assms wf_keyed by blast+
  show "list_all no_alter (List.map_filter ix_edit sts)" by (rule assms(3))
  fix k
  show "fold edit_entry (filter (\<lambda>e. Some (edit_key ix_name e) = Some k) (List.map_filter ix_edit sts))
        (find_by ix_name (t_indexes prev) k) = find_by ix_name (t_indexes now) k"
    unfolding ix_key_filter assms(4) diff_indexes_at [OF assms(1,2)] find_index_by [symmetric]
    by (auto split: option.split)
qed

subsection \<open>Foreign keys\<close>

definition fkey :: "step \<Rightarrow> str list option" where
  "fkey st = (case fk_edit st of None \<Rightarrow> None | Some e \<Rightarrow> Some (edit_key f_columns e))"

lemma fkey_filter:
  "filter (\<lambda>e. Some (edit_key f_columns e) = Some k) (List.map_filter fk_edit sts)
     = List.map_filter fk_edit (filter (\<lambda>st. fkey st = Some k) sts)"
  by (induction sts) (auto simp: fkey_def split: option.split)

lemma diff_fks_steps:
  assumes "x \<in> set (diff_foreign_keys prev now)"
  shows "inside_table x \<and> table_name x = Some (t_name now) \<and> fkey x \<noteq> None \<and> col_key x = None \<and> ix_key x = None
    \<and> (\<forall>e. fk_edit x = Some e \<longrightarrow> no_alter e)"
proof -
  consider f where "x = Add_Foreign_Key (t_name now) (t_schema now) f"
    | cols where "x = Drop_Foreign_Key (t_name now) (t_schema now) cols"
    using assms unfolding diff_foreign_keys_def by (force split: option.splits if_splits)
  then show ?thesis by cases (simp_all add: fkey_def col_key_def ix_key_def no_alter_def)
qed

lemma diff_fks_at:
  assumes "wf_table prev" "wf_table now"
  shows "filter (\<lambda>st. fkey st = Some k) (diff_foreign_keys prev now) =
    (case (find_fk prev k, find_fk now k) of
       (None, None) \<Rightarrow> []
     | (None, Some f) \<Rightarrow> [Add_Foreign_Key (t_name now) (t_schema now) f]
     | (Some old, None) \<Rightarrow> [Drop_Foreign_Key (t_name now) (t_schema now) k]
     | (Some old, Some f) \<Rightarrow> (if old = f then [] else
          [Drop_Foreign_Key (t_name now) (t_schema now) k, Add_Foreign_Key (t_name now) (t_schema now) f]))"
proof -
  have d: "distinct (map f_columns (t_foreign_keys prev))" "distinct (map f_columns (t_foreign_keys now))"
    using wf_tableD assms by blast+
  have key: "find_by f_columns cs k = Some c \<Longrightarrow> f_columns c = k" for cs c k
    by (auto simp: find_by_def dest: find_SomeD)
  let ?g = "\<lambda>f. case find_fk prev (f_columns f) of
           None \<Rightarrow> [Add_Foreign_Key (t_name now) (t_schema now) f]
         | Some old \<Rightarrow> (if old = f then []
             else [Drop_Foreign_Key (t_name now) (t_schema now) (f_columns f),
                   Add_Foreign_Key (t_name now) (t_schema now) f])"
  let ?h = "\<lambda>f. if find_fk now (f_columns f) = None then [Drop_Foreign_Key (t_name now) (t_schema now) (f_columns f)] else []"
  have add: "filter (\<lambda>st. fkey st = Some k) (concat (map ?g (t_foreign_keys now)))
      = (case find_by f_columns (t_foreign_keys now) k of None \<Rightarrow> [] | Some i \<Rightarrow> ?g i)"
    by (rule keyed_concat [OF d(2)]) (auto simp: fkey_def split: option.splits if_splits)
  have dro: "filter (\<lambda>st. fkey st = Some k) (concat (map ?h (t_foreign_keys prev)))
      = (case find_by f_columns (t_foreign_keys prev) k of None \<Rightarrow> [] | Some i \<Rightarrow> ?h i)"
    by (rule keyed_concat [OF d(1)]) (auto simp: fkey_def split: if_splits)
  show ?thesis
    unfolding diff_foreign_keys_def map_filter_concat filter_append add dro
    by (auto simp: find_fk_by dest: key split: option.split)
qed

lemma fks_reached:
  assumes "wf_table prev" "wf_table now" "list_all no_alter (List.map_filter fk_edit sts)"
    "\<And>k. filter (\<lambda>st. fkey st = Some k) sts = filter (\<lambda>st. fkey st = Some k) (diff_foreign_keys prev now)"
  shows "fold fks.put_del (List.map_filter fk_edit sts) (t_foreign_keys prev) = t_foreign_keys now"
proof (rule fks.edits.run_reaches)
  show "keyed_ok f_columns fk_key (t_foreign_keys prev)" "keyed_ok f_columns fk_key (t_foreign_keys now)"
    using assms wf_keyed by blast+
  show "list_all no_alter (List.map_filter fk_edit sts)" by (rule assms(3))
  fix k
  show "fold edit_entry (filter (\<lambda>e. Some (edit_key f_columns e) = Some k) (List.map_filter fk_edit sts))
        (find_by f_columns (t_foreign_keys prev) k) = find_by f_columns (t_foreign_keys now) k"
    unfolding fkey_filter assms(4) diff_fks_at [OF assms(1,2)] find_fk_by [symmetric]
    by (auto split: option.split)
qed

subsection \<open>Tables\<close>

lemma filter_none: "(\<And>x. x \<in> set xs \<Longrightarrow> \<not> P x) \<Longrightarrow> filter P xs = []"
  by (simp add: filter_empty_conv)

lemma diff_table_steps:
  assumes "column_renames prev now rs = []" "x \<in> set (diff_table prev now rs)"
  shows "inside_table x \<and> table_name x = Some (t_name now) \<and> (\<forall>e. col_edit x = Some e \<longrightarrow> edit_ok c_name e)
    \<and> (\<forall>e. ix_edit x = Some e \<longrightarrow> no_alter e) \<and> (\<forall>e. fk_edit x = Some e \<longrightarrow> no_alter e)"
  using assms(2) diff_columns_steps [OF assms(1), of x] diff_indexes_steps [of x prev now] diff_fks_steps [of x prev now]
  by (auto simp: diff_table_def col_key_def ix_key_def fkey_def split: if_splits option.splits)
    (cases x; simp)+

lemma col_key_other: "col_key x \<noteq> None \<Longrightarrow> ix_key x = None \<and> fkey x = None"
  by (cases x) (simp_all add: col_key_def ix_key_def fkey_def)

lemma ix_key_other: "ix_key x \<noteq> None \<Longrightarrow> fkey x = None"
  by (cases x) (simp_all add: ix_key_def fkey_def)

lemma diff_table_parts:
  assumes "column_renames prev now rs = []"
  shows "filter (\<lambda>st. col_key st = Some k) (diff_table prev now rs) = filter (\<lambda>st. col_key st = Some k) (diff_columns prev now rs)"
    and "filter (\<lambda>st. ix_key st = Some k) (diff_table prev now rs) = filter (\<lambda>st. ix_key st = Some k) (diff_indexes prev now)"
    and "filter (\<lambda>st. fkey st = Some k') (diff_table prev now rs) = filter (\<lambda>st. fkey st = Some k') (diff_foreign_keys prev now)"
proof -
  note c = diff_columns_steps [OF assms] and i = diff_indexes_steps [of _ prev now] and f = diff_fks_steps [of _ prev now]
  have s: "col_key (Alter_Schema a b c') = None" "ix_key (Alter_Schema a b c') = None" "fkey (Alter_Schema a b c') = None" for a b c'
    by (simp_all add: col_key_def ix_key_def fkey_def)
  have "filter (\<lambda>st. col_key st = Some k) (diff_indexes prev now) = []"
    "filter (\<lambda>st. col_key st = Some k) (diff_foreign_keys prev now) = []"
    using i f by (auto intro!: filter_none)
  then show "filter (\<lambda>st. col_key st = Some k) (diff_table prev now rs) = filter (\<lambda>st. col_key st = Some k) (diff_columns prev now rs)"
    by (simp add: diff_table_def s)
  have "filter (\<lambda>st. ix_key st = Some k) (diff_columns prev now rs) = []"
    "filter (\<lambda>st. ix_key st = Some k) (diff_foreign_keys prev now) = []"
    using c f col_key_other by (force intro!: filter_none)+
  then show "filter (\<lambda>st. ix_key st = Some k) (diff_table prev now rs) = filter (\<lambda>st. ix_key st = Some k) (diff_indexes prev now)"
    by (simp add: diff_table_def s)
  have "filter (\<lambda>st. fkey st = Some k') (diff_columns prev now rs) = []"
    "filter (\<lambda>st. fkey st = Some k') (diff_indexes prev now) = []"
    using c i col_key_other ix_key_other by (force intro!: filter_none)+
  then show "filter (\<lambda>st. fkey st = Some k') (diff_table prev now rs) = filter (\<lambda>st. fkey st = Some k') (diff_foreign_keys prev now)"
    by (simp add: diff_table_def s)
qed

lemma sorted_map_const: "(\<And>x. x \<in> set xs \<Longrightarrow> f x = c) \<Longrightarrow> sorted (map f xs)"
  by (induction xs) auto

lemma ordered_columns:
  assumes "column_renames prev now rs = []"
  shows "filter (\<lambda>st. col_key st = Some k) (ordered b (diff_table prev now rs))
    = filter (\<lambda>st. col_key st = Some k) (diff_columns prev now rs)"
  unfolding filter_ordered diff_table_parts [OF assms]
  using diff_columns_steps [OF assms] by (intro ordered_sorted sorted_map_const [where c = 2]) auto

lemma ordered_indexes:
  assumes "wf_table prev" "wf_table now" "column_renames prev now rs = []"
  shows "filter (\<lambda>st. ix_key st = Some k) (ordered b (diff_table prev now rs))
    = filter (\<lambda>st. ix_key st = Some k) (diff_indexes prev now)"
  unfolding filter_ordered diff_table_parts [OF assms(3)] diff_indexes_at [OF assms(1,2)]
  by (intro ordered_sorted) (auto split: option.split)

lemma ordered_fks:
  assumes "wf_table prev" "wf_table now" "column_renames prev now rs = []"
  shows "filter (\<lambda>st. fkey st = Some k) (ordered b (diff_table prev now rs))
    = filter (\<lambda>st. fkey st = Some k) (diff_foreign_keys prev now)"
  unfolding filter_ordered diff_table_parts [OF assms(3)] diff_fks_at [OF assms(1,2)]
  by (intro ordered_sorted) (auto split: option.split)

fun alters_schema :: "step \<Rightarrow> bool" where
  "alters_schema (Alter_Schema _ _ _) = True"
| "alters_schema _ = False"

lemma fold_schema_edit: "fold schema_edit sts sc = fold schema_edit (filter alters_schema sts) sc"
proof (induction sts arbitrary: sc)
  case (Cons st sts)
  then show ?case by (cases st) simp_all
qed simp

lemma filter_alters_schema:
  assumes "column_renames prev now rs = []"
  shows "filter alters_schema (diff_table prev now rs)
    = (if t_schema prev \<noteq> t_schema now then [Alter_Schema (t_name now) (t_schema prev) (t_schema now)] else [])"
proof -
  have "\<not> alters_schema x" if "col_key x \<noteq> None \<or> ix_key x \<noteq> None \<or> fkey x \<noteq> None" for x
    using that by (cases x) (auto simp: col_key_def ix_key_def fkey_def)
  then have "filter alters_schema (diff_columns prev now rs) = []" "filter alters_schema (diff_indexes prev now) = []"
    "filter alters_schema (diff_foreign_keys prev now) = []"
    using diff_columns_steps [OF assms] diff_indexes_steps [of _ prev now] diff_fks_steps [of _ prev now]
    by (auto intro!: filter_none)
  then show ?thesis by (simp add: diff_table_def)
qed

lemma list_all_map_filter: "list_all P (List.map_filter f xs) \<longleftrightarrow> (\<forall>x \<in> set xs. \<forall>y. f x = Some y \<longrightarrow> P y)"
  by (induction xs) (auto split: option.split)

lemma table_reached:
  assumes "wf_table prev" "wf_table now" "column_renames prev now rs = []" "t_name prev = t_name now"
  shows "ddl_view (fold table_step (ordered b (diff_table prev now rs)) prev) = ddl_view now"
proof -
  let ?sts = "ordered b (diff_table prev now rs)"
  note steps = diff_table_steps [OF assms(3)]
  have inside: "list_all inside_table ?sts" using steps by (auto simp: list_all_iff)
  have "map col_view (fold columns.edit (List.map_filter col_edit ?sts) (t_columns prev)) = map col_view (t_columns now)"
    using assms steps by (intro columns_reached) (auto simp: list_all_map_filter ordered_columns)
  moreover have "fold indexes.put_del (List.map_filter ix_edit ?sts) (t_indexes prev) = t_indexes now"
    using assms steps by (intro indexes_reached) (auto simp: list_all_map_filter ordered_indexes)
  moreover have "fold fks.put_del (List.map_filter fk_edit ?sts) (t_foreign_keys prev) = t_foreign_keys now"
    using assms steps by (intro fks_reached) (auto simp: list_all_map_filter ordered_fks)
  moreover have "fold schema_edit ?sts (t_schema prev) = t_schema now"
    unfolding fold_schema_edit [of ?sts] filter_ordered filter_alters_schema [OF assms(3)] by simp
  ultimately show ?thesis
    using assms(4) by (simp add: ddl_view_def fold_table_step [OF inside])
qed

subsection \<open>Snapshots\<close>

lemma no_renames:
  assumes "s_renames now = []"
  shows "table_renames prev now = []" "column_renames p t (s_renames now) = []"
  using assms by (simp_all add: table_renames_def column_renames_def)

lemma diff_no_renames:
  assumes "s_renames now = []"
  shows "diff_snapshots prev now =
      concat (map (\<lambda>t. if find_table prev (t_name t) = None then [Create_Table t] else []) (s_tables now))
      @ concat (map (\<lambda>t. case find_table prev (t_name t) of None \<Rightarrow> [] | Some p \<Rightarrow> diff_table p t []) (s_tables now))
      @ concat (map (\<lambda>t. if find_table now (t_name t) = None then [Drop_Table (t_name t) (t_schema t)] else []) (s_tables prev))
      @ diff_scopes prev now"
  using assms by (simp add: diff_snapshots_def no_renames [OF assms] map_filter_concat survivor_steps_def [abs_def]
      cong: option.case_cong)

lemma diff_scopes_no_table: "x \<in> set (diff_scopes prev now) \<Longrightarrow> table_name x = None"
  by (auto simp: diff_scopes_def split: if_splits option.splits)

lemma diff_snapshots_at:
  assumes "wf_snapshot prev" "wf_snapshot now" "s_renames now = []"
  shows "filter (\<lambda>st. table_name st = Some n) (diff_snapshots prev now) =
    (case (find_table prev n, find_table now n) of
       (None, None) \<Rightarrow> []
     | (None, Some t) \<Rightarrow> [Create_Table t]
     | (Some p, None) \<Rightarrow> [Drop_Table n (t_schema p)]
     | (Some p, Some t) \<Rightarrow> diff_table p t [])"
proof -
  have d: "distinct (map t_name (s_tables prev))" "distinct (map t_name (s_tables now))"
    using wf_snapshotD assms by blast+
  have cr: "column_renames p t [] = []" for p t by (simp add: column_renames_def)
  let ?c = "\<lambda>t. if find_table prev (t_name t) = None then [Create_Table t] else []"
  let ?s = "\<lambda>t. case find_table prev (t_name t) of None \<Rightarrow> [] | Some p \<Rightarrow> diff_table p t []"
  let ?d = "\<lambda>t. if find_table now (t_name t) = None then [Drop_Table (t_name t) (t_schema t)] else []"
  have cre: "filter (\<lambda>st. table_name st = Some n) (concat (map ?c (s_tables now)))
      = (case find_by t_name (s_tables now) n of None \<Rightarrow> [] | Some t \<Rightarrow> ?c t)"
    by (rule keyed_concat [OF d(2)]) (auto split: if_splits)
  have sur: "filter (\<lambda>st. table_name st = Some n) (concat (map ?s (s_tables now)))
      = (case find_by t_name (s_tables now) n of None \<Rightarrow> [] | Some t \<Rightarrow> ?s t)"
    by (rule keyed_concat [OF d(2)]) (auto dest: diff_table_steps [OF cr] split: option.splits)
  have dro: "filter (\<lambda>st. table_name st = Some n) (concat (map ?d (s_tables prev)))
      = (case find_by t_name (s_tables prev) n of None \<Rightarrow> [] | Some t \<Rightarrow> ?d t)"
    by (rule keyed_concat [OF d(1)]) (auto split: if_splits)
  have sco: "filter (\<lambda>st. table_name st = Some n) (diff_scopes prev now) = []"
    using diff_scopes_no_table by (intro filter_none) fastforce
  have key: "find_by t_name ts n = Some t \<Longrightarrow> t_name t = n" for ts t by (rule find_by_key)
  show ?thesis
    unfolding diff_no_renames [OF assms(3)] filter_append cre sur dro sco
    using key [of "s_tables prev" "the (find_table prev n)"] key [of "s_tables now" "the (find_table now n)"]
    by (cases "find_table prev n"; cases "find_table now n") (simp_all add: find_table_by)
qed

lemma diff_no_table_rename: "s_renames now = [] \<Longrightarrow> x \<in> set (diff_snapshots prev now) \<Longrightarrow> \<not> renames_table x"
proof -
  assume r: "s_renames now = []" and x: "x \<in> set (diff_snapshots prev now)"
  have cr: "column_renames p t [] = []" for p t by (simp add: column_renames_def)
  have "inside_table x \<Longrightarrow> \<not> renames_table x" by (cases x) simp_all
  then show "\<not> renames_table x"
    using x diff_scopes_no_table [of x prev now] diff_table_steps [OF cr, of x] unfolding diff_no_renames [OF r]
    by (cases x) (auto split: option.splits if_splits)
qed

lemma find_table_wf: "wf_snapshot s \<Longrightarrow> find_table s n = Some t \<Longrightarrow> wf_table t \<and> t_name t = n"
  by (auto simp: find_table_Some_iff wf_snapshotD)

lemma snapshot_reached:
  assumes "wf_snapshot prev" "wf_snapshot now" "s_renames now = []"
  shows "map ddl_view (s_tables (fold evolve (ordered b (diff_snapshots prev now)) prev)) = map ddl_view (s_tables now)"
proof -
  let ?sts = "ordered b (diff_snapshots prev now)"
  have ok: "keyed_ok t_name t_name (s_tables prev)" "keyed_ok t_name t_name (s_tables now)"
    using assms wf_tables_keyed by blast+
  have valid: "list_all (\<lambda>st. \<not> renames_table st) ?sts"
    using diff_no_table_rename [OF assms(3)] by (auto simp: list_all_iff)
  have "map_option ddl_view (find_by t_name (fold evolve_tables ?sts (s_tables prev)) n)
      = map_option ddl_view (find_by t_name (s_tables now) n)" for n
  proof -
    have "find_by t_name (fold evolve_tables ?sts (s_tables prev)) n
        = fold step_effect (ordered b (filter (\<lambda>st. table_name st = Some n) (diff_snapshots prev now))) (find_table prev n)"
      by (simp add: evolution.find_run [OF ok(1) valid] filter_ordered find_table_by)
    also have "map_option ddl_view \<dots> = map_option ddl_view (find_table now n)"
    proof (cases "find_table prev n")
      case None
      then show ?thesis by (cases "find_table now n") (simp_all add: diff_snapshots_at [OF assms])
    next
      case (Some p)
      note p = Some
      show ?thesis
      proof (cases "find_table now n")
        case None
        then show ?thesis using p by (simp add: diff_snapshots_at [OF assms])
      next
        case (Some t)
        have cr: "column_renames p t [] = []" by (simp add: column_renames_def)
        have "list_all inside_table (ordered b (diff_table p t []))"
          using diff_table_steps [OF cr] by (auto simp: list_all_iff)
        then show ?thesis
          using table_reached [OF _ _ cr, of b] find_table_wf [OF assms(1) p] find_table_wf [OF assms(2) Some]
          by (simp add: diff_snapshots_at [OF assms] p Some fold_step_effect)
      qed
    qed
    finally show ?thesis by (simp add: find_table_by)
  qed
  then have "map ddl_view (fold evolve_tables ?sts (s_tables prev)) = map ddl_view (s_tables now)"
    by (rule tables.view_ext [OF evolution.ok_run [OF ok(1) valid] ok(2)])
  then show ?thesis unfolding fold_evolve by simp
qed

end
