(* ===== verification/Up_Mig.thy ===== *)
theory Up_Mig
  imports Diff_Correct Snap_Render
begin

text \<open>
  \<open>based-codegen/src/migrate/up_mig.rs\<close>: the canonical \<open>up.mig\<close> text of a step list. The header
  holds the one non-ASCII character of the format, U+2014, as its three bytes.
\<close>

definition dash :: str where
  "dash = [CHR 0xE2, CHR 0x80, CHR 0x94]"

definition up_header_lines :: "str list" where
  "up_header_lines =
    [''# up.mig '' @ dash @ '' generated by `based migrate gen`.'',
     ''#'',
     ''# The structural steps below are derived from schema.snap at apply time. Editing a'',
     ''# structural line here has NO effect on what applies; `based migrate apply` refuses a'',
     ''# migration whose structural lines diverge from schema.snap.'',
     ''#'',
     ''# Every line runs in the order written. What you CAN add between the steps:'',
     ''#   - data steps over the table and column names as of that line, e.g.'',
     ''#         update all card { paper = true }'',
     ''#         delete event where (created_at < '' @ [dq] @ ''2024-01-01'' @ [dq] @ '') chunk 10000'',
     ''#   - raw(<dialect>) `<sql>` lines for SQL the steps can'' @ [CHR 0x27] @ ''t express. Multi-line SQL goes in'',
     ''#     a backtick block:'',
     ''#         raw(sqlite) `'',
     ''#         ... statements ...'',
     ''#         `'',
     ''#   - a hand-authored down.mig (raw per-dialect SQL) for rollback.'',
     ''format 2'']"

definition writeln :: "str \<Rightarrow> str" where
  "writeln l = l @ nl"

definition up_header :: str where
  "up_header = concat (map writeln up_header_lines)"

definition column_spec :: "column_snap \<Rightarrow> str" where
  "column_spec c = c_name c @ '' '' @ c_ty c @ '' '' @ null_text (c_nullable c)
     @ opt_text '' default='' (c_default c)
     @ (if c_unique c then '' unique'' else [])
     @ opt_text '' fk='' (c_fk c)
     @ (case c_generated c of None \<Rightarrow> [] | Some g \<Rightarrow> '' generated=('' @ g @ '')'')"

fun render_change :: "column_change \<Rightarrow> str" where
  "render_change (Type_Change _ to) = ''type '' @ to"
| "render_change Set_Null = ''null''"
| "render_change (Set_Not_Null _) = ''not_null''"
| "render_change (Set_Default d) = ''default='' @ d"
| "render_change Drop_Default = ''drop default''"

fun scope_change_line :: "scope_change \<Rightarrow> str" where
  "scope_change_line (Scope_Add s) = render_scope_decl s"
| "scope_change_line (Scope_Alter s) = ''alter '' @ render_scope_decl s"
| "scope_change_line (Scope_Drop name) = ''drop scope '' @ name"
| "scope_change_line (Scope_Table table alts) = ''scope table '' @ table @ '' = '' @
     (if alts = [] then ''unscoped''
      else join '' '' (map (\<lambda>a. ''('' @ join '', '' a @ '')'') alts))"

definition render_create_table :: "table_snap \<Rightarrow> str" where
  "render_create_table t =
     writeln (''create table '' @ (case t_schema t of Some s \<Rightarrow> s @ ''.'' | None \<Rightarrow> []) @ t_name t @ '' {'')
     @ concat (map (\<lambda>c. writeln (''  column '' @ column_spec c)) (t_columns t))
     @ concat (map (\<lambda>i. writeln (''  '' @ (if ix_unique i then ''unique'' else ''index'') @ '' '' @ index_spec_text i))
         (t_indexes t))
     @ concat (map (\<lambda>f. writeln (''  '' @ fk_spec_text f)) (t_foreign_keys t))
     @ writeln ''}''"

fun render_step :: "step \<Rightarrow> str" where
  "render_step (Create_Table t) = render_create_table t"
| "render_step (Drop_Table n _) = writeln (''drop table '' @ n @ ''  # DESTRUCTIVE'')"
| "render_step (Add_Column t _ c) = writeln (''add column '' @ t @ ''.'' @ column_spec c)"
| "render_step (Drop_Column t _ c) = writeln (''drop column '' @ t @ ''.'' @ c @ ''  # DESTRUCTIVE'')"
| "render_step (Alter_Column t sc c changes after) =
     writeln (''alter column '' @ t @ ''.'' @ c @ '' '' @ join '' '' (map render_change changes)
       @ (if destructive (Alter_Column t sc c changes after) then ''  # DESTRUCTIVE'' else []))"
| "render_step (Add_Index _ _ i) = writeln (''add index '' @ index_spec_text i)"
| "render_step (Drop_Index _ _ n) = writeln (''drop index '' @ n)"
| "render_step (Add_Unique _ _ i) = writeln (''add unique '' @ index_spec_text i @ ''  # DESTRUCTIVE'')"
| "render_step (Drop_Unique _ _ n) = writeln (''drop unique '' @ n)"
| "render_step (Add_Foreign_Key t _ f) =
     writeln (''add foreign_key '' @ t @ ''.'' @ col_list_text (f_columns f) @ '' -> ''
       @ (case f_ref_schema f of Some sc \<Rightarrow> sc @ ''::'' @ f_ref_table f | None \<Rightarrow> f_ref_table f)
       @ ''.'' @ col_list_text (f_ref_columns f)
       @ opt_text '' on_delete='' (f_on_delete f)
       @ opt_text '' on_update='' (f_on_update f))"
| "render_step (Drop_Foreign_Key t _ cols) = writeln (''drop foreign_key '' @ t @ ''.'' @ col_list_text cols)"
| "render_step (Step_Rename_Table from to _) = writeln (''rename table '' @ from @ '' -> '' @ to)"
| "render_step (Step_Rename_Column t _ from to) = writeln (''rename column '' @ t @ ''.'' @ from @ '' -> '' @ to)"
| "render_step (Alter_Schema t from to) =
     writeln (''alter schema '' @ t @ '' '' @ or_default from @ '' -> '' @ or_default to)"
| "render_step (Raw_Step d sql) = writeln (''raw('' @ dialect_name d @ '') '' @ [backtick] @ sql @ [backtick])"
| "render_step (Scope_Change sc) = writeln (scope_change_line sc @ ''  # code-level; no DDL'')"

definition render_up_as_is :: "step list \<Rightarrow> str" where
  "render_up_as_is steps = up_header @ concat (map render_step steps)"

definition render_up :: "step list \<Rightarrow> str" where
  "render_up steps = render_up_as_is (constraint_safe steps)"

end
