(* ===== verification/Fnv.thy ===== *)
theory Fnv
  imports Prelude "HOL-Library.Word"
begin

text \<open>
  FNV-1a over 64-bit words, as the content hash, the cursor checksum, the shard router and the
  request fingerprint all spell it, and hexadecimal numbers. The multiplication wraps, so each
  mixing step is a bijection of the state: a changed byte cannot be absorbed.
\<close>

unbundle bit_operations_syntax

type_synonym u64 = "64 word"

definition fnv_offset :: u64 where
  "fnv_offset = 0xcbf29ce484222325"

definition fnv_prime :: u64 where
  "fnv_prime = 0x100000001b3"

definition fnv_byte :: "char \<Rightarrow> u64 \<Rightarrow> u64" where
  "fnv_byte b h = (h XOR word_of_nat (of_char b)) * fnv_prime"

definition fnv_mix :: "str \<Rightarrow> u64 \<Rightarrow> u64" where
  "fnv_mix bytes h = fold fnv_byte bytes h"

definition hex_digit :: "nat \<Rightarrow> char" where
  "hex_digit n = (if n < 10 then char_of (48 + n) else char_of (87 + n))"

text \<open>\<open>format!("{h:016x}")\<close>.\<close>

definition hex16 :: "u64 \<Rightarrow> str" where
  "hex16 h = map (\<lambda>i. hex_digit (unat h div 16 ^ i mod 16)) (rev [0..<16])"

lemma fnv_mix_append: "fnv_mix (a @ b) h = fnv_mix b (fnv_mix a h)"
  by (simp add: fnv_mix_def)

subsection \<open>Mixing loses nothing\<close>

lemma fnv_prime_inverse: "fnv_prime * (0xce965057aff6957b :: u64) = 1"
  by (simp add: fnv_prime_def)

lemma fnv_mult_inject: "x * fnv_prime = y * fnv_prime \<longleftrightarrow> x = (y :: u64)"
proof
  assume "x * fnv_prime = y * fnv_prime"
  then have "x * fnv_prime * 0xce965057aff6957b = y * fnv_prime * 0xce965057aff6957b" by (rule arg_cong)
  then have "x * (fnv_prime * 0xce965057aff6957b) = y * (fnv_prime * 0xce965057aff6957b)"
    by (simp only: mult.assoc)
  then show "x = y" by (simp only: fnv_prime_inverse mult_1_right)
qed simp

lemma xor_inject: "x XOR b = y XOR b \<longleftrightarrow> x = (y :: u64)"
proof
  assume "x XOR b = y XOR b"
  then have "(x XOR b) XOR b = (y XOR b) XOR b" by (rule arg_cong [where f = "\<lambda>z. z XOR b"])
  then show "x = y" by (simp add: xor.assoc)
qed simp

lemma fnv_byte_state: "fnv_byte b x = fnv_byte b y \<longleftrightarrow> x = y"
  by (simp add: fnv_byte_def fnv_mult_inject xor_inject)

lemma fnv_mix_state: "fnv_mix s x = fnv_mix s y \<longleftrightarrow> x = y"
  by (induction s arbitrary: x y) (auto simp: fnv_mix_def fnv_byte_state)

lemma char_word_inject: "(word_of_nat (of_char c) :: u64) = word_of_nat (of_char d) \<longleftrightarrow> c = d"
proof
  assume "(word_of_nat (of_char c) :: u64) = word_of_nat (of_char d)"
  then have "unat (word_of_nat (of_char c) :: u64) = unat (word_of_nat (of_char d) :: u64)" by (rule arg_cong)
  moreover have "(of_char c :: nat) mod 2 ^ 64 = of_char c" for c :: char
  proof (rule mod_less)
    have "(of_char c :: nat) < 256" by simp
    also have "(256 :: nat) < 2 ^ 64" by simp
    finally show "(of_char c :: nat) < 2 ^ 64" .
  qed
  ultimately have "(of_char c :: nat) = of_char d" by (simp add: unsigned_of_nat take_bit_eq_mod)
  then show "c = d" by simp
qed simp

lemma fnv_byte_byte: "fnv_byte b x = fnv_byte c x \<longleftrightarrow> b = c"
  using xor_inject [of "word_of_nat (of_char b)" x "word_of_nat (of_char c)"] char_word_inject [of b c]
  by (simp add: fnv_byte_def fnv_mult_inject xor.commute)

lemma hex_digit_inject: "a < 16 \<Longrightarrow> b < 16 \<Longrightarrow> hex_digit a = hex_digit b \<longleftrightarrow> a = b"
  by (auto simp: hex_digit_def char_of_eq_iff take_bit_eq_mod split: if_splits)

lemma digits_determine:
  assumes "\<And>i. i < n \<Longrightarrow> (x :: nat) div 16 ^ i mod 16 = y div 16 ^ i mod 16" "x < 16 ^ n" "y < 16 ^ n"
  shows "x = y"
  using assms
proof (induction n arbitrary: x y)
  case (Suc n)
  have "x div 16 div 16 ^ i mod 16 = y div 16 div 16 ^ i mod 16" if "i < n" for i
    using Suc.prems(1) [of "Suc i"] that by (simp add: div_mult2_eq)
  moreover have "x div 16 < 16 ^ n" "y div 16 < 16 ^ n"
    using Suc.prems(2,3) by (simp_all add: less_mult_imp_div_less)
  ultimately have "x div 16 = y div 16" by (rule Suc.IH)
  moreover have "x mod 16 = y mod 16" using Suc.prems(1) [of 0] by simp
  ultimately show ?case by (metis div_mod_decomp)
qed simp

lemma hex16_inject: "hex16 x = hex16 y \<longleftrightarrow> x = y"
proof
  assume eq: "hex16 x = hex16 y"
  have "unat x div 16 ^ i mod 16 = unat y div 16 ^ i mod 16" if "i < 16" for i
  proof -
    have "hex_digit (unat x div 16 ^ i mod 16) = hex_digit (unat y div 16 ^ i mod 16)"
      using eq that unfolding hex16_def map_eq_conv by auto
    then show ?thesis by (subst (asm) hex_digit_inject) simp_all
  qed
  moreover have "unat z < 16 ^ 16" for z :: u64 using unsigned_less [of z, where 'a = nat] by simp
  ultimately have "unat x = unat y" using digits_determine [of 16 "unat x" "unat y"] by blast
  then show "x = y" by (rule unsigned_word_eqI)
qed simp

text \<open>A changed byte changes the hash.\<close>

lemma fnv_mix_one_byte: "fnv_mix (a @ x # b) h = fnv_mix (a @ y # b) h \<longleftrightarrow> x = y"
proof -
  have "fnv_mix (a @ z # b) h = fnv_mix b (fnv_byte z (fnv_mix a h))" for z
    by (simp add: fnv_mix_def)
  then show ?thesis by (simp add: fnv_mix_state fnv_byte_byte)
qed

end
