(* ===== verification/Content_Hash.thy ===== *)
theory Content_Hash
  imports Scan Up_Mig Fnv
begin

text \<open>
  \<open>based-codegen/src/migrate/sql/hash.rs\<close>: the tamper guard of the migration ledger, FNV-1a over
  the lines of a script, and the check that a stored script still says what its snapshots imply.
\<close>

fun hash_lines :: "str list \<Rightarrow> u64 \<Rightarrow> u64" where
  "hash_lines [] h = h"
| "hash_lines (l # ls) h =
     (let line = trim l in
      if line = [] \<or> starts_with ''#'' line then hash_lines ls h
      else hash_lines ls (fnv_mix nl (fnv_mix line h)))"

definition content_hash :: "str \<Rightarrow> str" where
  "content_hash up_text = hex16 (hash_lines (lines up_text) fnv_offset)"

definition up_mig_matches_snapshot :: "str \<Rightarrow> step list \<Rightarrow> bool" where
  "up_mig_matches_snapshot up_text steps \<longleftrightarrow>
     content_hash (strip_raw_steps up_text) = content_hash (strip_raw_steps (render_up_as_is steps))"

text \<open>\<open>step_order.rs\<close>: the steps of a migration in the order its stored text runs them.\<close>

definition up_steps :: "snapshot \<Rightarrow> snapshot \<Rightarrow> str \<Rightarrow> step list" where
  "up_steps prev now up_text =
     (if sc_in_order (scan up_text) then constraint_safe (diff_snapshots prev now)
      else diff_snapshots prev now)"

lemma up_steps_ordered: "up_steps prev now up_text = ordered (sc_in_order (scan up_text)) (diff_snapshots prev now)"
  by (simp add: up_steps_def ordered_def)

subsection \<open>What is hashed\<close>

definition canonical_bytes :: "str \<Rightarrow> str" where
  "canonical_bytes text = concat (map (\<lambda>l. trim l @ nl) (filter is_canonical (lines text)))"

lemma hash_lines_canonical:
  "hash_lines ls h = fnv_mix (concat (map (\<lambda>l. trim l @ nl) (filter is_canonical ls))) h"
  by (induction ls arbitrary: h) (auto simp: is_canonical_def Let_def fnv_mix_append, simp_all add: fnv_mix_def)

lemma content_hash_bytes: "content_hash text = hex16 (fnv_mix (canonical_bytes text) fnv_offset)"
  unfolding content_hash_def canonical_bytes_def hash_lines_canonical ..

text \<open>The content hash ignores what is cosmetic and nothing smaller than that: texts with the
  same trimmed step lines hash alike, and texts that differ in a single byte of those lines
  never do, so no one-byte edit of an applied migration goes unnoticed.\<close>

theorem content_hash_detects_byte:
  "(canonical_bytes u = canonical_bytes v \<longrightarrow> content_hash u = content_hash v)
   \<and> (canonical_bytes u = a @ x # b \<and> canonical_bytes v = a @ y # b \<and> x \<noteq> y \<longrightarrow> content_hash u \<noteq> content_hash v)"
  by (auto simp: content_hash_bytes hex16_inject fnv_mix_one_byte)

theorem content_hash_detects_byte_witness:
  "content_hash ''add index a'' \<noteq> content_hash ''add index b''"
proof -
  have "canonical_bytes ''add index a'' = ''add index '' @ CHR ''a'' # nl \<and>
    canonical_bytes ''add index b'' = ''add index '' @ CHR ''b'' # nl \<and> CHR ''a'' \<noteq> CHR ''b''"
    by code_simp
  then show ?thesis using content_hash_detects_byte by blast
qed

end
