(* ===== verification/Diff_Props.thy ===== *)
theory Diff_Props
  imports Diff_Correct
begin

text \<open>
  What the diff promises to whoever reads or gates a migration: an unchanged schema needs no
  step, a first migration only creates, steps not marked destructive keep every table and
  column, an empty drift means an unchanged schema, and the \<open>format 2\<close> order takes constraints
  off first and puts them back last. Then the schema edits that slip through.
\<close>

subsection \<open>Nothing to do\<close>

lemma find_self:
  assumes "wf_table t"
  shows "c \<in> set (t_columns t) \<Longrightarrow> find_column t (c_name c) = Some c"
    "i \<in> set (t_indexes t) \<Longrightarrow> find_index t (ix_name i) = Some i"
    "f \<in> set (t_foreign_keys t) \<Longrightarrow> find_fk t (f_columns f) = Some f"
  using wf_tableD [OF assms] by (simp_all add: find_column_Some_iff [OF assms] find_index_Some_iff [OF assms]
      find_fk_def find_distinct_key)

lemma map_filter_None: "(\<And>x. x \<in> set xs \<Longrightarrow> f x = None) \<Longrightarrow> List.map_filter f xs = []"
  by (induction xs) auto

lemma column_renames_self: "column_renames t t rs = []"
proof -
  have "column_rename_of t t r = None" for r by (cases r) auto
  then show ?thesis unfolding column_renames_def by (simp add: map_filter_None)
qed

lemma table_renames_self: "table_renames s s = []"
proof -
  have "table_rename_of s s r = None" for r by (cases r) (auto simp: is_valid_table_rename_def)
  then show ?thesis unfolding table_renames_def by (simp add: map_filter_None)
qed

lemma concat_map_Nil: "(\<And>x. x \<in> set xs \<Longrightarrow> g x = []) \<Longrightarrow> concat (map g xs) = []"
  by (induction xs) auto

lemma diff_table_self: "wf_table t \<Longrightarrow> diff_table t t rs = []"
  by (auto simp: diff_table_def diff_columns_no_renames [OF column_renames_self] diff_indexes_def
      diff_foreign_keys_def find_self survivor_column_steps_def alter_step_def column_changes_def
      filter_empty_conv intro!: concat_map_Nil)

text \<open>Diffing a snapshot with itself gives no step: an up-to-date schema has no drift.\<close>

theorem diff_self:
  assumes "wf_snapshot s"
  shows "diff_snapshots s s = []"
proof -
  have t: "find_table s (t_name t) = Some t" if "t \<in> set (s_tables s)" for t
    using assms that by (simp add: find_table_Some_iff)
  have sc: "find_scope s (sd_name d) = Some d" if "d \<in> set (s_scopes s)" for d
    using wf_snapshotD(3) [OF assms] that by (simp add: find_scope_def find_distinct_key)
  have "survivor_steps s s [] t = []" if "t \<in> set (s_tables s)" for t
    using t [OF that] wf_snapshotD(4) [OF assms that] by (simp add: survivor_steps_def diff_table_self)
  moreover have "diff_scopes s s = []"
    using t sc by (auto simp: diff_scopes_def filter_empty_conv intro!: concat_map_Nil)
  ultimately show ?thesis
    using t by (auto simp: diff_snapshots_def table_renames_self filter_empty_conv intro!: concat_map_Nil)
qed

subsection \<open>The first migration\<close>

text \<open>The first migration, against the empty snapshot, creates every table in order and does
  nothing else, so it is never destructive and no order changes it.\<close>

theorem init_only_creates:
  "diff_snapshots empty_snapshot now = map Create_Table (s_tables now)
   \<and> constraint_safe (diff_snapshots empty_snapshot now) = diff_snapshots empty_snapshot now
   \<and> filter destructive (diff_snapshots empty_snapshot now) = []"
proof -
  have e: "find_table empty_snapshot n = None" for n by (simp add: find_table_def empty_snapshot_def)
  have "table_rename_of empty_snapshot now r = None" for r by (cases r) (simp_all add: is_valid_table_rename_def e)
  then have "table_renames empty_snapshot now = []" by (simp add: table_renames_def map_filter_None)
  moreover have "diff_scopes empty_snapshot now = []" by (simp add: diff_scopes_def empty_snapshot_def)
  moreover have "s_tables empty_snapshot = []" by (simp add: empty_snapshot_def)
  ultimately have d: "diff_snapshots empty_snapshot now = map Create_Table (s_tables now)"
    by (simp add: diff_snapshots_def e survivor_steps_def concat_map_Nil)
  moreover have "constraint_safe (map Create_Table (s_tables now)) = map Create_Table (s_tables now)"
    unfolding constraint_safe_def by (rule sort_key_id_if_sorted) (rule sorted_map_const [where c = 2], auto)
  ultimately show ?thesis by (auto simp: filter_empty_conv)
qed

subsection \<open>The destructive marker\<close>

lemma filter_nonempty_mem: "filter P xs = [] \<Longrightarrow> x \<in> set xs \<Longrightarrow> \<not> P x"
  by (auto simp: filter_empty_conv)

lemma diff_table_subset:
  assumes "wf_snapshot prev" "wf_snapshot now" "s_renames now = []"
    "find_table prev n = Some p" "find_table now n = Some t" "x \<in> set (diff_table p t [])"
  shows "x \<in> set (diff_snapshots prev now)"
proof -
  have "x \<in> set (filter (\<lambda>st. table_name st = Some n) (diff_snapshots prev now))"
    using assms by (simp add: diff_snapshots_at)
  then show ?thesis by simp
qed

lemma diff_column_subset:
  assumes "wf_table p" "wf_table t" "x \<in> set (filter (\<lambda>st. col_key st = Some k) (diff_columns p t []))"
  shows "x \<in> set (diff_table p t [])"
  using assms(3) by (simp add: diff_table_def)


subsection \<open>Drift\<close>

lemma scopes_agree:
  assumes "wf_snapshot prev" "wf_snapshot now" "diff_scopes prev now = []" "s_tables prev \<noteq> [] \<or> s_scopes prev \<noteq> []"
  shows "s_scopes prev = s_scopes now"
proof (rule keyed_ext)
  show "keyed_ok sd_name sd_name (s_scopes prev)" "keyed_ok sd_name sd_name (s_scopes now)"
    using assms(1,2) by (simp_all add: wf_snapshot_def sorted_names_def keyed_ok_def)
  fix k
  have fsc: "find_scope s k = find_by sd_name (s_scopes s) k" for s k by (simp add: find_scope_def find_by_def)
  have empty: "\<forall>s \<in> set (s_scopes now). find_scope prev (sd_name s) = Some s"
    "\<forall>s \<in> set (s_scopes prev). find_scope now (sd_name s) \<noteq> None"
    using assms(3,4) by (fastforce simp: diff_scopes_def filter_empty_conv split: if_splits option.splits)+
  show "find_by sd_name (s_scopes prev) k = find_by sd_name (s_scopes now) k"
  proof (cases "find_by sd_name (s_scopes now) k")
    case (Some s)
    then have "s \<in> set (s_scopes now)" "sd_name s = k" by (auto simp: find_by_def dest: find_SomeD)
    then show ?thesis using Some empty(1) by (auto simp: fsc)
  next
    case None
    have "find_by sd_name (s_scopes prev) k = None"
    proof (rule ccontr)
      assume "find_by sd_name (s_scopes prev) k \<noteq> None"
      then obtain s where "s \<in> set (s_scopes prev)" "sd_name s = k" by (auto simp: find_by_def dest: find_SomeD)
      then show False using empty(2) None by (auto simp: fsc)
    qed
    then show ?thesis using None by simp
  qed
qed simp


subsection \<open>The order of a script\<close>

lemma sort_key_phases:
  fixes f :: "'a \<Rightarrow> nat"
  assumes "\<And>x. x \<in> set xs \<Longrightarrow> f x < n"
  shows "sort_key f xs = concat (map (\<lambda>i. filter (\<lambda>x. f x = i) xs) [0..<n])"
  using assms
proof (induction n arbitrary: xs)
  case 0
  then show ?case by (cases xs) auto
next
  case (Suc n)
  have parts: "filter (\<lambda>x. f x < n) (sort_key f xs) @ filter (\<lambda>x. \<not> f x < n) (sort_key f xs) = sort_key f xs"
  proof -
    have "sorted (map f ys) \<Longrightarrow> filter (\<lambda>x. f x < n) ys @ filter (\<lambda>x. \<not> f x < n) ys = ys" for ys
    proof (induction ys)
      case (Cons y ys)
      then show ?case
      proof (cases "f y < n")
        case False
        then have "filter (\<lambda>x. f x < n) ys = []" using Cons.prems by (auto simp: filter_empty_conv)
        then show ?thesis using Cons False by simp
      qed simp
    qed simp
    then show ?thesis by simp
  qed
  have "filter (\<lambda>x. f x < n) (sort_key f xs)
      = concat (map (\<lambda>i. filter (\<lambda>x. f x = i) (filter (\<lambda>x. f x < n) xs)) [0..<n])"
    using Suc.IH [of "filter (\<lambda>x. f x < n) xs"] by (simp add: filter_sort)
  moreover have "map (\<lambda>i. filter (\<lambda>x. f x = i) (filter (\<lambda>x. f x < n) xs)) [0..<n] = map (\<lambda>i. filter (\<lambda>x. f x = i) xs) [0..<n]"
    by (auto intro!: filter_cong)
  ultimately have low: "filter (\<lambda>x. f x < n) (sort_key f xs) = concat (map (\<lambda>i. filter (\<lambda>x. f x = i) xs) [0..<n])"
    by (simp only:)
  have "filter (\<lambda>x. \<not> f x < n) (sort_key f xs) = filter (\<lambda>x. f x = n) xs"
  proof -
    have "filter (\<lambda>x. \<not> f x < n) xs = filter (\<lambda>x. f x = n) xs"
      using Suc.prems by (intro filter_cong) (auto simp: less_Suc_eq)
    moreover have "sort_key f (filter (\<lambda>x. f x = n) xs) = filter (\<lambda>x. f x = n) xs"
      by (rule sort_key_id_if_sorted) (rule sorted_map_const [where c = n], simp)
    ultimately show ?thesis by (simp add: filter_sort)
  qed
  then show ?case using parts low by simp
qed

lemma phase_bound: "phase st < 5"
  by (cases st) simp_all

text \<open>A \<open>format 2\<close> script runs every foreign key drop first, then the index drops, then the
  table and column steps, then the index additions and last the foreign key additions; inside
  each group the diff's order is kept, and no step is lost or run twice.\<close>

theorem constraint_safe_groups:
  "constraint_safe steps = filter (\<lambda>s. phase s = 0) steps @ filter (\<lambda>s. phase s = 1) steps
     @ filter (\<lambda>s. phase s = 2) steps @ filter (\<lambda>s. phase s = 3) steps @ filter (\<lambda>s. phase s = 4) steps
   \<and> mset (constraint_safe steps) = mset steps"
proof
  show "constraint_safe steps = filter (\<lambda>s. phase s = 0) steps @ filter (\<lambda>s. phase s = 1) steps
     @ filter (\<lambda>s. phase s = 2) steps @ filter (\<lambda>s. phase s = 3) steps @ filter (\<lambda>s. phase s = 4) steps"
    using sort_key_phases [of steps phase 5] phase_bound
    by (simp add: constraint_safe_def upt_rec numeral_eq_Suc)
qed (rule constraint_safe_perm)

subsection \<open>A run on a concrete schema\<close>

text \<open>A one-column table, and the same with its column marked unique.\<close>

definition plain_column :: "str \<Rightarrow> column_snap" where
  "plain_column n = \<lparr>c_name = n, c_ty = ''int'', c_nullable = False, c_default = None, c_unique = False,
     c_fk = None, c_generated = None\<rparr>"

definition plain_table :: "str \<Rightarrow> str list \<Rightarrow> table_snap" where
  "plain_table n cols = \<lparr>t_name = n, t_schema = None, t_soft_delete = None, t_created = None,
     t_updated = None, t_scope_alts = [], t_sort = [], t_no_id = False, t_pk = [''id''],
     t_columns = map plain_column cols, t_indexes = [], t_foreign_keys = []\<rparr>"

definition one_table :: "table_snap \<Rightarrow> rename_decl list \<Rightarrow> snapshot" where
  "one_table t rs = \<lparr>s_scopes = [], s_tables = [t], s_renames = rs\<rparr>"

definition card_before :: snapshot where
  "card_before = one_table (plain_table ''card'' [''id'', ''name'']) []"

definition card_after :: snapshot where
  "card_after = one_table ((plain_table ''card'' [''id'', ''name'', ''rank''])
     \<lparr>t_indexes := [\<lparr>ix_name = ''ix'', ix_columns = [''rank''], ix_unique = False, ix_method = None, ix_raw = None\<rparr>]\<rparr>) []"

theorem diff_self_witness: "diff_snapshots card_after card_after = []"
  by (rule diff_self) code_simp



subsection \<open>Edits that slip through\<close>

text \<open>\<open>column_changes\<close> compares neither \<open>unique\<close> nor \<open>fk\<close>: marking a column unique gives no step.\<close>

lemma unique_change_not_diffed:
  "diff_snapshots (one_table (plain_table ''card'' [''id'']) [])
     (one_table ((plain_table ''card'' [''id''])\<lparr>t_columns := [(plain_column ''id'')\<lparr>c_unique := True\<rparr>]\<rparr>) []) = []"
  by code_simp

text \<open>Nor is a change of the primary key.\<close>

lemma pk_change_not_diffed:
  "diff_snapshots (one_table (plain_table ''card'' [''a'', ''id'']) [])
     (one_table ((plain_table ''card'' [''a'', ''id''])\<lparr>t_pk := [''a'']\<rparr>) []) = []"
  by code_simp

text \<open>In the \<open>format 2\<close> order the index drop of a renamed table runs before the rename, on a table
  that does not exist yet, so the index survives.\<close>

definition index_on_id :: index_snap where
  "index_on_id = \<lparr>ix_name = ''ix'', ix_columns = [''id''], ix_unique = False, ix_method = None, ix_raw = None\<rparr>"

lemma renamed_table_keeps_index:
  "let prev = one_table ((plain_table ''card'' [''id''])\<lparr>t_indexes := [index_on_id]\<rparr>) [];
       now = one_table (plain_table ''deck'' [''id'']) [Rename_Table ''card'' ''deck''];
       steps = constraint_safe (diff_snapshots prev now) in
   steps = [Drop_Index ''deck'' None ''ix'', Step_Rename_Table ''card'' ''deck'' None]
   \<and> map t_indexes (s_tables (fold evolve steps prev)) = [[index_on_id]]"
  by code_simp

text \<open>Two models that both claim the same previous table: the second is never created.\<close>

lemma shared_rename_loses_table:
  "let prev = one_table (plain_table ''a'' [''id'']) [];
       now = \<lparr>s_scopes = [], s_tables = [plain_table ''b'' [''id''], plain_table ''c'' [''id'']],
              s_renames = [Rename_Table ''a'' ''b'', Rename_Table ''a'' ''c'']\<rparr> in
   map t_name (s_tables (fold evolve (diff_snapshots prev now) prev)) = [''b'']"
  by code_simp

end
