(* ===== verification/Script.thy ===== *)
theory Script
  imports Content_Hash Str_Facts Diff_Props
begin

text \<open>
  Scripts as the engine runs them: \<open>place.rs\<close> interleaves the derived steps with the authored
  items, \<open>down_mig.rs\<close> derives the reverse, and the generated \<open>up.mig\<close> is recognised as a
  \<open>format 2\<close> script that matches its snapshots.
\<close>

subsection \<open>Generated scripts\<close>

lemma split_whitespace_hd:
  assumes "trim_start s = c # r" "word_char c" "split_whitespace s = a # ws"
  shows "\<exists>a'. a = c # a'"
proof (cases "split_once_ws (c # r)")
  case None
  then have "split_whitespace s = [c # r]"
    using assms(1) by (simp add: split_whitespace.simps [of s] del: split_once_ws.simps)
  then show ?thesis using assms(3) by simp
next
  case (Some p)
  then obtain x y where p: "p = (x, y)" by (cases p)
  have "split_once_ws (c # r) = prepend [c] (split_once_ws r)" using assms(2) by simp
  then obtain x' where "x = c # x'" using Some p by (auto simp: prepend_eq_Some_iff)
  moreover have "split_whitespace s = x # split_whitespace y"
    using assms(1) Some p by (simp add: split_whitespace.simps [of s] del: split_once_ws.simps)
  ultimately show ?thesis using assms(3) by simp
qed

lemma hash_word_char: "word_char (CHR ''#'')"
  by (simp add: word_char_def)

lemma not_data_opener_hash:
  assumes "t = CHR ''#'' # r"
  shows "\<not> is_data_opener t"
proof (cases "split_whitespace t")
  case (Cons a ws)
  then obtain a' where "a = CHR ''#'' # a'"
    using split_whitespace_hd [of t "CHR ''#''" r a ws] assms hash_word_char by auto
  then show ?thesis using Cons by (cases ws) (simp_all add: is_data_opener_def)
qed (simp add: is_data_opener_def)

lemma comment_entry: "entry_at (CHR ''#'' # l) rest = (Structural (CHR ''#'' # l), rest)"
proof -
  obtain r where t: "trim (CHR ''#'' # l) = CHR ''#'' # r" using trim_comment by blast
  then show ?thesis
    using not_data_opener_hash [OF t]
    by (simp add: entry_at_def format_marker_def raw_line_opener_def)
qed

lemma scan_comments:
  assumes "list_all (\<lambda>l. \<exists>r. l = CHR ''#'' # r) cs"
  shows "\<exists>out'. scan_from n c (cs @ ls) out = scan_from (n + length cs) c ls out'"
  using assms
proof (induction cs arbitrary: n out)
  case (Cons l cs)
  then obtain r where l: "l = CHR ''#'' # r" by auto
  have "\<not> is_canonical l" using trim_comment [of r] l
    by (metis is_canonical_def starts_with_def strip_prefix.simps(1,3) option.simps(3))
  then have "scan_from n c ((l # cs) @ ls) out = scan_from (Suc n) c (cs @ ls) (out\<lparr>sc_structural := sc_structural out @ [l]\<rparr>)"
    using l by (simp add: comment_entry)
  then show ?case using Cons.IH [of "Suc n"] Cons.prems by simp
qed auto

lemma scan_keeps_in_order: "sc_in_order out \<Longrightarrow> sc_in_order (scan_from n c ls out)"
proof (induction n c ls out rule: scan_from.induct)
  case (2 line canonical l rest out)
  show ?case
  proof (cases "entry_at l rest")
    case (Pair kind nxt)
    show ?thesis using 2 Pair by (cases kind) (simp_all add: Let_def)
  qed
qed simp

lemma trim_marker: "trim format_marker = format_marker"
  by (rule solid_trim) (simp add: solid_def format_marker_def word_char_def)

lemma marker_entry: "entry_at format_marker rest = (Marker, rest)"
  by (simp add: entry_at_def trim_marker)

lemma up_header_split:
  "up_header_lines = butlast up_header_lines @ [format_marker]"
  "list_all (\<lambda>l. \<exists>r. l = CHR ''#'' # r) (butlast up_header_lines)"
  by (simp_all add: up_header_lines_def format_marker_def)

lemma up_header_unlines: "up_header = unlines up_header_lines"
  by (simp add: up_header_def unlines_def writeln_def [abs_def])

lemma up_header_ok: "list_all line_ok up_header_lines"
  by (simp add: up_header_lines_def line_ok_def dash_def)

lemma render_up_in_order: "sc_in_order (scan (render_up_as_is steps))"
proof -
  have "lines (render_up_as_is steps) = butlast up_header_lines @ format_marker # lines (concat (map render_step steps))"
    unfolding render_up_as_is_def up_header_unlines lines_unlines_append [OF up_header_ok]
    by (subst up_header_split(1)) simp
  then obtain out where "scan (render_up_as_is steps)
      = scan_from (1 + length (butlast up_header_lines)) 0 (format_marker # lines (concat (map render_step steps))) out"
    unfolding scan_def using scan_comments [OF up_header_split(2)] by metis
  then show ?thesis by (simp add: marker_entry scan_keeps_in_order)
qed

text \<open>The \<open>up.mig\<close> that \<open>migrate gen\<close> writes is accepted as it is: it scans as an in-order
  script, so the steps derived for it are the reordered ones, and its structural lines match
  them.\<close>

theorem generated_up_accepted:
  "up_steps prev now (render_up (diff_snapshots prev now)) = constraint_safe (diff_snapshots prev now)
   \<and> up_mig_matches_snapshot (render_up (diff_snapshots prev now))
       (up_steps prev now (render_up (diff_snapshots prev now)))"
proof -
  have "up_steps prev now (render_up (diff_snapshots prev now)) = constraint_safe (diff_snapshots prev now)"
    by (simp add: up_steps_def render_up_def render_up_in_order)
  then show ?thesis by (simp only: up_mig_matches_snapshot_def render_up_def simp_thms)
qed


subsection \<open>Reversal\<close>

text \<open>\<open>down_mig.rs\<close>.\<close>

fun table_back :: "rename_decl list \<Rightarrow> str \<Rightarrow> str" where
  "table_back [] name = name"
| "table_back (Rename_Table from to # rs) name = (if to = name then from else table_back rs name)"
| "table_back (Rename_Column _ _ _ # rs) name = table_back rs name"

fun rename_back :: "rename_decl list \<Rightarrow> rename_decl \<Rightarrow> rename_decl" where
  "rename_back rs (Rename_Table from to) = Rename_Table to from"
| "rename_back rs (Rename_Column table from to) = Rename_Column (table_back rs table) to from"

definition rollback_target :: "snapshot \<Rightarrow> snapshot \<Rightarrow> snapshot" where
  "rollback_target prev now = prev\<lparr>s_renames := sort (map (rename_back (s_renames now)) (s_renames now))\<rparr>"

definition down_steps :: "snapshot \<Rightarrow> snapshot \<Rightarrow> step list" where
  "down_steps prev now = constraint_safe (diff_snapshots now (rollback_target prev now))"


lemma reach_hypotheses: "wf_snapshot card_before" "wf_snapshot card_after" "s_renames card_after = []"
  by code_simp+



text \<open>
  \<open>rollback_target\<close> inverts every declared rename, an inert one included. When a model drops a
  column and claims its name on a column that already existed, up drops the column; the reverse
  then takes the inverted rename at its word and renames the surviving column away instead of
  adding the dropped one back.
\<close>

lemma inert_rename_breaks_rollback:
  "let prev = one_table (plain_table ''card'' [''x'', ''y'']) [];
       now = one_table (plain_table ''card'' [''y'']) [Rename_Column ''card'' ''x'' ''y''] in
   diff_snapshots prev now = [Drop_Column ''card'' None ''x'']
   \<and> down_steps prev now = [Step_Rename_Column ''card'' None ''y'' ''x'']
   \<and> map (map c_name \<circ> t_columns) (s_tables (fold evolve (down_steps prev now) now)) = [[''x'']]"
  by code_simp

subsection \<open>Reverse scripts\<close>

definition down_header_lines :: "str list" where
  "down_header_lines =
    [''# down.mig '' @ dash @ '' generated by `based migrate gen`: the reverse of up.mig, run by'',
     ''# `based migrate apply --down`.'',
     ''#'',
     ''# The structural steps below are derived from the two schema.snap files; `apply` refuses a'',
     ''# down.mig whose structural lines diverge from them. Every line runs in the order written.'',
     ''# A reverse can restore a dropped column'' @ [CHR 0x27] @ ''s shape but not its data. What you CAN add between'',
     ''# the steps: data steps over the table and column names as of that line, and'',
     ''# raw(<dialect>) `<sql>` lines.'']"

definition render_down_steps :: "step list \<Rightarrow> str" where
  "render_down_steps steps =
     concat (map writeln down_header_lines) @ format_marker @ nl @ concat (map render_step steps)"

definition render_down :: "snapshot \<Rightarrow> snapshot \<Rightarrow> str" where
  "render_down prev now = render_down_steps (down_steps prev now)"

text \<open>The structural check of \<open>plan_down\<close>: an in-order script whose lines are the reverse's.\<close>

definition down_mig_matches :: "snapshot \<Rightarrow> snapshot \<Rightarrow> str \<Rightarrow> bool" where
  "down_mig_matches prev now down_text \<longleftrightarrow>
     content_hash (strip_raw_steps down_text)
       = content_hash (strip_raw_steps (render_down_steps (down_steps prev now)))"

subsection \<open>Placing authored items\<close>

datatype placed =
    Placed_Step step
  | Placed_Raw step
  | Placed_Data nat str

record script_problem =
  sp_file :: str
  sp_line :: nat
  sp_message :: str

definition canonical_lines :: "step \<Rightarrow> nat" where
  "canonical_lines st = length (filter is_canonical (lines (render_step st)))"

text \<open>The inner loop: take the steps that end at or before the item's anchor.\<close>

fun take_steps :: "nat \<Rightarrow> nat \<Rightarrow> step list \<Rightarrow> step list \<times> nat \<times> step list" where
  "take_steps seen after [] = ([], seen, [])"
| "take_steps seen after (st # sts) =
     (if seen + canonical_lines st \<le> after
      then (case take_steps (seen + canonical_lines st) after sts of (a, n, b) \<Rightarrow> (st # a, n, b))
      else ([], seen, st # sts))"

definition placed_item :: "item \<Rightarrow> placed" where
  "placed_item i = (case it_kind i of
       Item_Raw st \<Rightarrow> Placed_Raw st
     | Item_Data text \<Rightarrow> Placed_Data (it_line i) text)"

fun place_items :: "str \<Rightarrow> nat \<Rightarrow> step list \<Rightarrow> item list \<Rightarrow> script_problem + placed list" where
  "place_items file seen pending [] = Inr (map Placed_Step pending)"
| "place_items file seen pending (i # is) =
     (case take_steps seen (it_after i) pending of (taken, seen', pending') \<Rightarrow>
        if seen' \<noteq> it_after i
        then Inl \<lparr>sp_file = file, sp_line = it_line i,
                  sp_message = ''a data step or raw line can'' @ [CHR 0x27] @ ''t sit inside a multi-line structural step''\<rparr>
        else and_then (place_items file seen' pending' is) (\<lambda>out.
          Inr (map Placed_Step taken @ placed_item i # out)))"

definition place :: "str \<Rightarrow> step list \<Rightarrow> scanned \<Rightarrow> script_problem + placed list" where
  "place file steps sc = place_items file 0 steps (sc_items sc)"

fun placed_steps :: "placed list \<Rightarrow> step list" where
  "placed_steps [] = []"
| "placed_steps (Placed_Step st # ps) = st # placed_steps ps"
| "placed_steps (_ # ps) = placed_steps ps"

text \<open>Each authored item with the number of structural lines that run before it.\<close>

fun placed_at :: "nat \<Rightarrow> placed list \<Rightarrow> (nat \<times> placed) list" where
  "placed_at n [] = []"
| "placed_at n (Placed_Step st # ps) = placed_at (n + canonical_lines st) ps"
| "placed_at n (p # ps) = (n, p) # placed_at n ps"

lemma take_steps_append:
  "take_steps seen after sts = (a, n, b) \<Longrightarrow> sts = a @ b \<and> n = seen + sum_list (map canonical_lines a)"
  by (induction seen after sts arbitrary: a n b rule: take_steps.induct) (auto split: if_splits prod.splits)

lemma placed_steps_append: "placed_steps (a @ b) = placed_steps a @ placed_steps b"
  by (induction a rule: placed_steps.induct) auto

lemma placed_steps_map: "placed_steps (map Placed_Step sts) = sts"
  by (induction sts) auto

lemma placed_at_map: "placed_at n (map Placed_Step sts @ ps) = placed_at (n + sum_list (map canonical_lines sts)) ps"
  by (induction sts arbitrary: n) (auto simp: ac_simps)

lemma placed_item_cases:
  "placed_steps (placed_item i # ps) = placed_steps ps"
  "placed_at n (placed_item i # ps) = (n, placed_item i) # placed_at n ps"
  by (auto simp: placed_item_def split: item_kind.split)

lemma place_items_sound:
  "place_items file seen pending items = Inr out \<Longrightarrow>
   placed_steps out = pending \<and> placed_at seen out = map (\<lambda>i. (it_after i, placed_item i)) items"
proof (induction items arbitrary: seen pending out)
  case Nil
  then show ?case using placed_at_map [of seen pending "[]"] by (auto simp: placed_steps_map)
next
  case (Cons i items)
  obtain taken seen' pending' where t: "take_steps seen (it_after i) pending = (taken, seen', pending')"
    by (cases "take_steps seen (it_after i) pending")
  then have s: "seen' = it_after i"
    and "\<exists>out'. place_items file seen' pending' items = Inr out' \<and> out = map Placed_Step taken @ placed_item i # out'"
    using Cons.prems by (auto split: if_splits)
  then obtain out' where o: "place_items file seen' pending' items = Inr out'"
      "out = map Placed_Step taken @ placed_item i # out'" by blast
  then show ?case
    using take_steps_append [OF t] Cons.IH [OF o(1)] s
    by (simp add: placed_steps_append placed_steps_map placed_at_map placed_item_cases)
qed

text \<open>Placing loses, repeats and reorders nothing: when a script is accepted, its plan runs
  exactly the derived steps in their order, and every raw line and data step, in the order
  written, after exactly the structural lines it was written after.\<close>

theorem place_keeps_order:
  assumes "place file steps sc = Inr out"
  shows "placed_steps out = steps \<and> placed_at 0 out = map (\<lambda>i. (it_after i, placed_item i)) (sc_items sc)"
  using assms unfolding place_def by (rule place_items_sound)

definition mixed_script :: str where
  "mixed_script = unlines [''format 2'', ''drop index ix'', ''update all card {'', ''  paper = true'', ''}'',
     ''raw(sqlite) `VACUUM`'', ''add column card.rank int null'']"

definition mixed_steps :: "step list" where
  "mixed_steps = [Drop_Index ''card'' None ''ix'', Add_Column ''card'' None (plain_column ''rank'')]"

definition mixed_plan :: "placed list" where
  "mixed_plan =
    [Placed_Step (Drop_Index ''card'' None ''ix''),
     Placed_Data 3 (join nl [''update all card {'', ''  paper = true'', ''}'']),
     Placed_Raw (Raw_Step Sqlite ''VACUUM''),
     Placed_Step (Add_Column ''card'' None (plain_column ''rank''))]"

theorem place_keeps_order_witness:
  "placed_steps mixed_plan = mixed_steps
   \<and> placed_at 0 mixed_plan = map (\<lambda>i. (it_after i, placed_item i)) (sc_items (scan mixed_script))"
proof -
  have "place ''up.mig'' mixed_steps (scan mixed_script) = Inr mixed_plan" by code_simp
  then show ?thesis by (rule place_keeps_order)
qed

end
