(* ===== verification/Ast_Types.thy ===== *)
theory Ast_Types
  imports Rust_Str
begin

text \<open>
  Two enums of the language that the code generator and the runtime share: the primitive types
  (\<open>based-ast/src/lib.rs\<close>) and the referential actions (\<open>based-sema/src/ir.rs\<close>).
\<close>

datatype primitive =
    P_Text
  | P_Int
  | P_Bool
  | P_Timestamp
  | P_Date
  | P_Json
  | P_Uuid
  | P_Id
  | P_Ulid
  | P_Serial
  | P_Float
  | P_Decimal nat nat
  | P_Time
  | P_Bytes

datatype fk_action = Act_Cascade | Act_Restrict | Act_Set_Null | Act_No_Action

definition parse_fk_action :: "str \<Rightarrow> fk_action option" where
  "parse_fk_action s =
     (if s = ''cascade'' then Some Act_Cascade
      else if s = ''restrict'' then Some Act_Restrict
      else if s = ''set_null'' then Some Act_Set_Null
      else if s = ''no_action'' then Some Act_No_Action
      else None)"

fun fk_action_clause :: "fk_action \<Rightarrow> str" where
  "fk_action_clause Act_Cascade = ''CASCADE''"
| "fk_action_clause Act_Restrict = ''RESTRICT''"
| "fk_action_clause Act_Set_Null = ''SET NULL''"
| "fk_action_clause Act_No_Action = ''NO ACTION''"

end
