(* ===== verification/Expr_Ast.thy ===== *)
theory Expr_Ast
  imports Ast_Types
begin

text \<open>
  The expression language that migrations, filters and mutations share: the nodes of
  \<open>based-ast/src/lib.rs\<close> and \<open>data_step.rs\<close> a migration data step is made of. The parser builds no
  path without a segment.
\<close>

subsection \<open>Positions and names\<close>

record span =
  span_file :: nat
  span_start :: nat
  span_end :: nat

record ident_node =
  id_node :: str
  id_span :: span

type_synonym path = "ident_node list"

subsection \<open>Values\<close>

datatype literal =
    Lit_Str str
  | Lit_Int int
  | Lit_Decimal str
  | Lit_Bool bool
  | Lit_Null

record param_ref =
  pr_name :: ident_node
  pr_path :: "ident_node list"
  pr_optional :: bool

datatype ast_value =
    Val_Param param_ref
  | Val_Path path
  | Val_Lit literal
  | Val_Func ident_node "ast_value list"

subsection \<open>Predicates\<close>

datatype cmp_op = Op_Eq | Op_Ne | Op_Gt | Op_Lt | Op_Ge | Op_Le | Op_Like | Op_Like_All | Op_Like_Any | Op_In | Op_Has

datatype raw_part =
    Raw_Text str
  | Raw_Param param_ref
  | Raw_Engine ident_node

record raw_sql =
  rs_parts :: "raw_part list"
  rs_span :: span

datatype predicate =
    Pred_Or predicate predicate
  | Pred_And predicate predicate
  | Pred_Not predicate
  | Pred_Cmp path cmp_op ast_value
  | Pred_In path "ast_value list"
  | Pred_Bare path
  | Pred_Filter ident_node "ast_value list"
  | Pred_Any path "ident_node option" "predicate option"
  | Pred_Raw raw_sql

subsection \<open>Expressions\<close>

datatype arith_op = Arith_Add | Arith_Sub | Arith_Mul | Arith_Div

datatype shape_expr =
    Expr_Value ast_value
  | Expr_Arith shape_expr arith_op shape_expr span
  | Expr_Concat shape_expr shape_expr span
  | Expr_Case "case_arm list" shape_expr span
and case_arm = Case_Arm (arm_when: predicate) (arm_then: shape_expr)

subsection \<open>Data steps (data_step.rs)\<close>

record data_assign =
  da_col :: ident_node
  da_value :: shape_expr

record data_row =
  dr_assigns :: "data_assign list"
  dr_span :: span

record conflict_spread =
  cs_source :: ident_node
  cs_preceding :: nat
  cs_span :: span

record data_conflict =
  dc_target :: "ident_node list"
  dc_update :: "data_assign list"
  dc_spread :: "conflict_spread option"
  dc_span :: span

record chunk_mod =
  ch_size :: nat
  ch_by :: "ident_node option"
  ch_pause_ms :: "nat option"
  ch_span :: span

datatype data_op =
    Op_Create ident_node "data_row list" bool "data_conflict option"
  | Op_Update ident_node "predicate option" "data_assign list"
  | Op_Delete ident_node "predicate option"

fun op_table :: "data_op \<Rightarrow> ident_node" where
  "op_table (Op_Create table _ _ _) = table"
| "op_table (Op_Update table _ _) = table"
| "op_table (Op_Delete table _) = table"

record data_step =
  ds_op :: data_op
  ds_chunk :: "chunk_mod option"
  ds_span :: span

end
