(* ===== verification/Ddl.thy ===== *)
theory Ddl
  imports Up_Mig Ast_Types
begin

text \<open>
  One neutral step as bare SQL statements (codegen \<open>migrate/sql/statements.rs\<close>, \<open>column.rs\<close>,
  \<open>snap_parse.rs\<close>, \<open>sql/types.rs\<close>). The expression of a generated column is parsed and lowered
  elsewhere: the argument \<open>gen\<close> is that function, \<open>None\<close> when the text does not parse. Upper-casing is
  that of ASCII.
\<close>

subsection \<open>Types (sql/types.rs)\<close>

definition mysql_sql_type :: "primitive \<Rightarrow> bool \<Rightarrow> str" where
  "mysql_sql_type ty many = (if many then ''JSON'' else case ty of
       P_Text \<Rightarrow> ''VARCHAR(255)''
     | P_Int \<Rightarrow> ''BIGINT''
     | P_Bool \<Rightarrow> ''BOOLEAN''
     | P_Timestamp \<Rightarrow> ''DATETIME''
     | P_Date \<Rightarrow> ''DATE''
     | P_Time \<Rightarrow> ''TIME''
     | P_Bytes \<Rightarrow> ''BLOB''
     | P_Json \<Rightarrow> ''JSON''
     | P_Uuid \<Rightarrow> ''CHAR(36)''
     | P_Id \<Rightarrow> ''CHAR(36)''
     | P_Ulid \<Rightarrow> ''CHAR(26)''
     | P_Serial \<Rightarrow> ''BIGINT''
     | P_Float \<Rightarrow> ''DOUBLE''
     | P_Decimal p s \<Rightarrow> ''DECIMAL('' @ dec p @ '', '' @ dec s @ '')'')"

definition sqlite_sql_type :: "primitive \<Rightarrow> bool \<Rightarrow> str" where
  "sqlite_sql_type ty many = (if many then ''TEXT'' else case ty of
       P_Text \<Rightarrow> ''TEXT''
     | P_Int \<Rightarrow> ''INTEGER''
     | P_Bool \<Rightarrow> ''INTEGER''
     | P_Timestamp \<Rightarrow> ''TEXT''
     | P_Date \<Rightarrow> ''TEXT''
     | P_Time \<Rightarrow> ''TEXT''
     | P_Bytes \<Rightarrow> ''BLOB''
     | P_Json \<Rightarrow> ''TEXT''
     | P_Uuid \<Rightarrow> ''TEXT''
     | P_Id \<Rightarrow> ''TEXT''
     | P_Ulid \<Rightarrow> ''TEXT''
     | P_Serial \<Rightarrow> ''INTEGER''
     | P_Float \<Rightarrow> ''REAL''
     | P_Decimal p s \<Rightarrow> ''TEXT'')"

definition postgres_sql_type :: "primitive \<Rightarrow> bool \<Rightarrow> str" where
  "postgres_sql_type ty many = (if many then ''JSONB'' else case ty of
       P_Text \<Rightarrow> ''TEXT''
     | P_Int \<Rightarrow> ''BIGINT''
     | P_Bool \<Rightarrow> ''BOOLEAN''
     | P_Timestamp \<Rightarrow> ''TIMESTAMPTZ''
     | P_Date \<Rightarrow> ''DATE''
     | P_Time \<Rightarrow> ''TIME''
     | P_Bytes \<Rightarrow> ''BYTEA''
     | P_Json \<Rightarrow> ''JSONB''
     | P_Uuid \<Rightarrow> ''UUID''
     | P_Id \<Rightarrow> ''UUID''
     | P_Ulid \<Rightarrow> ''TEXT''
     | P_Serial \<Rightarrow> ''BIGINT''
     | P_Float \<Rightarrow> ''DOUBLE PRECISION''
     | P_Decimal p s \<Rightarrow> ''NUMERIC('' @ dec p @ '', '' @ dec s @ '')'')"

definition sql_type :: "primitive \<Rightarrow> bool \<Rightarrow> dialect \<Rightarrow> str" where
  "sql_type ty many d = (case d of
       Sqlite \<Rightarrow> sqlite_sql_type ty many
     | Postgres \<Rightarrow> postgres_sql_type ty many
     | _ \<Rightarrow> mysql_sql_type ty many)"

definition index_name :: "str \<Rightarrow> str \<Rightarrow> str list \<Rightarrow> str" where
  "index_name prefix table columns = prefix @ ''_'' @ table @ concat (map (\<lambda>c. ''_'' @ c) columns)"

definition quote_cols :: "dialect \<Rightarrow> str list \<Rightarrow> str" where
  "quote_cols d cols = join '', '' (map (quote d) cols)"

definition enum_check_clause :: "dialect \<Rightarrow> str \<Rightarrow> str \<Rightarrow> str list \<Rightarrow> str" where
  "enum_check_clause d table column vals =
     ''CONSTRAINT '' @ quote d (index_name ''ck'' table [column]) @ '' CHECK ('' @ quote d column @ '' IN ('' @
     join '', '' vals @ ''))''"

definition upper_char :: "char \<Rightarrow> char" where
  "upper_char c = (let n = of_char c :: nat in if 97 \<le> n \<and> n \<le> 122 then char_of (n - 32) else c)"

definition to_upper :: "str \<Rightarrow> str" where
  "to_upper s = map upper_char s"

definition fk_action_sql :: "str \<Rightarrow> str" where
  "fk_action_sql a = (case parse_fk_action a of
       Some act \<Rightarrow> fk_action_clause act
     | None \<Rightarrow> replace_char (CHR ''_'') '' '' (to_upper a))"

definition fk_actions :: "foreign_key_snap \<Rightarrow> str" where
  "fk_actions f =
     (case f_on_delete f of Some a \<Rightarrow> '' ON DELETE '' @ fk_action_sql a | None \<Rightarrow> [])
     @ (case f_on_update f of Some a \<Rightarrow> '' ON UPDATE '' @ fk_action_sql a | None \<Rightarrow> [])"

definition fk_constraint_clause :: "dialect \<Rightarrow> str \<Rightarrow> foreign_key_snap \<Rightarrow> str" where
  "fk_constraint_clause d table f =
     ''CONSTRAINT '' @ quote d (index_name ''fk'' table (f_columns f)) @ '' FOREIGN KEY ('' @ quote_cols d (f_columns f) @
     '') REFERENCES '' @ quote_table d (f_ref_schema f) (f_ref_table f) @ '' ('' @ quote_cols d (f_ref_columns f) @ '')'' @
     fk_actions f"

definition serial_pk_column :: "dialect \<Rightarrow> str \<Rightarrow> str" where
  "serial_pk_column d column = quote d column @ (case d of
       Postgres \<Rightarrow> '' BIGINT GENERATED ALWAYS AS IDENTITY''
     | Sqlite \<Rightarrow> '' INTEGER PRIMARY KEY AUTOINCREMENT''
     | _ \<Rightarrow> '' BIGINT NOT NULL AUTO_INCREMENT'')"

subsection \<open>Snapshot texts (snap_parse.rs)\<close>

fun split_map_from :: "bool \<Rightarrow> bool \<Rightarrow> str \<Rightarrow> str \<Rightarrow> str list" where
  "split_map_from in_str esc cur [] = [cur]"
| "split_map_from in_str esc cur (c # s) =
     (if esc then split_map_from in_str False (cur @ [c]) s
      else if c = backslash \<and> in_str then split_map_from in_str True (cur @ [c]) s
      else if c = dq then split_map_from (\<not> in_str) esc (cur @ [c]) s
      else if c = CHR '','' \<and> \<not> in_str then cur # split_map_from in_str esc [] s
      else split_map_from in_str esc (cur @ [c]) s)"

definition split_map_entries :: "str \<Rightarrow> str list" where
  "split_map_entries m = split_map_from False False [] m"

fun unescape :: "str \<Rightarrow> str" where
  "unescape [] = []"
| "unescape [c] = (if c = backslash then [] else [c])"
| "unescape (c # x # s) = (if c = backslash then x # unescape s else c # unescape (x # s))"

text \<open>\<open>s.strip_prefix(p).and_then(|x| x.strip_suffix(q))\<close>.\<close>

definition strip_both :: "str \<Rightarrow> str \<Rightarrow> str \<Rightarrow> str option" where
  "strip_both p q s = Option.bind (strip_prefix p s) (strip_suffix q)"

definition unquote_snap :: "str \<Rightarrow> str" where
  "unquote_snap s = (case strip_both [dq] [dq] s of None \<Rightarrow> s | Some inner \<Rightarrow> unescape inner)"

text \<open>The literal a canonical \<open>raw(..)\<close> holds for a dialect.\<close>

definition raw_body_for :: "str \<Rightarrow> dialect \<Rightarrow> str" where
  "raw_body_for canonical d = (case strip_both ''raw('' '')'' canonical of
       None \<Rightarrow> canonical
     | Some i \<Rightarrow> (case strip_both ''{'' ''}'' (trim i) of
         None \<Rightarrow> unquote_snap (trim i)
       | Some m \<Rightarrow> (case List.map_filter (\<lambda>e. strip_prefix (dialect_name d @ '':'') (trim e)) (split_map_entries m) of
           v # _ \<Rightarrow> unquote_snap (trim v)
         | [] \<Rightarrow> [])))"

subsection \<open>Columns (column.rs)\<close>

definition dec_digit :: "char \<Rightarrow> bool" where
  "dec_digit c \<longleftrightarrow> (let n = of_char c :: nat in 48 \<le> n \<and> n \<le> 57)"

text \<open>\<open>str::parse::<u32>\<close>.\<close>

definition parse_u32 :: "str \<Rightarrow> nat option" where
  "parse_u32 s =
     (let t = (case s of c # r \<Rightarrow> (if c = CHR ''+'' then r else s) | [] \<Rightarrow> s);
          n = foldl (\<lambda>n c. 10 * n + (of_char c - 48)) 0 t in
      if t = [] \<or> \<not> list_all dec_digit t \<or> 2 ^ 32 \<le> n then None else Some n)"

definition parse_decimal :: "str \<Rightarrow> primitive" where
  "parse_decimal s = (case strip_both ''decimal('' '')'' s of
       None \<Rightarrow> P_Decimal 38 9
     | Some inner \<Rightarrow> (case split_on (CHR '','') inner of
         p # q # _ \<Rightarrow> (case (parse_u32 (trim p), parse_u32 (trim q)) of
             (Some precision, Some scale) \<Rightarrow> P_Decimal precision scale
           | _ \<Rightarrow> P_Decimal 38 9)
       | _ \<Rightarrow> P_Decimal 38 9))"

definition neutral_primitive :: "str \<Rightarrow> primitive" where
  "neutral_primitive b =
     (if b = ''text'' then P_Text
      else if b = ''int'' then P_Int
      else if b = ''bool'' then P_Bool
      else if b = ''timestamp'' then P_Timestamp
      else if b = ''date'' then P_Date
      else if b = ''time'' then P_Time
      else if b = ''bytes'' then P_Bytes
      else if b = ''json'' then P_Json
      else if b = ''uuid'' then P_Uuid
      else if b = ''ulid'' then P_Ulid
      else if b = ''serial'' then P_Serial
      else if b = ''float'' then P_Float
      else if starts_with ''decimal('' b then parse_decimal b
      else if starts_with ''enum:int('' b then P_Int
      else P_Text)"

definition neutral_sql_type :: "str \<Rightarrow> dialect \<Rightarrow> str" where
  "neutral_sql_type neutral d =
     (if starts_with ''raw('' neutral then raw_body_for neutral d
      else case strip_suffix ''[]'' neutral of
        Some b \<Rightarrow> sql_type (neutral_primitive b) True d
      | None \<Rightarrow> sql_type (neutral_primitive neutral) False d)"

definition render_neutral_default :: "str \<Rightarrow> dialect \<Rightarrow> str" where
  "render_neutral_default v d = (case strip_both [dq] [dq] v of
       Some inner \<Rightarrow> sql_string (replace_text [backslash, dq] [dq] inner)
     | None \<Rightarrow>
         (if v = ''true'' then bool_lit d True
          else if v = ''false'' then bool_lit d False
          else if v = ''null'' then ''NULL''
          else if strip_suffix ''()'' v \<noteq> None then now_sql d
          else v))"

definition enum_check_values :: "str \<Rightarrow> str list option" where
  "enum_check_values neutral = (case strip_both ''enum:int('' '')'' neutral of
       Some inner \<Rightarrow> Some (map trim (split_on (CHR '','') inner))
     | None \<Rightarrow> map_option (\<lambda>inner. map (\<lambda>s. sql_string (trim s)) (split_on (CHR '','') inner))
         (strip_both ''enum('' '')'' neutral))"

definition column_ddl :: "(dialect \<Rightarrow> str \<Rightarrow> str option) \<Rightarrow> column_snap \<Rightarrow> dialect \<Rightarrow> str" where
  "column_ddl gen c d =
     quote d (c_name c) @ '' '' @ neutral_sql_type (c_ty c) d @ (case c_generated c of
       Some g \<Rightarrow> '' GENERATED ALWAYS AS ('' @ (case gen d g of Some e \<Rightarrow> e | None \<Rightarrow> g) @ '') STORED''
     | None \<Rightarrow> (if c_nullable c then '' NULL'' else '' NOT NULL'') @ (case c_default c of
           Some v \<Rightarrow> '' DEFAULT '' @ render_neutral_default v d | None \<Rightarrow> []))"

end
