(* ===== verification/Ddl_Steps.thy ===== *)
theory Ddl_Steps
  imports Ddl
begin

text \<open>
  \<open>step_statements\<close> of codegen \<open>migrate/sql/statements.rs\<close>: each neutral step to its bare statements,
  or the message that the dialect has no such change in place.
\<close>

subsection \<open>Indexes\<close>

definition create_index_sql :: "dialect \<Rightarrow> str option \<Rightarrow> str \<Rightarrow> index_snap \<Rightarrow> str" where
  "create_index_sql d schema table i =
     (let kind = (if ix_unique i then ''CREATE UNIQUE INDEX'' else ''CREATE INDEX'');
          head = kind @ '' '' @ quote d (ix_name i) @ '' ON '' @ quote_table d schema table @ '' '';
          cols = ''('' @ quote_cols d (ix_columns i) @ '')'' in
      case ix_raw i of
        Some raw \<Rightarrow> head @ raw_body_for raw d
      | None \<Rightarrow> (case ix_method i of
          Some m \<Rightarrow> head @ ''USING '' @ m @ '' '' @ cols
        | None \<Rightarrow> head @ cols))"

definition drop_index_sql :: "dialect \<Rightarrow> str option \<Rightarrow> str \<Rightarrow> str \<Rightarrow> str" where
  "drop_index_sql d schema table name =
     (if is_mysql_family d then ''DROP INDEX '' @ quote d name @ '' ON '' @ quote_table d schema table
      else ''DROP INDEX '' @ quote d name)"

definition inline_index_line :: "dialect \<Rightarrow> index_snap \<Rightarrow> str" where
  "inline_index_line d i =
     (let key = (if ix_unique i then ''UNIQUE KEY'' else ''KEY'');
          (kind, using_text) = (case ix_method i of
            Some m \<Rightarrow> (if m = ''fulltext'' then (''FULLTEXT KEY'', [])
              else if m = ''spatial'' then (''SPATIAL KEY'', [])
              else (key, '' USING '' @ to_upper m))
          | None \<Rightarrow> (key, [])) in
      kind @ '' '' @ quote d (ix_name i) @ '' ('' @ quote_cols d (ix_columns i) @ '')'' @ using_text)"

definition inline_index_lines :: "table_snap \<Rightarrow> dialect \<Rightarrow> str list" where
  "inline_index_lines t d = map (inline_index_line d) (filter (\<lambda>i. ix_raw i = None) (t_indexes t))"

subsection \<open>Tables\<close>

text \<open>The default \<open>id\<close>, which the snapshot leaves out.\<close>

definition implicit_id :: "table_snap \<Rightarrow> bool" where
  "implicit_id t \<longleftrightarrow> \<not> t_no_id t \<and> t_pk t = [] \<and> find_column t ''id'' = None"

definition pk_and_column_lines :: "(dialect \<Rightarrow> str \<Rightarrow> str option) \<Rightarrow> table_snap \<Rightarrow> dialect \<Rightarrow> str list" where
  "pk_and_column_lines gen t d =
     (if implicit_id t then [quote d ''id'' @ '' '' @ sql_type P_Uuid False d @ '' NOT NULL''] else [])
     @ map (\<lambda>c. if c_ty c = ''serial'' then serial_pk_column d (c_name c) else column_ddl gen c d) (t_columns t)
     @ (if t_no_id t \<or> (d = Sqlite \<and> list_ex (\<lambda>c. c_ty c = ''serial'') (t_columns t)) then []
        else [''PRIMARY KEY ('' @ quote_cols d (if t_pk t = [] then [''id''] else t_pk t) @ '')''])"

definition unique_constraint_lines :: "table_snap \<Rightarrow> dialect \<Rightarrow> str list" where
  "unique_constraint_lines t d =
     map (\<lambda>c. ''CONSTRAINT '' @ quote d (index_name ''uq'' (t_name t) [c_name c]) @ '' UNIQUE ('' @ quote d (c_name c) @ '')'')
       (filter c_unique (t_columns t))"

definition enum_check_lines :: "table_snap \<Rightarrow> dialect \<Rightarrow> str list" where
  "enum_check_lines t d = List.map_filter
     (\<lambda>c. map_option (enum_check_clause d (t_name t) (c_name c)) (enum_check_values (c_ty c))) (t_columns t)"

definition fk_constraint_lines :: "table_snap \<Rightarrow> dialect \<Rightarrow> str list" where
  "fk_constraint_lines t d = map (fk_constraint_clause d (t_name t)) (t_foreign_keys t)"

definition create_table_sql :: "(dialect \<Rightarrow> str \<Rightarrow> str option) \<Rightarrow> table_snap \<Rightarrow> dialect \<Rightarrow> str" where
  "create_table_sql gen t d =
     ''CREATE TABLE '' @ quote_table d (t_schema t) (t_name t) @ '' ('' @ nl @
     join ('','' @ nl) (map (\<lambda>l. ''  '' @ l)
       (pk_and_column_lines gen t d @ unique_constraint_lines t d @ enum_check_lines t d @ fk_constraint_lines t d @
        (if is_mysql_family d then inline_index_lines t d else []))) @ nl @ '')''"

definition trailing_index_sql :: "table_snap \<Rightarrow> dialect \<Rightarrow> str list" where
  "trailing_index_sql t d = map (create_index_sql d (t_schema t) (t_name t))
     (filter (\<lambda>i. \<not> is_mysql_family d \<or> ix_raw i \<noteq> None) (t_indexes t))"

definition create_table_statements :: "(dialect \<Rightarrow> str \<Rightarrow> str option) \<Rightarrow> table_snap \<Rightarrow> dialect \<Rightarrow> str list" where
  "create_table_statements gen t d = create_table_sql gen t d # trailing_index_sql t d"

subsection \<open>Changes in place\<close>

definition add_foreign_key_statements ::
  "str \<Rightarrow> str option \<Rightarrow> foreign_key_snap \<Rightarrow> dialect \<Rightarrow> str + str list" where
  "add_foreign_key_statements table schema f d =
     (if d = Sqlite then Inl (''SQLite cannot ALTER TABLE '' @ table @ '' ADD the foreign key on '' @ tick (fk_label f) @
        ''; author a raw(sqlite) table-rebuild migration.'')
      else Inr [''ALTER TABLE '' @ quote_table d schema table @ '' ADD CONSTRAINT '' @
        quote d (index_name ''fk'' table (f_columns f)) @ '' FOREIGN KEY ('' @ quote_cols d (f_columns f) @
        '') REFERENCES '' @ quote_table d (f_ref_schema f) (f_ref_table f) @ '' ('' @ quote_cols d (f_ref_columns f) @ '')'' @
        fk_actions f])"

definition alter_schema_statements ::
  "str \<Rightarrow> str option \<Rightarrow> str option \<Rightarrow> dialect \<Rightarrow> str + str list" where
  "alter_schema_statements table from to d =
     (let from_q = quote_table d from table in case d of
        Postgres \<Rightarrow> Inr [''ALTER TABLE '' @ from_q @ '' SET SCHEMA '' @ quote d (case to of Some s \<Rightarrow> s | None \<Rightarrow> ''public'')]
      | Sqlite \<Rightarrow> Inl (''SQLite cannot move '' @ table @
          '' across attached databases in place; author a raw(sqlite) table-rebuild migration.'')
      | _ \<Rightarrow> Inr [''RENAME TABLE '' @ from_q @ '' TO '' @ quote_table d to table])"

definition drop_foreign_key_statements ::
  "str \<Rightarrow> str option \<Rightarrow> str list \<Rightarrow> dialect \<Rightarrow> str + str list" where
  "drop_foreign_key_statements table schema columns d =
     (let name = quote d (index_name ''fk'' table columns) in case d of
        Postgres \<Rightarrow> Inr [''ALTER TABLE '' @ quote_table d schema table @ '' DROP CONSTRAINT '' @ name]
      | Sqlite \<Rightarrow> Inl (''SQLite cannot ALTER TABLE '' @ table @ '' DROP the foreign key on '' @ tick (join '', '' columns) @
          ''; author a raw(sqlite) table-rebuild migration.'')
      | _ \<Rightarrow> Inr [''ALTER TABLE '' @ quote_table d schema table @ '' DROP FOREIGN KEY '' @ name])"

fun change_clause :: "dialect \<Rightarrow> column_change \<Rightarrow> str" where
  "change_clause d (Type_Change from to) = ''TYPE '' @ neutral_sql_type to d"
| "change_clause d Set_Null = ''DROP NOT NULL''"
| "change_clause d (Set_Not_Null _) = ''SET NOT NULL''"
| "change_clause d (Set_Default v) = ''SET DEFAULT '' @ render_neutral_default v d"
| "change_clause d Drop_Default = ''DROP DEFAULT''"

fun structural_change :: "column_change \<Rightarrow> bool" where
  "structural_change (Type_Change _ _) = True"
| "structural_change Set_Null = True"
| "structural_change (Set_Not_Null _) = True"
| "structural_change _ = False"

fun default_statement :: "dialect \<Rightarrow> str \<Rightarrow> str \<Rightarrow> column_change \<Rightarrow> str option" where
  "default_statement d table_q column (Set_Default v) =
     Some (''ALTER TABLE '' @ table_q @ '' ALTER COLUMN '' @ quote d column @ '' SET DEFAULT '' @ render_neutral_default v d)"
| "default_statement d table_q column Drop_Default =
     Some (''ALTER TABLE '' @ table_q @ '' ALTER COLUMN '' @ quote d column @ '' DROP DEFAULT'')"
| "default_statement d table_q column _ = None"

definition alter_column_mysql ::
  "(dialect \<Rightarrow> str \<Rightarrow> str option) \<Rightarrow> str \<Rightarrow> str \<Rightarrow> column_change list \<Rightarrow> column_snap \<Rightarrow> dialect \<Rightarrow> str list" where
  "alter_column_mysql gen table_q column changes after d =
     (if list_ex structural_change changes then [''ALTER TABLE '' @ table_q @ '' MODIFY COLUMN '' @ column_ddl gen after d]
      else List.map_filter (default_statement d table_q column) changes)"

definition alter_column_statements ::
  "(dialect \<Rightarrow> str \<Rightarrow> str option) \<Rightarrow> str \<Rightarrow> str option \<Rightarrow> str \<Rightarrow> column_change list \<Rightarrow> column_snap \<Rightarrow> dialect \<Rightarrow>
   str + str list" where
  "alter_column_statements gen table schema column changes after d =
     (let table_q = quote_table d schema table in case d of
        Postgres \<Rightarrow> Inr (map (\<lambda>ch. ''ALTER TABLE '' @ table_q @ '' ALTER COLUMN '' @ quote d column @ '' '' @ change_clause d ch) changes)
      | Sqlite \<Rightarrow> Inl (''SQLite cannot ALTER COLUMN '' @ table @ ''.'' @ column @
          '' in place; author a raw(sqlite) table-rebuild migration.'')
      | _ \<Rightarrow> Inr (alter_column_mysql gen table_q column changes after d))"

subsection \<open>Steps\<close>

fun step_statements :: "(dialect \<Rightarrow> str \<Rightarrow> str option) \<Rightarrow> dialect \<Rightarrow> step \<Rightarrow> str + str list" where
  "step_statements gen d (Create_Table t) = Inr (create_table_statements gen t d)"
| "step_statements gen d (Drop_Table name schema) = Inr [''DROP TABLE '' @ quote_table d schema name]"
| "step_statements gen d (Add_Column table schema c) =
     Inr [''ALTER TABLE '' @ quote_table d schema table @ '' ADD COLUMN '' @ column_ddl gen c d]"
| "step_statements gen d (Drop_Column table schema c) =
     Inr [''ALTER TABLE '' @ quote_table d schema table @ '' DROP COLUMN '' @ quote d c]"
| "step_statements gen d (Alter_Column table schema c changes after) = alter_column_statements gen table schema c changes after d"
| "step_statements gen d (Add_Index table schema i) = Inr [create_index_sql d schema table i]"
| "step_statements gen d (Add_Unique table schema i) = Inr [create_index_sql d schema table i]"
| "step_statements gen d (Drop_Index table schema n) = Inr [drop_index_sql d schema table n]"
| "step_statements gen d (Drop_Unique table schema n) = Inr [drop_index_sql d schema table n]"
| "step_statements gen d (Add_Foreign_Key table schema f) = add_foreign_key_statements table schema f d"
| "step_statements gen d (Drop_Foreign_Key table schema cols) = drop_foreign_key_statements table schema cols d"
| "step_statements gen d (Step_Rename_Table from to schema) =
     Inr [''ALTER TABLE '' @ quote_table d schema from @ '' RENAME TO '' @ quote d to]"
| "step_statements gen d (Step_Rename_Column table schema from to) =
     Inr [''ALTER TABLE '' @ quote_table d schema table @ '' RENAME COLUMN '' @ quote d from @ '' TO '' @ quote d to]"
| "step_statements gen d (Alter_Schema table from to) = alter_schema_statements table from to d"
| "step_statements gen d (Raw_Step e sql) = Inr (if e = d then [sql] else [])"
| "step_statements gen d (Scope_Change _) = Inr []"

end
