(* ===== verification/Database.thy ===== *)
theory Database
  imports Rust_Str
begin

text \<open>
  The database seam of \<open>based-runtime\<close>: bound values (\<open>value.rs\<close>), driver errors
  (\<open>run/error.rs\<close>), the \<open>Backend\<close>, \<open>Db\<close> and \<open>Tx\<close> traits (\<open>run/db.rs\<close>) and the transaction the
  migration runner opens (\<open>migrate_foreign_keys.rs\<close>). The drivers and \<open>serde_json\<close> are not part of
  the program: they are a record of functions over an unknown state, and what the runner
  relies on of them is the predicate \<open>transactional\<close>.
\<close>

subsection \<open>Values and errors\<close>

text \<open>\<open>serde_json::Value\<close>; an object keeps its entries in order. A float is carried as its text.\<close>

datatype json =
    J_Null
  | J_Bool bool
  | J_Int int
  | J_Float str
  | J_Str str
  | J_Arr "json list"
  | J_Obj "(str \<times> json) list"

type_synonym row = "(str \<times> json) list"

datatype sql_value =
    V_Null
  | V_Int int
  | V_Float str
  | V_Bool bool
  | V_Text str
  | V_Uuid str
  | V_Timestamp str
  | V_Date str
  | V_Time str
  | V_Decimal str
  | V_Bytes str
  | V_Json json
  | V_List "sql_value list"

datatype db_error_kind =
    Other_Failure
  | Deadlock
  | Pool_Exhausted
  | Unique_Violation
  | Foreign_Key_Violation
  | Not_Null_Violation
  | Check_Violation

record db_error =
  de_message :: str
  de_kind :: db_error_kind

definition db_error_new :: "str \<Rightarrow> db_error" where
  "db_error_new msg = \<lparr>de_message = msg, de_kind = Other_Failure\<rparr>"

definition is_deadlock :: "db_error \<Rightarrow> bool" where
  "is_deadlock e \<longleftrightarrow> de_kind e = Deadlock"

definition db_error_code :: "db_error \<Rightarrow> str" where
  "db_error_code e = (case de_kind e of
       Other_Failure \<Rightarrow> ''database_error''
     | Deadlock \<Rightarrow> ''deadlock''
     | Pool_Exhausted \<Rightarrow> ''pool_exhausted''
     | Unique_Violation \<Rightarrow> ''unique_violation''
     | Foreign_Key_Violation \<Rightarrow> ''foreign_key_violation''
     | Not_Null_Violation \<Rightarrow> ''not_null_violation''
     | Check_Violation \<Rightarrow> ''check_violation'')"

definition db_error_status :: "db_error \<Rightarrow> nat" where
  "db_error_status e =
     (if de_kind e \<in> {Other_Failure, Deadlock, Pool_Exhausted} then 503
      else if de_kind e \<in> {Unique_Violation, Foreign_Key_Violation} then 409
      else 422)"

subsection \<open>Actions\<close>

text \<open>
  A step of a runner takes the state outside the program and returns its result with the state
  after it; \<open>None\<close> is a loop cut off by its fuel. \<open>then_do\<close> is \<open>.await?\<close>.
\<close>

type_synonym ('b, 'e, 'a) act = "'b \<Rightarrow> (('e + 'a) \<times> 'b) option"

definition ret :: "'a \<Rightarrow> ('b, 'e, 'a) act" where
  "ret a b = Some (Inr a, b)"

definition fail :: "'e \<Rightarrow> ('b, 'e, 'a) act" where
  "fail e b = Some (Inl e, b)"

definition then_do :: "('b, 'e, 'a) act \<Rightarrow> ('a \<Rightarrow> ('b, 'e, 'c) act) \<Rightarrow> ('b, 'e, 'c) act" where
  "then_do m f b = (case m b of
       None \<Rightarrow> None
     | Some (Inl e, b') \<Rightarrow> Some (Inl e, b')
     | Some (Inr a, b') \<Rightarrow> f a b')"

text \<open>A driver call as an action, its error mapped.\<close>

definition call :: "(db_error \<Rightarrow> 'e) \<Rightarrow> ('b \<Rightarrow> (db_error + 'a) \<times> 'b) \<Rightarrow> ('b, 'e, 'a) act" where
  "call f m b = (case m b of (Inl e, b') \<Rightarrow> Some (Inl (f e), b') | (Inr a, b') \<Rightarrow> Some (Inr a, b'))"

text \<open>Continue whatever the driver answered.\<close>

definition attempt :: "('b \<Rightarrow> (db_error + 'a) \<times> 'b) \<Rightarrow> (db_error + 'a \<Rightarrow> ('b, 'e, 'c) act) \<Rightarrow> ('b, 'e, 'c) act" where
  "attempt m f b = (case m b of (r, b') \<Rightarrow> f r b')"

text \<open>\<open>map_err\<close>, and a match on the result.\<close>

definition map_err :: "('e \<Rightarrow> 'f) \<Rightarrow> ('b, 'e, 'a) act \<Rightarrow> ('b, 'f, 'a) act" where
  "map_err f m b = map_option (\<lambda>(r, b'). (map_sum f id r, b')) (m b)"

definition match_do :: "('b, 'e, 'a) act \<Rightarrow> ('e \<Rightarrow> ('b, 'f, 'c) act) \<Rightarrow> ('a \<Rightarrow> ('b, 'f, 'c) act) \<Rightarrow> ('b, 'f, 'c) act" where
  "match_do m g f b = (case m b of
       None \<Rightarrow> None
     | Some (Inl e, b') \<Rightarrow> g e b'
     | Some (Inr a, b') \<Rightarrow> f a b')"

subsection \<open>Partial correctness of actions\<close>

definition triple :: "('b \<Rightarrow> bool) \<Rightarrow> ('b, 'e, 'a) act \<Rightarrow> ('a \<Rightarrow> 'b \<Rightarrow> bool) \<Rightarrow> ('e \<Rightarrow> 'b \<Rightarrow> bool) \<Rightarrow> bool" where
  "triple P m Q E \<longleftrightarrow> (\<forall>b r b'. P b \<longrightarrow> m b = Some (r, b') \<longrightarrow>
     (case r of Inr a \<Rightarrow> Q a b' | Inl e \<Rightarrow> E e b'))"

lemma tripleI:
  "(\<And>b a b'. P b \<Longrightarrow> m b = Some (Inr a, b') \<Longrightarrow> Q a b') \<Longrightarrow>
   (\<And>b e b'. P b \<Longrightarrow> m b = Some (Inl e, b') \<Longrightarrow> E e b') \<Longrightarrow> triple P m Q E"
  by (auto simp: triple_def split: sum.split)

lemma tripleD:
  "triple P m Q E \<Longrightarrow> P b \<Longrightarrow> m b = Some (Inr a, b') \<Longrightarrow> Q a b'"
  "triple P m Q E \<Longrightarrow> P b \<Longrightarrow> m b = Some (Inl e, b') \<Longrightarrow> E e b'"
  by (fastforce simp: triple_def)+

lemma triple_weaken:
  "triple P' m Q' E' \<Longrightarrow> (\<And>b. P b \<Longrightarrow> P' b) \<Longrightarrow> (\<And>a b. Q' a b \<Longrightarrow> Q a b) \<Longrightarrow>
   (\<And>e b. E' e b \<Longrightarrow> E e b) \<Longrightarrow> triple P m Q E"
  by (fastforce simp: triple_def split: sum.splits)

lemma triple_ret: "(\<And>b. P b \<Longrightarrow> Q a b) \<Longrightarrow> triple P (ret a) Q E"
  by (simp add: triple_def ret_def)

lemma triple_fail: "(\<And>b. P b \<Longrightarrow> E e b) \<Longrightarrow> triple P (fail e) Q E"
  by (simp add: triple_def fail_def)

lemma triple_then:
  assumes "triple P m R E" "\<And>a. triple (R a) (f a) Q E"
  shows "triple P (then_do m f) Q E"
proof (rule tripleI)
  fix b a b' assume "P b" "then_do m f b = Some (Inr a, b')"
  then show "Q a b'"
    using assms by (auto simp: then_do_def split: option.splits prod.splits sum.splits
        dest: tripleD)
next
  fix b e b' assume "P b" "then_do m f b = Some (Inl e, b')"
  then show "E e b'"
    using assms by (auto simp: then_do_def split: option.splits prod.splits sum.splits
        dest: tripleD)
qed

lemma triple_seq:
  "triple P m R E' \<Longrightarrow> (\<And>e b. E' e b \<Longrightarrow> E e b) \<Longrightarrow> (\<And>a. triple (R a) (f a) Q E) \<Longrightarrow>
   triple P (then_do m f) Q E"
  by (rule triple_then [where R = R], erule triple_weaken) auto

lemma triple_call:
  "(\<And>b a b'. P b \<Longrightarrow> m b = (Inr a, b') \<Longrightarrow> Q a b') \<Longrightarrow>
   (\<And>b e b'. P b \<Longrightarrow> m b = (Inl e, b') \<Longrightarrow> E (f e) b') \<Longrightarrow> triple P (call f m) Q E"
  by (rule tripleI) (auto simp: call_def split: prod.splits sum.splits)

lemma triple_attempt:
  assumes "\<And>r. triple (R r) (f r) Q E" "\<And>b r b'. P b \<Longrightarrow> m b = (r, b') \<Longrightarrow> R r b'"
  shows "triple P (attempt m f) Q E"
  unfolding triple_def
proof (intro allI impI)
  fix b r b' assume p: "P b" and run: "attempt m f b = Some (r, b')"
  obtain r1 b1 where m: "m b = (r1, b1)" by (cases "m b")
  with run have "f r1 b1 = Some (r, b')" by (simp add: attempt_def)
  with assms(1) [of r1] assms(2) [OF p m] show "case r of Inr a \<Rightarrow> Q a b' | Inl e \<Rightarrow> E e b'"
    by (simp add: triple_def)
qed

lemma triple_map_err:
  "triple P m Q (\<lambda>e. E (f e)) \<Longrightarrow> triple P (map_err f m) Q E"
  by (rule tripleI) (auto simp: map_err_def triple_def map_sum_def split: sum.splits)

lemma triple_match:
  assumes "triple P m R S" "\<And>a. triple (R a) (f a) Q E" "\<And>e. triple (S e) (g e) Q E"
  shows "triple P (match_do m g f) Q E"
  unfolding triple_def
proof (intro allI impI)
  fix b r b' assume p: "P b" and run: "match_do m g f b = Some (r, b')"
  then obtain r1 b1 where m: "m b = Some (r1, b1)" by (auto simp: match_do_def split: option.splits)
  show "case r of Inr a \<Rightarrow> Q a b' | Inl e \<Rightarrow> E e b'"
  proof (cases r1)
    case (Inl e)
    with m run have "g e b1 = Some (r, b')" by (simp add: match_do_def)
    moreover have "S e b1" using assms(1) p m Inl by (auto dest: tripleD)
    ultimately show ?thesis using assms(3) [of e] by (simp add: triple_def)
  next
    case (Inr a)
    with m run have "f a b1 = Some (r, b')" by (simp add: match_do_def)
    moreover have "R a b1" using assms(1) p m Inr by (auto dest: tripleD)
    ultimately show ?thesis using assms(2) [of a] by (simp add: triple_def)
  qed
qed

lemma triple_disj:
  "triple P m Q E \<Longrightarrow> triple P' m Q E \<Longrightarrow> triple (\<lambda>b. P b \<or> P' b) m Q E"
  by (auto simp: triple_def)

lemma triple_ex:
  "(\<And>x. triple (P x) m Q E) \<Longrightarrow> triple (\<lambda>b. \<exists>x. P x b) m Q E"
  by (auto simp: triple_def)

text \<open>A fact that does not depend on the state.\<close>

lemma triple_keep:
  "triple P m Q E \<Longrightarrow> triple (\<lambda>b. P b \<and> A) m (\<lambda>a b. Q a b \<and> A) E"
  by (auto simp: triple_def split: sum.split)

lemma triple_pre: "(\<And>b. P b \<Longrightarrow> triple P m Q E) \<Longrightarrow> triple P m Q E"
  by (auto simp: triple_def)

subsection \<open>Actions that return\<close>

definition returns :: "('b, 'e, 'a) act \<Rightarrow> bool" where
  "returns m \<longleftrightarrow> (\<forall>b. m b \<noteq> None)"

named_theorems returns_intros "introduction rules of returns"

lemma returns_basic [returns_intros]:
  "returns (ret a)" "returns (fail e)" "returns (call f g)"
  by (simp_all add: returns_def ret_def fail_def call_def split: prod.split sum.split)

lemma returns_then [returns_intros]: "returns m \<Longrightarrow> (\<And>a. returns (f a)) \<Longrightarrow> returns (then_do m f)"
  by (auto simp: returns_def then_do_def split: option.splits sum.splits)

lemma returns_call_then: "(\<And>b a b'. m b = (Inr a, b') \<Longrightarrow> returns (f a)) \<Longrightarrow> returns (then_do (call g m) f)"
  by (auto simp: returns_def then_do_def call_def split: prod.splits sum.splits)

lemma returns_attempt [returns_intros]: "(\<And>r. returns (f r)) \<Longrightarrow> returns (attempt m f)"
  by (auto simp: returns_def attempt_def split: prod.splits)

lemma returns_map_err [returns_intros]: "returns m \<Longrightarrow> returns (map_err f m)"
  by (auto simp: returns_def map_err_def)

lemma returns_match [returns_intros]:
  "returns m \<Longrightarrow> (\<And>e. returns (g e)) \<Longrightarrow> (\<And>a. returns (f a)) \<Longrightarrow> returns (match_do m g f)"
  by (auto simp: returns_def match_do_def split: option.splits sum.splits)

subsection \<open>The host\<close>

text \<open>
  The code outside the program: the driver behind \<open>Backend\<close> (\<open>checkout\<close>), \<open>DbRead\<close> (\<open>fetch\<close>,
  \<open>execute\<close>), \<open>Db\<close> (\<open>begin\<close>) and \<open>Tx\<close> (\<open>commit\<close>, \<open>rollback\<close>), the id generator, and the JSON text of a
  value and of a list of strings.
\<close>

record 'b host =
  h_checkout :: "str \<Rightarrow> 'b \<Rightarrow> (db_error + unit) \<times> 'b"
  h_begin :: "'b \<Rightarrow> (db_error + unit) \<times> 'b"
  h_execute :: "str \<Rightarrow> sql_value list \<Rightarrow> 'b \<Rightarrow> (db_error + nat) \<times> 'b"
  h_fetch :: "str \<Rightarrow> sql_value list \<Rightarrow> 'b \<Rightarrow> (db_error + row list) \<times> 'b"
  h_commit :: "'b \<Rightarrow> (db_error + unit) \<times> 'b"
  h_rollback :: "'b \<Rightarrow> (db_error + unit) \<times> 'b"
  h_json_text :: "json \<Rightarrow> str"
  h_list_text :: "str list \<Rightarrow> str"
  h_list_read :: "str \<Rightarrow> str list option"

subsection \<open>The migration's transaction\<close>

text \<open>
  \<open>migrate_foreign_keys.rs\<close>: a transaction of the driver, or, around a SQLite table rebuild, one
  the runner opens itself with foreign keys off.
\<close>

datatype tx = Driver_Tx | Foreign_Keys_Off

definition enforcing :: "'b host \<Rightarrow> 'b \<Rightarrow> (db_error + bool) \<times> 'b" where
  "enforcing h b = (case h_fetch h ''PRAGMA foreign_keys'' [] b of
       (Inl e, b') \<Rightarrow> (Inl e, b')
     | (Inr ((((k, v) # cells) # rows)), b') \<Rightarrow> (Inr (v = J_Int 1), b')
     | (Inr rows, b') \<Rightarrow> (Inr False, b'))"

definition restore :: "'b host \<Rightarrow> 'b \<Rightarrow> (db_error + unit) \<times> 'b" where
  "restore h b = (case h_execute h ''PRAGMA foreign_keys = ON'' [] b of
       (Inl e, b') \<Rightarrow> (Inl e, b') | (Inr n, b') \<Rightarrow> (Inr (), b'))"

text \<open>\<open>restore(\<dots>).await.err().unwrap_or(e)\<close> as the error of the call.\<close>

definition restore_then_fail :: "'b host \<Rightarrow> db_error \<Rightarrow> 'b \<Rightarrow> (db_error + 'a) \<times> 'b" where
  "restore_then_fail h e b = (case restore h b of
       (Inl e', b') \<Rightarrow> (Inl e', b') | (Inr _, b') \<Rightarrow> (Inl e, b'))"

definition begin_with :: "'b host \<Rightarrow> tx \<Rightarrow> 'b \<Rightarrow> (db_error + tx) \<times> 'b" where
  "begin_with h t b = (case h_begin h b of (Inl e, b') \<Rightarrow> (Inl e, b') | (Inr _, b') \<Rightarrow> (Inr t, b'))"

definition tx_begin :: "'b host \<Rightarrow> bool \<Rightarrow> 'b \<Rightarrow> (db_error + tx) \<times> 'b" where
  "tx_begin h rebuild b =
     (if \<not> rebuild then begin_with h Driver_Tx b
      else case enforcing h b of
        (Inl e, b1) \<Rightarrow> (Inl e, b1)
      | (Inr on, b1) \<Rightarrow>
          if \<not> on then begin_with h Driver_Tx b1
          else case h_execute h ''PRAGMA foreign_keys = OFF'' [] b1 of
            (Inl e, b2) \<Rightarrow> (Inl e, b2)
          | (Inr _, b2) \<Rightarrow> (case h_execute h ''BEGIN'' [] b2 of
              (Inl e, b3) \<Rightarrow> restore_then_fail h e b3
            | (Inr _, b3) \<Rightarrow> (Inr Foreign_Keys_Off, b3)))"

definition abandon :: "'b host \<Rightarrow> db_error \<Rightarrow> 'b \<Rightarrow> (db_error + 'a) \<times> 'b" where
  "abandon h cause b = (case h_execute h ''ROLLBACK'' [] b of (_, b') \<Rightarrow> restore_then_fail h cause b')"

text \<open>A row field as text.\<close>

definition field_text :: "'b host \<Rightarrow> row \<Rightarrow> str \<Rightarrow> str" where
  "field_text h r k = (case map_of r k of
       Some (J_Str s) \<Rightarrow> s | Some v \<Rightarrow> h_json_text h v | None \<Rightarrow> [])"

definition violation_error :: "'b host \<Rightarrow> row list \<Rightarrow> db_error" where
  "violation_error h rows = db_error_new
     (''foreign key check failed after table rebuild: '' @
      join '', '' (map (\<lambda>r. field_text h r ''table'' @ '' row '' @ field_text h r ''rowid'' @ '' '' @
        [CHR 0xE2, CHR 0x86, CHR 0x92] @ '' '' @ field_text h r ''parent'') rows))"

fun tx_commit :: "'b host \<Rightarrow> tx \<Rightarrow> 'b \<Rightarrow> (db_error + unit) \<times> 'b" where
  "tx_commit h Driver_Tx b = h_commit h b"
| "tx_commit h Foreign_Keys_Off b = (case h_fetch h ''PRAGMA foreign_key_check'' [] b of
       (Inl e, b1) \<Rightarrow> abandon h e b1
     | (Inr rows, b1) \<Rightarrow>
         if rows \<noteq> [] then abandon h (violation_error h rows) b1
         else case h_execute h ''COMMIT'' [] b1 of
           (Inl e, b2) \<Rightarrow> abandon h e b2
         | (Inr _, b2) \<Rightarrow> restore h b2)"

fun tx_rollback :: "'b host \<Rightarrow> tx \<Rightarrow> 'b \<Rightarrow> (db_error + unit) \<times> 'b" where
  "tx_rollback h Driver_Tx b = h_rollback h b"
| "tx_rollback h Foreign_Keys_Off b = (case h_execute h ''ROLLBACK'' [] b of
       (Inl e, b1) \<Rightarrow> (Inl e, b1) | (Inr _, b1) \<Rightarrow> restore h b1)"

end
