(* ===== verification/Migration_Sql.thy ===== *)
theory Migration_Sql
  imports Database Dialect
begin

text \<open>
  The statements the migration runner issues: the ledger and progress tables of
  \<open>based-runtime/src/migrate.rs\<close> and \<open>migrate_progress.rs\<close>, the executable units of
  \<open>based-codegen/src/migrate/unit.rs\<close>, the batch SQL of a chunked step
  (\<open>migrate/data/lower/chunk.rs\<close>), the binding of minted ids (\<open>migrate_bind.rs\<close>) and the errors.
\<close>

subsection \<open>Errors\<close>

record migration_failure =
  mf_id :: str
  mf_direction :: str
  mf_stage :: str
  mf_dialect :: dialect
  mf_source :: db_error

datatype migrate_error =
    Db_Error db_error
  | Execution migration_failure
  | Io_Error str
  | Artifact str
  | Tamper (tampered: str) (ledger_hash: str) (disk_hash: str)
  | Up_Mig_Drift str
  | Destructive str "str list"
  | No_Down str
  | Order_Error str

definition failure_text :: "migration_failure \<Rightarrow> str" where
  "failure_text f =
     ''migration `'' @ mf_id f @ ''` ('' @ mf_direction f @ '') failed at '' @ mf_stage f @ '': '' @
     de_message (mf_source f) @ ''; earlier completed migrations remain applied; '' @
     (if mf_dialect f \<in> {Maria_Db, My_Sql}
      then ''DDL may already be committed even without a completion ledger row; inspect the live schema and _based_migrations, restore a known state before retry (book/src/migrations.md)''
      else ''transaction rollback is expected for transactional SQL, but commit failures can be ambiguous; inspect the live schema and _based_migrations before retry (book/src/migrations.md)'')"

fun error_text :: "migrate_error \<Rightarrow> str" where
  "error_text (Db_Error e) = ''database error: '' @ de_message e"
| "error_text (Execution f) = failure_text f"
| "error_text (Io_Error m) = m"
| "error_text (Artifact m) = m"
| "error_text (Tamper i a c) =
     ''migration `'' @ i @ ''` was edited after it was applied (ledger hash '' @ a @ '', current '' @ c @
     ''); applied history is immutable '' @ em_dash @ '' fix forward with a new migration''"
| "error_text (Up_Mig_Drift i) =
     ''migration `'' @ i @ ''` has a structural up.mig line edited away from schema.snap; structural steps derive from schema.snap '' @
     em_dash @ '' edit the schema and re-run `based migrate gen`, or use a raw(<dialect>) line for SQL the steps can'' @
     [CHR 0x27] @ ''t express''"
| "error_text (Destructive i applied) =
     ''migration `'' @ i @ ''` has destructive step(s); '' @
     (if applied = [] then ''no migrations were applied''
      else dec (length applied) @ '' earlier migration(s) applied '' @ em_dash @
        '' this and any later ones are left pending (the database is partially migrated)'') @
     ''; re-run with --allow-destructive to apply''"
| "error_text (No_Down i) = ''migration `'' @ i @ ''` has no down.mig '' @ em_dash @ '' it is roll-forward only''"
| "error_text (Order_Error m) = m"

subsection \<open>The ledger\<close>

record ledger_row =
  lr_id :: str
  lr_hash :: str
  lr_applied_at :: str

definition ledger_table :: str where
  "ledger_table = ''_based_migrations''"

fun ledger_types :: "dialect \<Rightarrow> str \<times> str \<times> str" where
  "ledger_types Maria_Db = (''VARCHAR(255)'', ''VARCHAR(64)'', ''DATETIME'')"
| "ledger_types My_Sql = (''VARCHAR(255)'', ''VARCHAR(64)'', ''DATETIME'')"
| "ledger_types Postgres = (''TEXT'', ''TEXT'', ''TIMESTAMP'')"
| "ledger_types Sqlite = (''TEXT'', ''TEXT'', ''TEXT'')"

definition create_ledger_sql :: "dialect \<Rightarrow> str" where
  "create_ledger_sql d = (case ledger_types d of (id_ty, hash_ty, ts_ty) \<Rightarrow>
     ''CREATE TABLE IF NOT EXISTS '' @ quote d ledger_table @ '' ('' @ nl @ ''  '' @
     quote d ''id'' @ '' '' @ id_ty @ '' NOT NULL PRIMARY KEY,'' @ nl @ ''  '' @
     quote d ''content_hash'' @ '' '' @ hash_ty @ '' NOT NULL,'' @ nl @ ''  '' @
     quote d ''applied_at'' @ '' '' @ ts_ty @ '' NOT NULL'' @ nl @ '')'')"

definition applied_sql :: "dialect \<Rightarrow> str" where
  "applied_sql d = ''SELECT '' @ quote d ''id'' @ '', '' @ quote d ''content_hash'' @ '', '' @ quote d ''applied_at'' @
     '' FROM '' @ quote d ledger_table @ '' ORDER BY '' @ quote d ''id''"

fun placeholder :: "dialect \<Rightarrow> nat \<Rightarrow> str" where
  "placeholder Postgres n = ''$'' @ dec n"
| "placeholder Maria_Db n = ''?''"
| "placeholder My_Sql n = ''?''"
| "placeholder Sqlite n = ''?''"

definition insert_ledger_sql :: "dialect \<Rightarrow> str" where
  "insert_ledger_sql d = ''INSERT INTO '' @ quote d ledger_table @ '' ('' @ quote d ''id'' @ '', '' @
     quote d ''content_hash'' @ '', '' @ quote d ''applied_at'' @ '') VALUES ('' @
     placeholder d 1 @ '', '' @ placeholder d 2 @ '', CURRENT_TIMESTAMP)''"

definition delete_ledger_sql :: "dialect \<Rightarrow> str" where
  "delete_ledger_sql d = ''DELETE FROM '' @ quote d ledger_table @ '' WHERE '' @ quote d ''id'' @ '' = '' @ placeholder d 1"

subsection \<open>The progress table\<close>

definition progress_table :: str where
  "progress_table = ''_based_migration_progress''"

definition progress_columns :: "str list" where
  "progress_columns = [''id'', ''content_hash'', ''segment'', ''cursor'', ''rows_done'']"

fun progress_types :: "dialect \<Rightarrow> str \<times> str \<times> str \<times> str" where
  "progress_types Maria_Db = (''VARCHAR(255)'', ''VARCHAR(64)'', ''BIGINT'', ''TEXT'')"
| "progress_types My_Sql = (''VARCHAR(255)'', ''VARCHAR(64)'', ''BIGINT'', ''TEXT'')"
| "progress_types Postgres = (''TEXT'', ''TEXT'', ''BIGINT'', ''TEXT'')"
| "progress_types Sqlite = (''TEXT'', ''TEXT'', ''INTEGER'', ''TEXT'')"

definition create_progress_sql :: "dialect \<Rightarrow> str" where
  "create_progress_sql d = (case progress_types d of (id_ty, hash_ty, int_ty, text_ty) \<Rightarrow>
     ''CREATE TABLE IF NOT EXISTS '' @ quote d progress_table @ '' ('' @ nl @ ''  '' @
     quote d ''id'' @ '' '' @ id_ty @ '' NOT NULL PRIMARY KEY,'' @ nl @ ''  '' @
     quote d ''content_hash'' @ '' '' @ hash_ty @ '' NOT NULL,'' @ nl @ ''  '' @
     quote d ''segment'' @ '' '' @ int_ty @ '' NOT NULL,'' @ nl @ ''  '' @
     quote d ''cursor'' @ '' '' @ text_ty @ '' NULL,'' @ nl @ ''  '' @
     quote d ''rows_done'' @ '' '' @ int_ty @ '' NOT NULL'' @ nl @ '')'')"

definition quoted_cols :: "dialect \<Rightarrow> str list \<Rightarrow> str" where
  "quoted_cols d cols = join '', '' (map (quote d) cols)"

definition save_progress_sql :: "dialect \<Rightarrow> str" where
  "save_progress_sql d = ''INSERT INTO '' @ quote d progress_table @ '' ('' @ quoted_cols d progress_columns @
     '') VALUES ('' @ join '', '' (map (placeholder d) [1..<Suc (length progress_columns)]) @ '')''"

definition clear_progress_sql :: "dialect \<Rightarrow> str" where
  "clear_progress_sql d = ''DELETE FROM '' @ quote d progress_table @ '' WHERE '' @ quote d ''id'' @ '' = '' @ placeholder d 1"

definition read_progress_sql :: "dialect \<Rightarrow> str" where
  "read_progress_sql d = ''SELECT '' @ quoted_cols d (tl progress_columns) @ '' FROM '' @ quote d progress_table @
     '' WHERE '' @ quote d ''id'' @ '' = '' @ placeholder d 1"

subsection \<open>Chunked steps\<close>

record chunk_plan =
  cp_table :: str
  cp_key_columns :: "str list"
  cp_size :: nat
  cp_pause_ms :: "nat option"
  cp_dialect :: dialect
  cp_from :: str
  cp_keys :: "str list"
  cp_filter :: "str option"
  cp_write_head :: str

definition compare_keys :: "chunk_plan \<Rightarrow> str \<Rightarrow> str list \<Rightarrow> str" where
  "compare_keys p op values = (case (cp_keys p, values) of
       ([k], [v]) \<Rightarrow> k @ '' '' @ op @ '' '' @ v
     | (keys, vs) \<Rightarrow> ''('' @ join '', '' keys @ '') '' @ op @ '' ('' @ join '', '' vs @ '')'')"

definition conds :: "chunk_plan \<Rightarrow> str list option \<Rightarrow> str list" where
  "conds p cursor =
     (case cp_filter p of Some f \<Rightarrow> [f] | None \<Rightarrow> []) @
     (case cursor of Some a \<Rightarrow> [compare_keys p ''>'' a] | None \<Rightarrow> [])"

definition select_sql :: "chunk_plan \<Rightarrow> str list option \<Rightarrow> str" where
  "select_sql p cursor =
     (let keys = join '', '' (cp_keys p); w = join '' AND '' (conds p cursor) in
      ''SELECT '' @ keys @ '' FROM '' @ cp_from p @ (if w = [] then [] else '' WHERE '' @ w) @
      '' ORDER BY '' @ keys @ '' LIMIT '' @ dec (cp_size p))"

definition apply_sql :: "chunk_plan \<Rightarrow> str list option \<Rightarrow> str list \<Rightarrow> str" where
  "apply_sql p cursor bound_key =
     cp_write_head p @ '' WHERE '' @ join '' AND '' (conds p cursor @ [compare_keys p ''<='' bound_key])"

fun key_literal :: "chunk_plan \<Rightarrow> json \<Rightarrow> str option" where
  "key_literal p (J_Str s) =
     Some ([sql_quote_char] @ replace_char sql_quote_char [sql_quote_char, sql_quote_char] s @ [sql_quote_char])"
| "key_literal p (J_Int n) = Some (int_text n)"
| "key_literal p (J_Float t) = Some t"
| "key_literal p (J_Bool b) = Some (bool_lit (cp_dialect p) b)"
| "key_literal p J_Null = None"
| "key_literal p (J_Arr _) = None"
| "key_literal p (J_Obj _) = None"

definition chunk_review :: "chunk_plan \<Rightarrow> str" where
  "chunk_review p =
     (let cursor = replicate (length (cp_key_columns p)) ''<cursor>'';
          last_key = replicate (length (cp_key_columns p)) ''<last>'' in
      ''-- chunked: walks `'' @ cp_table p @ ''` by ('' @ join '', '' (cp_key_columns p) @ '') in batches of '' @
      dec (cp_size p) @ '', one transaction each'' @
      (case cp_pause_ms p of Some ms \<Rightarrow> '', pausing '' @ dec ms @ ''ms between batches'' | None \<Rightarrow> []) @ nl @
      select_sql p (Some cursor) @ '';'' @ nl @ apply_sql p (Some cursor) last_key @ '';'')"

subsection \<open>Units\<close>

datatype id_kind = Id_Uuid | Id_Ulid

datatype plan_unit =
    Unit_Sql str
  | Unit_Minted str "id_kind list"
  | Unit_Chunked chunk_plan

fun is_chunked :: "plan_unit \<Rightarrow> bool" where
  "is_chunked (Unit_Chunked _) = True"
| "is_chunked (Unit_Sql _) = False"
| "is_chunked (Unit_Minted _ _) = False"

text \<open>
  \<open>Mint\<close> is a Rust \<open>fn(IdKind) -> String\<close> that draws from the environment, so it takes and
  returns the outside state.
\<close>

type_synonym 'b mint = "id_kind \<Rightarrow> 'b \<Rightarrow> str \<times> 'b"

record bound =
  bd_sql :: str
  bd_params :: "sql_value list"

fun minted_value :: "id_kind \<Rightarrow> str \<Rightarrow> sql_value" where
  "minted_value Id_Uuid s = V_Uuid s"
| "minted_value Id_Ulid s = V_Text s"

fun mint_all :: "'b mint \<Rightarrow> id_kind list \<Rightarrow> 'b \<Rightarrow> sql_value list \<times> 'b" where
  "mint_all mint [] b = ([], b)"
| "mint_all mint (k # ks) b = (case mint k b of (s, b1) \<Rightarrow>
     (case mint_all mint ks b1 of (vs, b2) \<Rightarrow> (minted_value k s # vs, b2)))"

fun bind_unit :: "plan_unit \<Rightarrow> str \<Rightarrow> 'b mint option \<Rightarrow> ('b, migrate_error, bound) act" where
  "bind_unit (Unit_Sql sql) i mint = ret \<lparr>bd_sql = sql, bd_params = []\<rparr>"
| "bind_unit (Unit_Minted sql ids) i mint = (case mint of
       None \<Rightarrow> fail (Artifact (''migration `'' @ i @
         ''` creates rows whose ids are minted at apply; pass an id generator (`ApplyOpts::mint`)''))
     | Some f \<Rightarrow> (\<lambda>b. case mint_all f ids b of (vs, b') \<Rightarrow> Some (Inr \<lparr>bd_sql = sql, bd_params = vs\<rparr>, b')))"
| "bind_unit (Unit_Chunked p) i mint = fail (Artifact
     (''migration `'' @ i @ ''`: the chunked step on `'' @ cp_table p @ ''` runs batch by batch''))"

text \<open>\<open>collect::<Result<Vec<_>, _>>()?\<close> over the units.\<close>

fun bind_all :: "plan_unit list \<Rightarrow> str \<Rightarrow> 'b mint option \<Rightarrow> ('b, migrate_error, bound list) act" where
  "bind_all [] i mint = ret []"
| "bind_all (u # us) i mint =
     then_do (bind_unit u i mint) (\<lambda>x. then_do (bind_all us i mint) (\<lambda>xs. ret (x # xs)))"

definition ascii_lower :: "char \<Rightarrow> char" where
  "ascii_lower c = (if 65 \<le> (of_char c :: nat) \<and> (of_char c :: nat) \<le> 90
                    then char_of ((of_char c :: nat) + 32) else c)"

definition eq_ignore_ascii_case :: "str \<Rightarrow> str \<Rightarrow> bool" where
  "eq_ignore_ascii_case a b \<longleftrightarrow> map ascii_lower a = map ascii_lower b"

definition sqlite_rebuild_open :: str where
  "sqlite_rebuild_open = ''PRAGMA legacy_alter_table = ON''"

definition has_rebuild :: "dialect \<Rightarrow> str list \<Rightarrow> bool" where
  "has_rebuild d sqls \<longleftrightarrow> d = Sqlite \<and> list_ex (\<lambda>s. eq_ignore_ascii_case (trim s) sqlite_rebuild_open) sqls"

end
