(* ===== verification/Data_Table.thy ===== *)
theory Data_Table
  imports Expr_Ast Ddl_Steps Migration_Sql
begin

text \<open>
  A snapshot table as data steps see it (codegen \<open>migrate/data/table.rs\<close>, \<open>relation.rs\<close>): its
  columns with the elided default \<open>id\<close>, its keys, and the link a child table has to it.
\<close>

subsection \<open>Value families\<close>

datatype fam =
    Fam_Int | Fam_Float | Fam_Decimal | Fam_Text | Fam_Bool | Fam_Uuid | Fam_Ulid | Fam_Timestamp
  | Fam_Date | Fam_Time | Fam_Json | Fam_Bytes
  | Fam_Str_Enum "str list"
  | Fam_Int_Enum "str list"
  | Fam_Opaque

definition enum_values :: "str \<Rightarrow> str \<Rightarrow> str list option" where
  "enum_values prefix ty =
     map_option (\<lambda>inner. map trim (split_on (CHR '','') inner)) (Option.bind (strip_prefix prefix ty) (strip_suffix '')''))"

definition fam_of :: "str \<Rightarrow> fam" where
  "fam_of ty =
     (if strip_suffix ''[]'' ty \<noteq> None \<or> starts_with ''raw('' ty then Fam_Opaque
      else if ty = ''int'' \<or> ty = ''serial'' then Fam_Int
      else if ty = ''float'' then Fam_Float
      else if ty = ''text'' then Fam_Text
      else if ty = ''bool'' then Fam_Bool
      else if ty = ''uuid'' then Fam_Uuid
      else if ty = ''ulid'' then Fam_Ulid
      else if ty = ''timestamp'' then Fam_Timestamp
      else if ty = ''date'' then Fam_Date
      else if ty = ''time'' then Fam_Time
      else if ty = ''json'' then Fam_Json
      else if ty = ''bytes'' then Fam_Bytes
      else if starts_with ''decimal('' ty then Fam_Decimal
      else case enum_values ''enum:int('' ty of
          Some vs \<Rightarrow> Fam_Int_Enum vs
        | None \<Rightarrow> (case enum_values ''enum('' ty of Some vs \<Rightarrow> Fam_Str_Enum vs | None \<Rightarrow> Fam_Text))"

fun fam_numeric :: "fam \<Rightarrow> bool" where
  "fam_numeric Fam_Int = True"
| "fam_numeric Fam_Float = True"
| "fam_numeric Fam_Decimal = True"
| "fam_numeric (Fam_Int_Enum _) = True"
| "fam_numeric _ = False"

fun fam_name :: "fam \<Rightarrow> str" where
  "fam_name Fam_Int = ''int''"
| "fam_name Fam_Float = ''float''"
| "fam_name Fam_Decimal = ''decimal''"
| "fam_name Fam_Text = ''text''"
| "fam_name Fam_Bool = ''bool''"
| "fam_name Fam_Uuid = ''uuid''"
| "fam_name Fam_Ulid = ''ulid''"
| "fam_name Fam_Timestamp = ''timestamp''"
| "fam_name Fam_Date = ''date''"
| "fam_name Fam_Time = ''time''"
| "fam_name Fam_Json = ''json''"
| "fam_name Fam_Bytes = ''bytes''"
| "fam_name (Fam_Str_Enum _) = ''enum''"
| "fam_name (Fam_Int_Enum _) = ''enum''"
| "fam_name Fam_Opaque = ''opaque''"

subsection \<open>Columns\<close>

record data_col =
  dcol_name :: str
  dcol_ty :: str
  dcol_fam :: fam
  dcol_nullable :: bool
  dcol_has_default :: bool
  dcol_generated :: bool
  dcol_auto :: bool

record table_view =
  tv_snap :: table_snap
  tv_cols :: "data_col list"

definition col_of_snap :: "column_snap \<Rightarrow> data_col" where
  "col_of_snap c = \<lparr>dcol_name = c_name c, dcol_ty = c_ty c, dcol_fam = fam_of (c_ty c), dcol_nullable = c_nullable c,
     dcol_has_default = (c_default c \<noteq> None), dcol_generated = (c_generated c \<noteq> None),
     dcol_auto = (c_default c \<noteq> None \<or> c_ty c = ''serial'' \<or> c_generated c \<noteq> None)\<rparr>"

definition elided_id :: data_col where
  "elided_id = \<lparr>dcol_name = ''id'', dcol_ty = ''uuid'', dcol_fam = Fam_Uuid, dcol_nullable = False,
     dcol_has_default = False, dcol_generated = False, dcol_auto = True\<rparr>"

text \<open>The primary-key columns; none for a keyless table.\<close>

definition snap_pk :: "table_snap \<Rightarrow> str list" where
  "snap_pk t = (if t_no_id t then [] else if t_pk t = [] then [''id''] else t_pk t)"

definition view_of :: "table_snap \<Rightarrow> table_view" where
  "view_of t =
     (let cols = map col_of_snap (t_columns t) @ (if implicit_id t then [elided_id] else []) in
      \<lparr>tv_snap = t, tv_cols = (case snap_pk t of
         [pk] \<Rightarrow> map (\<lambda>c. if dcol_name c = pk \<and> (dcol_fam c = Fam_Uuid \<or> dcol_fam c = Fam_Ulid)
                         then c\<lparr>dcol_auto := True\<rparr> else c) cols
       | _ \<Rightarrow> cols)\<rparr>)"

definition view_pk :: "table_view \<Rightarrow> str list" where
  "view_pk t = snap_pk (tv_snap t)"

definition view_name :: "table_view \<Rightarrow> str" where
  "view_name t = t_name (tv_snap t)"

definition view_col :: "table_view \<Rightarrow> str \<Rightarrow> data_col option" where
  "view_col t n = find (\<lambda>c. dcol_name c = n) (tv_cols t)"

definition view_find :: "snapshot \<Rightarrow> str \<Rightarrow> table_view option" where
  "view_find s n = map_option view_of (find_table s n)"

text \<open>The lone uuid or ulid key that a \<open>create\<close> fills with an id minted when it is applied.\<close>

definition minted_pk :: "table_view \<Rightarrow> (str \<times> id_kind) option" where
  "minted_pk t = (case view_pk t of
       [pk] \<Rightarrow> (case view_col t pk of
           Some c \<Rightarrow> (if dcol_has_default c then None
             else (case dcol_fam c of
                 Fam_Uuid \<Rightarrow> Some (dcol_name c, Id_Uuid)
               | Fam_Ulid \<Rightarrow> Some (dcol_name c, Id_Ulid)
               | _ \<Rightarrow> None))
         | None \<Rightarrow> None)
     | _ \<Rightarrow> None)"

definition unique_keys :: "table_view \<Rightarrow> str list list" where
  "unique_keys t =
     (if view_pk t = [] then [] else [view_pk t])
     @ map (\<lambda>c. [c_name c]) (filter c_unique (t_columns (tv_snap t)))
     @ map ix_columns (filter (\<lambda>i. ix_unique i \<and> ix_raw i = None) (t_indexes (tv_snap t)))"

definition is_walkable :: "table_view \<Rightarrow> str \<Rightarrow> bool" where
  "is_walkable t col \<longleftrightarrow> list_ex (\<lambda>k. k = [col]) (unique_keys t) \<or>
     list_ex (\<lambda>i. case ix_columns i of c # _ \<Rightarrow> c = col | [] \<Rightarrow> False) (t_indexes (tv_snap t))"

subsection \<open>Links (relation.rs)\<close>

text \<open>\<open>snake_case\<close> of based-sema \<open>ir.rs\<close>.\<close>

definition is_upper :: "char \<Rightarrow> bool" where
  "is_upper c \<longleftrightarrow> 65 \<le> (of_char c :: nat) \<and> (of_char c :: nat) \<le> 90"

fun snake_from :: "bool \<Rightarrow> str \<Rightarrow> str" where
  "snake_from first [] = []"
| "snake_from first (c # s) =
     (if is_upper c then (if first then [] else ''_'') @ [ascii_lower c] else [c]) @ snake_from False s"

definition snake_case :: "str \<Rightarrow> str" where
  "snake_case name = snake_from True name"

definition fk_links :: "table_view \<Rightarrow> table_view \<Rightarrow> (str \<times> str) list list" where
  "fk_links view parent = map (\<lambda>f. zip (f_columns f) (f_ref_columns f))
     (filter (\<lambda>f. f_ref_table f = view_name parent) (t_foreign_keys (tv_snap view)))"

definition marks_parent :: "table_view \<Rightarrow> column_snap \<Rightarrow> bool" where
  "marks_parent parent c \<longleftrightarrow> (case c_fk c of
       Some m \<Rightarrow> m = view_name parent \<or> snake_case m = view_name parent
     | None \<Rightarrow> False)"

text \<open>A single-column parent key also links through the \<open>fk=<Model>\<close> markers no \<open>fk\<close> line covers.\<close>

definition all_links :: "table_view \<Rightarrow> table_view \<Rightarrow> (str \<times> str) list list" where
  "all_links view parent =
     (let links = fk_links view parent in
      links @ (case view_pk parent of
          [pk] \<Rightarrow> map (\<lambda>c. [(c_name c, pk)])
            (filter (\<lambda>c. marks_parent parent c \<and> c_name c \<notin> set (map fst (concat links))) (t_columns (tv_snap view)))
        | _ \<Rightarrow> []))"

definition link_names :: "(str \<times> str) list list \<Rightarrow> str" where
  "link_names links = join '', '' (map (\<lambda>l. join ''+'' (map fst l)) links)"

definition link_by :: "str \<Rightarrow> (str \<times> str) list \<Rightarrow> bool" where
  "link_by col l = (case l of [(c, _)] \<Rightarrow> c = col | _ \<Rightarrow> False)"

definition one_link :: "str \<Rightarrow> table_view \<Rightarrow> table_view \<Rightarrow> (str \<times> str) list list \<Rightarrow> str + table_view \<times> (str \<times> str) list" where
  "one_link child parent view links = (case links of
       [link] \<Rightarrow> Inr (view, link)
     | [] \<Rightarrow> Inl (''table `'' @ child @ ''` has no foreign key to `'' @ view_name parent @ ''`'')
     | _ \<Rightarrow> Inl (''table `'' @ child @ ''` links to `'' @ view_name parent @
         ''` through more than one foreign key ('' @ link_names links @ '') '' @ em_dash @
         '' pick one with `'' @ child @ ''.any(by <col>, '' @ [CHR 0xE2, CHR 0x80, CHR 0xA6] @ '')`''))"

definition child_link :: "snapshot \<Rightarrow> table_view \<Rightarrow> str \<Rightarrow> str option \<Rightarrow> str + table_view \<times> (str \<times> str) list" where
  "child_link snap parent child by_col = (case view_find snap child of
       None \<Rightarrow> Inl (''unknown table `'' @ child @ ''`'')
     | Some view \<Rightarrow>
         (let links = all_links view parent in
          case by_col of
            None \<Rightarrow> one_link child parent view links
          | Some col \<Rightarrow>
              (let picked = filter (link_by col) links in
               if picked = [] then Inl (''`by '' @ col @ ''` must name a foreign key of `'' @ child @ ''` to `'' @
                 view_name parent @ ''` (one of: '' @ link_names links @ '')'')
               else one_link child parent view picked)))"

end
