(* ===== verification/Data_Check.thy ===== *)
theory Data_Check
  imports Data_Table
begin

text \<open>
  The offline check of a data step against the schema state at its line (codegen
  \<open>migrate/data/check\<close>). The source pushes onto a list of errors; a function here returns the
  errors it pushes, in their order.
\<close>

record data_error =
  dx_span :: span
  dx_message :: str

definition dx :: "span \<Rightarrow> str \<Rightarrow> data_error" where
  "dx s m = \<lparr>dx_span = s, dx_message = m\<rparr>"

text \<open>What a value position may read besides literals: same-row columns, the proposed row of an upsert.\<close>

record vscope =
  vs_columns :: bool
  vs_incoming :: bool

definition scope_literals :: vscope where
  "scope_literals = \<lparr>vs_columns = False, vs_incoming = False\<rparr>"

definition scope_row :: vscope where
  "scope_row = \<lparr>vs_columns = True, vs_incoming = False\<rparr>"

definition scope_upsert :: vscope where
  "scope_upsert = \<lparr>vs_columns = True, vs_incoming = True\<rparr>"

subsection \<open>Types (check/expr.rs)\<close>

datatype ty =
    Ty_Col fam
  | Ty_Json_Path
  | Ty_Label str
  | Ty_Str "str option"
  | Ty_Int
  | Ty_Dec
  | Ty_Bool
  | Ty_Null
  | Ty_Now
  | Ty_Num
  | Ty_Unknown

fun numeric_operand :: "ty \<Rightarrow> bool" where
  "numeric_operand (Ty_Col f) = fam_numeric f"
| "numeric_operand Ty_Int = True"
| "numeric_operand Ty_Dec = True"
| "numeric_operand Ty_Num = True"
| "numeric_operand Ty_Json_Path = True"
| "numeric_operand Ty_Unknown = True"
| "numeric_operand _ = False"

definition is_str_enum :: "fam \<Rightarrow> bool" where
  "is_str_enum f = (case f of Fam_Str_Enum _ \<Rightarrow> True | _ \<Rightarrow> False)"

definition is_int_enum :: "fam \<Rightarrow> bool" where
  "is_int_enum f = (case f of Fam_Int_Enum _ \<Rightarrow> True | _ \<Rightarrow> False)"

text \<open>Does family \<open>f\<close> take a value of the type, nulls and labels aside?\<close>

fun accepts :: "fam \<Rightarrow> ty \<Rightarrow> bool" where
  "accepts f Ty_Unknown = True"
| "accepts f Ty_Json_Path = (f \<noteq> Fam_Bytes \<and> f \<noteq> Fam_Opaque)"
| "accepts f (Ty_Str _) = (f \<in> {Fam_Text, Fam_Uuid, Fam_Ulid, Fam_Timestamp, Fam_Date, Fam_Time, Fam_Json, Fam_Decimal}
     \<or> is_str_enum f)"
| "accepts f Ty_Int = (f \<in> {Fam_Int, Fam_Float, Fam_Decimal} \<or> is_int_enum f)"
| "accepts f Ty_Dec = (f \<in> {Fam_Float, Fam_Decimal})"
| "accepts f Ty_Num = fam_numeric f"
| "accepts f Ty_Bool = (f = Fam_Bool)"
| "accepts f Ty_Now = (f = Fam_Timestamp \<or> f = Fam_Date)"
| "accepts f (Ty_Col src) = (fam_name src = fam_name f \<or> (fam_numeric src \<and> fam_numeric f)
     \<or> (is_str_enum src \<and> f = Fam_Text) \<or> (src = Fam_Text \<and> is_str_enum f))"
| "accepts f Ty_Null = False"
| "accepts f (Ty_Label _) = False"

fun ty_name :: "ty \<Rightarrow> str" where
  "ty_name (Ty_Col f) = ''a '' @ fam_name f @ '' column''"
| "ty_name Ty_Json_Path = ''a json path''"
| "ty_name (Ty_Label l) = ''`'' @ l @ ''`''"
| "ty_name (Ty_Str _) = ''a string''"
| "ty_name Ty_Int = ''an integer''"
| "ty_name Ty_Dec = ''a decimal''"
| "ty_name Ty_Bool = ''a bool''"
| "ty_name Ty_Null = ''null''"
| "ty_name Ty_Now = ''now()''"
| "ty_name Ty_Num = ''a number''"
| "ty_name Ty_Unknown = ''a value''"

definition not_a_value :: "str \<Rightarrow> data_col \<Rightarrow> str list \<Rightarrow> str" where
  "not_a_value shown col vs = shown @ '' is not a value of `'' @ dcol_name col @ ''` ('' @ join '', '' vs @ '')''"

definition fits_family :: "data_col \<Rightarrow> ty \<Rightarrow> str + unit" where
  "fits_family col t =
     (if dcol_fam col = Fam_Opaque then Inl (''`'' @ dcol_name col @ ''` has an opaque type '' @ em_dash @ '' use a raw(<dialect>) line'')
      else if accepts (dcol_fam col) t then Inr ()
      else Inl (''cannot write '' @ ty_name t @ '' to `'' @ dcol_name col @ ''` ('' @ dcol_ty col @ '')''))"

text \<open>Can a value of the type be written to the column?\<close>

definition fits_col :: "data_col \<Rightarrow> ty \<Rightarrow> str + unit" where
  "fits_col col t = (case t of
       Ty_Null \<Rightarrow> (if dcol_nullable col then Inr () else Inl (''`'' @ dcol_name col @ ''` is not nullable''))
     | Ty_Label l \<Rightarrow> (case dcol_fam col of
           Fam_Str_Enum vs \<Rightarrow> (if l \<in> set vs then Inr () else Inl (not_a_value (''`'' @ l @ ''`'') col vs))
         | Fam_Int_Enum vs \<Rightarrow> (if l \<in> set vs then Inr () else Inl (not_a_value (''`'' @ l @ ''`'') col vs))
         | _ \<Rightarrow> Inl (''unknown column `'' @ l @ ''`''))
     | Ty_Str (Some v) \<Rightarrow> (case dcol_fam col of
           Fam_Str_Enum vs \<Rightarrow> (if v \<in> set vs then Inr () else Inl (not_a_value ([dq] @ v @ [dq]) col vs))
         | _ \<Rightarrow> fits_family col t)
     | _ \<Rightarrow> fits_family col t)"

definition fits_errors :: "data_col \<Rightarrow> ty \<Rightarrow> span \<Rightarrow> data_error list" where
  "fits_errors col t s = (case fits_col col t of Inl msg \<Rightarrow> [dx s msg] | Inr _ \<Rightarrow> [])"

subsection \<open>Values\<close>

definition column_ty :: "str \<Rightarrow> span \<Rightarrow> table_view \<Rightarrow> ty \<times> data_error list" where
  "column_ty name s t = (case view_col t name of
       None \<Rightarrow> (Ty_Unknown, [dx s (''table `'' @ view_name t @ ''` has no column `'' @ name @ ''`'')])
     | Some c \<Rightarrow> (Ty_Col (dcol_fam c), []))"

text \<open>A column, or a dot path into a \<open>json\<close> column.\<close>

definition column_path :: "path \<Rightarrow> table_view \<Rightarrow> ty \<times> data_error list" where
  "column_path p t = (case column_ty (id_node (hd p)) (id_span (hd p)) t of (ty, errs) \<Rightarrow>
     (case tl p of
        [] \<Rightarrow> (ty, errs)
      | dot # _ \<Rightarrow>
          (if ty = Ty_Unknown then (ty, errs)
           else if ty = Ty_Col Fam_Json then (Ty_Json_Path, errs)
           else (Ty_Unknown, errs @ [dx (id_span dot) (''`'' @ id_node (hd p) @ ''` is not a json column '' @ em_dash @
             '' a dot path reaches into json only'')]))))"

text \<open>\<open>path_general\<close> is the two last arms of \<open>path_value\<close>.\<close>

definition path_general :: "path \<Rightarrow> table_view \<Rightarrow> vscope \<Rightarrow> ty \<times> data_error list" where
  "path_general p t scope = (case p of
       first # _ \<Rightarrow>
         (if \<not> vs_columns scope then (Ty_Unknown, [dx (id_span first) (''`'' @ id_node first @ ''` reads a column '' @ em_dash @
            '' a created row'' @ [CHR 0x27] @ ''s values are literals'')])
          else column_path p t)
     | [] \<Rightarrow> column_path p t)"

definition path_value :: "path \<Rightarrow> table_view \<Rightarrow> vscope \<Rightarrow> ty \<times> data_error list" where
  "path_value p t scope = (case p of
       [only] \<Rightarrow> (if view_col t (id_node only) = None then (Ty_Label (id_node only), []) else path_general p t scope)
     | [first, col] \<Rightarrow>
         (if id_node first = ''incoming'' then
            (if vs_incoming scope then column_ty (id_node col) (id_span col) t
             else (Ty_Unknown, [dx (id_span first)
               (''`incoming.<col>` is only available in an `on conflict '' @ [CHR 0xE2, CHR 0x80, CHR 0xA6] @ '' update` branch'')]))
          else path_general p t scope)
     | _ \<Rightarrow> path_general p t scope)"

fun literal_ty :: "literal \<Rightarrow> ty" where
  "literal_ty (Lit_Str v) = Ty_Str (Some v)"
| "literal_ty (Lit_Int _) = Ty_Int"
| "literal_ty (Lit_Decimal _) = Ty_Dec"
| "literal_ty (Lit_Bool _) = Ty_Bool"
| "literal_ty Lit_Null = Ty_Null"

fun check_value :: "ast_value \<Rightarrow> table_view \<Rightarrow> vscope \<Rightarrow> ty \<times> data_error list" where
  "check_value (Val_Lit l) t scope = (literal_ty l, [])"
| "check_value (Val_Path p) t scope = path_value p t scope"
| "check_value (Val_Func f args) t scope =
     (if id_node f = ''now'' \<and> args = [] then (Ty_Now, [])
      else (Ty_Unknown, [dx (id_span f) (''unknown function `'' @ id_node f @ ''`'')]))"
| "check_value (Val_Param pr) t scope =
     (Ty_Unknown, [dx (id_span (pr_name pr)) (''`$'' @ id_node (pr_name pr) @ ''` '' @ em_dash @ '' a migration step has no parameters'')])"

subsection \<open>Predicates (check/predicate.rs)\<close>

definition span_of :: "path \<Rightarrow> span" where
  "span_of p = (id_span (hd p))\<lparr>span_end := span_end (id_span (last p))\<rparr>"

definition dotted :: "path \<Rightarrow> str" where
  "dotted p = join ''.'' (map id_node p)"

text \<open>A comparison whose operands cannot meet.\<close>

definition comparable :: "ty \<Rightarrow> ty \<Rightarrow> path \<Rightarrow> span \<Rightarrow> data_error list" where
  "comparable lhs rhs p s = (case lhs of
       Ty_Col f \<Rightarrow>
         (if rhs = Ty_Null then []
          else (case fits_col \<lparr>dcol_name = dotted p, dcol_ty = fam_name f, dcol_fam = f, dcol_nullable = True,
                    dcol_has_default = False, dcol_generated = False, dcol_auto = False\<rparr> rhs of
              Inl msg \<Rightarrow> [dx s (replace_text ''cannot write'' ''cannot compare'' msg)]
            | Inr _ \<Rightarrow> []))
     | _ \<Rightarrow> [])"

definition check_operator :: "cmp_op \<Rightarrow> path \<Rightarrow> ty \<Rightarrow> ty \<Rightarrow> data_error list" where
  "check_operator op p lhs rhs =
     (if op = Op_Has then [dx (span_of p) (''`has` isn'' @ [CHR 0x27] @ ''t available in a data step '' @ em_dash @
         '' use a raw(<dialect>) line'')]
      else if op = Op_In then [dx (span_of p) ''`in` takes a value list in a data step: `col in (a, b)`'']
      else if op = Op_Like_All \<or> op = Op_Like_Any then [dx (span_of p)
         (''`~ all` / `~ any` match a list param, which a data step doesn'' @ [CHR 0x27] @ ''t have '' @ em_dash @
          '' combine `~` comparisons with `and` / `or`'')]
      else if op = Op_Like \<and> lhs \<noteq> Ty_Col Fam_Text \<and> lhs \<noteq> Ty_Json_Path \<and> lhs \<noteq> Ty_Unknown
        then [dx (span_of p) ''`~` (like) needs a text column'']
      else if rhs = Ty_Null \<and> op \<noteq> Op_Eq \<and> op \<noteq> Op_Ne then [dx (span_of p) ''only `=` / `!=` compare against null'']
      else comparable lhs rhs p (span_of p))"

definition check_cmp :: "path \<Rightarrow> cmp_op \<Rightarrow> ast_value \<Rightarrow> table_view \<Rightarrow> vscope \<Rightarrow> data_error list" where
  "check_cmp p op v t scope =
     (case column_path p t of (lhs, e1) \<Rightarrow> case check_value v t scope of (rhs, e2) \<Rightarrow> e1 @ e2 @ check_operator op p lhs rhs)"

definition check_in :: "path \<Rightarrow> ast_value list \<Rightarrow> table_view \<Rightarrow> vscope \<Rightarrow> data_error list" where
  "check_in p vs t scope = (case column_path p t of (lhs, e1) \<Rightarrow>
     e1 @ concat (map (\<lambda>v. case check_value v t scope of (rhs, e2) \<Rightarrow> e2 @ comparable lhs rhs p (span_of p)) vs))"

definition check_bare :: "path \<Rightarrow> table_view \<Rightarrow> data_error list" where
  "check_bare p t = (case column_path p t of (ty, e1) \<Rightarrow>
     e1 @ (if ty = Ty_Col Fam_Bool \<or> ty = Ty_Json_Path \<or> ty = Ty_Unknown then []
           else [dx (span_of p) (''`'' @ dotted p @ ''` is not a bool column'')]))"

fun check_pred :: "snapshot \<Rightarrow> predicate \<Rightarrow> table_view \<Rightarrow> vscope \<Rightarrow> data_error list" where
  "check_pred snap (Pred_And a b) t scope = check_pred snap a t scope @ check_pred snap b t scope"
| "check_pred snap (Pred_Or a b) t scope = check_pred snap a t scope @ check_pred snap b t scope"
| "check_pred snap (Pred_Not a) t scope = check_pred snap a t scope"
| "check_pred snap (Pred_Cmp p op v) t scope = check_cmp p op v t scope"
| "check_pred snap (Pred_In p vs) t scope = check_in p vs t scope"
| "check_pred snap (Pred_Bare p) t scope = check_bare p t"
| "check_pred snap (Pred_Any p by_id pred) t scope = (case p of
       [child] \<Rightarrow> (case child_link snap t (id_node child) (map_option id_node by_id) of
           Inr (view, _) \<Rightarrow> (case pred of Some q \<Rightarrow> check_pred snap q view scope_row | None \<Rightarrow> [])
         | Inl msg \<Rightarrow> [dx (id_span child) msg])
     | _ \<Rightarrow> [dx (span_of p) (''`.any` in a data step names one child table: `<table>.any('' @ [CHR 0xE2, CHR 0x80, CHR 0xA6] @ '')`'')])"
| "check_pred snap (Pred_Filter name _) t scope = [dx (id_span name)
     (''named filters aren'' @ [CHR 0x27] @ ''t available in a migration '' @ em_dash @ '' write the condition out'')]"
| "check_pred snap (Pred_Raw raw) t scope = [dx (rs_span raw)
     (''a raw predicate isn'' @ [CHR 0x27] @ ''t available in a data step '' @ em_dash @ '' use a raw(<dialect>) line'')]"

subsection \<open>Expressions\<close>

fun check_expr :: "snapshot \<Rightarrow> shape_expr \<Rightarrow> table_view \<Rightarrow> vscope \<Rightarrow> ty \<times> data_error list"
  and check_arms :: "snapshot \<Rightarrow> case_arm list \<Rightarrow> table_view \<Rightarrow> vscope \<Rightarrow> data_error list" where
  "check_expr snap (Expr_Value v) t scope = check_value v t scope"
| "check_expr snap (Expr_Arith lhs op rhs s) t scope =
     (case check_expr snap lhs t scope of (lt, e1) \<Rightarrow> case check_expr snap rhs t scope of (rt, e2) \<Rightarrow>
      (Ty_Num,
       e1 @ (if numeric_operand lt then [] else [dx s ''arithmetic needs numeric operands''])
       @ e2 @ (if numeric_operand rt then [] else [dx s ''arithmetic needs numeric operands''])))"
| "check_expr snap (Expr_Concat lhs rhs s) t scope =
     (Ty_Str None, snd (check_expr snap lhs t scope) @ snd (check_expr snap rhs t scope))"
| "check_expr snap (Expr_Case arms els s) t scope =
     (case check_expr snap els t scope of (ty, e) \<Rightarrow> (ty, check_arms snap arms t scope @ e))"
| "check_arms snap [] t scope = []"
| "check_arms snap (Case_Arm p e # arms) t scope =
     check_pred snap p t scope @ snd (check_expr snap e t scope) @ check_arms snap arms t scope"

subsection \<open>Steps (check/ops.rs)\<close>

definition check_assign :: "snapshot \<Rightarrow> data_assign \<Rightarrow> table_view \<Rightarrow> vscope \<Rightarrow> data_error list" where
  "check_assign snap a t scope =
     (let col = da_col a in
      case check_expr snap (da_value a) t scope of (ty, e) \<Rightarrow>
      e @ (case view_col t (id_node col) of
          None \<Rightarrow> [dx (id_span col) (''table `'' @ view_name t @ ''` has no column `'' @ id_node col @ ''`'')]
        | Some c \<Rightarrow>
            (if dcol_generated c then [dx (id_span col) (''`'' @ dcol_name c @ ''` is a generated column '' @ em_dash @
               '' its value is derived'')]
             else fits_errors c ty (id_span col))))"

fun check_assigns_from :: "str set \<Rightarrow> snapshot \<Rightarrow> data_assign list \<Rightarrow> table_view \<Rightarrow> vscope \<Rightarrow> data_error list" where
  "check_assigns_from seen snap [] t scope = []"
| "check_assigns_from seen snap (a # as) t scope =
     (let n = id_node (da_col a) in
      (if n \<in> seen then [dx (id_span (da_col a)) (''`'' @ n @ ''` is assigned twice'')] else [])
      @ check_assign snap a t scope @ check_assigns_from (insert n seen) snap as t scope)"

definition check_assigns :: "snapshot \<Rightarrow> data_assign list \<Rightarrow> table_view \<Rightarrow> vscope \<Rightarrow> data_error list" where
  "check_assigns snap as t scope = check_assigns_from {} snap as t scope"

definition row_columns :: "data_row \<Rightarrow> str set" where
  "row_columns r = set (map (\<lambda>a. id_node (da_col a)) (dr_assigns r))"

definition missing_columns :: "table_view \<Rightarrow> data_row \<Rightarrow> str list" where
  "missing_columns t r = map dcol_name
     (filter (\<lambda>c. \<not> dcol_nullable c \<and> \<not> dcol_auto c \<and> dcol_name c \<notin> row_columns r) (tv_cols t))"

definition check_create :: "snapshot \<Rightarrow> data_row list \<Rightarrow> bool \<Rightarrow> table_view \<Rightarrow> span \<Rightarrow> data_error list" where
  "check_create snap rows bulk t s = (case rows of
       [] \<Rightarrow> (if bulk then [dx s (''`create '' @ [CHR 0xE2, CHR 0x80, CHR 0xA6] @ '' from [ ]` needs at least one row'')] else [])
     | r1 # _ \<Rightarrow>
         concat (map (\<lambda>r. check_assigns snap (dr_assigns r) t scope_literals
           @ (if row_columns r \<noteq> row_columns r1 then [dx (dr_span r)
               (''every row of a `create '' @ [CHR 0xE2, CHR 0x80, CHR 0xA6] @ '' from [ '' @ [CHR 0xE2, CHR 0x80, CHR 0xA6] @
                '' ]` sets the same columns'')] else [])) rows)
         @ (if missing_columns t r1 = [] then []
            else [dx (dr_span r1) (''missing required column(s) '' @
              join '', '' (map (\<lambda>n. ''`'' @ n @ ''`'') (missing_columns t r1)) @ '' (not null, no default)'')]))"

definition check_conflict :: "snapshot \<Rightarrow> data_conflict \<Rightarrow> table_view \<Rightarrow> data_error list" where
  "check_conflict snap c t =
     (let target = sort (map id_node (dc_target c)) in
      (if list_ex (\<lambda>k. sort k = target) (unique_keys t) then []
       else [dx (dc_span c) (''`on conflict ('' @ join '', '' target @ '')` is not a unique key of `'' @ view_name t @ ''`'')])
      @ (case dc_spread c of
           Some s \<Rightarrow> (if id_node (cs_source s) \<noteq> ''incoming'' then [dx (id_span (cs_source s)) ''the spread is `...incoming`''] else [])
         | None \<Rightarrow> [])
      @ check_assigns snap (dc_update c) t scope_upsert)"

subsection \<open>The chunk modifier (check/chunk.rs)\<close>

definition walk_by_errors :: "ident_node \<Rightarrow> table_view \<Rightarrow> data_error list" where
  "walk_by_errors b t = (case view_col t (id_node b) of
       None \<Rightarrow> [dx (id_span b) (''table `'' @ view_name t @ ''` has no column `'' @ id_node b @ ''`'')]
     | Some c \<Rightarrow>
         (if dcol_nullable c then [dx (id_span b) (''`chunk '' @ [CHR 0xE2, CHR 0x80, CHR 0xA6] @ '' by '' @ id_node b @ ''` needs a not-null column'')]
          else if \<not> is_walkable t (id_node b) then [dx (id_span b) (''`chunk '' @ [CHR 0xE2, CHR 0x80, CHR 0xA6] @ '' by '' @ id_node b @
            ''` needs a unique or indexed column '' @ em_dash @ '' add an index or walk the primary key'')]
          else []))"

definition walk_key :: "chunk_mod \<Rightarrow> table_view \<Rightarrow> str list" where
  "walk_key ch t = (case ch_by ch of Some b \<Rightarrow> [id_node b] | None \<Rightarrow> view_pk t)"

definition walk_errors :: "chunk_mod \<Rightarrow> table_view \<Rightarrow> data_error list" where
  "walk_errors ch t = (case ch_by ch of
       Some b \<Rightarrow> walk_by_errors b t
     | None \<Rightarrow> (if view_pk t = [] then [dx (ch_span ch) (''table `'' @ view_name t @ ''` has no primary key '' @ em_dash @
         '' name a unique or indexed column with `chunk N by <col>`'')] else []))"

definition check_chunk :: "data_step \<Rightarrow> table_view \<Rightarrow> data_error list" where
  "check_chunk ds t = (case ds_chunk ds of
       None \<Rightarrow> []
     | Some ch \<Rightarrow> (case ds_op ds of
           Op_Create _ _ _ _ \<Rightarrow> [dx (ch_span ch) (''`chunk` applies to `update` / `delete` '' @ em_dash @
             '' a `create` writes its rows at once'')]
         | Op_Update _ _ as \<Rightarrow> walk_errors ch t @
             map (\<lambda>a. dx (id_span (da_col a)) (''a chunked update can'' @ [CHR 0x27] @ ''t assign `'' @ id_node (da_col a) @
               ''`, the column it walks by'')) (filter (\<lambda>a. id_node (da_col a) \<in> set (walk_key ch t)) as)
         | Op_Delete _ _ \<Rightarrow> walk_errors ch t))"

definition check_where :: "snapshot \<Rightarrow> predicate option \<Rightarrow> table_view \<Rightarrow> data_error list" where
  "check_where snap w t = (case w of Some p \<Rightarrow> check_pred snap p t scope_row | None \<Rightarrow> [])"

definition check_op :: "snapshot \<Rightarrow> data_step \<Rightarrow> table_view \<Rightarrow> data_error list" where
  "check_op snap ds t = (case ds_op ds of
       Op_Create _ rows bulk c \<Rightarrow> check_create snap rows bulk t (ds_span ds)
         @ (case c of Some c \<Rightarrow> check_conflict snap c t | None \<Rightarrow> [])
     | Op_Update _ w as \<Rightarrow> check_where snap w t @ check_assigns snap as t scope_row
     | Op_Delete _ w \<Rightarrow> check_where snap w t)"

definition check_step :: "data_step \<Rightarrow> snapshot \<Rightarrow> data_error list" where
  "check_step ds snap =
     (let table = op_table (ds_op ds) in
      case view_find snap (id_node table) of
        None \<Rightarrow> [dx (id_span table) (''unknown table `'' @ id_node table @ ''` at this point in the migration'')]
      | Some t \<Rightarrow> check_op snap ds t @ check_chunk ds t)"

end
