(* ===== verification/Data_Lower.thy ===== *)
theory Data_Lower
  imports Data_Check
begin

text \<open>
  Lowering a checked data step to one executable unit (codegen \<open>migrate/data/lower\<close>,
  \<open>invert.rs\<close>, and the literals and operators of \<open>sql/dml\<close> it shares with queries). The subquery
  alias counter, a \<open>Cell\<close> in the source, is passed as state.
\<close>

subsection \<open>Literals and operators (sql/dml)\<close>

fun render_lit :: "dialect \<Rightarrow> literal \<Rightarrow> str" where
  "render_lit d (Lit_Str s) = sql_string s"
| "render_lit d (Lit_Int i) = int_text i"
| "render_lit d (Lit_Decimal s) = s"
| "render_lit d (Lit_Bool b) = bool_lit d b"
| "render_lit d Lit_Null = ''NULL''"

definition render_func :: "dialect \<Rightarrow> ident_node \<Rightarrow> str" where
  "render_func d f = (if id_node f = ''now'' then now_sql d else id_node f @ ''()'')"

fun arith_op_sql :: "arith_op \<Rightarrow> str" where
  "arith_op_sql Arith_Add = ''+''"
| "arith_op_sql Arith_Sub = ''-''"
| "arith_op_sql Arith_Mul = ''*''"
| "arith_op_sql Arith_Div = ''/''"

text \<open>\<open>pattern_rows\<close>: the row source, the test that a row is a pattern, the pattern.\<close>

definition pattern_rows :: "dialect \<Rightarrow> str \<Rightarrow> str \<times> str \<times> str" where
  "pattern_rows d list =
     (if d = Sqlite then (''json_each(json_array('' @ list @ '')) AS __pattern'', ''__pattern.value IS NOT NULL'', ''__pattern.value'')
      else if d = Postgres then (''unnest(ARRAY['' @ list @ '']::text[]) AS __pattern(value)'',
        ''__pattern.value IS NOT NULL'', ''__pattern.value'')
      else (''JSON_TABLE(JSON_ARRAY('' @ list @ ''), '' @ [sql_quote_char] @ ''$[*]'' @ [sql_quote_char] @
          '' COLUMNS (value JSON PATH '' @ [sql_quote_char] @ ''$'' @ [sql_quote_char] @ '')) AS __pattern'',
        ''JSON_TYPE(__pattern.value) = '' @ [sql_quote_char] @ ''STRING'' @ [sql_quote_char], ''JSON_UNQUOTE(__pattern.value)''))"

definition like_list :: "dialect \<Rightarrow> str \<Rightarrow> bool \<Rightarrow> str \<Rightarrow> str" where
  "like_list d lhs every list = (case pattern_rows d list of (from, present, pattern) \<Rightarrow>
     if every then ''NOT EXISTS (SELECT 1 FROM '' @ from @ '' WHERE '' @ present @ '' AND ('' @ lhs @ '' LIKE '' @ pattern @ '') IS NOT TRUE)''
     else ''EXISTS (SELECT 1 FROM '' @ from @ '' WHERE '' @ present @ '' AND '' @ lhs @ '' LIKE '' @ pattern @ '')'')"

fun compare_sql :: "dialect \<Rightarrow> str \<Rightarrow> cmp_op \<Rightarrow> str \<Rightarrow> str" where
  "compare_sql d lhs Op_Eq rhs = lhs @ '' = '' @ rhs"
| "compare_sql d lhs Op_Ne rhs = lhs @ '' <> '' @ rhs"
| "compare_sql d lhs Op_Gt rhs = lhs @ '' > '' @ rhs"
| "compare_sql d lhs Op_Lt rhs = lhs @ '' < '' @ rhs"
| "compare_sql d lhs Op_Ge rhs = lhs @ '' >= '' @ rhs"
| "compare_sql d lhs Op_Le rhs = lhs @ '' <= '' @ rhs"
| "compare_sql d lhs Op_Like rhs = lhs @ '' LIKE '' @ rhs"
| "compare_sql d lhs Op_Like_All rhs = like_list d lhs True rhs"
| "compare_sql d lhs Op_Like_Any rhs = like_list d lhs False rhs"
| "compare_sql d lhs Op_In rhs = lhs @ '' IN ('' @ rhs @ '')''"
| "compare_sql d lhs Op_Has rhs =
     (if d = Postgres then lhs @ '' @> '' @ rhs else rhs @ '' MEMBER OF('' @ lhs @ '')'')"

text \<open>\<open>Dialect::concat\<close>.\<close>

definition concat_sql :: "dialect \<Rightarrow> str list \<Rightarrow> str" where
  "concat_sql d parts = (if is_mysql_family d then ''CONCAT('' @ join '', '' parts @ '')'' else ''('' @ join '' || '' parts @ '')'')"

subsection \<open>JSON paths (lower/json_path.rs)\<close>

text \<open>\<open>CAST(text AS type)\<close> for a numeric or temporal family.\<close>

definition json_cast :: "dialect \<Rightarrow> str \<Rightarrow> fam \<Rightarrow> str \<Rightarrow> str" where
  "json_cast d s f ty =
     (let as_type = (\<lambda>t. ''CAST('' @ s @ '' AS '' @ t @ '')'') in
      if f = Fam_Int \<or> is_int_enum f then as_type (if d = Sqlite then ''INTEGER'' else if d = Postgres then ''BIGINT'' else ''SIGNED'')
      else if f = Fam_Float then as_type (if d = Sqlite then ''REAL'' else if d = Postgres then ''DOUBLE PRECISION'' else ''DOUBLE'')
      else if f = Fam_Bool then as_type ''BOOLEAN''
      else if f = Fam_Timestamp \<or> f = Fam_Date \<or> f = Fam_Time then
        (if d = Sqlite then s
         else as_type (if f = Fam_Date then ''DATE'' else if f = Fam_Time then ''TIME''
           else if d = Postgres then ''TIMESTAMP'' else ''DATETIME''))
      else as_type (neutral_sql_type ty d))"

definition json_dollar :: "str list \<Rightarrow> str" where
  "json_dollar keys = [sql_quote_char] @ ''$.'' @ join ''.'' keys @ [sql_quote_char]"

definition json_braces :: "str list \<Rightarrow> str" where
  "json_braces keys = [sql_quote_char] @ ''{'' @ join '','' keys @ ''}'' @ [sql_quote_char]"

definition json_text :: "dialect \<Rightarrow> str \<Rightarrow> str list \<Rightarrow> str" where
  "json_text d col keys =
     (if d = Sqlite then ''json_extract('' @ col @ '', '' @ json_dollar keys @ '')''
      else if d = Postgres then ''('' @ col @ '' #>> '' @ json_braces keys @ '')''
      else ''JSON_UNQUOTE(JSON_EXTRACT('' @ col @ '', '' @ json_dollar keys @ ''))'')"

definition json_path :: "dialect \<Rightarrow> str \<Rightarrow> str list \<Rightarrow> (fam \<times> str) option \<Rightarrow> str" where
  "json_path d col keys to =
     (let s = json_text d col keys in
      case to of
        None \<Rightarrow> s
      | Some (f, ty) \<Rightarrow>
          (if f = Fam_Text \<or> is_str_enum f \<or> f = Fam_Ulid then s
           else if f = Fam_Json then
             (if d = Sqlite then s
              else if d = Postgres then ''('' @ col @ '' #> '' @ json_braces keys @ '')''
              else ''JSON_EXTRACT('' @ col @ '', '' @ json_dollar keys @ '')'')
           else if f = Fam_Bool \<and> d = Sqlite then s
           else if f = Fam_Bool \<and> is_mysql_family d then
             ''(JSON_EXTRACT('' @ col @ '', '' @ json_dollar keys @ '') = CAST('' @ [sql_quote_char] @ ''true'' @ [sql_quote_char] @ '' AS JSON))''
           else if f = Fam_Uuid then (if d = Postgres then s @ ''::uuid'' else s)
           else json_cast d s f ty))"

subsection \<open>The lowering state (lower/mod.rs)\<close>

record lw =
  lw_dialect :: dialect
  lw_snap :: snapshot
  lw_root :: str
  lw_qualify :: "str option"
  lw_incoming :: bool
  lw_writes_root :: bool

definition stand_in :: "fam \<Rightarrow> str \<Rightarrow> data_col" where
  "stand_in f ty = \<lparr>dcol_name = [], dcol_ty = ty, dcol_fam = f, dcol_nullable = True, dcol_has_default = False,
     dcol_generated = False, dcol_auto = False\<rparr>"

definition col_ref :: "lw \<Rightarrow> str \<Rightarrow> str" where
  "col_ref w c = (case lw_qualify w of Some a \<Rightarrow> qcol (lw_dialect w) a c | None \<Rightarrow> quote (lw_dialect w) c)"

definition view_table_sql :: "lw \<Rightarrow> table_view \<Rightarrow> str" where
  "view_table_sql w t = quote_table (lw_dialect w) (t_schema (tv_snap t)) (view_name t)"

definition nested_lw :: "lw \<Rightarrow> str \<Rightarrow> lw" where
  "nested_lw w alias = w\<lparr>lw_qualify := Some alias, lw_incoming := False\<rparr>"

subsection \<open>Values (lower/expr.rs)\<close>

definition incoming_ref :: "lw \<Rightarrow> str \<Rightarrow> str" where
  "incoming_ref w c = (if is_mysql_family (lw_dialect w) then ''VALUES('' @ quote (lw_dialect w) c @ '')''
     else ''excluded.'' @ quote (lw_dialect w) c)"

definition label_sql :: "lw \<Rightarrow> str \<Rightarrow> data_col option \<Rightarrow> str" where
  "label_sql w name target = (case target of
       Some c \<Rightarrow> (if is_int_enum (dcol_fam c) then name else render_lit (lw_dialect w) (Lit_Str name))
     | None \<Rightarrow> render_lit (lw_dialect w) (Lit_Str name))"

definition path_sql :: "lw \<Rightarrow> str list \<Rightarrow> table_view \<Rightarrow> data_col option \<Rightarrow> str" where
  "path_sql w segs t target = (case segs of
       [] \<Rightarrow> ''NULL''
     | [c] \<Rightarrow> (if view_col t c = None then label_sql w c target else col_ref w c)
     | c # keys \<Rightarrow>
         (if length keys = 1 \<and> c = ''incoming'' \<and> lw_incoming w then incoming_ref w (hd keys)
          else json_path (lw_dialect w) (col_ref w c) keys (map_option (\<lambda>x. (dcol_fam x, dcol_ty x)) target)))"

fun lower_value :: "lw \<Rightarrow> ast_value \<Rightarrow> table_view \<Rightarrow> data_col option \<Rightarrow> str" where
  "lower_value w (Val_Lit l) t target = render_lit (lw_dialect w) l"
| "lower_value w (Val_Func f _) t target = render_func (lw_dialect w) f"
| "lower_value w (Val_Param _) t target = ''NULL''"
| "lower_value w (Val_Path p) t target = path_sql w (map id_node p) t target"

subsection \<open>Predicates (lower/predicate.rs)\<close>

text \<open>A lowering that may fail and may take subquery aliases.\<close>

type_synonym 'a lowered = "nat \<Rightarrow> data_error + 'a \<times> nat"

definition operand_col :: "path \<Rightarrow> table_view \<Rightarrow> ast_value option \<Rightarrow> data_col option" where
  "operand_col p t rhs = (case p of
       [c] \<Rightarrow> view_col t (id_node c)
     | _ \<Rightarrow> Some (case rhs of
           Some (Val_Lit (Lit_Int _)) \<Rightarrow> stand_in Fam_Int ''int''
         | Some (Val_Lit (Lit_Decimal _)) \<Rightarrow> stand_in Fam_Float ''float''
         | Some (Val_Lit (Lit_Bool _)) \<Rightarrow> stand_in Fam_Bool ''bool''
         | _ \<Rightarrow> stand_in Fam_Text ''text''))"

definition lower_cmp :: "lw \<Rightarrow> path \<Rightarrow> cmp_op \<Rightarrow> ast_value \<Rightarrow> table_view \<Rightarrow> str" where
  "lower_cmp w p op v t =
     (let target = operand_col p t (Some v); lhs = lower_value w (Val_Path p) t target in
      if v = Val_Lit Lit_Null then (if op = Op_Ne then lhs @ '' IS NOT NULL'' else lhs @ '' IS NULL'')
      else compare_sql (lw_dialect w) lhs op (lower_value w v t target))"

definition lower_in :: "lw \<Rightarrow> path \<Rightarrow> ast_value list \<Rightarrow> table_view \<Rightarrow> str" where
  "lower_in w p vs t =
     (let target = operand_col p t (case vs of v # _ \<Rightarrow> Some v | [] \<Rightarrow> None) in
      lower_value w (Val_Path p) t target @ '' IN ('' @ join '', '' (map (\<lambda>v. lower_value w v t target) vs) @ '')'')"

definition lower_bare :: "lw \<Rightarrow> path \<Rightarrow> table_view \<Rightarrow> str" where
  "lower_bare w p t = lower_value w (Val_Path p) t (Some (stand_in Fam_Bool ''bool'')) @ '' = '' @ bool_lit (lw_dialect w) True"

definition exists_from :: "lw \<Rightarrow> table_view \<Rightarrow> str \<Rightarrow> str" where
  "exists_from w child alias = view_table_sql w child @ '' AS '' @ quote (lw_dialect w) alias"

definition opt_list :: "'a option \<Rightarrow> 'a list" where
  "opt_list m = (case m of Some x \<Rightarrow> [x] | None \<Rightarrow> [])"

text \<open>The uncorrelated form of \<open>EXISTS\<close> for a self-referential write; the alias number is taken first.\<close>

definition materialized :: "lw \<Rightarrow> (str \<times> str) list \<Rightarrow> str \<Rightarrow> str \<Rightarrow> str \<Rightarrow> str option \<Rightarrow> nat \<Rightarrow> str" where
  "materialized w link parent alias from filt n =
     (let d = lw_dialect w;
          wheres = join '' AND '' (map (\<lambda>(c, p). qcol d alias c @ '' IS NOT NULL'') link @ opt_list filt);
          keys = join '', '' (map (\<lambda>(i, c, p). qcol d alias c @ '' AS '' @ quote d (''k'' @ dec i)) (zip [0..<length link] link));
          parents = map (\<lambda>(c, p). qcol d parent p) link;
          lhs = (case parents of [one] \<Rightarrow> one | many \<Rightarrow> ''('' @ join '', '' many @ '')'') in
      lhs @ '' IN (SELECT * FROM (SELECT '' @ keys @ '' FROM '' @ from @ '' WHERE '' @ wheres @ '') AS '' @
      quote d (''d'' @ dec n) @ '')'')"

definition correlated :: "lw \<Rightarrow> (str \<times> str) list \<Rightarrow> str \<Rightarrow> str \<Rightarrow> str \<Rightarrow> str option \<Rightarrow> str" where
  "correlated w link parent alias from filt =
     ''EXISTS (SELECT 1 FROM '' @ from @ '' WHERE '' @
     join '' AND '' (map (\<lambda>(c, p). qcol (lw_dialect w) alias c @ '' = '' @ qcol (lw_dialect w) parent p) link @ opt_list filt) @ '')''"

text \<open>\<open>exists\<close> after its filter has been lowered: MySQL cannot read the table it writes.\<close>

definition close_exists :: "lw \<Rightarrow> (str \<times> str) list \<Rightarrow> str \<Rightarrow> str \<Rightarrow> table_view \<Rightarrow> str option \<Rightarrow> nat \<Rightarrow> str \<times> nat" where
  "close_exists w link parent alias child filt n =
     (if lw_writes_root w \<and> view_name child = lw_root w \<and> is_mysql_family (lw_dialect w)
      then (materialized w link parent alias (exists_from w child alias) filt (Suc n), Suc n)
      else (correlated w link parent alias (exists_from w child alias) filt, n))"

definition alias_name :: "nat \<Rightarrow> table_view \<Rightarrow> str" where
  "alias_name n child = ''s'' @ dec n @ ''_'' @ view_name child"

definition parent_alias :: "lw \<Rightarrow> table_view \<Rightarrow> str" where
  "parent_alias w t = (case lw_qualify w of Some a \<Rightarrow> a | None \<Rightarrow> view_name t)"

fun lower_pred :: "lw \<Rightarrow> predicate \<Rightarrow> table_view \<Rightarrow> str lowered" where
  "lower_pred w (Pred_And a b) t n = and_then (lower_pred w a t n) (\<lambda>(x, n1). and_then (lower_pred w b t n1) (\<lambda>(y, n2).
     Inr (''('' @ x @ '' AND '' @ y @ '')'', n2)))"
| "lower_pred w (Pred_Or a b) t n = and_then (lower_pred w a t n) (\<lambda>(x, n1). and_then (lower_pred w b t n1) (\<lambda>(y, n2).
     Inr (''('' @ x @ '' OR '' @ y @ '')'', n2)))"
| "lower_pred w (Pred_Not a) t n = and_then (lower_pred w a t n) (\<lambda>(x, n1). Inr (''NOT ('' @ x @ '')'', n1))"
| "lower_pred w (Pred_Cmp p op v) t n = Inr (lower_cmp w p op v t, n)"
| "lower_pred w (Pred_In p vs) t n = Inr (lower_in w p vs t, n)"
| "lower_pred w (Pred_Bare p) t n = Inr (lower_bare w p t, n)"
| "lower_pred w (Pred_Any p by_id pred) t n =
     (case child_link (lw_snap w) t (id_node (hd p)) (map_option id_node by_id) of
        Inl m \<Rightarrow> Inl (dx (span_of p) m)
      | Inr (child, link) \<Rightarrow>
          (let n1 = Suc n; alias = alias_name n1 child; parent = parent_alias w t in
           case pred of
             None \<Rightarrow> Inr (close_exists w link parent alias child None n1)
           | Some q \<Rightarrow> and_then (lower_pred (nested_lw w alias) q child n1) (\<lambda>(f, n2).
               Inr (close_exists w link parent alias child (Some f) n2))))"
| "lower_pred w (Pred_Filter name _) t n = Inl (dx (id_span name) (''named filters aren'' @ [CHR 0x27] @ ''t available in a migration''))"
| "lower_pred w (Pred_Raw raw) t n = Inl (dx (rs_span raw) (''a raw predicate isn'' @ [CHR 0x27] @ ''t available in a data step''))"

subsection \<open>Expressions\<close>

definition numeric_target :: "data_col option \<Rightarrow> data_col option" where
  "numeric_target target = (case target of
       Some c \<Rightarrow> Some (if fam_numeric (dcol_fam c) then c else stand_in Fam_Float ''float'')
     | None \<Rightarrow> Some (stand_in Fam_Float ''float''))"

fun lower_expr :: "lw \<Rightarrow> shape_expr \<Rightarrow> table_view \<Rightarrow> data_col option \<Rightarrow> str lowered"
  and concat_parts :: "lw \<Rightarrow> shape_expr \<Rightarrow> table_view \<Rightarrow> str list lowered"
  and lower_arms :: "lw \<Rightarrow> case_arm list \<Rightarrow> table_view \<Rightarrow> data_col option \<Rightarrow> str lowered" where
  "lower_expr w (Expr_Value v) t target n = Inr (lower_value w v t target, n)"
| "lower_expr w (Expr_Arith lhs op rhs s) t target n =
     and_then (lower_expr w lhs t (numeric_target target) n) (\<lambda>(a, n1).
     and_then (lower_expr w rhs t (numeric_target target) n1) (\<lambda>(b, n2).
     Inr (''('' @ a @ '' '' @ arith_op_sql op @ '' '' @ b @ '')'', n2)))"
| "lower_expr w (Expr_Concat lhs rhs s) t target n =
     and_then (concat_parts w lhs t n) (\<lambda>(a, n1). and_then (concat_parts w rhs t n1) (\<lambda>(b, n2).
     Inr (concat_sql (lw_dialect w) (a @ b), n2)))"
| "lower_expr w (Expr_Case arms els s) t target n =
     and_then (lower_arms w arms t target n) (\<lambda>(ws, n1). and_then (lower_expr w els t target n1) (\<lambda>(e, n2).
     Inr (''CASE'' @ ws @ '' ELSE '' @ e @ '' END'', n2)))"
| "concat_parts w (Expr_Concat lhs rhs s) t n =
     and_then (concat_parts w lhs t n) (\<lambda>(a, n1). and_then (concat_parts w rhs t n1) (\<lambda>(b, n2). Inr (a @ b, n2)))"
| "concat_parts w (Expr_Value v) t n = and_then (lower_expr w (Expr_Value v) t None n) (\<lambda>(x, n1). Inr ([x], n1))"
| "concat_parts w (Expr_Arith l op r s) t n =
     and_then (lower_expr w (Expr_Arith l op r s) t None n) (\<lambda>(x, n1). Inr ([x], n1))"
| "concat_parts w (Expr_Case arms els s) t n =
     and_then (lower_expr w (Expr_Case arms els s) t None n) (\<lambda>(x, n1). Inr ([x], n1))"
| "lower_arms w [] t target n = Inr ([], n)"
| "lower_arms w (Case_Arm p e # arms) t target n =
     and_then (lower_pred w p t n) (\<lambda>(c, n1). and_then (lower_expr w e t target n1) (\<lambda>(x, n2).
     and_then (lower_arms w arms t target n2) (\<lambda>(rest, n3).
     Inr ('' WHEN '' @ c @ '' THEN '' @ x @ rest, n3))))"

end
