(* ===== verification/Data_Unit.thy ===== *)
theory Data_Unit
  imports Data_Lower
begin

text \<open>
  The statements of a data step (codegen \<open>migrate/data/lower/create.rs\<close>, \<open>write.rs\<close>, \<open>chunk.rs\<close>,
  \<open>mod.rs\<close>) and the automatic reverse of a literal-row \<open>create\<close> (\<open>invert.rs\<close>).
\<close>

text \<open>\<open>map(\<dots>).collect::<Result<Vec<_>, _>>()\<close> with the alias counter.\<close>

fun lower_all :: "('a \<Rightarrow> 'b lowered) \<Rightarrow> 'a list \<Rightarrow> 'b list lowered" where
  "lower_all f [] n = Inr ([], n)"
| "lower_all f (x # xs) n = and_then (f x n) (\<lambda>(y, n1). and_then (lower_all f xs n1) (\<lambda>(ys, n2). Inr (y # ys, n2)))"

subsection \<open>Create (lower/create.rs)\<close>

definition assign_name :: "data_assign \<Rightarrow> str" where
  "assign_name a = id_node (da_col a)"

definition assign_for :: "str \<Rightarrow> data_row \<Rightarrow> data_assign option" where
  "assign_for c r = find (\<lambda>a. assign_name a = c) (dr_assigns r)"

definition authored :: "data_row list \<Rightarrow> str list" where
  "authored rows = (case rows of r # _ \<Rightarrow> map assign_name (dr_assigns r) | [] \<Rightarrow> [])"

definition minted_for :: "data_row list \<Rightarrow> table_view \<Rightarrow> (str \<times> id_kind) option" where
  "minted_for rows t = (case minted_pk t of
       Some (pk, k) \<Rightarrow> (if pk \<in> set (authored rows) then None else Some (pk, k))
     | None \<Rightarrow> None)"

definition lower_cell :: "lw \<Rightarrow> table_view \<Rightarrow> data_row \<Rightarrow> str \<Rightarrow> str lowered" where
  "lower_cell w t r c n = (case assign_for c r of
       Some a \<Rightarrow> lower_expr w (da_value a) t (view_col t c) n
     | None \<Rightarrow> Inr (''NULL'', n))"

definition lower_tuple :: "lw \<Rightarrow> table_view \<Rightarrow> data_row list \<Rightarrow> nat \<times> data_row \<Rightarrow> str lowered" where
  "lower_tuple w t rows ir n =
     and_then (lower_all (lower_cell w t (snd ir)) (authored rows) n) (\<lambda>(vals, n1).
     Inr (''('' @ join '', '' (vals @ map (\<lambda>_. placeholder (lw_dialect w) (fst ir + 1)) (opt_list (minted_for rows t))) @ '')'', n1))"

text \<open>One step of the \<open>try_fold\<close> over the \<open>SET\<close> list: the later assignment of a column wins.\<close>

definition set_last :: "str \<times> str \<Rightarrow> (str \<times> str) list \<Rightarrow> (str \<times> str) list" where
  "set_last s sets = filter (\<lambda>x. fst x \<noteq> fst s) sets @ [s]"

definition upsert_state :: "lw \<Rightarrow> lw" where
  "upsert_state w = w\<lparr>lw_qualify := None, lw_incoming := True, lw_writes_root := False\<rparr>"

definition lower_set :: "lw \<Rightarrow> table_view \<Rightarrow> data_assign \<Rightarrow> (str \<times> str) lowered" where
  "lower_set w t a n = and_then (lower_expr w (da_value a) t (view_col t (assign_name a)) n) (\<lambda>(v, n1).
     Inr ((assign_name a, v), n1))"

definition spread_sets :: "lw \<Rightarrow> data_conflict \<Rightarrow> str list \<Rightarrow> (str \<times> str) list" where
  "spread_sets w c inserted = (case dc_spread c of
       None \<Rightarrow> []
     | Some _ \<Rightarrow> map (\<lambda>col. (col, incoming_ref w col))
         (filter (\<lambda>col. col \<notin> set (map id_node (dc_target c))) inserted))"

definition spread_at :: "data_conflict \<Rightarrow> nat" where
  "spread_at c = (case dc_spread c of Some s \<Rightarrow> cs_preceding s | None \<Rightarrow> length (dc_update c))"

definition conflict_sets :: "lw \<Rightarrow> data_conflict \<Rightarrow> str list \<Rightarrow> table_view \<Rightarrow> nat \<Rightarrow> data_error + (str \<times> str) list" where
  "conflict_sets w c inserted t n =
     (let u = upsert_state w; at = spread_at c in
      and_then (lower_all (lower_set u t) (take at (dc_update c)) n) (\<lambda>(before, n1).
      and_then (lower_all (lower_set u t) (drop at (dc_update c)) n1) (\<lambda>(after, n2).
      Inr (fold set_last (before @ spread_sets u c inserted @ after) []))))"

definition conflict_tail :: "lw \<Rightarrow> data_conflict \<Rightarrow> str list \<Rightarrow> table_view \<Rightarrow> nat \<Rightarrow> data_error + str" where
  "conflict_tail w c inserted t n =
     and_then (conflict_sets w c inserted t n) (\<lambda>sets.
       let d = lw_dialect w;
           assigns = join '', '' (map (\<lambda>(col, v). quote d col @ '' = '' @ v) sets);
           keys = join '', '' (map (quote d) (map id_node (dc_target c)));
           k = quote d (id_node (hd (dc_target c))) in
       Inr (if is_mysql_family d then
              (if assigns = [] then '' ON DUPLICATE KEY UPDATE '' @ k @ '' = '' @ k else '' ON DUPLICATE KEY UPDATE '' @ assigns)
            else
              (if assigns = [] then '' ON CONFLICT ('' @ keys @ '') DO NOTHING''
               else '' ON CONFLICT ('' @ keys @ '') DO UPDATE SET '' @ assigns)))"

definition create_tail :: "lw \<Rightarrow> data_conflict option \<Rightarrow> str list \<Rightarrow> table_view \<Rightarrow> nat \<Rightarrow> data_error + str" where
  "create_tail w c inserted t n = (case c of Some c \<Rightarrow> conflict_tail w c inserted t n | None \<Rightarrow> Inr [])"

definition lower_create ::
  "lw \<Rightarrow> data_row list \<Rightarrow> data_conflict option \<Rightarrow> table_view \<Rightarrow> data_error + str \<times> id_kind list" where
  "lower_create w rows c t =
     and_then (lower_all (lower_tuple w t rows) (zip [0..<length rows] rows) 0) (\<lambda>(tuples, n).
     and_then (create_tail w c (authored rows) t n) (\<lambda>tail.
       let cols = map (quote (lw_dialect w)) (authored rows @ map fst (opt_list (minted_for rows t)));
           ids = (case minted_for rows t of Some (_, k) \<Rightarrow> replicate (length rows) k | None \<Rightarrow> []) in
       Inr (''INSERT INTO '' @ view_table_sql w t @ '' ('' @ join '', '' cols @ '') VALUES '' @ join '', '' tuples @ tail, ids)))"

subsection \<open>Update and delete (lower/write.rs)\<close>

definition where_sql :: "lw \<Rightarrow> predicate option \<Rightarrow> table_view \<Rightarrow> nat \<Rightarrow> data_error + str" where
  "where_sql w p t n = (case p of
       None \<Rightarrow> Inr []
     | Some p \<Rightarrow> and_then (lower_pred w p t n) (\<lambda>(s, _). Inr ('' WHERE '' @ s)))"

definition lower_assign :: "lw \<Rightarrow> table_view \<Rightarrow> data_assign \<Rightarrow> str lowered" where
  "lower_assign w t a n = and_then (lower_expr w (da_value a) t (view_col t (assign_name a)) n) (\<lambda>(v, n1).
     Inr (quote (lw_dialect w) (assign_name a) @ '' = '' @ v, n1))"

definition lower_update :: "lw \<Rightarrow> predicate option \<Rightarrow> data_assign list \<Rightarrow> table_view \<Rightarrow> nat \<Rightarrow> data_error + str" where
  "lower_update w p as t n =
     and_then (lower_all (lower_assign w t) as n) (\<lambda>(sets, n1). and_then (where_sql w p t n1) (\<lambda>wh.
     Inr (''UPDATE '' @ view_table_sql w t @ '' SET '' @ join '', '' sets @ wh)))"

definition lower_delete :: "lw \<Rightarrow> predicate option \<Rightarrow> table_view \<Rightarrow> nat \<Rightarrow> data_error + str" where
  "lower_delete w p t n = and_then (where_sql w p t n) (\<lambda>wh. Inr (''DELETE FROM '' @ view_table_sql w t @ wh))"

subsection \<open>Chunked steps (lower/chunk.rs)\<close>

definition chunk_parts :: "lw \<Rightarrow> predicate option \<Rightarrow> data_assign list option \<Rightarrow> table_view \<Rightarrow> data_error + str option \<times> str" where
  "chunk_parts w p as t =
     (let write = (\<lambda>n. case as of Some a \<Rightarrow> lower_update w None a t n | None \<Rightarrow> lower_delete w None t n) in
      case p of
        None \<Rightarrow> and_then (write 0) (\<lambda>s. Inr (None, s))
      | Some q \<Rightarrow> and_then (lower_pred w q t 0) (\<lambda>(f, n). and_then (write n) (\<lambda>s. Inr (Some f, s))))"

definition make_chunk :: "lw \<Rightarrow> chunk_mod \<Rightarrow> table_view \<Rightarrow> str option \<times> str \<Rightarrow> chunk_plan" where
  "make_chunk w ch t parts =
     \<lparr>cp_table = view_name t, cp_key_columns = walk_key ch t, cp_size = ch_size ch, cp_pause_ms = ch_pause_ms ch,
      cp_dialect = lw_dialect w, cp_from = view_table_sql w t, cp_keys = map (col_ref w) (walk_key ch t),
      cp_filter = fst parts, cp_write_head = snd parts\<rparr>"

definition lower_chunk :: "lw \<Rightarrow> data_step \<Rightarrow> chunk_mod \<Rightarrow> table_view \<Rightarrow> data_error + chunk_plan" where
  "lower_chunk w ds ch t =
     (if walk_key ch t = [] then Inl (dx (ch_span ch) ''a chunked step needs a walk key'')
      else case ds_op ds of
          Op_Create _ _ _ _ \<Rightarrow> Inl (dx (ch_span ch) ''`chunk` applies to `update` / `delete`'')
        | Op_Update _ p as \<Rightarrow> and_then (chunk_parts w p (Some as) t) (\<lambda>x. Inr (make_chunk w ch t x))
        | Op_Delete _ p \<Rightarrow> and_then (chunk_parts w p None t) (\<lambda>x. Inr (make_chunk w ch t x)))"

subsection \<open>Steps (lower/mod.rs)\<close>

definition root_state :: "dialect \<Rightarrow> snapshot \<Rightarrow> data_op \<Rightarrow> table_view \<Rightarrow> lw" where
  "root_state d snap op t = \<lparr>lw_dialect = d, lw_snap = snap, lw_root = view_name t, lw_qualify = Some (view_name t),
     lw_incoming = False, lw_writes_root = (case op of Op_Create _ _ _ _ \<Rightarrow> False | _ \<Rightarrow> True)\<rparr>"

definition insert_unit :: "str \<times> id_kind list \<Rightarrow> plan_unit" where
  "insert_unit x = (if snd x = [] then Unit_Sql (fst x) else Unit_Minted (fst x) (snd x))"

definition lower_op :: "lw \<Rightarrow> data_step \<Rightarrow> table_view \<Rightarrow> data_error + plan_unit" where
  "lower_op w ds t = (case ds_chunk ds of
       Some ch \<Rightarrow> and_then (lower_chunk w ds ch t) (\<lambda>p. Inr (Unit_Chunked p))
     | None \<Rightarrow> (case ds_op ds of
           Op_Create _ rows _ c \<Rightarrow> and_then (lower_create w rows c t) (\<lambda>x. Inr (insert_unit x))
         | Op_Update _ p as \<Rightarrow> and_then (lower_update w p as t 0) (\<lambda>s. Inr (Unit_Sql s))
         | Op_Delete _ p \<Rightarrow> and_then (lower_delete w p t 0) (\<lambda>s. Inr (Unit_Sql s))))"

definition lower_step :: "data_step \<Rightarrow> snapshot \<Rightarrow> dialect \<Rightarrow> data_error + plan_unit" where
  "lower_step ds snap d =
     (let table = op_table (ds_op ds) in
      case view_find snap (id_node table) of
        None \<Rightarrow> Inl (dx (id_span table) (''unknown table `'' @ id_node table @ ''`''))
      | Some t \<Rightarrow> lower_op (root_state d snap (ds_op ds) t) ds t)"

subsection \<open>The reverse of a create (invert.rs)\<close>

text \<open>One item bare, several as a row value.\<close>

definition row_tuple :: "str list \<Rightarrow> str" where
  "row_tuple items = (case items of [one] \<Rightarrow> one | _ \<Rightarrow> ''('' @ join '', '' items @ '')'')"

definition literal_sql :: "shape_expr \<Rightarrow> dialect \<Rightarrow> str option" where
  "literal_sql e d = (case e of
       Expr_Value (Val_Lit l) \<Rightarrow> (if l = Lit_Null then None else Some (render_lit d l))
     | _ \<Rightarrow> None)"

text \<open>\<open>collect::<Option<Vec<_>>>()\<close>.\<close>

fun all_some :: "'a option list \<Rightarrow> 'a list option" where
  "all_some [] = Some []"
| "all_some (m # ms) = (case m of None \<Rightarrow> None | Some x \<Rightarrow> map_option (\<lambda>xs. x # xs) (all_some ms))"

definition key_literals :: "dialect \<Rightarrow> str list \<Rightarrow> data_row \<Rightarrow> str list option" where
  "key_literals d key r = all_some (map (\<lambda>k. Option.bind (assign_for k r) (\<lambda>a. literal_sql (da_value a) d)) key)"

definition invert_key :: "dialect \<Rightarrow> table_view \<Rightarrow> data_row list \<Rightarrow> str list \<Rightarrow> str option" where
  "invert_key d t rows key = map_option (\<lambda>tuples.
     ''DELETE FROM '' @ quote_table d (t_schema (tv_snap t)) (view_name t) @ '' WHERE '' @ row_tuple (map (quote d) key) @
     '' IN ('' @ join '', '' (map row_tuple tuples) @ '')'') (all_some (map (key_literals d key) rows))"

text \<open>\<open>find_map\<close>.\<close>

fun find_map :: "('a \<Rightarrow> 'b option) \<Rightarrow> 'a list \<Rightarrow> 'b option" where
  "find_map f [] = None"
| "find_map f (x # xs) = (case f x of Some y \<Rightarrow> Some y | None \<Rightarrow> find_map f xs)"

definition invert :: "data_step \<Rightarrow> snapshot \<Rightarrow> dialect \<Rightarrow> str option" where
  "invert ds snap d = (case (ds_op ds, ds_chunk ds) of
       (Op_Create table rows _ None, None) \<Rightarrow>
         Option.bind (view_find snap (id_node table)) (\<lambda>t. find_map (invert_key d t rows) (unique_keys t))
     | _ \<Rightarrow> None)"

end
