(* ===== verification/Lowering.thy ===== *)
theory Lowering
  imports Ddl_Steps Migration_Sql
begin

text \<open>
  A migration as SQL (codegen \<open>migrate/sql/mod.rs\<close>, \<open>sqlite_rebuild.rs\<close>): the statements that run,
  the text a reviewer reads, and on SQLite the rebuild of a table that stands in for every change the
  database has no \<open>ALTER\<close> for.
\<close>

subsection \<open>The table rebuild (sqlite_rebuild.rs)\<close>

fun rebuild_trigger_table :: "step \<Rightarrow> str option" where
  "rebuild_trigger_table (Alter_Column table _ _ _ _) = Some table"
| "rebuild_trigger_table (Add_Foreign_Key table _ _) = Some table"
| "rebuild_trigger_table (Drop_Foreign_Key table _ _) = Some table"
| "rebuild_trigger_table (Alter_Schema table _ _) = Some table"
| "rebuild_trigger_table _ = None"

fun folded_table :: "step \<Rightarrow> str option" where
  "folded_table (Create_Table _) = None"
| "folded_table (Drop_Table _ _) = None"
| "folded_table (Step_Rename_Table _ _ _) = None"
| "folded_table (Raw_Step _ _) = None"
| "folded_table (Scope_Change _) = None"
| "folded_table st = table_name st"

definition rebuild_added_columns :: "str \<Rightarrow> step list \<Rightarrow> str list" where
  "rebuild_added_columns table steps = List.map_filter
     (\<lambda>st. case st of Add_Column t _ c \<Rightarrow> (if t = table then Some (c_name c) else None) | _ \<Rightarrow> None) steps"

text \<open>The old name of each renamed column, and the schema the rows are copied out of.\<close>

fun rebuild_rename :: "str \<Rightarrow> step \<Rightarrow> (str \<rightharpoonup> str) \<times> str option \<Rightarrow> (str \<rightharpoonup> str) \<times> str option" where
  "rebuild_rename table (Step_Rename_Column t _ from to) (old, schema) =
     (if t = table then (old(to \<mapsto> from), schema) else (old, schema))"
| "rebuild_rename table (Alter_Schema t from _) (old, schema) = (if t = table then (old, from) else (old, schema))"
| "rebuild_rename table _ m = m"

definition rebuild_renames :: "str \<Rightarrow> table_snap \<Rightarrow> step list \<Rightarrow> (str \<rightharpoonup> str) \<times> str option" where
  "rebuild_renames table tt steps = fold (rebuild_rename table) steps (Map.empty, t_schema tt)"

definition physical_columns :: "table_snap \<Rightarrow> str list" where
  "physical_columns t = (if implicit_id t then [''id''] else []) @ map c_name (t_columns t)"

text \<open>The columns the new table keeps, each with the column it is copied from.\<close>

definition rebuild_copy_list :: "table_snap \<Rightarrow> str list \<Rightarrow> (str \<rightharpoonup> str) \<Rightarrow> (str \<times> str) list" where
  "rebuild_copy_list tt added old =
     map (\<lambda>c. (c, case old c of Some f \<Rightarrow> f | None \<Rightarrow> c)) (filter (\<lambda>c. c \<notin> set added) (physical_columns tt))"

definition rebuild_copy_lists :: "table_snap \<Rightarrow> str list \<Rightarrow> (str \<rightharpoonup> str) \<Rightarrow> dialect \<Rightarrow> str list \<times> str list" where
  "rebuild_copy_lists tt added old d =
     (map (quote d \<circ> fst) (rebuild_copy_list tt added old), map (quote d \<circ> snd) (rebuild_copy_list tt added old))"

definition rebuild_close :: str where
  "rebuild_close = ''PRAGMA legacy_alter_table = OFF''"

definition rebuild_statements :: "(dialect \<Rightarrow> str \<Rightarrow> str option) \<Rightarrow> str \<Rightarrow> table_snap \<Rightarrow> step list \<Rightarrow> str list" where
  "rebuild_statements gen table tt steps =
     (case rebuild_renames table tt steps of (old, source_schema) \<Rightarrow>
      case rebuild_copy_lists tt (rebuild_added_columns table steps) old Sqlite of (tcols, scols) \<Rightarrow>
      let tmp = table @ ''__based_rebuild'';
          source = quote_table Sqlite source_schema table;
          tmp_q = quote_table Sqlite source_schema tmp;
          target_q = quote_table Sqlite (t_schema tt) table in
      [sqlite_rebuild_open, ''PRAGMA defer_foreign_keys = ON'',
       ''ALTER TABLE '' @ source @ '' RENAME TO '' @ quote Sqlite tmp,
       create_table_sql gen tt Sqlite]
      @ (if tcols = [] then [] else
          [''INSERT INTO '' @ target_q @ '' ('' @ join '', '' tcols @ '') SELECT '' @ join '', '' scols @ '' FROM '' @ tmp_q])
      @ [''DROP TABLE '' @ tmp_q]
      @ trailing_index_sql tt Sqlite
      @ [rebuild_close])"

definition sqlite_rebuild_statements ::
  "(dialect \<Rightarrow> str \<Rightarrow> str option) \<Rightarrow> str \<Rightarrow> snapshot \<Rightarrow> step list \<Rightarrow> str list" where
  "sqlite_rebuild_statements gen table target steps = (case find_table target table of
       None \<Rightarrow> [] | Some tt \<Rightarrow> rebuild_statements gen table tt steps)"

subsection \<open>Folding the steps of a rebuilt table\<close>

datatype emit = Emit_Step step | Emit_Rebuild str "str list"

definition rebuilt_tables :: "step list \<Rightarrow> snapshot \<Rightarrow> str list" where
  "rebuilt_tables steps target =
     filter (\<lambda>t. find_table target t \<noteq> None) (List.map_filter rebuild_trigger_table steps)"

text \<open>\<open>seen\<close> are the tables already rebuilt.\<close>

fun sqlite_plan_from ::
  "(str \<Rightarrow> str list) \<Rightarrow> str list \<Rightarrow> str set \<Rightarrow> step list \<Rightarrow> emit list" where
  "sqlite_plan_from rebuild ts seen [] = []"
| "sqlite_plan_from rebuild ts seen (st # sts) = (case folded_table st of
       Some t \<Rightarrow> (if t \<in> set ts
         then (if t \<in> seen then sqlite_plan_from rebuild ts seen sts
               else Emit_Rebuild t (rebuild t) # sqlite_plan_from rebuild ts (insert t seen) sts)
         else Emit_Step st # sqlite_plan_from rebuild ts seen sts)
     | None \<Rightarrow> Emit_Step st # sqlite_plan_from rebuild ts seen sts)"

definition sqlite_plan :: "(dialect \<Rightarrow> str \<Rightarrow> str option) \<Rightarrow> step list \<Rightarrow> snapshot \<Rightarrow> emit list" where
  "sqlite_plan gen steps target =
     sqlite_plan_from (\<lambda>t. sqlite_rebuild_statements gen t target steps) (rebuilt_tables steps target) {} steps"

subsection \<open>What runs and what is read (sql/mod.rs)\<close>

definition concat_res :: "('e + 'a list) list \<Rightarrow> 'e + 'a list" where
  "concat_res rs = and_then (map_res (\<lambda>r. r) rs) (\<lambda>xss. Inr (concat xss))"

definition sql_statements :: "(dialect \<Rightarrow> str \<Rightarrow> str option) \<Rightarrow> step list \<Rightarrow> dialect \<Rightarrow> str + str list" where
  "sql_statements gen steps d = concat_res (map (step_statements gen d) steps)"

fun emit_statements :: "(dialect \<Rightarrow> str \<Rightarrow> str option) \<Rightarrow> dialect \<Rightarrow> emit \<Rightarrow> str + str list" where
  "emit_statements gen d (Emit_Step st) = step_statements gen d st"
| "emit_statements gen d (Emit_Rebuild table stmts) = Inr stmts"

definition migration_sql :: "(dialect \<Rightarrow> str \<Rightarrow> str option) \<Rightarrow> step list \<Rightarrow> dialect \<Rightarrow> snapshot \<Rightarrow> str + str list" where
  "migration_sql gen steps d target =
     (if d \<noteq> Sqlite then sql_statements gen steps d
      else concat_res (map (emit_statements gen d) (sqlite_plan gen steps target)))"

definition render_header :: "dialect \<Rightarrow> str" where
  "render_header d = ''-- Rendered by `based migrate render` (dialect: '' @ dialect_name d @ ''). Review before apply.'' @ nl"

definition terminated :: "str list \<Rightarrow> str" where
  "terminated stmts = concat (map (\<lambda>s. s @ '';'' @ nl) stmts)"

definition destructive_note :: str where
  "destructive_note = ''-- DESTRUCTIVE: needs --allow-destructive or an unsafe('' @ [dq] @ ''reason'' @ [dq] @ '') ack to apply.'' @ nl"

definition render_statements :: "(dialect \<Rightarrow> str \<Rightarrow> str option) \<Rightarrow> dialect \<Rightarrow> step \<Rightarrow> str" where
  "render_statements gen d st =
     (if destructive st then destructive_note else [])
     @ (case step_statements gen d st of Inr stmts \<Rightarrow> terminated stmts | Inl msg \<Rightarrow> ''-- '' @ msg @ nl)"

fun render_step_into :: "(dialect \<Rightarrow> str \<Rightarrow> str option) \<Rightarrow> dialect \<Rightarrow> step \<Rightarrow> str" where
  "render_step_into gen d (Scope_Change sc) = ''-- scope contract change (no DDL): '' @ scope_change_line sc @ nl"
| "render_step_into gen d (Raw_Step e sql) =
     (if e = d then ''-- raw('' @ dialect_name e @ '') escape '' @ em_dash @ '' not offline-verifiable'' @ nl @ sql @ '';'' @ nl
      else ''-- raw('' @ dialect_name e @ '') step '' @ em_dash @ '' skipped for target '' @ dialect_name d @ nl)"
| "render_step_into gen d st = render_statements gen d st"

definition render_sql :: "(dialect \<Rightarrow> str \<Rightarrow> str option) \<Rightarrow> step list \<Rightarrow> dialect \<Rightarrow> str" where
  "render_sql gen steps d = render_header d @ concat (map (\<lambda>st. nl @ render_step_into gen d st) steps)"

definition rebuild_note :: "str \<Rightarrow> str" where
  "rebuild_note table =
     ''-- SQLite table rebuild for '' @ tick table @ '': no in-place ALTER COLUMN / foreign-key'' @ nl @
     ''-- change exists, so the table is recreated at its target shape and rows copied.'' @ nl @
     ''-- Runs inside the migration transaction (apply wraps it); children re-bind by name.'' @ nl"

fun render_emit :: "(dialect \<Rightarrow> str \<Rightarrow> str option) \<Rightarrow> dialect \<Rightarrow> emit \<Rightarrow> str" where
  "render_emit gen d (Emit_Step st) = render_step_into gen d st"
| "render_emit gen d (Emit_Rebuild table stmts) = rebuild_note table @ terminated stmts"

definition render_migration :: "(dialect \<Rightarrow> str \<Rightarrow> str option) \<Rightarrow> step list \<Rightarrow> dialect \<Rightarrow> snapshot \<Rightarrow> str" where
  "render_migration gen steps d target =
     (if d \<noteq> Sqlite then render_sql gen steps d
      else render_header d @ concat (map (\<lambda>e. nl @ render_emit gen d e) (sqlite_plan gen steps target)))"

end
