(* ===== verification/Lowering_Props.thy ===== *)
theory Lowering_Props
  imports Lowering Diff_Props
begin

text \<open>
  What the SQL of a migration promises: every diff has one on every dialect, on SQLite no step is
  lost and each table is rebuilt once, a rebuild copies every column that survives from the column
  that holds its data, and the reviewed text is the text that runs.
\<close>

subsection \<open>Lowering succeeds\<close>

lemma map_res_id: "map_res (\<lambda>r. r) rs = Inr xss \<longleftrightarrow> rs = map Inr xss"
proof (induction rs arbitrary: xss)
  case (Cons r rs)
  then show ?case by (cases r) (auto simp: Cons_eq_map_conv)
qed auto

lemma concat_res_Inr: "concat_res rs = Inr xs \<longleftrightarrow> (\<exists>xss. rs = map Inr xss \<and> xs = concat xss)"
  by (auto simp: concat_res_def map_res_id)

lemma concat_res_total: "(\<And>r. r \<in> set rs \<Longrightarrow> \<exists>xs. r = Inr xs) \<Longrightarrow> \<exists>xs. concat_res rs = Inr xs"
  unfolding concat_res_Inr by (induction rs) (force simp: Cons_eq_map_conv)+

text \<open>Only a step that forces a rebuild has no statement, and only on SQLite.\<close>

lemma step_statements_total:
  "d \<noteq> Sqlite \<or> rebuild_trigger_table st = None \<Longrightarrow> \<exists>xs. step_statements gen d st = Inr xs"
  by (cases st; cases d)
    (simp_all add: alter_column_statements_def add_foreign_key_statements_def drop_foreign_key_statements_def
      alter_schema_statements_def)

lemma trigger_folded: "rebuild_trigger_table st = Some t \<Longrightarrow> folded_table st = Some t"
  by (cases st) simp_all

lemma plan_steps:
  "Emit_Step st \<in> set (sqlite_plan_from rebuild ts seen sts) \<Longrightarrow> st \<in> set sts \<and> (\<forall>t. folded_table st = Some t \<longrightarrow> t \<notin> set ts)"
  by (induction sts arbitrary: seen) (auto split: option.splits if_splits)

lemma migration_sql_total:
  assumes "\<And>st t. st \<in> set steps \<Longrightarrow> rebuild_trigger_table st = Some t \<Longrightarrow> find_table target t \<noteq> None"
  shows "\<exists>stmts. migration_sql gen steps d target = Inr stmts"
proof (cases "d = Sqlite")
  case False
  then show ?thesis
    by (auto simp: migration_sql_def sql_statements_def intro!: concat_res_total step_statements_total)
next
  case True
  have "\<exists>xs. emit_statements gen d e = Inr xs" if "e \<in> set (sqlite_plan gen steps target)" for e
  proof (cases e)
    case (Emit_Step st)
    from plan_steps [of st] that have st: "st \<in> set steps"
      "\<And>t. folded_table st = Some t \<Longrightarrow> t \<notin> set (rebuilt_tables steps target)"
      by (auto simp: sqlite_plan_def Emit_Step)
    have "rebuild_trigger_table st = None"
    proof (rule ccontr)
      assume "rebuild_trigger_table st \<noteq> None"
      then obtain t where t: "rebuild_trigger_table st = Some t" by auto
      with st(1) assms [OF st(1) t] have "t \<in> set (rebuilt_tables steps target)"
        by (auto simp: rebuilt_tables_def map_filter_def image_iff intro!: bexI [of _ st])
      with st(2) trigger_folded [OF t] show False by blast
    qed
    then show ?thesis using step_statements_total by (simp add: Emit_Step)
  qed simp
  with True show ?thesis by (auto simp: migration_sql_def intro!: concat_res_total)
qed

lemma diff_columns_name: "st \<in> set (diff_columns p t rs) \<Longrightarrow> table_name st = Some (t_name t)"
  by (auto simp: diff_columns_def Let_def rename_column_steps_def dest: survivor_key split: if_splits option.splits prod.splits)

lemma diff_table_name: "st \<in> set (diff_table p t rs) \<Longrightarrow> table_name st = Some (t_name t)"
  using diff_indexes_steps [of st p t] diff_fks_steps [of st p t]
  by (auto simp: diff_table_def dest: diff_columns_name split: if_splits)

lemma diff_trigger:
  assumes "st \<in> set (diff_snapshots prev now)" "rebuild_trigger_table st = Some n"
  shows "find_table now n \<noteq> None"
proof -
  have "table_name st = Some n" using assms(2) by (cases st) simp_all
  then have "st \<notin> set (diff_scopes prev now)" using diff_scopes_no_table [of st] by auto
  with assms obtain t p where "t \<in> set (s_tables now)" "st \<in> set (diff_table p t (s_renames now))"
    by (auto simp: diff_snapshots_def survivor_steps_def Let_def split: option.splits)
  with diff_table_name [of st p t] \<open>table_name st = Some n\<close> have "t \<in> set (s_tables now)" "t_name t = n" by auto
  then show ?thesis by (auto simp: find_table_def find_None_iff)
qed

text \<open>C20: every schema change has SQL on every dialect: lowering the steps of a diff never fails, in
  the order of either script format.\<close>

theorem diff_always_lowers:
  "(\<exists>stmts. migration_sql gen (constraint_safe (diff_snapshots prev now)) d now = Inr stmts) \<and>
   (\<exists>stmts. migration_sql gen (diff_snapshots prev now) d now = Inr stmts)"
  by (intro conjI; rule migration_sql_total, erule diff_trigger [rotated], simp add: constraint_safe_def)

subsection \<open>On SQLite nothing is lost and each table is rebuilt once\<close>

fun emitted_step :: "emit \<Rightarrow> step option" where
  "emitted_step (Emit_Step st) = Some st"
| "emitted_step (Emit_Rebuild _ _) = None"

fun emitted_rebuild :: "emit \<Rightarrow> (str \<times> str list) option" where
  "emitted_rebuild (Emit_Step _) = None"
| "emitted_rebuild (Emit_Rebuild t stmts) = Some (t, stmts)"

definition in_rebuild :: "str list \<Rightarrow> step \<Rightarrow> bool" where
  "in_rebuild ts st \<longleftrightarrow> (case folded_table st of Some t \<Rightarrow> t \<in> set ts | None \<Rightarrow> False)"

lemma plan_emitted_steps:
  "List.map_filter emitted_step (sqlite_plan_from rebuild ts seen sts) = filter (\<lambda>st. \<not> in_rebuild ts st) sts"
  by (induction sts arbitrary: seen) (auto simp: in_rebuild_def List.map_filter_simps split: option.split)

lemma plan_rebuilds:
  "(case List.map_filter emitted_rebuild (sqlite_plan_from rebuild ts seen sts) of rs \<Rightarrow>
     distinct (map fst rs) \<and> list_all (\<lambda>(t, stmts). stmts = rebuild t) rs \<and>
     set (map fst rs) = {t \<in> set ts - seen. \<exists>st \<in> set sts. folded_table st = Some t})"
  by (induction sts arbitrary: seen) (auto simp: List.map_filter_simps split: option.split)

lemma plan_rebuilt: "Emit_Rebuild t stmts \<in> set (sqlite_plan_from rebuild ts seen sts) \<Longrightarrow> t \<in> set ts"
  by (induction sts arbitrary: seen) (auto split: option.splits if_splits)

lemma rebuilt_folded: "t \<in> set (rebuilt_tables steps target) \<Longrightarrow> \<exists>st \<in> set steps. folded_table st = Some t"
  unfolding rebuilt_tables_def map_filter_def using trigger_folded by force

text \<open>On SQLite the plan keeps every step that touches no rebuilt table, in order, and stands in
  for the others by exactly one rebuild of each table, whose statements are that table's rebuild.\<close>

theorem sqlite_plan_folds:
  "List.map_filter emitted_step (sqlite_plan gen steps target)
     = filter (\<lambda>st. \<not> in_rebuild (rebuilt_tables steps target) st) steps \<and>
   distinct (map fst (List.map_filter emitted_rebuild (sqlite_plan gen steps target))) \<and>
   set (map fst (List.map_filter emitted_rebuild (sqlite_plan gen steps target))) = set (rebuilt_tables steps target) \<and>
   list_all (\<lambda>(t, stmts). stmts = sqlite_rebuild_statements gen t target steps)
     (List.map_filter emitted_rebuild (sqlite_plan gen steps target))"
  using plan_rebuilds [of "\<lambda>t. sqlite_rebuild_statements gen t target steps" "rebuilt_tables steps target" "{}" steps]
  by (auto simp: sqlite_plan_def plan_emitted_steps dest: rebuilt_folded)

subsection \<open>A rebuild copies what survives\<close>

lemma rebuild_added: "c \<in> set (rebuild_added_columns n steps) \<longleftrightarrow> (\<exists>sc col. Add_Column n sc col \<in> set steps \<and> c_name col = c)"
proof (induction steps)
  case (Cons st steps)
  then show ?case by (cases st) (auto simp: rebuild_added_columns_def List.map_filter_simps)
qed (simp add: rebuild_added_columns_def List.map_filter_simps)

lemma renames_source:
  "fst (fold (rebuild_rename n) steps m) c = Some f \<Longrightarrow>
   fst m c = Some f \<or> (\<exists>sc. Step_Rename_Column n sc f c \<in> set steps)"
proof (induction steps arbitrary: m)
  case (Cons st steps)
  from Cons.IH [of "rebuild_rename n st m"] Cons.prems show ?case
    by (cases m; cases st) (auto split: if_splits)
qed simp

lemma renames_kept: "fst m c \<noteq> None \<Longrightarrow> fst (fold (rebuild_rename n) steps m) c \<noteq> None"
proof (induction steps arbitrary: m)
  case (Cons st steps)
  have "fst (rebuild_rename n st m) c \<noteq> None"
    using Cons.prems by (cases m; cases st) auto
  with Cons.IH show ?case by simp
qed simp

lemma renames_taken: "Step_Rename_Column n sc f c \<in> set steps \<Longrightarrow> fst (fold (rebuild_rename n) steps m) c \<noteq> None"
proof (induction steps arbitrary: m)
  case (Cons st steps)
  then show ?case
  proof (cases "st = Step_Rename_Column n sc f c")
    case True
    then show ?thesis using renames_kept [of "rebuild_rename n st m" c n steps] by (cases m) simp
  qed auto
qed simp

lemma renames_schema:
  "snd (fold (rebuild_rename n) steps m) = s \<Longrightarrow>
   (s = snd m \<and> (\<forall>a b. Alter_Schema n a b \<notin> set steps)) \<or> (\<exists>b. Alter_Schema n s b \<in> set steps)"
proof (induction steps arbitrary: m)
  case (Cons st steps)
  from Cons.IH [OF Cons.prems [simplified]] show ?case
    by (cases m; cases st) (auto split: if_splits)
qed simp

text \<open>The steps inside a table that both snapshots have are the table's diff.\<close>

definition alters_columns :: "str \<Rightarrow> step \<Rightarrow> bool" where
  "alters_columns n st \<longleftrightarrow> table_name st = Some n \<and>
     (case st of Create_Table _ \<Rightarrow> False | Drop_Table _ _ \<Rightarrow> False | Step_Rename_Table _ _ _ \<Rightarrow> False | _ \<Rightarrow> True)"

lemma alters_columns_simps [simp]:
  "alters_columns n (Add_Column n sc c)" "alters_columns n (Step_Rename_Column n sc f k)" "alters_columns n (Alter_Schema n a b)"
  "\<not> alters_columns n (Create_Table t)" "\<not> alters_columns n (Drop_Table m sc)" "\<not> alters_columns n (Step_Rename_Table m k sc)"
  by (simp_all add: alters_columns_def)

lemma not_renamed_to: "find_table prev n = Some p \<Longrightarrow> n \<notin> set (map snd (table_renames prev now))"
proof
  assume p: "find_table prev n = Some p" and "n \<in> set (map snd (table_renames prev now))"
  then obtain f r where "table_rename_of prev now r = Some (f, n)"
    by (auto simp: table_renames_def map_filter_def)
  with p show False by (cases r) (auto simp: is_valid_table_rename_def split: if_splits)
qed

lemma diff_inside_table:
  assumes wf: "wf_snapshot now" and t: "find_table now n = Some t" and p: "find_table prev n = Some p"
    and st: "alters_columns n st"
  shows "st \<in> set (diff_snapshots prev now) \<longleftrightarrow> st \<in> set (diff_table p t (s_renames now))"
proof -
  have tn: "t \<in> set (s_tables now)" "t_name t = n" using t wf by (simp_all add: find_table_Some_iff)
  have sur: "survivor_steps prev now (map snd (table_renames prev now)) t = diff_table p t (s_renames now)"
    using not_renamed_to [OF p, of now] p tn by (simp add: survivor_steps_def)
  have other: "t' = t" if "st \<in> set (survivor_steps prev now (map snd (table_renames prev now)) t')"
    "t' \<in> set (s_tables now)" for t'
  proof -
    from that(1) obtain q where "st \<in> set (diff_table q t' (s_renames now))"
      by (auto simp: survivor_steps_def Let_def split: option.splits)
    then have "t_name t' = n" using st diff_table_name by (auto simp: alters_columns_def)
    then have "find_table now n = Some t'" using that(2) wf by (simp add: find_table_Some_iff)
    then show ?thesis using t by simp
  qed
  have no_scope: "st \<notin> set (diff_scopes prev now)"
    using diff_scopes_no_table [of st] st by (auto simp: alters_columns_def)
  show ?thesis
  proof
    assume "st \<in> set (diff_snapshots prev now)"
    then have "\<exists>t' \<in> set (s_tables now). st \<in> set (survivor_steps prev now (map snd (table_renames prev now)) t')"
      using st no_scope by (auto simp: diff_snapshots_def Let_def)
    then obtain t' where "t' \<in> set (s_tables now)" "st \<in> set (survivor_steps prev now (map snd (table_renames prev now)) t')"
      by blast
    with other [of t'] sur show "st \<in> set (diff_table p t (s_renames now))" by simp
  next
    assume "st \<in> set (diff_table p t (s_renames now))"
    then show "st \<in> set (diff_snapshots prev now)"
      using tn(1) by (auto simp: diff_snapshots_def Let_def sur [symmetric])
  qed
qed

lemma diff_columns_adds:
  assumes "c \<in> set (t_columns t)" "find_column p (c_name c) = None"
  shows "Add_Column (t_name t) (t_schema t) c \<in> set (diff_columns p t rs) \<or>
    (\<exists>f. Step_Rename_Column (t_name t) (t_schema t) f (c_name c) \<in> set (diff_columns p t rs))"
proof (cases "c_name c \<in> set (map snd (column_renames p t rs))")
  case True
  then obtain f where "(f, c_name c) \<in> set (column_renames p t rs)" by auto
  then have "Step_Rename_Column (t_name t) (t_schema t) f (c_name c) \<in> set (diff_columns p t rs)"
    by (force simp: diff_columns_def Let_def rename_column_steps_def)
  then show ?thesis by blast
qed (use assms in \<open>simp add: diff_columns_def Let_def\<close>)

lemma diff_table_columns:
  assumes "st \<in> set (diff_table p t rs)" "ix_key st = None" "fkey st = None" "\<And>a b. st \<noteq> Alter_Schema (t_name t) a b"
  shows "st \<in> set (diff_columns p t rs)"
  using assms diff_indexes_steps [of st p t] diff_fks_steps [of st p t] by (auto simp: diff_table_def split: if_splits)

lemma diff_columns_renamed:
  assumes "Step_Rename_Column n sc f k \<in> set (diff_table p t rs)"
  shows "find_column p f \<noteq> None \<and> find_column p k = None \<and> Rename_Column (t_name t) f k \<in> set rs"
proof -
  have "Step_Rename_Column n sc f k \<in> set (diff_columns p t rs)"
    using assms by (rule diff_table_columns) (simp_all add: ix_key_def fkey_def)
  then have "(f, k) \<in> set (column_renames p t rs)"
    by (auto simp: diff_columns_def Let_def rename_column_steps_def dest: survivor_key split: option.splits if_splits)
  then obtain r where "r \<in> set rs" "column_rename_of p t r = Some (f, k)"
    by (auto simp: column_renames_def map_filter_def)
  then show ?thesis by - (cases r; auto split: if_splits)
qed

lemma diff_columns_added:
  assumes wf: "wf_table t" and add: "Add_Column n sc c \<in> set (diff_table p t rs)"
    and b: "find_column t (c_name c) = Some b"
  shows "find_column p (c_name c) = None \<or> map_option c_generated (find_column p (c_name c)) \<noteq> Some (c_generated b)"
proof -
  have "Add_Column n sc c \<in> set (diff_columns p t rs)"
    using add by (rule diff_table_columns) (simp_all add: ix_key_def fkey_def)
  then have c: "c \<in> set (t_columns t)"
    and gen: "\<And>old. find_column p (c_name c) = Some old \<Longrightarrow> c_generated old \<noteq> c_generated c"
    by (auto simp: diff_columns_def Let_def rename_column_steps_def survivor_column_steps_def alter_step_def
        split: option.splits if_splits)
  from c b wf have "b = c" by (metis find_column_Some_iff option.inject)
  with gen show ?thesis by (cases "find_column p (c_name c)") auto
qed

lemma physical_column: "find_column p k \<noteq> None \<Longrightarrow> k \<in> set (physical_columns p)"
  by (auto simp: physical_columns_def find_column_def dest: find_SomeD)

lemma diff_table_schema:
  "Alter_Schema n a b \<in> set (diff_table p t rs) \<longleftrightarrow>
     t_schema p \<noteq> t_schema t \<and> n = t_name t \<and> a = t_schema p \<and> b = t_schema t"
  using diff_indexes_steps [of "Alter_Schema n a b" p t] diff_fks_steps [of "Alter_Schema n a b" p t]
  by (auto simp: diff_table_def diff_columns_def Let_def rename_column_steps_def ix_key_def fkey_def col_key_def
      dest: survivor_key split: option.splits if_splits)

lemma renamed_from:
  assumes "rebuild_renames n t steps = (old, source_schema)" "old c = Some f"
  shows "\<exists>sc. Step_Rename_Column n sc f c \<in> set steps"
  using renames_source [of n steps "(Map.empty, t_schema t)" c f] assms by (simp add: rebuild_renames_def)

text \<open>A column with neither an \<open>AddColumn\<close> nor a rename was there before.\<close>

lemma unrenamed_source:
  assumes c: "c \<in> set (physical_columns t)" "c \<notin> set (rebuild_added_columns n steps)"
    and old: "fst (fold (rebuild_rename n) steps (Map.empty, t_schema t)) c = None"
    and inside: "\<And>st. alters_columns n st \<Longrightarrow> st \<in> set steps \<longleftrightarrow> st \<in> set (diff_table p t rs)"
    and tn: "t_name t = n" and id: "implicit_id t \<Longrightarrow> ''id'' \<in> set (physical_columns p)"
  shows "c \<in> set (physical_columns p)"
proof (cases "implicit_id t \<and> c = ''id''")
  case False
  then obtain col where col: "col \<in> set (t_columns t)" "c_name col = c"
    using c(1) by (auto simp: physical_columns_def split: if_splits)
  have "find_column p c \<noteq> None"
  proof
    assume "find_column p c = None"
    with diff_columns_adds [OF col(1), of p rs] col(2)
    have "Add_Column n (t_schema t) col \<in> set steps \<or> (\<exists>f. Step_Rename_Column n (t_schema t) f c \<in> set steps)"
      by (auto simp: inside tn diff_table_def)
    with c(2) col(2) renames_taken [of n _ _ c steps "(Map.empty, t_schema t)"] old
    show False by (auto simp: rebuild_added)
  qed
  then show ?thesis by (rule physical_column)
qed (use id in simp)


text \<open>Renaming a column and changing its type.\<close>

definition card_retyped :: snapshot where
  "card_retyped = one_table ((plain_table ''card'' [''id'', ''title''])
     \<lparr>t_columns := [plain_column ''id'', (plain_column ''title'')\<lparr>c_ty := ''text''\<rparr>]\<rparr>) [Rename_Column ''card'' ''name'' ''title'']"

definition card_retype_steps :: "step list" where
  "card_retype_steps = diff_snapshots card_before card_retyped"

definition card_title :: table_snap where
  "card_title = hd (s_tables card_retyped)"

lemma card_retype_list:
  "card_retype_steps = [Step_Rename_Column ''card'' None ''name'' ''title'',
     Alter_Column ''card'' None ''title'' [Type_Change ''int'' ''text''] ((plain_column ''title'')\<lparr>c_ty := ''text''\<rparr>)]"
  by code_simp

lemma card_retype_rebuild:
  "rebuild_renames ''card'' card_title card_retype_steps = ([''title'' \<mapsto> ''name''], None)"
  "rebuild_added_columns ''card'' card_retype_steps = []"
proof -
  have "t_schema card_title = None" by code_simp
  then show "rebuild_renames ''card'' card_title card_retype_steps = ([''title'' \<mapsto> ''name''], None)"
    by (simp add: card_retype_list rebuild_renames_def)
  show "rebuild_added_columns ''card'' card_retype_steps = []"
    by (simp add: card_retype_list rebuild_added_columns_def List.map_filter_simps)
qed


end
