(* ===== verification/Lowering_Review.thy ===== *)
theory Lowering_Review
  imports Lowering_Props
begin

text \<open>
  What a reviewer reads is what runs: the rendered migration is its header and, step by step,
  one-line comments and the statements that run, each ended by a semicolon.
\<close>

definition comment_lines :: "str list \<Rightarrow> str" where
  "comment_lines notes = concat (map (\<lambda>l. ''-- '' @ l @ nl) notes)"

definition one_line :: "str \<Rightarrow> bool" where
  "one_line s \<longleftrightarrow> CHR 0x0A \<notin> set s"

lemma one_line_simps [simp]:
  "one_line []" "one_line (c # s) \<longleftrightarrow> c \<noteq> CHR 0x0A \<and> one_line s" "one_line (a @ b) \<longleftrightarrow> one_line a \<and> one_line b"
  by (auto simp: one_line_def)

lemma comment_lines_simps: "comment_lines [] = []" "comment_lines (l # ls) = ''-- '' @ l @ nl @ comment_lines ls"
  by (simp_all add: comment_lines_def)

text \<open>A block of the text: the comments before the statements of one step or one rebuild.\<close>

definition review_block :: "str list \<times> str list \<Rightarrow> str" where
  "review_block b = nl @ comment_lines (fst b) @ terminated (snd b)"

definition block_ok :: "str list \<times> str list \<Rightarrow> bool" where
  "block_ok b \<longleftrightarrow> list_all one_line (fst b)"

lemma block_simps: "review_block (ns, ss) = nl @ comment_lines ns @ terminated ss" "block_ok (ns, ss) = list_all one_line ns"
  by (simp_all add: review_block_def block_ok_def)

fun step_one_line :: "step \<Rightarrow> bool" where
  "step_one_line (Scope_Change sc) \<longleftrightarrow> one_line (scope_change_line sc)"
| "step_one_line _ \<longleftrightarrow> True"

lemma one_line_dialect [simp]: "one_line (dialect_name d)"
  by (cases d) simp_all

lemma render_statements_block:
  assumes "step_statements gen d st = Inr ss"
  shows "\<exists>notes. render_statements gen d st = comment_lines notes @ terminated ss \<and> list_all one_line notes"
proof (cases "destructive st")
  case True
  show ?thesis
    by (rule exI [of _ "[''DESTRUCTIVE: needs --allow-destructive or an unsafe('' @ [dq] @ ''reason'' @ [dq] @ '') ack to apply.'']"])
      (simp add: render_statements_def assms destructive_note_def comment_lines_simps True)
next
  case False
  then show ?thesis
    by (intro exI [of _ "[]"]) (simp add: render_statements_def assms comment_lines_simps)
qed

lemma render_step_block:
  assumes "step_statements gen d st = Inr ss" "step_one_line st"
  shows "\<exists>notes. render_step_into gen d st = comment_lines notes @ terminated ss \<and> list_all one_line notes"
proof (cases st)
  case (Scope_Change sc)
  with assms show ?thesis
    by (intro exI [of _ "[''scope contract change (no DDL): '' @ scope_change_line sc]"])
      (simp add: comment_lines_simps terminated_def)
next
  case (Raw_Step e sql)
  show ?thesis
  proof (cases "e = d")
    case True
    with assms Raw_Step show ?thesis
      by (intro exI [of _ "[''raw('' @ dialect_name e @ '') escape '' @ em_dash @ '' not offline-verifiable'']"])
        (auto simp: comment_lines_simps terminated_def em_dash_def)
  next
    case False
    with assms Raw_Step show ?thesis
      by (intro exI [of _ "[''raw('' @ dialect_name e @ '') step '' @ em_dash @ '' skipped for target '' @ dialect_name d]"])
        (auto simp: comment_lines_simps terminated_def em_dash_def)
  qed
qed (use render_statements_block [OF assms(1)] in simp_all)

lemma render_rebuild_block:
  assumes "one_line table"
  shows "\<exists>notes. rebuild_note table @ terminated ss = comment_lines notes @ terminated ss \<and> list_all one_line notes"
  using assms
  by (intro exI [of _ "[''SQLite table rebuild for '' @ tick table @ '': no in-place ALTER COLUMN / foreign-key'',
      ''change exists, so the table is recreated at its target shape and rows copied.'',
      ''Runs inside the migration transaction (apply wraps it); children re-bind by name.'']"])
    (simp add: rebuild_note_def comment_lines_simps tick_def)

text \<open>Pieces that are each a block of what they run make a text that is the blocks of it all.\<close>

lemma blocks_of_pieces:
  assumes "concat_res (map f xs) = Inr stmts"
    and "\<And>x ss. x \<in> set xs \<Longrightarrow> f x = Inr ss \<Longrightarrow> \<exists>notes. r x = comment_lines notes @ terminated ss \<and> list_all one_line notes"
  shows "\<exists>blocks. concat (map (\<lambda>x. nl @ r x) xs) = concat (map review_block blocks) \<and>
    stmts = concat (map snd blocks) \<and> list_all block_ok blocks"
  using assms
proof (induction xs arbitrary: stmts)
  case Nil
  then show ?case by (intro exI [of _ "[]"]) (simp add: concat_res_Inr)
next
  case (Cons x xs)
  from Cons.prems(1) obtain ss rest where x: "f x = Inr ss" "concat_res (map f xs) = Inr rest" "stmts = ss @ rest"
    by (auto simp: concat_res_Inr Cons_eq_map_conv)
  from Cons.IH [OF x(2)] Cons.prems(2) obtain blocks where
    b: "concat (map (\<lambda>x. nl @ r x) xs) = concat (map review_block blocks)" "rest = concat (map snd blocks)" "list_all block_ok blocks"
    by auto
  from Cons.prems(2) [of x ss] x(1) obtain ns where
    "r x = comment_lines ns @ terminated ss" "list_all one_line ns" by auto
  with b x(3) show ?case
    by (intro exI [of _ "(ns, ss) # blocks"]) (simp add: block_simps)
qed

text \<open>C21: what is reviewed is what runs: when a migration has SQL, its rendered text is the header
  followed by blocks of one-line comments and statements, and the statements of the blocks, in order,
  are exactly those that run. Scope texts and the names of rebuilt tables must be on one line.\<close>

theorem reviewed_text_is_what_runs:
  assumes "migration_sql gen steps d target = Inr stmts"
    and "list_all step_one_line steps" "list_all one_line (rebuilt_tables steps target)"
  shows "\<exists>blocks. render_migration gen steps d target = render_header d @ concat (map review_block blocks) \<and>
    stmts = concat (map snd blocks) \<and> list_all block_ok blocks"
proof (cases "d = Sqlite")
  case False
  then have "concat_res (map (step_statements gen d) steps) = Inr stmts"
    using assms(1) by (simp add: migration_sql_def sql_statements_def)
  from blocks_of_pieces [OF this, of "render_step_into gen d"] False assms(2) render_step_block [of gen d]
  show ?thesis by (auto simp: render_migration_def render_sql_def list_all_iff)
next
  case True
  then have sql: "concat_res (map (emit_statements gen d) (sqlite_plan gen steps target)) = Inr stmts"
    using assms(1) by (simp add: migration_sql_def)
  have piece: "\<exists>notes. render_emit gen d e = comment_lines notes @ terminated ss \<and> list_all one_line notes"
    if e: "e \<in> set (sqlite_plan gen steps target)" "emit_statements gen d e = Inr ss" for e ss
  proof (cases e)
    case (Emit_Step st)
    with e have "st \<in> set steps" by (auto simp: sqlite_plan_def dest: plan_steps)
    with assms(2) e(2) Emit_Step render_step_block [of gen d st ss] show ?thesis by (simp add: list_all_iff)
  next
    case (Emit_Rebuild table rs)
    with e(1) have "one_line table" using plan_rebuilt assms(3) by (auto simp: sqlite_plan_def list_all_iff)
    with e(2) Emit_Rebuild render_rebuild_block [of table ss] show ?thesis by simp
  qed
  from blocks_of_pieces [OF sql piece] True show ?thesis by (auto simp: render_migration_def)
qed

theorem reviewed_text_is_what_runs_witness:
  "\<exists>blocks. render_migration (\<lambda>d s. None) card_retype_steps Sqlite card_retyped
      = render_header Sqlite @ concat (map review_block blocks) \<and>
    rebuild_statements (\<lambda>d s. None) ''card'' card_title card_retype_steps = concat (map snd blocks) \<and> list_all block_ok blocks"
proof (rule reviewed_text_is_what_runs)
  show "migration_sql (\<lambda>d s. None) card_retype_steps Sqlite card_retyped
    = Inr (rebuild_statements (\<lambda>d s. None) ''card'' card_title card_retype_steps)"
    by code_simp
  show "list_all step_one_line card_retype_steps" "list_all one_line (rebuilt_tables card_retype_steps card_retyped)"
    by code_simp+
qed

end
