(* ===== verification/Script_Plan.thy ===== *)
theory Script_Plan
  imports Script Data_Unit Lowering_Review
begin

text \<open>
  A migration script as executable units (codegen \<open>migrate/script/plan.rs\<close>, \<open>down.rs\<close>,
  \<open>split.rs\<close>, \<open>data_item.rs\<close>): structural SQL, \<open>raw\<close> escapes and checked data steps, in
  execution order. The parser of a data step is the parameter \<open>parse\<close>: the step, or the
  diagnostics, each with the offset it points at when it has one. \<open>gen\<close> is the expression of a
  generated column, as in \<open>Ddl\<close>.
\<close>

type_synonym parser = "str \<Rightarrow> (nat option \<times> str) list + data_step"

definition problem :: "str \<Rightarrow> nat \<Rightarrow> str \<Rightarrow> script_problem" where
  "problem file line m = \<lparr>sp_file = file, sp_line = line, sp_message = m\<rparr>"

subsection \<open>Data items (data_item.rs)\<close>

definition line_at :: "nat \<Rightarrow> str \<Rightarrow> nat \<Rightarrow> nat" where
  "line_at line s offset = line + length (filter (\<lambda>c. c = CHR 0x0A) (take offset s))"

definition error_at :: "str \<Rightarrow> nat \<Rightarrow> str \<Rightarrow> data_error \<Rightarrow> script_problem" where
  "error_at file line s e = problem file (line_at line s (span_start (dx_span e))) (dx_message e)"

definition data_unit :: "parser \<Rightarrow> str \<Rightarrow> nat \<Rightarrow> str \<Rightarrow> snapshot \<Rightarrow> dialect \<Rightarrow> script_problem list + data_step \<times> plan_unit" where
  "data_unit parse file line s snap d = (case parse s of
       Inl diags \<Rightarrow> Inl (map (\<lambda>(off, m). problem file (line_at line s (case off of Some n \<Rightarrow> n | None \<Rightarrow> 0)) m) diags)
     | Inr ds \<Rightarrow>
         (if check_step ds snap \<noteq> [] then Inl (map (error_at file line s) (check_step ds snap))
          else case lower_step ds snap d of
              Inl e \<Rightarrow> Inl [error_at file line s e]
            | Inr u \<Rightarrow> Inr (ds, u)))"

fun id_kind_name :: "id_kind \<Rightarrow> str" where
  "id_kind_name Id_Uuid = ''uuid''"
| "id_kind_name Id_Ulid = ''ulid''"

fun unit_text :: "plan_unit \<Rightarrow> str" where
  "unit_text (Unit_Sql sql) = sql @ '';''"
| "unit_text (Unit_Minted sql ids) =
     ''-- binds ids minted at apply: '' @ join '', '' (map id_kind_name ids) @ nl @ sql @ '';''"
| "unit_text (Unit_Chunked p) = chunk_review p"

definition data_review :: "str \<Rightarrow> nat \<Rightarrow> plan_unit \<Rightarrow> str" where
  "data_review file line u = nl @ ''-- data step ('' @ file @ '' line '' @ dec line @ '')'' @ nl @ unit_text u @ nl"

subsection \<open>The walk (plan.rs)\<close>

record up_plan =
  up_units :: "plan_unit list"
  up_review :: str
  up_auto_down :: "plan_unit list option"
  up_has_data :: bool

record walk =
  wk_snap :: snapshot
  wk_pending :: "step list"
  wk_units :: "plan_unit list"
  wk_review :: str
  wk_problems :: "script_problem list"
  wk_downs :: "str list option"
  wk_has_data :: bool

definition body_of :: "str \<Rightarrow> str" where
  "body_of rendered = (case split_once nl rendered of Some (_, rest) \<Rightarrow> rest | None \<Rightarrow> [])"

text \<open>Emit the pending structural steps, SQLite rebuilds targeting the current state.\<close>

definition flush :: "(dialect \<Rightarrow> str \<Rightarrow> str option) \<Rightarrow> str \<Rightarrow> dialect \<Rightarrow> walk \<Rightarrow> walk" where
  "flush gen file d w =
     (if wk_pending w = [] then w
      else
        (case migration_sql gen (wk_pending w) d (wk_snap w) of
            Inr stmts \<Rightarrow> w\<lparr>wk_units := wk_units w @ map Unit_Sql stmts\<rparr>
          | Inl m \<Rightarrow> w\<lparr>wk_problems := wk_problems w @ [problem file 0 m]\<rparr>)
        \<lparr>wk_pending := [], wk_review := wk_review w @ body_of (render_migration gen (wk_pending w) d (wk_snap w))\<rparr>)"

definition walk_raw :: "(dialect \<Rightarrow> str \<Rightarrow> str option) \<Rightarrow> dialect \<Rightarrow> step \<Rightarrow> walk \<Rightarrow> walk" where
  "walk_raw gen d st w = w\<lparr>
     wk_units := wk_units w @ (case sql_statements gen [st] d of Inr stmts \<Rightarrow> map Unit_Sql stmts | Inl _ \<Rightarrow> []),
     wk_review := wk_review w @ body_of (render_sql gen [st] d)\<rparr>"

definition push_down :: "str list option \<Rightarrow> str option \<Rightarrow> str list option" where
  "push_down downs undo = (case (downs, undo) of (Some ds, Some sql) \<Rightarrow> Some (ds @ [sql]) | _ \<Rightarrow> None)"

definition walk_data :: "parser \<Rightarrow> str \<Rightarrow> dialect \<Rightarrow> nat \<Rightarrow> str \<Rightarrow> walk \<Rightarrow> walk" where
  "walk_data parse file d line s w = (case data_unit parse file line s (wk_snap w) d of
       Inr (ds, u) \<Rightarrow> w\<lparr>wk_has_data := True, wk_review := wk_review w @ data_review file line u,
         wk_units := wk_units w @ [u], wk_downs := push_down (wk_downs w) (invert ds (wk_snap w) d)\<rparr>
     | Inl problems \<Rightarrow> w\<lparr>wk_has_data := True, wk_downs := None, wk_problems := wk_problems w @ problems\<rparr>)"

definition is_scope_change :: "step \<Rightarrow> bool" where
  "is_scope_change st = (case st of Scope_Change _ \<Rightarrow> True | _ \<Rightarrow> False)"

fun walk_entry :: "(dialect \<Rightarrow> str \<Rightarrow> str option) \<Rightarrow> parser \<Rightarrow> str \<Rightarrow> dialect \<Rightarrow> placed \<Rightarrow> walk \<Rightarrow> walk" where
  "walk_entry gen parse file d (Placed_Step st) w =
     w\<lparr>wk_downs := (if is_scope_change st then wk_downs w else None), wk_snap := evolve st (wk_snap w),
       wk_pending := wk_pending w @ [st]\<rparr>"
| "walk_entry gen parse file d (Placed_Raw st) w = walk_raw gen d st (flush gen file d (w\<lparr>wk_downs := None\<rparr>))"
| "walk_entry gen parse file d (Placed_Data line s) w = walk_data parse file d line s (flush gen file d w)"

definition start_walk :: "snapshot \<Rightarrow> dialect \<Rightarrow> walk" where
  "start_walk from d = \<lparr>wk_snap = from, wk_pending = [], wk_units = [], wk_review = render_header d, wk_problems = [],
     wk_downs = Some [], wk_has_data = False\<rparr>"

text \<open>The last segment targets the recorded snapshot itself.\<close>

definition walk_end :: "(dialect \<Rightarrow> str \<Rightarrow> str option) \<Rightarrow> str \<Rightarrow> dialect \<Rightarrow> snapshot \<Rightarrow> walk \<Rightarrow> script_problem list + up_plan" where
  "walk_end gen file d to w =
     (let e = flush gen file d (w\<lparr>wk_snap := to\<rparr>) in
      if wk_problems e \<noteq> [] then Inl (wk_problems e)
      else Inr \<lparr>up_units = wk_units e, up_review = wk_review e,
        up_auto_down = (if wk_has_data e then map_option (\<lambda>ds. map Unit_Sql (rev ds)) (wk_downs e) else None),
        up_has_data = wk_has_data e\<rparr>)"

definition plan_in_order :: "(dialect \<Rightarrow> str \<Rightarrow> str option) \<Rightarrow> parser \<Rightarrow> str \<Rightarrow> snapshot \<Rightarrow> snapshot \<Rightarrow> step list \<Rightarrow>
    scanned \<Rightarrow> dialect \<Rightarrow> script_problem list + up_plan" where
  "plan_in_order gen parse file from to steps sc d = (case place file steps sc of
       Inl p \<Rightarrow> Inl [p]
     | Inr ps \<Rightarrow> walk_end gen file d to (fold (walk_entry gen parse file d) ps (start_walk from d)))"

text \<open>The legacy order: every structural step, then every \<open>raw\<close> line.\<close>

definition legacy_plan :: "(dialect \<Rightarrow> str \<Rightarrow> str option) \<Rightarrow> step list \<Rightarrow> str \<Rightarrow> dialect \<Rightarrow> snapshot \<Rightarrow>
    script_problem list + up_plan" where
  "legacy_plan gen steps up_text d target =
     (let raws = parse_raw_steps up_text; whole = (\<lambda>m. [problem ''up.mig'' 0 m]) in
      case migration_sql gen steps d target of
        Inl m \<Rightarrow> Inl (whole m)
      | Inr a \<Rightarrow> (case sql_statements gen raws d of
          Inl m \<Rightarrow> Inl (whole m)
        | Inr b \<Rightarrow> Inr \<lparr>up_units = map Unit_Sql (a @ b), up_review = render_migration gen (steps @ raws) d target,
            up_auto_down = None, up_has_data = False\<rparr>))"

definition plan_up :: "(dialect \<Rightarrow> str \<Rightarrow> str option) \<Rightarrow> parser \<Rightarrow> snapshot \<Rightarrow> snapshot \<Rightarrow> str \<Rightarrow> dialect \<Rightarrow>
    script_problem list + up_plan" where
  "plan_up gen parse prev target up_text d =
     (let steps = diff_snapshots prev target; sc = scan up_text in
      if sc_in_order sc then plan_in_order gen parse ''up.mig'' prev target (constraint_safe steps) sc d
      else case find is_data_item (sc_items sc) of
          Some i \<Rightarrow> Inl [problem ''up.mig'' (it_line i)
            (''data steps run in written order '' @ em_dash @ '' add `'' @ format_marker @
             ''` as the first line (raw lines then run where they are written too)'')]
        | None \<Rightarrow> legacy_plan gen steps up_text d target)"

subsection \<open>Reverse scripts (split.rs, down.rs)\<close>

definition sql_comment_line :: "str \<Rightarrow> bool" where
  "sql_comment_line l \<longleftrightarrow> starts_with ''--'' (trim_start l) \<or> starts_with ''#'' (trim_start l)"

definition split_sql :: "str \<Rightarrow> str list" where
  "split_sql script = filter (\<lambda>s. s \<noteq> [])
     (map (\<lambda>frag. trim (join nl (filter (\<lambda>l. \<not> sql_comment_line l) (lines frag)))) (split_on (CHR '';'') script))"

record down_plan =
  dn_units :: "plan_unit list"
  dn_review :: str

definition when_units :: "plan_unit list \<Rightarrow> str \<Rightarrow> down_plan option" where
  "when_units units rev_text = (if units = [] then None else Some \<lparr>dn_units = units, dn_review = rev_text\<rparr>)"

definition plan_down :: "(dialect \<Rightarrow> str \<Rightarrow> str option) \<Rightarrow> parser \<Rightarrow> snapshot \<Rightarrow> snapshot \<Rightarrow> str \<Rightarrow> dialect \<Rightarrow>
    script_problem list + down_plan option" where
  "plan_down gen parse prev now down_text d =
     (let sc = scan down_text in
      if \<not> sc_in_order sc then Inr (when_units (map Unit_Sql (split_sql down_text)) (render_header d @ down_text))
      else if \<not> down_mig_matches prev now down_text
        then Inl [problem ''down.mig'' 0
          (''its structural lines diverge from the reverse of up.mig (derived from schema.snap) '' @ em_dash @
           '' restore them from `based migrate gen`, or use a raw(<dialect>) line'')]
      else and_then (plan_in_order gen parse ''down.mig'' now (rollback_target prev now) (down_steps prev now) sc d)
        (\<lambda>p. Inr (when_units (up_units p) (up_review p))))"

end
