(* ===== verification/Data_Props.thy ===== *)
theory Data_Props
  imports Data_Unit Diff_Props
begin

text \<open>
  What the check of a data step buys: a step that passes lowers on every dialect, its rows set
  every column that must be set, an upsert's later assignment wins, and the automatic reverse of a
  \<open>create\<close> names every created row by a unique key.
\<close>

subsection \<open>Checked means lowerable\<close>

definition lowers :: "'a lowered \<Rightarrow> bool" where
  "lowers f \<longleftrightarrow> (\<forall>n. \<exists>x n'. f n = Inr (x, n'))"

lemma lowersE: "lowers f \<Longrightarrow> (\<And>x n'. f n = Inr (x, n') \<Longrightarrow> P) \<Longrightarrow> P"
  unfolding lowers_def by blast

lemma lowers_then:
  "lowers f \<Longrightarrow> (\<And>x. lowers (g x)) \<Longrightarrow> lowers (\<lambda>n. and_then (f n) (\<lambda>(x, n1). g x n1))"
  unfolding lowers_def by (metis (mono_tags, lifting) and_then.simps(2) case_prod_conv)

lemma lowers_ret: "lowers (\<lambda>n. Inr (x, g n))"
  by (simp add: lowers_def)

lemma lowers_map: "lowers f \<Longrightarrow> lowers (\<lambda>n. and_then (f n) (\<lambda>(x, n1). Inr (g x, n1)))"
  by (rule lowers_then) (simp_all add: lowers_def)

lemma lowers_all: "(\<And>x. x \<in> set xs \<Longrightarrow> lowers (f x)) \<Longrightarrow> lowers (lower_all f xs)"
proof (induction xs)
  case (Cons x xs)
  then have f: "lowers (f x)" and fs: "lowers (lower_all f xs)" by simp_all
  show ?case unfolding lowers_def
  proof
    fix n
    obtain y n1 where "f x n = Inr (y, n1)" using f unfolding lowers_def by blast
    moreover obtain ys n2 where "lower_all f xs n1 = Inr (ys, n2)" using fs unfolding lowers_def by blast
    ultimately show "\<exists>ys n'. lower_all f (x # xs) n = Inr (ys, n')" by simp
  qed
qed (simp add: lowers_def)

lemma nested_snap [simp]: "lw_snap (nested_lw w alias) = lw_snap w"
  by (simp add: nested_lw_def)

lemma checked_pred_lowers:
  "check_pred snap p t scope = [] \<Longrightarrow> lw_snap w = snap \<Longrightarrow> \<exists>s n'. lower_pred w p t n = Inr (s, n')"
proof (induction snap p t scope arbitrary: w n rule: check_pred.induct)
  case (1 snap a b t scope)
  then obtain x n1 where "lower_pred w a t n = Inr (x, n1)" by fastforce
  moreover obtain y n2 where "lower_pred w b t n1 = Inr (y, n2)" using 1 by fastforce
  ultimately show ?case by simp
next
  case (2 snap a b t scope)
  then obtain x n1 where "lower_pred w a t n = Inr (x, n1)" by fastforce
  moreover obtain y n2 where "lower_pred w b t n1 = Inr (y, n2)" using 2 by fastforce
  ultimately show ?case by simp
next
  case (3 snap a t scope)
  then obtain x n1 where "lower_pred w a t n = Inr (x, n1)" by fastforce
  then show ?case by simp
next
  case (7 snap p b q t scope)
  then obtain child where p: "p = [child]" by (auto split: list.splits)
  from 7(2) p obtain view link where l: "child_link snap t (id_node child) (map_option id_node b) = Inr (view, link)"
    by (auto split: sum.splits prod.splits)
  show ?case
  proof (cases q)
    case None
    then show ?thesis using l p 7(3)
      by (cases "close_exists w link (parent_alias w t) (alias_name (Suc n) view) view None (Suc n)") (simp add: Let_def)
  next
    case (Some r)
    have "check_pred snap r view scope_row = []" using 7(2) p l Some by simp
    from 7(1) [OF p refl l refl Some this, of "nested_lw w (alias_name (Suc n) view)" "Suc n"] 7(3)
    obtain f n2 where "lower_pred (nested_lw w (alias_name (Suc n) view)) r view (Suc n) = Inr (f, n2)"
      by auto
    then show ?thesis using l p 7(3) Some
      by (cases "close_exists w link (parent_alias w t) (alias_name (Suc n) view) view (Some f) n2") (simp add: Let_def)
  qed
qed simp_all

lemma checked_lowers: "check_pred snap p t scope = [] \<Longrightarrow> lw_snap w = snap \<Longrightarrow> lowers (lower_pred w p t)"
  unfolding lowers_def using checked_pred_lowers by blast

lemma lowers_cons:
  "lowers f \<Longrightarrow> lowers g \<Longrightarrow> lowers (\<lambda>n. and_then (f n) (\<lambda>(x, n1). and_then (g n1) (\<lambda>(y, n2). Inr (h x y, n2))))"
  by (rule lowers_then) (auto intro: lowers_map)

lemma lower_expr_fun:
  "lower_expr w (Expr_Value v) t target = (\<lambda>n. Inr (lower_value w v t target, n))"
  "lower_expr w (Expr_Arith lhs op rhs s) t target = (\<lambda>n. and_then (lower_expr w lhs t (numeric_target target) n) (\<lambda>(a, n1).
     and_then (lower_expr w rhs t (numeric_target target) n1) (\<lambda>(b, n2). Inr (''('' @ a @ '' '' @ arith_op_sql op @ '' '' @ b @ '')'', n2))))"
  "lower_expr w (Expr_Concat lhs rhs s) t target = (\<lambda>n. and_then (concat_parts w lhs t n) (\<lambda>(a, n1).
     and_then (concat_parts w rhs t n1) (\<lambda>(b, n2). Inr (concat_sql (lw_dialect w) (a @ b), n2))))"
  "lower_expr w (Expr_Case arms els s) t target = (\<lambda>n. and_then (lower_arms w arms t target n) (\<lambda>(ws, n1).
     and_then (lower_expr w els t target n1) (\<lambda>(e, n2). Inr (''CASE'' @ ws @ '' ELSE '' @ e @ '' END'', n2))))"
  by (rule ext, simp)+

lemma concat_parts_fun:
  "concat_parts w (Expr_Concat lhs rhs s) t = (\<lambda>n. and_then (concat_parts w lhs t n) (\<lambda>(a, n1).
     and_then (concat_parts w rhs t n1) (\<lambda>(b, n2). Inr (a @ b, n2))))"
  "\<nexists>l r s. e = Expr_Concat l r s \<Longrightarrow> concat_parts w e t = (\<lambda>n. and_then (lower_expr w e t None n) (\<lambda>(x, n1). Inr ([x], n1)))"
  by (rule ext, cases e; simp)+

lemma lower_arms_fun:
  "lower_arms w (Case_Arm p e # arms) t target = (\<lambda>n. and_then (lower_pred w p t n) (\<lambda>(c, n1).
     and_then (lower_expr w e t target n1) (\<lambda>(x, n2). and_then (lower_arms w arms t target n2) (\<lambda>(rest, n3).
     Inr ('' WHEN '' @ c @ '' THEN '' @ x @ rest, n3)))))"
  by (rule ext) simp

definition expr_ok :: "lw \<Rightarrow> table_view \<Rightarrow> shape_expr \<Rightarrow> bool" where
  "expr_ok w t e \<longleftrightarrow> (\<forall>target. lowers (lower_expr w e t target)) \<and> lowers (concat_parts w e t)"

lemma expr_okI: "\<nexists>l r s. e = Expr_Concat l r s \<Longrightarrow> (\<And>target. lowers (lower_expr w e t target)) \<Longrightarrow> expr_ok w t e"
  unfolding expr_ok_def concat_parts_fun(2) by (simp add: lowers_map)

lemma checked_expr_lowers_aux:
  "snd (check_expr snap e t scope) = [] \<longrightarrow> lw_snap w = snap \<longrightarrow> expr_ok w t e"
  "check_arms snap arms t scope = [] \<longrightarrow> lw_snap w = snap \<longrightarrow> (\<forall>target. lowers (lower_arms w arms t target))"
proof (induction snap e t scope and snap arms t scope rule: check_expr_check_arms.induct)
  case (1 snap v t scope)
  show ?case by (intro impI expr_okI) (simp_all add: lower_expr_fun(1) lowers_ret)
next
  case (2 snap lhs op rhs s t scope)
  show ?case
  proof (intro impI)
    assume c: "snd (check_expr snap (Expr_Arith lhs op rhs s) t scope) = []" and w: "lw_snap w = snap"
    have "expr_ok w t lhs" "expr_ok w t rhs"
      using 2 c w by (auto split: prod.splits if_splits)
    then show "expr_ok w t (Expr_Arith lhs op rhs s)"
      by (intro expr_okI) (auto simp: lower_expr_fun(2) expr_ok_def intro!: lowers_cons)
  qed
next
  case (3 snap lhs rhs s t scope)
  show ?case
  proof (intro impI)
    assume c: "snd (check_expr snap (Expr_Concat lhs rhs s) t scope) = []" and w: "lw_snap w = snap"
    have "expr_ok w t lhs" "expr_ok w t rhs" using 3 c w by auto
    then show "expr_ok w t (Expr_Concat lhs rhs s)"
      unfolding expr_ok_def lower_expr_fun(3) concat_parts_fun(1) by (auto intro!: lowers_cons)
  qed
next
  case (4 snap arms els s t scope)
  show ?case
  proof (intro impI)
    assume c: "snd (check_expr snap (Expr_Case arms els s) t scope) = []" and w: "lw_snap w = snap"
    have "expr_ok w t els" "\<forall>target. lowers (lower_arms w arms t target)"
      using 4 c w by (auto split: prod.splits)
    then show "expr_ok w t (Expr_Case arms els s)"
      by (intro expr_okI) (auto simp: lower_expr_fun(4) expr_ok_def intro!: lowers_cons)
  qed
next
  case (5 snap t scope)
  show ?case by (simp add: lowers_def)
next
  case (6 snap p e arms t scope)
  show ?case
  proof (intro impI allI)
    fix target
    assume c: "check_arms snap (Case_Arm p e # arms) t scope = []" and w: "lw_snap w = snap"
    have "lowers (lower_pred w p t)" "expr_ok w t e" "lowers (lower_arms w arms t target)"
      using 6 c w checked_lowers by auto
    then show "lowers (lower_arms w (Case_Arm p e # arms) t target)"
      unfolding lower_arms_fun expr_ok_def by (intro lowers_then lowers_map) auto
  qed
qed

lemma checked_expr_lowers: "snd (check_expr snap e t scope) = [] \<Longrightarrow> lw_snap w = snap \<Longrightarrow> lowers (lower_expr w e t target)"
  using checked_expr_lowers_aux(1) unfolding expr_ok_def by blast

subsection \<open>Checked assignments\<close>

lemma check_assign_ok:
  assumes "check_assign snap a t scope = []"
  shows "snd (check_expr snap (da_value a) t scope) = []"
    and "\<exists>c. view_col t (assign_name a) = Some c \<and> \<not> dcol_generated c \<and> fits_col c (fst (check_expr snap (da_value a) t scope)) = Inr ()"
  using assms by (auto simp: check_assign_def fits_errors_def assign_name_def Let_def split: prod.splits option.splits if_splits sum.splits)

lemma check_assigns_from_ok:
  "check_assigns_from seen snap as t scope = [] \<Longrightarrow>
   (\<forall>a \<in> set as. check_assign snap a t scope = []) \<and> distinct (map assign_name as) \<and> seen \<inter> set (map assign_name as) = {}"
  by (induction as arbitrary: seen) (auto simp: Let_def assign_name_def split: if_splits)

lemma check_assigns_ok:
  assumes "check_assigns snap as t scope = []"
  shows "\<And>a. a \<in> set as \<Longrightarrow> check_assign snap a t scope = []" "distinct (map assign_name as)"
  using check_assigns_from_ok [of "{}" snap as t scope] assms by (auto simp: check_assigns_def)

lemma checked_assign_lowers:
  "check_assigns snap as t scope = [] \<Longrightarrow> lw_snap w = snap \<Longrightarrow> a \<in> set as \<Longrightarrow> lowers (lower_expr w (da_value a) t target)"
  using check_assigns_ok(1) check_assign_ok(1) checked_expr_lowers by blast

lemma lower_assign_fun:
  "lower_assign w t a = (\<lambda>n. and_then (lower_expr w (da_value a) t (view_col t (assign_name a)) n) (\<lambda>(v, n1).
     Inr (quote (lw_dialect w) (assign_name a) @ '' = '' @ v, n1)))"
  "lower_set w t a = (\<lambda>n. and_then (lower_expr w (da_value a) t (view_col t (assign_name a)) n) (\<lambda>(v, n1). Inr ((assign_name a, v), n1)))"
  by (rule ext, simp add: lower_assign_def lower_set_def)+

lemma lower_all_cons:
  assumes "lowers f" "\<And>x n'. \<exists>y. g x n' = Inr y"
  shows "\<exists>y. and_then (f n) (\<lambda>(x, n1). g x n1) = Inr y"
  using assms unfolding lowers_def by (metis and_then.simps(2) case_prod_conv)

lemma where_lowers:
  assumes "check_where snap p t = []" "lw_snap w = snap"
  shows "\<exists>s. where_sql w p t n = Inr s"
  using assms checked_pred_lowers [of snap _ t scope_row w n]
  by (cases p) (auto simp: where_sql_def check_where_def)

lemma update_lowers:
  assumes "check_assigns snap as t scope_row = []" "check_where snap p t = []" "lw_snap w = snap"
  shows "\<exists>s. lower_update w p as t n = Inr s"
  unfolding lower_update_def
  by (rule lower_all_cons)
    (use assms where_lowers [OF assms(2,3)] in
      \<open>auto simp: lower_assign_fun intro!: lowers_all lowers_map checked_assign_lowers [OF assms(1,3)]\<close>)

lemma delete_lowers: "check_where snap p t = [] \<Longrightarrow> lw_snap w = snap \<Longrightarrow> \<exists>s. lower_delete w p t n = Inr s"
  using where_lowers by (fastforce simp: lower_delete_def)

lemma chunk_parts_lowers:
  assumes "check_where snap p t = []" "\<And>as'. as = Some as' \<Longrightarrow> check_assigns snap as' t scope_row = []" "lw_snap w = snap"
  shows "\<exists>x. chunk_parts w p as t = Inr x"
proof -
  have w0: "check_where snap None t = []" by (simp add: check_where_def)
  have wr: "\<exists>s. (case as of Some a \<Rightarrow> lower_update w None a t n | None \<Rightarrow> lower_delete w None t n) = Inr s" for n
    using update_lowers [OF assms(2) w0 assms(3)] delete_lowers [OF w0 assms(3)] by (cases as) auto
  show ?thesis
  proof (cases p)
    case None
    then show ?thesis using wr [of 0] by (auto simp: chunk_parts_def Let_def)
  next
    case (Some q)
    then obtain f n where "lower_pred w q t 0 = Inr (f, n)"
      using checked_pred_lowers [of snap q t scope_row w 0] assms(1,3) by (auto simp: check_where_def)
    then show ?thesis using wr [of n] Some by (auto simp: chunk_parts_def Let_def)
  qed
qed

lemma check_create_rows:
  assumes "check_create snap rows bulk t s = []" "r \<in> set rows"
  shows "check_assigns snap (dr_assigns r) t scope_literals = [] \<and> row_columns r = row_columns (hd rows)"
  using assms by (cases rows) (auto simp: check_create_def split: if_splits)

lemma cell_lowers:
  assumes "check_assigns snap (dr_assigns r) t scope = []" "lw_snap w = snap"
  shows "lowers (lower_cell w t r c)"
proof (cases "assign_for c r")
  case None
  then show ?thesis by (simp add: lowers_def lower_cell_def)
next
  case (Some a)
  then have "a \<in> set (dr_assigns r)" by (auto simp: assign_for_def dest: find_SomeD)
  from checked_assign_lowers [OF assms this, of "view_col t c"] show ?thesis
    using Some by (simp add: lowers_def lower_cell_def)
qed

lemma lower_tuple_fun:
  "lower_tuple w t rows ir = (\<lambda>n. and_then (lower_all (lower_cell w t (snd ir)) (authored rows) n) (\<lambda>(vals, n1).
     Inr (''('' @ join '', '' (vals @ map (\<lambda>_. placeholder (lw_dialect w) (fst ir + 1)) (opt_list (minted_for rows t))) @ '')'', n1)))"
  by (rule ext) (simp add: lower_tuple_def)

lemma conflict_sets_lower:
  assumes "check_assigns snap (dc_update c) t scope_upsert = []" "lw_snap w = snap"
  shows "\<exists>sets. conflict_sets w c inserted t n = Inr sets"
proof -
  have u: "lw_snap (upsert_state w) = snap" using assms(2) by (simp add: upsert_state_def)
  have sets: "lowers (lower_all (lower_set (upsert_state w) t) as)" if "set as \<subseteq> set (dc_update c)" for as
    using that checked_assign_lowers [OF assms(1) u]
    by (intro lowers_all) (auto simp: lower_assign_fun intro!: lowers_map)
  obtain before n1 where b: "lower_all (lower_set (upsert_state w) t) (take (spread_at c) (dc_update c)) n = Inr (before, n1)"
    using sets [OF set_take_subset] unfolding lowers_def by blast
  obtain after n2 where "lower_all (lower_set (upsert_state w) t) (drop (spread_at c) (dc_update c)) n1 = Inr (after, n2)"
    using sets [OF set_drop_subset] unfolding lowers_def by blast
  with b show ?thesis by (simp add: conflict_sets_def Let_def)
qed

lemma create_lowers:
  assumes "check_create snap rows bulk t s = []" "\<And>cf. c = Some cf \<Longrightarrow> check_conflict snap cf t = []" "lw_snap w = snap"
  shows "\<exists>x. lower_create w rows c t = Inr x"
proof -
  have "lowers (lower_tuple w t rows ir)" if "ir \<in> set (zip [0..<length rows] rows)" for ir
  proof -
    have "snd ir \<in> set rows" using that set_zip_rightD [of "fst ir" "snd ir"] by simp
    then have "check_assigns snap (dr_assigns (snd ir)) t scope_literals = []"
      using check_create_rows [OF assms(1)] by blast
    then show ?thesis
      unfolding lower_tuple_fun using assms(3) by (intro lowers_map lowers_all) (rule cell_lowers)
  qed
  then have "lowers (lower_all (lower_tuple w t rows) (zip [0..<length rows] rows))" by (rule lowers_all)
  then obtain tuples n where tu: "lower_all (lower_tuple w t rows) (zip [0..<length rows] rows) 0 = Inr (tuples, n)"
    unfolding lowers_def by blast
  have "\<exists>tail. create_tail w c (authored rows) t n = Inr tail"
  proof (cases c)
    case (Some cf)
    have "check_assigns snap (dc_update cf) t scope_upsert = []"
      using assms(2) [OF Some] by (simp add: check_conflict_def Let_def)
    then obtain sets where "conflict_sets w cf (authored rows) t n = Inr sets"
      using conflict_sets_lower assms(3) by blast
    then show ?thesis using Some by (simp add: create_tail_def conflict_tail_def Let_def)
  qed (simp add: create_tail_def)
  then show ?thesis using tu by (auto simp: lower_create_def Let_def)
qed

text \<open>C12: the check is enough: a data step without an error against the schema at its line lowers to
  a statement on every dialect, its predicates, subqueries, upsert branch and chunk walk included.\<close>

theorem checked_step_lowers:
  assumes "check_step ds snap = []"
  shows "\<exists>u. lower_step ds snap d = Inr u"
proof -
  from assms obtain t where t: "view_find snap (id_node (op_table (ds_op ds))) = Some t"
    and ck: "check_op snap ds t = []" and ch: "check_chunk ds t = []"
    by (auto simp: check_step_def Let_def split: option.splits)
  let ?w = "root_state d snap (ds_op ds) t"
  have w: "lw_snap ?w = snap" by (simp add: root_state_def)
  have "\<exists>u. lower_op ?w ds t = Inr u"
  proof (cases "ds_op ds")
    case (Op_Create table rows bulk c)
    then have "check_create snap rows bulk t (ds_span ds) = []" "\<And>cf. c = Some cf \<Longrightarrow> check_conflict snap cf t = []"
      and "ds_chunk ds = None"
      using ck ch by (auto simp: check_op_def check_chunk_def split: option.splits)
    with create_lowers [OF this(1,2) w] Op_Create show ?thesis by (auto simp: lower_op_def)
  next
    case (Op_Update table p as)
    then have c: "check_where snap p t = []" "check_assigns snap as t scope_row = []"
      using ck by (simp_all add: check_op_def)
    show ?thesis
    proof (cases "ds_chunk ds")
      case None
      then show ?thesis using update_lowers [OF c(2,1) w] Op_Update by (fastforce simp: lower_op_def)
    next
      case (Some m)
      have "walk_key m t \<noteq> []"
        using ch Some Op_Update by (auto simp: check_chunk_def walk_errors_def walk_key_def split: option.splits if_splits)
      then show ?thesis using chunk_parts_lowers [OF c(1), of "Some as", OF _ w] c(2) Some Op_Update
        by (fastforce simp: lower_op_def lower_chunk_def)
    qed
  next
    case (Op_Delete table p)
    then have c: "check_where snap p t = []" using ck by (simp add: check_op_def)
    show ?thesis
    proof (cases "ds_chunk ds")
      case None
      then show ?thesis using delete_lowers [OF c w] Op_Delete by (fastforce simp: lower_op_def)
    next
      case (Some m)
      have "walk_key m t \<noteq> []"
        using ch Some Op_Delete by (auto simp: check_chunk_def walk_errors_def walk_key_def split: option.splits if_splits)
      then show ?thesis using chunk_parts_lowers [OF c, of None, OF _ w] Some Op_Delete
        by (fastforce simp: lower_op_def lower_chunk_def)
    qed
  qed
  then show ?thesis using t by (simp add: lower_step_def Let_def)
qed

subsection \<open>Complete rows\<close>

lemma sort_eq_distinct: "sort k = sort l \<Longrightarrow> set k = set l"
  by (metis set_sort)

text \<open>C29: a checked \<open>create\<close> writes whole rows: every row sets the same columns, each of them once,
  existing and not generated; every column that is not null and that nothing fills in is among them;
  and an upsert's target is a unique key of the table.\<close>

theorem checked_rows_complete:
  assumes "check_step ds snap = []" "ds_op ds = Op_Create table rows bulk c" "r \<in> set rows"
  shows "\<exists>t. view_find snap (id_node table) = Some t
    \<and> row_columns r = row_columns (hd rows) \<and> distinct (map assign_name (dr_assigns r))
    \<and> (\<forall>a \<in> set (dr_assigns r). \<exists>col. view_col t (assign_name a) = Some col \<and> \<not> dcol_generated col)
    \<and> (\<forall>col \<in> set (tv_cols t). dcol_nullable col \<or> dcol_auto col \<or> dcol_name col \<in> row_columns r)
    \<and> (\<forall>cf. c = Some cf \<longrightarrow> (\<exists>k \<in> set (unique_keys t). set k = set (map id_node (dc_target cf))))"
proof -
  from assms(1,2) obtain t where t: "view_find snap (id_node table) = Some t"
    and cr: "check_create snap rows bulk t (ds_span ds) = []" and cf: "\<And>cf. c = Some cf \<Longrightarrow> check_conflict snap cf t = []"
    by (auto simp: check_step_def check_op_def Let_def split: option.splits)
  from check_create_rows [OF cr assms(3)]
  have r: "check_assigns snap (dr_assigns r) t scope_literals = []" "row_columns r = row_columns (hd rows)" by blast+
  have "missing_columns t (hd rows) = []"
    using cr assms(3) by (cases rows) (auto simp: check_create_def split: if_splits)
  then have m: "\<forall>col \<in> set (tv_cols t). dcol_nullable col \<or> dcol_auto col \<or> dcol_name col \<in> row_columns r"
    unfolding r(2) missing_columns_def by (auto simp: filter_empty_conv)
  have k: "\<exists>k \<in> set (unique_keys t). set k = set (map id_node (dc_target cf))" if "c = Some cf" for cf
  proof -
    have "list_ex (\<lambda>k. sort k = sort (map id_node (dc_target cf))) (unique_keys t)"
      using cf [OF that] by (simp add: check_conflict_def Let_def split: if_splits)
    then show ?thesis using sort_eq_distinct unfolding list_ex_iff by blast
  qed
  show ?thesis
    using t r(2) check_assigns_ok(2) [OF r(1)] m k check_assign_ok(2) [OF check_assigns_ok(1) [OF r(1)]]
    by (intro exI [of _ t]) fastforce
qed

subsection \<open>The later assignment wins\<close>

lemma fold_set_last:
  "distinct (map fst ys) \<Longrightarrow>
   distinct (map fst (fold set_last xs ys)) \<and> (\<forall>c. map_of (fold set_last xs ys) c = (case map_of (rev xs) c of Some v \<Rightarrow> Some v | None \<Rightarrow> map_of ys c))"
proof (induction xs arbitrary: ys)
  case (Cons x xs)
  have d: "distinct (map fst (set_last x ys))"
    using Cons.prems by (auto simp: set_last_def distinct_map inj_on_def)
  have m: "map_of (set_last x ys) c = (if c = fst x then Some (snd x) else map_of ys c)" for c
    by (induction ys) (auto simp: set_last_def)
  show ?case using Cons.IH [OF d] by (auto simp: m map_add_def split: option.split)
qed simp

lemma fold_set_last_Nil:
  "distinct (map fst (fold set_last xs [])) \<and> map_of (fold set_last xs []) = map_of (rev xs)"
proof -
  from fold_set_last [of "[]" xs] have "map_of (fold set_last xs []) c = map_of (rev xs) c" for c
    by (cases "map_of (rev xs) c") simp_all
  with fold_set_last [of "[]" xs] show ?thesis by auto
qed

text \<open>The \<open>SET\<close> list of an upsert assigns no column twice, and gives each column what the last of
  the assignments before \<open>...incoming\<close>, the proposed row's columns outside the conflict target, and
  the assignments after it gives it: the order of a JavaScript object spread.\<close>

theorem upsert_last_wins:
  assumes "conflict_sets w c inserted t n = Inr sets"
  shows "distinct (map fst sets) \<and>
    (\<exists>before n1 after n2.
       lower_all (lower_set (upsert_state w) t) (take (spread_at c) (dc_update c)) n = Inr (before, n1) \<and>
       lower_all (lower_set (upsert_state w) t) (drop (spread_at c) (dc_update c)) n1 = Inr (after, n2) \<and>
       map_of sets = map_of (rev (before @ spread_sets (upsert_state w) c inserted @ after)))"
proof -
  from assms obtain before n1 after n2 where
    "lower_all (lower_set (upsert_state w) t) (take (spread_at c) (dc_update c)) n = Inr (before, n1)"
    "lower_all (lower_set (upsert_state w) t) (drop (spread_at c) (dc_update c)) n1 = Inr (after, n2)"
    "sets = fold set_last (before @ spread_sets (upsert_state w) c inserted @ after) []"
    by (auto simp: conflict_sets_def Let_def simp del: fold_append rev_append)
  then show ?thesis using fold_set_last_Nil by blast
qed

subsection \<open>The automatic reverse\<close>

lemma all_some_Some: "all_some ms = Some xs \<longleftrightarrow> ms = map Some xs"
proof (induction ms arbitrary: xs)
  case (Cons m ms)
  then show ?case by (cases m) (auto simp: Cons_eq_map_conv)
qed auto

lemma find_map_Some: "find_map f xs = Some y \<Longrightarrow> \<exists>x \<in> set xs. f x = Some y"
  by (induction xs) (auto split: option.splits)

text \<open>The SQL of the literal a row gives a column.\<close>

definition key_text :: "dialect \<Rightarrow> data_row \<Rightarrow> str \<Rightarrow> str" where
  "key_text d r k = the (Option.bind (assign_for k r) (\<lambda>a. literal_sql (da_value a) d))"

lemma literal_sql_Some: "literal_sql e d = Some s \<longleftrightarrow> (\<exists>l. e = Expr_Value (Val_Lit l) \<and> l \<noteq> Lit_Null \<and> s = render_lit d l)"
  by (auto simp: literal_sql_def split: shape_expr.split ast_value.split)

lemma map_Some_the: "map f xs = map Some ys \<Longrightarrow> ys = map (\<lambda>x. the (f x)) xs"
  by (induction xs arbitrary: ys) (auto simp: Cons_eq_map_conv)

lemma map_Some_mem: "map f xs = map Some ys \<Longrightarrow> x \<in> set xs \<Longrightarrow> \<exists>y. f x = Some y"
  by (induction xs arbitrary: ys) (auto simp: Cons_eq_map_conv)

lemma key_literals_Some:
  assumes "key_literals d key r = Some vs"
  shows "vs = map (key_text d r) key \<and>
    (\<forall>k \<in> set key. \<exists>a l. assign_for k r = Some a \<and> da_value a = Expr_Value (Val_Lit l) \<and> l \<noteq> Lit_Null \<and> key_text d r k = render_lit d l)"
proof -
  from assms have m: "map (\<lambda>k. Option.bind (assign_for k r) (\<lambda>a. literal_sql (da_value a) d)) key = map Some vs"
    by (simp add: key_literals_def all_some_Some)
  then have vs: "vs = map (key_text d r) key"
    unfolding key_text_def by (rule map_Some_the)
  have "\<exists>a l. assign_for k r = Some a \<and> da_value a = Expr_Value (Val_Lit l) \<and> l \<noteq> Lit_Null \<and> key_text d r k = render_lit d l"
    if "k \<in> set key" for k
  proof -
    from map_Some_mem [OF m that] obtain v a where "assign_for k r = Some a" "literal_sql (da_value a) d = Some v"
      by (auto simp: bind_eq_Some_conv)
    moreover from this have "key_text d r k = v" by (simp add: key_text_def)
    ultimately show ?thesis unfolding literal_sql_Some by blast
  qed
  with vs show ?thesis by blast
qed

text \<open>C28: what is reversed automatically is undone row by row: a step has a reverse only when it is a
  plain \<open>create\<close>, neither an upsert nor chunked; the reverse deletes by a unique key of the table, one
  tuple for each created row, and each value of a tuple is a non-null literal, in the very text that
  the insert writes for that column of that row.\<close>

theorem invert_names_rows:
  assumes "invert ds snap d = Some sql"
  shows "\<exists>table rows bulk t key. ds_op ds = Op_Create table rows bulk None \<and> ds_chunk ds = None \<and>
    view_find snap (id_node table) = Some t \<and> key \<in> set (unique_keys t) \<and>
    sql = ''DELETE FROM '' @ quote_table d (t_schema (tv_snap t)) (view_name t) @ '' WHERE '' @ row_tuple (map (quote d) key) @
      '' IN ('' @ join '', '' (map (\<lambda>r. row_tuple (map (key_text d r) key)) rows) @ '')'' \<and>
    (\<forall>r \<in> set rows. \<forall>k \<in> set key. \<forall>w n. lw_dialect w = d \<longrightarrow> lower_cell w t r k n = Inr (key_text d r k, n)) \<and>
    (\<forall>r \<in> set rows. \<forall>k \<in> set key. \<exists>a l. assign_for k r = Some a \<and> da_value a = Expr_Value (Val_Lit l) \<and> l \<noteq> Lit_Null)"
proof -
  from assms obtain table rows bulk t where
    op: "ds_op ds = Op_Create table rows bulk None" "ds_chunk ds = None" "view_find snap (id_node table) = Some t"
    and fm: "find_map (invert_key d t rows) (unique_keys t) = Some sql"
    by (auto simp: invert_def bind_eq_Some_conv split: data_op.splits option.splits)
  from find_map_Some [OF fm] obtain key where key: "key \<in> set (unique_keys t)" "invert_key d t rows key = Some sql" by blast
  then obtain tuples where tu: "map (key_literals d key) rows = map Some tuples"
    and sql: "sql = ''DELETE FROM '' @ quote_table d (t_schema (tv_snap t)) (view_name t) @ '' WHERE '' @ row_tuple (map (quote d) key) @
      '' IN ('' @ join '', '' (map row_tuple tuples) @ '')''"
    by (auto simp: invert_key_def all_some_Some)
  have kl: "key_literals d key r = Some (map (key_text d r) key)" if "r \<in> set rows" for r
    using map_Some_mem [OF tu that] key_literals_Some by blast
  have lit: "\<exists>a l. assign_for k r = Some a \<and> da_value a = Expr_Value (Val_Lit l) \<and> l \<noteq> Lit_Null \<and> key_text d r k = render_lit d l"
    if "r \<in> set rows" "k \<in> set key" for r k
    using key_literals_Some [OF kl [OF that(1)]] that(2) by blast
  have "tuples = map (\<lambda>r. map (key_text d r) key) rows"
    unfolding map_Some_the [OF tu] by (simp add: kl)
  then have rows: "map row_tuple tuples = map (\<lambda>r. row_tuple (map (key_text d r) key)) rows" by simp
  have cell: "\<forall>r \<in> set rows. \<forall>k \<in> set key. \<forall>w n. lw_dialect w = d \<longrightarrow> lower_cell w t r k n = Inr (key_text d r k, n)"
    using lit by (fastforce simp: lower_cell_def)
  have lits: "\<forall>r \<in> set rows. \<forall>k \<in> set key. \<exists>a l. assign_for k r = Some a \<and> da_value a = Expr_Value (Val_Lit l) \<and> l \<noteq> Lit_Null"
    using lit by blast
  show ?thesis
    by (intro exI [of _ table] exI [of _ rows] exI [of _ bulk] exI [of _ t] exI [of _ key] conjI op key(1) cell lits sql [unfolded rows])
qed

end
