(* ===== verification/Data_Samples.thy ===== *)
theory Data_Samples
  imports Data_Props
begin

text \<open>Concrete data steps: the properties of \<open>Data_Props\<close> applied, and two steps that pass the check
  although the database refuses what they lower to.\<close>

definition no_span :: span where
  "no_span = \<lparr>span_file = 0, span_start = 0, span_end = 0\<rparr>"

definition named :: "str \<Rightarrow> ident_node" where
  "named s = \<lparr>id_node = s, id_span = no_span\<rparr>"

definition set_to :: "str \<Rightarrow> shape_expr \<Rightarrow> data_assign" where
  "set_to c e = \<lparr>da_col = named c, da_value = e\<rparr>"

definition int_lit :: "int \<Rightarrow> shape_expr" where
  "int_lit i = Expr_Value (Val_Lit (Lit_Int i))"

definition col_expr :: "str \<Rightarrow> shape_expr" where
  "col_expr c = Expr_Value (Val_Path [named c])"

definition create_card :: "shape_expr \<Rightarrow> data_conflict option \<Rightarrow> data_step" where
  "create_card e c = \<lparr>ds_op = Op_Create (named ''card'')
       [\<lparr>dr_assigns = [set_to ''id'' (int_lit 1), set_to ''name'' e], dr_span = no_span\<rparr>] False c,
     ds_chunk = None, ds_span = no_span\<rparr>"

definition bump_name :: data_conflict where
  "bump_name = \<lparr>dc_target = [named ''id''], dc_update = [set_to ''name'' (Expr_Arith (col_expr ''name'') Arith_Add (int_lit 1) no_span)],
     dc_spread = Some \<lparr>cs_source = named ''incoming'', cs_preceding = 0, cs_span = no_span\<rparr>, dc_span = no_span\<rparr>"

definition card_view :: table_view where
  "card_view = view_of (plain_table ''card'' [''id'', ''name''])"

theorem checked_step_lowers_witness:
  "\<exists>u. lower_step (create_card (int_lit 2) (Some bump_name)) card_before My_Sql = Inr u"
  by (rule checked_step_lowers) code_simp

theorem checked_rows_complete_witness:
  "\<exists>t. view_find card_before ''card'' = Some t \<and>
     (\<forall>col \<in> set (tv_cols t). dcol_nullable col \<or> dcol_auto col \<or> dcol_name col \<in> {''id'', ''name''})"
proof -
  let ?r = "\<lparr>dr_assigns = [set_to ''id'' (int_lit 1), set_to ''name'' (int_lit 2)], dr_span = no_span\<rparr>"
  have c: "check_step (create_card (int_lit 2) None) card_before = []" by code_simp
  have o: "ds_op (create_card (int_lit 2) None) = Op_Create (named ''card'') [?r] False None" by (simp add: create_card_def)
  have "row_columns ?r = {''id'', ''name''}" by (simp add: row_columns_def set_to_def named_def)
  with checked_rows_complete [OF c o, of ?r] show ?thesis by (auto simp: named_def)
qed

theorem upsert_last_wins_witness:
  "distinct (map fst [(''name'', ''(`name` + 1)'')])"
proof -
  have "conflict_sets (root_state My_Sql card_before (ds_op (create_card (int_lit 2) (Some bump_name))) card_view)
      bump_name [''id'', ''name''] card_view 0 = Inr [(''name'', ''(`name` + 1)'')]"
    by code_simp
  from upsert_last_wins [OF this] show ?thesis by blast
qed

definition reverse_card :: str where
  "reverse_card = ''DELETE FROM `card` WHERE `id` IN (1)''"

theorem invert_names_rows_witness:
  "\<exists>table rows bulk t key. ds_op (create_card (int_lit 2) None) = Op_Create table rows bulk None \<and>
     view_find card_before (id_node table) = Some t \<and> key \<in> set (unique_keys t) \<and>
     reverse_card = ''DELETE FROM '' @ quote_table Sqlite (t_schema (tv_snap t)) (view_name t) @ '' WHERE '' @
       row_tuple (map (quote Sqlite) key) @ '' IN ('' @ join '', '' (map (\<lambda>r. row_tuple (map (key_text Sqlite r) key)) rows) @ '')''"
proof -
  have "invert (create_card (int_lit 2) None) card_before Sqlite = Some reverse_card" by code_simp
  from invert_names_rows [OF this] show ?thesis by blast
qed

subsection \<open>Steps that pass the check\<close>

text \<open>A created row's values are literals, but the condition of a \<open>case\<close> in one is checked against the
  table's columns: the step passes and its \<open>VALUES\<close> list reads a column of the table it inserts into.\<close>

lemma create_case_reads_column:
  "let ds = create_card (Expr_Case [Case_Arm (Pred_Cmp [named ''id''] Op_Eq (Val_Lit (Lit_Int 1))) (int_lit 2)] (int_lit 3) no_span) None in
   check_step ds card_before = [] \<and>
   lower_step ds card_before Sqlite =
     Inr (Unit_Sql ''INSERT INTO `card` (`id`, `name`) VALUES (1, CASE WHEN `card`.`id` = 1 THEN 2 ELSE 3 END)'')"
  by code_simp

text \<open>An upsert's update branch writes its columns bare. Postgres has both the table and \<open>excluded\<close> in
  scope there and refuses a bare column as ambiguous.\<close>

lemma upsert_column_bare:
  "let ds = create_card (int_lit 2) (Some bump_name) in
   check_step ds card_before = [] \<and>
   lower_step ds card_before Postgres =
     Inr (Unit_Sql (concat [''INSERT INTO '', quote Postgres ''card'', '' ('', quote Postgres ''id'', '', '', quote Postgres ''name'',
       '') VALUES (1, 2) ON CONFLICT ('', quote Postgres ''id'', '') DO UPDATE SET '', quote Postgres ''name'', '' = ('',
       quote Postgres ''name'', '' + 1)'']))"
  by code_simp

text \<open>A bare enum value is a literal to the check and to the insert, but not to the reverse.\<close>

lemma enum_key_not_reversed:
  "let now = one_table ((plain_table ''card'' [''id'', ''name''])\<lparr>t_columns :=
        [(plain_column ''id'')\<lparr>c_ty := ''enum(red,blue)''\<rparr>, plain_column ''name'']\<rparr>) [];
       ds = \<lparr>ds_op = Op_Create (named ''card'') [\<lparr>dr_assigns = [set_to ''id'' (col_expr ''red''), set_to ''name'' (int_lit 2)],
         dr_span = no_span\<rparr>] False None, ds_chunk = None, ds_span = no_span\<rparr> in
   check_step ds now = [] \<and>
   lower_step ds now Sqlite = Inr (Unit_Sql (''INSERT INTO `card` (`id`, `name`) VALUES ('' @ sql_string ''red'' @ '', 2)'')) \<and>
   invert ds now Sqlite = None"
  by code_simp

end
