(* ===== verification/Plan_Props.thy ===== *)
theory Plan_Props
  imports Script_Plan Data_Samples
begin

text \<open>
  What planning a script promises: a script with nothing authored in it runs exactly the lowered
  diff and shows exactly its rendering, on every dialect; and a script is rolled back automatically
  only when undoing its literal rows is all there is to undo.
\<close>

subsection \<open>Scripts without authored items\<close>

lemma render_header_line: "one_line s \<Longrightarrow> body_of ((s @ nl) @ r) = r"
proof (induction s)
  case (Cons c s)
  then show ?case by (auto simp: body_of_def prepend_def split: option.splits)
qed (simp add: body_of_def)

lemma body_of_render: "body_of (render_header d @ r) = r"
proof -
  have "render_header d = (''-- Rendered by `based migrate render` (dialect: '' @ dialect_name d @ ''). Review before apply.'') @ nl"
    by (simp add: render_header_def)
  moreover have "one_line (''-- Rendered by `based migrate render` (dialect: '' @ dialect_name d @ ''). Review before apply.'')"
    by simp
  ultimately show ?thesis by (simp only: render_header_line)
qed

lemma render_migration_header: "\<exists>r. render_migration gen steps d target = render_header d @ r"
  by (auto simp: render_migration_def render_sql_def)

lemma render_migration_nil: "render_migration gen [] d target = render_header d"
  by (simp add: render_migration_def render_sql_def sqlite_plan_def)

lemma migration_sql_nil: "migration_sql gen [] d target = Inr []"
  by (simp add: migration_sql_def sql_statements_def sqlite_plan_def concat_res_def)

lemma header_body: "render_header d @ body_of (render_migration gen steps d target) = render_migration gen steps d target"
  using render_migration_header [of gen steps d target] by (auto simp: body_of_render)

lemma walk_steps:
  "fold (walk_entry gen parse file d) (map Placed_Step sts) w =
     w\<lparr>wk_downs := (if list_all is_scope_change sts then wk_downs w else None), wk_snap := fold evolve sts (wk_snap w),
       wk_pending := wk_pending w @ sts\<rparr>"
  by (induction sts arbitrary: w) auto

lemma plan_in_order_plain:
  assumes "sc_items sc = []" "migration_sql gen steps d to = Inr stmts"
  shows "plan_in_order gen parse file from to steps sc d = Inr \<lparr>up_units = map Unit_Sql stmts,
      up_review = render_migration gen steps d to, up_auto_down = None, up_has_data = False\<rparr>"
proof -
  have p: "place file steps sc = Inr (map Placed_Step steps)" using assms(1) by (simp add: place_def)
  show ?thesis
  proof (cases "steps = []")
    case True
    then have "stmts = []" using assms(2) by (simp add: migration_sql_nil)
    then show ?thesis using p True
      by (simp add: plan_in_order_def walk_end_def Let_def start_walk_def flush_def render_migration_nil)
  next
    case False
    then show ?thesis using p assms(2)
      by (simp add: plan_in_order_def walk_steps walk_end_def Let_def start_walk_def flush_def header_body)
  qed
qed

lemma diff_sql_total: "\<exists>stmts. migration_sql gen (constraint_safe (diff_snapshots prev now)) d now = Inr stmts"
  using migration_sql_total [of "constraint_safe (diff_snapshots prev now)" now gen d] diff_trigger
  by (force simp: constraint_safe_def)

text \<open>C7: what is shown is what is applied: an in-order script into which nothing has been written is
  planned on every dialect, its units are exactly the statements the derived steps lower to, in
  order, and its review is exactly their rendering; it has no automatic reverse.\<close>

theorem plain_script_plan:
  assumes "sc_in_order (scan up_text)" "sc_items (scan up_text) = []"
  shows "\<exists>stmts. migration_sql gen (constraint_safe (diff_snapshots prev now)) d now = Inr stmts \<and>
    plan_up gen parse prev now up_text d = Inr \<lparr>up_units = map Unit_Sql stmts,
      up_review = render_migration gen (constraint_safe (diff_snapshots prev now)) d now,
      up_auto_down = None, up_has_data = False\<rparr>"
proof -
  obtain stmts where m: "migration_sql gen (constraint_safe (diff_snapshots prev now)) d now = Inr stmts"
    using diff_sql_total by blast
  then show ?thesis using assms(1) plan_in_order_plain [OF assms(2) m] by (simp add: plan_up_def Let_def)
qed

subsection \<open>Automatic reverses\<close>

lemma scope_changes_no_sql:
  assumes "list_all is_scope_change sts"
  shows "migration_sql gen sts d target = Inr []"
proof -
  have none: "folded_table st = None \<and> rebuild_trigger_table st = None \<and> step_statements gen d st = Inr []"
    if "is_scope_change st" for st using that by (cases st) (simp_all add: is_scope_change_def)
  have plan: "sqlite_plan_from rebuild ts seen sts = map Emit_Step sts" for rebuild ts seen
    using assms none by (induction sts) auto
  have "concat_res (map (step_statements gen d) sts) = Inr []"
    using assms none by (induction sts) (auto simp: concat_res_def)
  then show ?thesis by (auto simp: migration_sql_def sql_statements_def sqlite_plan_def plan comp_def)
qed

text \<open>A data step that a reverse statement undoes.\<close>

definition undone_by :: "dialect \<Rightarrow> plan_unit \<Rightarrow> str \<Rightarrow> bool" where
  "undone_by d u undo \<longleftrightarrow> (\<exists>ds snap. check_step ds snap = [] \<and> lower_step ds snap d = Inr u \<and> invert ds snap d = Some undo)"

definition mirrored :: "dialect \<Rightarrow> walk \<Rightarrow> bool" where
  "mirrored d w \<longleftrightarrow> (\<forall>undos. wk_downs w = Some undos \<longrightarrow>
     list_all is_scope_change (wk_pending w) \<and> list_all2 (undone_by d) (wk_units w) undos)"

lemma flush_keeps [simp]: "wk_downs (flush gen file d w) = wk_downs w" "wk_snap (flush gen file d w) = wk_snap w"
    "wk_has_data (flush gen file d w) = wk_has_data w" "wk_pending (flush gen file d w) = []"
  by (auto simp: flush_def split: sum.split)

lemma mirrored_flush: "mirrored d w \<Longrightarrow> mirrored d (flush gen file d w)"
  by (auto simp: mirrored_def flush_def scope_changes_no_sql split: sum.split)

lemma data_unit_undone:
  "data_unit parse file line s snap d = Inr (ds, u) \<Longrightarrow> invert ds snap d = Some undo \<Longrightarrow> undone_by d u undo"
  by (auto simp: data_unit_def undone_by_def split: sum.splits if_splits)

lemma mirrored_data: "mirrored d w \<Longrightarrow> mirrored d (walk_data parse file d line s w)"
  unfolding walk_data_def
  by (auto simp: mirrored_def push_down_def split: sum.split option.splits
      intro!: list_all2_appendI intro: data_unit_undone)

lemma mirrored_entry: "mirrored d w \<Longrightarrow> mirrored d (walk_entry gen parse file d e w)"
proof (cases e)
  case (Placed_Step st)
  assume "mirrored d w"
  then show ?thesis by (auto simp: Placed_Step mirrored_def)
next
  case (Placed_Raw st)
  then show ?thesis by (simp add: mirrored_def walk_raw_def)
next
  case (Placed_Data line s)
  assume "mirrored d w"
  then show ?thesis using Placed_Data by (simp add: mirrored_data mirrored_flush)
qed

lemma mirrored_walk: "mirrored d w \<Longrightarrow> mirrored d (fold (walk_entry gen parse file d) ps w)"
  by (induction ps arbitrary: w) (simp_all add: mirrored_entry)

definition reversible_entry :: "placed \<Rightarrow> bool" where
  "reversible_entry e \<longleftrightarrow> (case e of Placed_Step st \<Rightarrow> is_scope_change st | Placed_Raw _ \<Rightarrow> False | Placed_Data _ _ \<Rightarrow> True)"

lemma no_downs: "wk_downs w = None \<Longrightarrow> wk_downs (fold (walk_entry gen parse file d) ps w) = None"
proof (induction ps arbitrary: w)
  case (Cons e ps)
  then have "wk_downs (walk_entry gen parse file d e w) = None"
    by (cases e) (auto simp: walk_raw_def walk_data_def push_down_def split: sum.split)
  then show ?case using Cons.IH by simp
qed simp

lemma downs_reversible: "wk_downs (fold (walk_entry gen parse file d) ps w) \<noteq> None \<Longrightarrow> list_all reversible_entry ps"
proof (induction ps arbitrary: w)
  case (Cons e ps)
  then have "wk_downs (walk_entry gen parse file d e w) \<noteq> None" using no_downs by fastforce
  then have "reversible_entry e" by (cases e) (auto simp: reversible_entry_def walk_raw_def split: if_splits)
  then show ?case using Cons by simp
qed simp

text \<open>C27: a rollback is derived only where it undoes everything: when a planned script has an automatic
  reverse, nothing is placed in it but scope changes and data steps (no structural step, no \<open>raw\<close>
  line, not even one for another dialect), and its units are, one for one and in the opposite order
  of the reverse, data steps that were checked, lowered and inverted against the same schema state.\<close>

theorem automatic_reverse_mirrors:
  assumes "plan_in_order gen parse file from to steps sc d = Inr p" "up_auto_down p = Some downs"
  shows "\<exists>ps undos. place file steps sc = Inr ps \<and> list_all reversible_entry ps \<and>
    downs = map Unit_Sql (rev undos) \<and> list_all2 (undone_by d) (up_units p) undos"
proof -
  from assms(1) obtain ps where ps: "place file steps sc = Inr ps"
    and w: "walk_end gen file d to (fold (walk_entry gen parse file d) ps (start_walk from d)) = Inr p"
    by (auto simp: plan_in_order_def split: sum.splits)
  define v where "v = fold (walk_entry gen parse file d) ps (start_walk from d)"
  define e where "e = flush gen file d (v\<lparr>wk_snap := to\<rparr>)"
  have "mirrored d (start_walk from d)" by (simp add: mirrored_def start_walk_def)
  then have "mirrored d v" unfolding v_def by (rule mirrored_walk)
  then have "mirrored d e" unfolding e_def by (intro mirrored_flush) (simp add: mirrored_def)
  moreover have p: "up_units p = wk_units e" "\<exists>undos. wk_downs e = Some undos \<and> downs = map Unit_Sql (rev undos)"
    using w assms(2) by (auto simp: walk_end_def Let_def e_def [symmetric] v_def [symmetric] split: if_splits)
  moreover have "list_all reversible_entry ps"
  proof (rule downs_reversible)
    show "wk_downs (fold (walk_entry gen parse file d) ps (start_walk from d)) \<noteq> None"
      using p(2) by (auto simp: e_def v_def)
  qed
  ultimately show ?thesis using ps by (auto simp: mirrored_def)
qed

subsection \<open>Samples\<close>

definition plain_script :: str where
  "plain_script = unlines [''format 2'', ''add column card.rank int'']"

theorem plain_script_plan_witness:
  "\<exists>stmts. plan_up (\<lambda>d s. None) (\<lambda>s. Inl []) card_before card_after plain_script Sqlite =
     Inr \<lparr>up_units = map Unit_Sql stmts,
       up_review = render_migration (\<lambda>d s. None) (constraint_safe (diff_snapshots card_before card_after)) Sqlite card_after,
       up_auto_down = None, up_has_data = False\<rparr>"
proof -
  have "sc_in_order (scan plain_script)" "sc_items (scan plain_script) = []" by code_simp+
  from plain_script_plan [OF this] show ?thesis by blast
qed

text \<open>A parser that knows one text.\<close>

definition one_step_parser :: parser where
  "one_step_parser s = (if s = ''create card { id = 1, name = 2 }'' then Inr (create_card (int_lit 2) None) else Inl [(None, ''expected a step'')])"

definition seed_script :: str where
  "seed_script = unlines [''format 2'', ''create card { id = 1, name = 2 }'']"

definition seed_plan :: up_plan where
  "seed_plan = (case plan_in_order (\<lambda>d s. None) one_step_parser ''up.mig'' card_before card_before [] (scan seed_script) Sqlite of
     Inr p \<Rightarrow> p | Inl _ \<Rightarrow> \<lparr>up_units = [], up_review = [], up_auto_down = None, up_has_data = False\<rparr>)"

theorem automatic_reverse_mirrors_witness:
  "\<exists>ps undos. place ''up.mig'' [] (scan seed_script) = Inr ps \<and> list_all reversible_entry ps \<and>
    [Unit_Sql reverse_card] = map Unit_Sql (rev undos) \<and> list_all2 (undone_by Sqlite) (up_units seed_plan) undos"
proof -
  have "plan_in_order (\<lambda>d s. None) one_step_parser ''up.mig'' card_before card_before [] (scan seed_script) Sqlite = Inr seed_plan"
    "up_auto_down seed_plan = Some [Unit_Sql reverse_card]"
    by code_simp+
  then show ?thesis by (rule automatic_reverse_mirrors)
qed

end
