(* ===== verification/Lowering_Samples.thy ===== *)
theory Lowering_Samples
  imports Lowering_Props
begin

text \<open>Concrete migrations whose SQL a database refuses, or that leave a constraint behind.\<close>

definition no_gen :: "dialect \<Rightarrow> str \<Rightarrow> str option" where
  "no_gen d s = None"

definition card_with :: "column_snap \<Rightarrow> snapshot" where
  "card_with c = one_table ((plain_table ''card'' [''id''])\<lparr>t_columns := [plain_column ''id'', c]\<rparr>) []"

text \<open>A rebuild copies a generated column like any other: SQLite refuses to insert into it.\<close>

lemma rebuild_copies_generated:
  "let double = (plain_column ''double'')\<lparr>c_generated := Some ''n * 2''\<rparr>;
       table = (\<lambda>ty. (plain_table ''card'' [])\<lparr>t_columns := [plain_column ''id'', (plain_column ''n'')\<lparr>c_ty := ty\<rparr>, double]\<rparr>);
       steps = diff_snapshots (one_table (table ''int'') []) (one_table (table ''text'') []) in
   rebuilt_tables steps (one_table (table ''text'') []) = [''card''] \<and>
   rebuild_copy_list (table ''text'') (rebuild_added_columns ''card'' steps) Map.empty
     = [(''id'', ''id''), (''n'', ''n''), (''double'', ''double'')]"
  by code_simp

text \<open>Changing the values of an enum changes the type text of the column, which is the same SQL type;
  the \<open>CHECK\<close> with the old values, created with the table, is left as it was.\<close>

lemma enum_change_keeps_check:
  "let was = (plain_column ''hue'')\<lparr>c_ty := ''enum(red,blue)''\<rparr>; hue = (plain_column ''hue'')\<lparr>c_ty := ''enum(red,green)''\<rparr> in
   enum_check_lines (hd (s_tables (card_with was))) Postgres
     = [enum_check_clause Postgres ''card'' ''hue'' [sql_string ''red'', sql_string ''blue'']] \<and>
   migration_sql no_gen (diff_snapshots (card_with was) (card_with hue)) Postgres (card_with hue)
     = Inr [concat [''ALTER TABLE '', quote Postgres ''card'', '' ALTER COLUMN '', quote Postgres ''hue'', '' TYPE TEXT'']]"
  by code_simp

text \<open>An index with a MySQL method, added to a table that exists, is written with \<open>USING\<close> before its
  columns, while the same index in a new table is a \<open>FULLTEXT KEY\<close>.\<close>

lemma fulltext_index_added:
  "let ix = \<lparr>ix_name = ''idx_card_id'', ix_columns = [''id''], ix_unique = False, ix_method = Some ''fulltext'', ix_raw = None\<rparr> in
   inline_index_line My_Sql ix = ''FULLTEXT KEY `idx_card_id` (`id`)'' \<and>
   step_statements no_gen My_Sql (Add_Index ''card'' None ix) = Inr [''CREATE INDEX `idx_card_id` ON `card` USING fulltext (`id`)'']"
  by code_simp

end
