(* ===== verification/Resume.thy ===== *)
theory Resume
  imports Migration_Sql
begin

text \<open>
  \<open>based-runtime/src/migrate_resume.rs\<close> with \<open>migrate_progress.rs\<close>: one direction of a migration
  that carries chunked data steps. Plain statements commit per segment and chunked steps per
  batch, each together with the progress row. \<open>chunks\<close> loops until a batch comes back empty, which
  depends on the data, so it carries fuel: \<open>None\<close> means the walk did not end within that many
  batches. The progress report and the pause between batches change no state and are left out.
\<close>

subsection \<open>Options and runs\<close>

datatype direction = Dir_Up | Dir_To nat | Dir_Down

record 'b apply_opts =
  ao_allow_destructive :: bool
  ao_direction :: direction
  ao_mint :: "'b mint option"

record migration_run =
  rn_id :: str
  rn_hash :: str
  rn_down :: bool
  rn_units :: "plan_unit list"

definition run_key :: "migration_run \<Rightarrow> str" where
  "run_key r = (if rn_down r then rn_id r @ '':down'' else rn_id r)"

definition failed :: "dialect \<Rightarrow> migration_run \<Rightarrow> str \<Rightarrow> db_error \<Rightarrow> migrate_error" where
  "failed d r stage e = Execution \<lparr>mf_id = rn_id r, mf_direction = (if rn_down r then ''down'' else ''up''),
     mf_stage = stage, mf_dialect = d, mf_source = e\<rparr>"

subsection \<open>Segments\<close>

datatype segment = Seg_Sql "plan_unit list" | Seg_Chunk chunk_plan

text \<open>\<open>slice::chunk_by\<close>.\<close>

fun chunk_by :: "('a \<Rightarrow> 'a \<Rightarrow> bool) \<Rightarrow> 'a list \<Rightarrow> 'a list list" where
  "chunk_by P [] = []"
| "chunk_by P [x] = [[x]]"
| "chunk_by P (x # y # xs) = (case chunk_by P (y # xs) of
       g # gs \<Rightarrow> (if P x y then (x # g) # gs else [x] # g # gs)
     | [] \<Rightarrow> [[x]])"

fun segment_of :: "plan_unit list \<Rightarrow> segment" where
  "segment_of [Unit_Chunked p] = Seg_Chunk p"
| "segment_of us = Seg_Sql us"

definition segments :: "plan_unit list \<Rightarrow> segment list" where
  "segments us = map segment_of (chunk_by (\<lambda>a b. \<not> is_chunked a \<and> \<not> is_chunked b) us)"

subsection \<open>The progress row\<close>

record progress =
  pg_hash :: str
  pg_segment :: nat
  pg_cursor :: "str list option"
  pg_rows :: nat

definition is_digit :: "char \<Rightarrow> bool" where
  "is_digit c \<longleftrightarrow> 48 \<le> (of_char c :: nat) \<and> (of_char c :: nat) \<le> 57"

text \<open>\<open>str::parse::<u64>\<close>.\<close>

definition parse_u64 :: "str \<Rightarrow> nat option" where
  "parse_u64 s =
     (let t = (case strip_prefix ''+'' s of Some r \<Rightarrow> r | None \<Rightarrow> s);
          n = foldl (\<lambda>n c. 10 * n + ((of_char c :: nat) - 48)) 0 t in
      if t = [] \<or> \<not> list_all is_digit t \<or> 2 ^ 64 \<le> n then None else Some n)"

definition count_field :: "row \<Rightarrow> str \<Rightarrow> nat" where
  "count_field r k = (case map_of r k of
       Some (J_Int n) \<Rightarrow> nat n
     | Some (J_Str s) \<Rightarrow> (case parse_u64 s of Some n \<Rightarrow> n | None \<Rightarrow> 0)
     | _ \<Rightarrow> 0)"

text \<open>\<open>i64::try_from(n).unwrap_or(i64::MAX)\<close>.\<close>

definition to_i64 :: "nat \<Rightarrow> int" where
  "to_i64 n = min (int n) (2 ^ 63 - 1)"

definition clear_progress :: "'b host \<Rightarrow> dialect \<Rightarrow> str \<Rightarrow> ('b, db_error, unit) act" where
  "clear_progress h d key =
     then_do (call id (h_execute h (clear_progress_sql d) [V_Text key])) (\<lambda>_. ret ())"

definition progress_params :: "'b host \<Rightarrow> str \<Rightarrow> str \<Rightarrow> nat \<Rightarrow> str list option \<Rightarrow> nat \<Rightarrow> sql_value list" where
  "progress_params h key hash seg cursor rows =
     [V_Text key, V_Text hash, V_Int (to_i64 seg),
      (case cursor of None \<Rightarrow> V_Null | Some c \<Rightarrow> V_Text (h_list_text h c)), V_Int (to_i64 rows)]"

definition save_progress ::
  "'b host \<Rightarrow> dialect \<Rightarrow> str \<Rightarrow> str \<Rightarrow> nat \<Rightarrow> str list option \<Rightarrow> nat \<Rightarrow> ('b, db_error, unit) act" where
  "save_progress h d key hash seg cursor rows =
     then_do (clear_progress h d key) (\<lambda>_.
     then_do (call id (h_execute h (save_progress_sql d) (progress_params h key hash seg cursor rows))) (\<lambda>_.
     ret ()))"

definition progress_of_row :: "'b host \<Rightarrow> row \<Rightarrow> progress" where
  "progress_of_row h r =
     \<lparr>pg_hash = field_text h r ''content_hash'',
      pg_segment = count_field r ''segment'',
      pg_cursor = (case map_of r ''cursor'' of Some (J_Str s) \<Rightarrow> h_list_read h s | _ \<Rightarrow> None),
      pg_rows = count_field r ''rows_done''\<rparr>"

definition read_progress :: "'b host \<Rightarrow> dialect \<Rightarrow> str \<Rightarrow> ('b, db_error, progress option) act" where
  "read_progress h d key =
     then_do (call id (h_fetch h (read_progress_sql d) [V_Text key])) (\<lambda>rows.
     ret (case rows of [] \<Rightarrow> None | r # _ \<Rightarrow> Some (progress_of_row h r)))"

subsection \<open>One segment\<close>

text \<open>The statements in order; a failure names its stage.\<close>

fun execute_all :: "'b host \<Rightarrow> (nat \<Rightarrow> str) \<Rightarrow> nat \<Rightarrow> bound list \<Rightarrow> ('b, str \<times> db_error, unit) act" where
  "execute_all h stage i [] = ret ()"
| "execute_all h stage i (s # ss) =
     then_do (call (\<lambda>e. (stage (Suc i), e)) (h_execute h (bd_sql s) (bd_params s)))
       (\<lambda>_. execute_all h stage (Suc i) ss)"

definition rollback_and_fail :: "'b host \<Rightarrow> tx \<Rightarrow> 'e \<Rightarrow> ('b, 'e, 'a) act" where
  "rollback_and_fail h t e = attempt (tx_rollback h t) (\<lambda>_. fail e)"

definition resume_begin :: "'b host \<Rightarrow> dialect \<Rightarrow> migration_run \<Rightarrow> bool \<Rightarrow> ('b, migrate_error, tx) act" where
  "resume_begin h d r rebuild =
     then_do (call Db_Error (h_checkout h [])) (\<lambda>_. call (failed d r ''begin'') (tx_begin h rebuild))"

definition ledger_op :: "dialect \<Rightarrow> migration_run \<Rightarrow> str \<times> sql_value list" where
  "ledger_op d r = (if rn_down r then (delete_ledger_sql d, [V_Text (rn_id r)])
     else (insert_ledger_sql d, [V_Text (rn_id r), V_Text (rn_hash r)]))"

definition finish_segment :: "'b host \<Rightarrow> dialect \<Rightarrow> migration_run \<Rightarrow> nat \<Rightarrow> bool \<Rightarrow> ('b, db_error, unit) act" where
  "finish_segment h d r i is_last =
     (if \<not> is_last then save_progress h d (run_key r) (rn_hash r) (Suc i) None 0
      else then_do (clear_progress h d (run_key r)) (\<lambda>_.
        then_do (call id (h_execute h (fst (ledger_op d r)) (snd (ledger_op d r)))) (\<lambda>_. ret ())))"

definition finish :: "'b host \<Rightarrow> dialect \<Rightarrow> migration_run \<Rightarrow> tx \<Rightarrow> nat \<Rightarrow> bool \<Rightarrow> ('b, migrate_error, unit) act" where
  "finish h d r t i is_last =
     match_do (finish_segment h d r i is_last)
       (\<lambda>e. rollback_and_fail h t (failed d r ''progress update'' e))
       (\<lambda>_. call (failed d r ''commit'') (tx_commit h t))"

definition segment_stage :: "nat \<Rightarrow> nat \<Rightarrow> nat \<Rightarrow> str" where
  "segment_stage i of_all n = ''segment '' @ dec (Suc i) @ '' statement '' @ dec n @ '' of '' @ dec of_all"

definition run_plain_segment ::
  "'b host \<Rightarrow> dialect \<Rightarrow> migration_run \<Rightarrow> 'b apply_opts \<Rightarrow> plan_unit list \<Rightarrow> nat \<Rightarrow> bool \<Rightarrow>
   ('b, migrate_error, unit) act" where
  "run_plain_segment h d r opts us i is_last =
     then_do (bind_all us (rn_id r) (ao_mint opts)) (\<lambda>bound.
     then_do (resume_begin h d r (has_rebuild d (map bd_sql bound))) (\<lambda>t.
     match_do (execute_all h (segment_stage i (length bound)) 0 bound)
       (\<lambda>(stage, e). rollback_and_fail h t (failed d r stage e))
       (\<lambda>_. finish h d r t i is_last)))"

definition key_of :: "chunk_plan \<Rightarrow> row \<Rightarrow> migrate_error + str list" where
  "key_of p r = map_res (\<lambda>k.
     ok_or (Artifact (''chunked step on `'' @ cp_table p @ ''`: key `'' @ k @ ''` read back null or unsupported''))
       (Option.bind (map_of r k) (key_literal p))) (cp_key_columns p)"

fun chunks ::
  "nat \<Rightarrow> 'b host \<Rightarrow> dialect \<Rightarrow> migration_run \<Rightarrow> chunk_plan \<Rightarrow> nat \<Rightarrow> bool \<Rightarrow> str list option \<Rightarrow> nat \<Rightarrow>
   ('b, migrate_error, unit) act" where
  "chunks 0 h d r p i is_last cursor rows = (\<lambda>b. None)"
| "chunks (Suc fuel) h d r p i is_last cursor rows =
     then_do (resume_begin h d r False) (\<lambda>t.
     then_do (call (failed d r (cp_table p @ '' batch select'')) (h_fetch h (select_sql p cursor) [])) (\<lambda>keys.
     if keys = [] then finish h d r t i is_last
     else case key_of p (last keys) of
       Inl e \<Rightarrow> fail e
     | Inr k \<Rightarrow>
       then_do (call (failed d r (cp_table p @ '' batch write'')) (h_execute h (apply_sql p cursor k) [])) (\<lambda>_.
       then_do (map_err (failed d r ''progress update'')
         (save_progress h d (run_key r) (rn_hash r) i (Some k) (rows + length keys))) (\<lambda>_.
       then_do (call (failed d r ''commit'') (tx_commit h t)) (\<lambda>_.
       chunks fuel h d r p i is_last (Some k) (rows + length keys))))))"

subsection \<open>The run\<close>

text \<open>The segments from the \<open>i\<close>-th on, the first of them resumed at the saved position.\<close>

fun run_segments ::
  "nat \<Rightarrow> 'b host \<Rightarrow> dialect \<Rightarrow> migration_run \<Rightarrow> 'b apply_opts \<Rightarrow> progress option \<Rightarrow> nat \<Rightarrow> nat \<Rightarrow> segment list \<Rightarrow>
   ('b, migrate_error, unit) act" where
  "run_segments fuel h d r opts saved final i [] = ret ()"
| "run_segments fuel h d r opts saved final i (s # ss) =
     then_do (case s of
         Seg_Sql us \<Rightarrow> run_plain_segment h d r opts us i (i = final)
       | Seg_Chunk p \<Rightarrow>
           (case saved of
              Some g \<Rightarrow> (if pg_segment g = i then chunks fuel h d r p i (i = final) (pg_cursor g) (pg_rows g)
                         else chunks fuel h d r p i (i = final) None 0)
            | None \<Rightarrow> chunks fuel h d r p i (i = final) None 0))
       (\<lambda>_. run_segments fuel h d r opts saved final (Suc i) ss)"

definition run_resumable ::
  "nat \<Rightarrow> 'b host \<Rightarrow> dialect \<Rightarrow> migration_run \<Rightarrow> 'b apply_opts \<Rightarrow> ('b, migrate_error, unit) act" where
  "run_resumable fuel h d r opts =
     then_do (call Db_Error (h_checkout h [])) (\<lambda>_.
     then_do (call Db_Error (h_execute h (create_progress_sql d) [])) (\<lambda>_.
     then_do (map_err Db_Error (read_progress h d (run_key r))) (\<lambda>saved.
     let segs = segments (rn_units r);
         start = (case saved of Some g \<Rightarrow> pg_segment g | None \<Rightarrow> 0) in
     case saved of
       Some g \<Rightarrow> (if pg_hash g \<noteq> rn_hash r then fail (Tamper (rn_id r) (pg_hash g) (rn_hash r))
                  else run_segments fuel h d r opts saved (length segs - 1) start (drop start segs))
     | None \<Rightarrow> run_segments fuel h d r opts saved (length segs - 1) start (drop start segs))))"

end
