(* ===== verification/Ledger.thy ===== *)
theory Ledger
  imports Resume
begin

text \<open>
  \<open>based-runtime/src/migrate.rs\<close>: applying and rolling back migrations against the ledger. The
  guards that refuse a run are functions from the migrations and the ledger to the error; the
  two phases are recursions over the migrations they run, in the order the source sorts them.
\<close>

subsection \<open>Migrations and reports\<close>

record planned_migration =
  pm_number :: nat
  pm_id :: str
  pm_up :: "plan_unit list"
  pm_up_hash :: str
  pm_destructive :: bool
  pm_rename_hints :: "str list"
  pm_down :: "plan_unit list option"

record apply_report =
  ar_applied :: "str list"
  ar_rolled_back :: "str list"

subsection \<open>The ledger\<close>

definition ensure_ledger :: "'b host \<Rightarrow> dialect \<Rightarrow> ('b, db_error, unit) act" where
  "ensure_ledger h d = then_do (call id (h_execute h (create_ledger_sql d) [])) (\<lambda>_. ret ())"

definition ledger_row_of :: "'b host \<Rightarrow> row \<Rightarrow> ledger_row" where
  "ledger_row_of h r = \<lparr>lr_id = field_text h r ''id'', lr_hash = field_text h r ''content_hash'',
     lr_applied_at = field_text h r ''applied_at''\<rparr>"

definition read_ledger :: "'b host \<Rightarrow> dialect \<Rightarrow> ('b, db_error, ledger_row list) act" where
  "read_ledger h d =
     then_do (call id (h_fetch h (applied_sql d) [])) (\<lambda>rows. ret (map (ledger_row_of h) rows))"

subsection \<open>Guards\<close>

text \<open>Every applied migration is still on disk, unedited.\<close>

fun history_problem :: "planned_migration list \<Rightarrow> ledger_row list \<Rightarrow> migrate_error option" where
  "history_problem ms [] = None"
| "history_problem ms (row # rows) = (case find (\<lambda>m. pm_id m = lr_id row) ms of
       Some m \<Rightarrow> (if pm_up_hash m \<noteq> lr_hash row
                  then Some (Tamper (lr_id row) (lr_hash row) (pm_up_hash m))
                  else history_problem ms rows)
     | None \<Rightarrow> Some (Order_Error (''migration `'' @ lr_id row @
                  ''` is recorded in the ledger but missing from disk'')))"

definition max_number :: "planned_migration list \<Rightarrow> nat option" where
  "max_number ms = (case map pm_number ms of [] \<Rightarrow> None | n # ns \<Rightarrow> Some (fold max ns n))"

definition is_applied :: "ledger_row list \<Rightarrow> planned_migration \<Rightarrow> bool" where
  "is_applied ledger m \<longleftrightarrow> pm_id m \<in> lr_id ` set ledger"

definition latest_applied :: "planned_migration list \<Rightarrow> ledger_row list \<Rightarrow> nat option" where
  "latest_applied ms ledger = max_number (filter (is_applied ledger) ms)"

definition prefix_problem :: "planned_migration list \<Rightarrow> ledger_row list \<Rightarrow> migrate_error option" where
  "prefix_problem ms ledger = (case latest_applied ms ledger of
       None \<Rightarrow> None
     | Some newest \<Rightarrow> (case find (\<lambda>m. \<not> is_applied ledger m) (filter (\<lambda>m. pm_number m < newest) ms) of
         Some m \<Rightarrow> Some (Order_Error (''migration `'' @ pm_id m @
           ''` is unapplied but a later migration is applied '' @ em_dash @
           '' the ledger must be a contiguous prefix''))
       | None \<Rightarrow> None))"

definition keep_max :: "direction \<Rightarrow> planned_migration list \<Rightarrow> ledger_row list \<Rightarrow> nat" where
  "keep_max dir ms ledger = (case dir of
       Dir_Up \<Rightarrow> (if ms = [] then 0 else pm_number (last ms))
     | Dir_To n \<Rightarrow> n
     | Dir_Down \<Rightarrow> (case latest_applied ms ledger of
         Some newest \<Rightarrow>
           (case max_number (filter (\<lambda>m. is_applied ledger m \<and> pm_number m < newest) ms) of
              Some n \<Rightarrow> n | None \<Rightarrow> 0)
       | None \<Rightarrow> 0))"

definition rollback_list :: "nat \<Rightarrow> planned_migration list \<Rightarrow> ledger_row list \<Rightarrow> planned_migration list" where
  "rollback_list keep ms ledger =
     sort_key (\<lambda>m. - int (pm_number m)) (filter (\<lambda>m. is_applied ledger m \<and> keep < pm_number m) ms)"

definition forward_list :: "nat \<Rightarrow> planned_migration list \<Rightarrow> ledger_row list \<Rightarrow> planned_migration list" where
  "forward_list keep ms ledger =
     sort_key pm_number (filter (\<lambda>m. \<not> is_applied ledger m \<and> pm_number m \<le> keep) ms)"

subsection \<open>One migration\<close>

definition statement_stage :: "nat \<Rightarrow> nat \<Rightarrow> str" where
  "statement_stage of_all n = ''statement '' @ dec n @ '' of '' @ dec of_all"

definition run_statements ::
  "'b host \<Rightarrow> dialect \<Rightarrow> migration_run \<Rightarrow> bound list \<Rightarrow> ('b, str \<times> db_error, unit) act" where
  "run_statements h d r bound =
     then_do (execute_all h (statement_stage (length bound)) 0 bound) (\<lambda>_.
     then_do (call (\<lambda>e. (''ledger update'', e)) (h_execute h (fst (ledger_op d r)) (snd (ledger_op d r)))) (\<lambda>_.
     ret ()))"

definition run_in_tx ::
  "'b host \<Rightarrow> dialect \<Rightarrow> migration_run \<Rightarrow> bound list \<Rightarrow> ('b, migrate_error, unit) act" where
  "run_in_tx h d r bound =
     then_do (call (failed d r ''checkout'') (h_checkout h [])) (\<lambda>_.
     then_do (call (failed d r ''begin'') (tx_begin h (has_rebuild d (map bd_sql bound)))) (\<lambda>t.
     match_do (run_statements h d r bound)
       (\<lambda>(stage, e). rollback_and_fail h t (failed d r stage e))
       (\<lambda>_. call (failed d r ''commit'') (tx_commit h t))))"

definition run_migration ::
  "nat \<Rightarrow> 'b host \<Rightarrow> dialect \<Rightarrow> migration_run \<Rightarrow> 'b apply_opts \<Rightarrow> ('b, migrate_error, unit) act" where
  "run_migration fuel h d r opts =
     (if list_ex is_chunked (rn_units r) then run_resumable fuel h d r opts
      else then_do (bind_all (rn_units r) (rn_id r) (ao_mint opts)) (run_in_tx h d r))"

subsection \<open>The two phases\<close>

definition up_run :: "planned_migration \<Rightarrow> migration_run" where
  "up_run m = \<lparr>rn_id = pm_id m, rn_hash = pm_up_hash m, rn_down = False, rn_units = pm_up m\<rparr>"

definition down_run :: "planned_migration \<Rightarrow> plan_unit list \<Rightarrow> migration_run" where
  "down_run m us = \<lparr>rn_id = pm_id m, rn_hash = pm_up_hash m, rn_down = True, rn_units = us\<rparr>"

fun roll_back_all ::
  "nat \<Rightarrow> 'b host \<Rightarrow> dialect \<Rightarrow> 'b apply_opts \<Rightarrow> planned_migration list \<Rightarrow> str list \<Rightarrow>
   ('b, migrate_error, str list) act" where
  "roll_back_all fuel h d opts [] done_ids = ret done_ids"
| "roll_back_all fuel h d opts (m # ms) done_ids = (case pm_down m of
       None \<Rightarrow> fail (No_Down (pm_id m))
     | Some us \<Rightarrow> then_do (run_migration fuel h d (down_run m us) opts)
         (\<lambda>_. roll_back_all fuel h d opts ms (done_ids @ [pm_id m])))"

fun roll_forward_all ::
  "nat \<Rightarrow> 'b host \<Rightarrow> dialect \<Rightarrow> 'b apply_opts \<Rightarrow> planned_migration list \<Rightarrow> str list \<Rightarrow>
   ('b, migrate_error, str list) act" where
  "roll_forward_all fuel h d opts [] done_ids = ret done_ids"
| "roll_forward_all fuel h d opts (m # ms) done_ids =
     (if pm_destructive m \<and> \<not> ao_allow_destructive opts then fail (Destructive (pm_id m) done_ids)
      else then_do (run_migration fuel h d (up_run m) opts)
        (\<lambda>_. roll_forward_all fuel h d opts ms (done_ids @ [pm_id m])))"

definition apply_migrations ::
  "nat \<Rightarrow> 'b host \<Rightarrow> dialect \<Rightarrow> planned_migration list \<Rightarrow> 'b apply_opts \<Rightarrow> ('b, migrate_error, apply_report) act" where
  "apply_migrations fuel h d ms opts =
     then_do (call Db_Error (h_checkout h [])) (\<lambda>_.
     then_do (map_err Db_Error (ensure_ledger h d)) (\<lambda>_.
     then_do (map_err Db_Error (read_ledger h d)) (\<lambda>ledger.
     case history_problem ms ledger of
       Some e \<Rightarrow> fail e
     | None \<Rightarrow> (case prefix_problem ms ledger of
       Some e \<Rightarrow> fail e
     | None \<Rightarrow>
       let keep = keep_max (ao_direction opts) ms ledger in
       then_do (roll_back_all fuel h d opts (rollback_list keep ms ledger) []) (\<lambda>rolled_back.
       then_do (roll_forward_all fuel h d opts (forward_list keep ms ledger) []) (\<lambda>applied.
       ret \<lparr>ar_applied = applied, ar_rolled_back = rolled_back\<rparr>))))))"

subsection \<open>Status\<close>

datatype migration_state =
    State_Applied
  | Hash_Mismatch str str
  | State_Pending

definition migration_state_of :: "ledger_row list \<Rightarrow> planned_migration \<Rightarrow> migration_state" where
  "migration_state_of ledger m = (case find (\<lambda>r. lr_id r = pm_id m) ledger of
       None \<Rightarrow> State_Pending
     | Some r \<Rightarrow> (if lr_hash r = pm_up_hash m then State_Applied else Hash_Mismatch (lr_hash r) (pm_up_hash m)))"

definition status :: "planned_migration list \<Rightarrow> ledger_row list \<Rightarrow> (str \<times> migration_state) list" where
  "status ms ledger = map (\<lambda>m. (pm_id m, migration_state_of ledger m)) ms"

end
