(* ===== verification/Transactions.thy ===== *)
theory Transactions
  imports Migration_Sql
begin

text \<open>
  What the runner may rely on of a database whose DDL is transactional, in the terms of its
  documentation: the statements that took effect, committed or in the open transaction, as a
  history. \<open>transactional\<close> is a hypothesis about the drivers, which are not part of the program;
  the rules that follow say what each call of the runner does to the committed history. The
  statements that are not part of a migration (the \<open>CREATE TABLE IF NOT EXISTS\<close> of the engine's
  own tables, the foreign key pragmas) are left out of it by \<open>work\<close>.
\<close>

type_synonym hist = "(str \<times> sql_value list) list"

text \<open>The committed history and, inside a transaction, the history it sees.\<close>

type_synonym 'b view = "'b \<Rightarrow> hist \<times> hist option"

fun after :: "str \<Rightarrow> sql_value list \<Rightarrow> hist \<times> hist option \<Rightarrow> hist \<times> hist option" where
  "after sql ps (c, None) =
     (if sql = ''BEGIN'' then (c, Some c)
      else if sql = ''COMMIT'' \<or> sql = ''ROLLBACK'' then (c, None)
      else (c @ [(sql, ps)], None))"
| "after sql ps (c, Some w) =
     (if sql = ''COMMIT'' then (w, None)
      else if sql = ''ROLLBACK'' then (c, None)
      else (c, Some (w @ [(sql, ps)])))"

text \<open>
  A failed statement commits nothing, except that a failed commit may have taken effect
  before the error was reported. A checkout starts outside any transaction: one abandoned by an
  early return is rolled back.
\<close>

definition transactional :: "'b host \<Rightarrow> 'b view \<Rightarrow> bool" where
  "transactional h v \<longleftrightarrow>
     (\<forall>k b r b'. h_checkout h k b = (r, b') \<longrightarrow> v b' = (fst (v b), None))
   \<and> (\<forall>b r b'. h_begin h b = (r, b') \<longrightarrow>
        fst (v b') = fst (v b) \<and> (r = Inr () \<longrightarrow> snd (v b') = Some (fst (v b))))
   \<and> (\<forall>sql ps b n b'. h_execute h sql ps b = (Inr n, b') \<longrightarrow> v b' = after sql ps (v b))
   \<and> (\<forall>sql ps b e b'. h_execute h sql ps b = (Inl e, b') \<longrightarrow>
        fst (v b') = fst (v b) \<or> sql = ''COMMIT'' \<and> v b' = after sql ps (v b))
   \<and> (\<forall>sql ps b r b'. h_fetch h sql ps b = (r, b') \<longrightarrow> v b' = v b)
   \<and> (\<forall>b r b'. h_commit h b = (r, b') \<longrightarrow>
        (case r of Inr _ \<Rightarrow> v b' = after ''COMMIT'' [] (v b)
         | Inl e \<Rightarrow> fst (v b') = fst (v b) \<or> fst (v b') = fst (after ''COMMIT'' [] (v b))))
   \<and> (\<forall>b r b'. h_rollback h b = (r, b') \<longrightarrow> fst (v b') = fst (v b))"

text \<open>An id generator draws from outside the database.\<close>

definition mints_only :: "'b mint option \<Rightarrow> 'b view \<Rightarrow> bool" where
  "mints_only mint v \<longleftrightarrow> (\<forall>f k b. mint = Some f \<longrightarrow> v (snd (f k b)) = v b)"

subsection \<open>The part of the history that migrations make\<close>

definition control_sql :: "str list" where
  "control_sql = [''BEGIN'', ''COMMIT'', ''ROLLBACK'']"

definition housekeeping :: "dialect \<Rightarrow> str list" where
  "housekeeping d = [create_ledger_sql d, create_progress_sql d,
     ''PRAGMA foreign_keys = ON'', ''PRAGMA foreign_keys = OFF'']"

definition work :: "dialect \<Rightarrow> hist \<Rightarrow> hist" where
  "work d xs = filter (\<lambda>s. fst s \<notin> set (housekeeping d)) xs"

lemma work_append [simp]: "work d (xs @ ys) = work d xs @ work d ys"
  by (simp add: work_def)

lemma work_Nil [simp]: "work d [] = []"
  by (simp add: work_def)

lemma work_housekeeping [simp]: "sql \<in> set (housekeeping d) \<Longrightarrow> work d [(sql, ps)] = []"
  by (simp add: work_def)

lemma work_other [simp]: "sql \<notin> set (housekeeping d) \<Longrightarrow> work d [(sql, ps)] = [(sql, ps)]"
  by (simp add: work_def)

lemma housekeeping_pragma [simp]:
  "''PRAGMA foreign_keys = ON'' \<in> set (housekeeping d)" "''PRAGMA foreign_keys = OFF'' \<in> set (housekeeping d)"
  "create_ledger_sql d \<in> set (housekeeping d)" "create_progress_sql d \<in> set (housekeeping d)"
  by (simp_all add: housekeeping_def)

lemma control_simps [simp]:
  "''BEGIN'' \<in> set control_sql" "''COMMIT'' \<in> set control_sql" "''ROLLBACK'' \<in> set control_sql"
  by (simp_all add: control_sql_def)

definition stored :: "dialect \<Rightarrow> 'b view \<Rightarrow> hist \<Rightarrow> 'b \<Rightarrow> bool" where
  "stored d v c b \<longleftrightarrow> work d (fst (v b)) = c"

definition at_rest :: "dialect \<Rightarrow> 'b view \<Rightarrow> hist \<Rightarrow> 'b \<Rightarrow> bool" where
  "at_rest d v c b \<longleftrightarrow> work d (fst (v b)) = c \<and> snd (v b) = None"

definition in_tx :: "dialect \<Rightarrow> 'b view \<Rightarrow> hist \<Rightarrow> hist \<Rightarrow> 'b \<Rightarrow> bool" where
  "in_tx d v c w b \<longleftrightarrow> work d (fst (v b)) = c \<and> (\<exists>x. snd (v b) = Some x \<and> work d x = w)"

lemma rest_stored: "at_rest d v c b \<Longrightarrow> stored d v c b"
  by (simp add: at_rest_def stored_def)

lemma tx_stored: "in_tx d v c w b \<Longrightarrow> stored d v c b"
  by (auto simp: in_tx_def stored_def)

subsection \<open>The calls of the runner\<close>

lemma law_checkout: "transactional h v \<Longrightarrow> h_checkout h k b = (r, b') \<Longrightarrow> v b' = (fst (v b), None)"
  unfolding transactional_def by metis

lemma law_begin: "transactional h v \<Longrightarrow> h_begin h b = (r, b') \<Longrightarrow>
    fst (v b') = fst (v b) \<and> (r = Inr () \<longrightarrow> snd (v b') = Some (fst (v b)))"
  unfolding transactional_def by metis

lemma law_execute: "transactional h v \<Longrightarrow> h_execute h sql ps b = (Inr n, b') \<Longrightarrow> v b' = after sql ps (v b)"
  unfolding transactional_def by metis

lemma law_execute_fails: "transactional h v \<Longrightarrow> h_execute h sql ps b = (Inl e, b') \<Longrightarrow>
    fst (v b') = fst (v b) \<or> sql = ''COMMIT'' \<and> v b' = after sql ps (v b)"
  unfolding transactional_def by blast

lemma law_fetch: "transactional h v \<Longrightarrow> h_fetch h sql ps b = (r, b') \<Longrightarrow> v b' = v b"
  unfolding transactional_def by blast

lemma law_commit: "transactional h v \<Longrightarrow> h_commit h b = (r, b') \<Longrightarrow>
    (case r of Inr _ \<Rightarrow> v b' = after ''COMMIT'' [] (v b)
     | Inl e \<Rightarrow> fst (v b') = fst (v b) \<or> fst (v b') = fst (after ''COMMIT'' [] (v b)))"
  unfolding transactional_def by blast

lemma law_rollback: "transactional h v \<Longrightarrow> h_rollback h b = (r, b') \<Longrightarrow> fst (v b') = fst (v b)"
  unfolding transactional_def by blast

lemma after_commit: "fst (after ''COMMIT'' ps (c, w)) = (case w of None \<Rightarrow> c | Some x \<Rightarrow> x)"
  by (cases w) simp_all

lemma after_rollback: "fst (after ''ROLLBACK'' ps s) = fst s"
  by (cases s; cases "snd s") auto

lemma after_housekeeping:
  "sql \<in> set (housekeeping d) \<Longrightarrow> sql \<notin> set control_sql \<Longrightarrow>
   work d (fst (after sql ps s)) = work d (fst s) \<and>
   (snd (after sql ps s) = None \<longleftrightarrow> snd s = None)"
  by (cases s; cases "snd s") (auto simp: control_sql_def)

lemma pragma_not_control [simp]:
  "''PRAGMA foreign_keys = ON'' \<notin> set control_sql" "''PRAGMA foreign_keys = OFF'' \<notin> set control_sql"
  by (simp_all add: control_sql_def)

lemma pragma_stored:
  assumes "transactional h v" "sql \<in> set (housekeeping d)" "sql \<notin> set control_sql"
    "h_execute h sql ps b = (r, b')"
  shows "work d (fst (v b')) = work d (fst (v b)) \<and>
    ((\<exists>n. r = Inr n) \<longrightarrow> (snd (v b') = None \<longleftrightarrow> snd (v b) = None))"
proof (cases r)
  case (Inl e)
  with assms have "fst (v b') = fst (v b)"
    using law_execute_fails [OF assms(1), of sql ps b e b'] by auto
  with Inl show ?thesis by simp
next
  case (Inr n)
  with assms have "v b' = after sql ps (v b)" using law_execute [OF assms(1)] by blast
  then show ?thesis using after_housekeeping [OF assms(2,3), of ps "v b"] by simp
qed

lemma restore_stored:
  assumes "transactional h v" "restore h b = (r, b')"
  shows "work d (fst (v b')) = work d (fst (v b))"
proof -
  obtain r1 where "h_execute h ''PRAGMA foreign_keys = ON'' [] b = (r1, b')"
    using assms(2) by (auto simp: restore_def split: prod.splits sum.splits)
  from pragma_stored [OF assms(1) _ _ this] show ?thesis by simp
qed

lemma restore_then_fail_stored:
  "transactional h v \<Longrightarrow> restore_then_fail h e b = (r, b') \<Longrightarrow>
   work d (fst (v b')) = work d (fst (v b)) \<and> (\<exists>e'. r = Inl e')"
  by (auto simp: restore_then_fail_def split: prod.splits sum.splits dest: restore_stored [where d = d])

lemma rollback_stored:
  assumes "transactional h v" "h_execute h ''ROLLBACK'' [] b = (r, b')"
  shows "fst (v b') = fst (v b)"
proof (cases r)
  case (Inl e)
  with assms show ?thesis using law_execute_fails [OF assms(1), of "''ROLLBACK''" "[]" b e b'] by auto
next
  case (Inr n)
  with assms have "v b' = after ''ROLLBACK'' [] (v b)" using law_execute [OF assms(1)] by blast
  then show ?thesis by (simp add: after_rollback)
qed

lemma abandon_stored:
  assumes t: "transactional h v" and r: "abandon h e b = (r, b')"
  shows "work d (fst (v b')) = work d (fst (v b)) \<and> (\<exists>e'. r = Inl e')"
proof -
  obtain r1 b1 where x: "h_execute h ''ROLLBACK'' [] b = (r1, b1)" by (cases "h_execute h ''ROLLBACK'' [] b")
  with r have "restore_then_fail h e b1 = (r, b')" by (simp add: abandon_def)
  from restore_then_fail_stored [OF t this, of d] rollback_stored [OF t x] show ?thesis by simp
qed

lemma begin_with_tx:
  "transactional h v \<Longrightarrow> begin_with h t b = (r, b') \<Longrightarrow>
   fst (v b') = fst (v b) \<and> (r = Inr t' \<longrightarrow> snd (v b') = Some (fst (v b)))"
  by (auto simp: begin_with_def split: prod.splits sum.splits dest!: law_begin)

lemma triple_checkout:
  "transactional h v \<Longrightarrow> triple (stored d v c) (call f (h_checkout h k)) (\<lambda>_. at_rest d v c) (\<lambda>_. stored d v c)"
  by (rule triple_call) (auto simp: stored_def at_rest_def dest!: law_checkout)

lemma tx_begin_opens:
  assumes t: "transactional h v" and n: "snd (v b) = None" and r: "tx_begin h rebuild b = (r, b')"
  shows "work d (fst (v b')) = work d (fst (v b)) \<and>
    (\<forall>x. r = Inr x \<longrightarrow> (\<exists>w. snd (v b') = Some w \<and> work d w = work d (fst (v b))))"
proof (cases rebuild)
  case False
  then show ?thesis using r begin_with_tx [OF t] by (auto simp: tx_begin_def)
next
  case True
  obtain r1 b1 where e: "enforcing h b = (r1, b1)" by (cases "enforcing h b")
  then have v1: "v b1 = v b"
    using t by (auto simp: enforcing_def split: prod.splits sum.splits list.splits dest!: law_fetch)
  show ?thesis
  proof (cases "r1 = Inr True")
    case False
    with True e r v1 show ?thesis
      using begin_with_tx [OF t, of Driver_Tx b1 r b'] by (auto simp: tx_begin_def split: sum.splits if_splits)
  next
    case on: True
    obtain r2 b2 where x: "h_execute h ''PRAGMA foreign_keys = OFF'' [] b1 = (r2, b2)"
      by (cases "h_execute h ''PRAGMA foreign_keys = OFF'' [] b1")
    have v2: "work d (fst (v b2)) = work d (fst (v b)) \<and> (\<forall>n. r2 = Inr n \<longrightarrow> snd (v b2) = None)"
      using pragma_stored [OF t _ _ x, of d] v1 n by auto
    obtain r3 b3 where y: "h_execute h ''BEGIN'' [] b2 = (r3, b3)" by (cases "h_execute h ''BEGIN'' [] b2")
    show ?thesis
    proof (cases r2)
      case (Inl e2)
      with True e on x r have "b' = b2" "r = Inl e2" by (auto simp: tx_begin_def)
      with v2 show ?thesis by simp
    next
      case (Inr n2)
      with v2 obtain c where vb2: "v b2 = (c, None)" by (cases "v b2") auto
      show ?thesis
      proof (cases r3)
        case (Inl e3)
        then have "fst (v b3) = c" using law_execute_fails [OF t, of "''BEGIN''" "[]" b2] y vb2 by auto
        with Inl Inr True e on x y r v2 vb2 show ?thesis
          using restore_then_fail_stored [OF t, of e3 b3 r b' d] by (auto simp: tx_begin_def)
      next
        case (Inr n3)
        then have "v b3 = (c, Some c)" using law_execute [OF t] y vb2 by fastforce
        with Inr \<open>r2 = Inr n2\<close> True e on x y r v2 vb2 show ?thesis by (auto simp: tx_begin_def)
      qed
    qed
  qed
qed

lemma triple_tx_begin:
  "transactional h v \<Longrightarrow>
   triple (at_rest d v c) (call f (tx_begin h rebuild)) (\<lambda>_. in_tx d v c c) (\<lambda>_. stored d v c)"
  by (rule triple_call) (auto simp: stored_def at_rest_def in_tx_def dest!: tx_begin_opens [of _ _ _ _ _ _ d])

lemma triple_execute:
  assumes "transactional h v" "sql \<notin> set control_sql"
  shows "triple (in_tx d v c w) (call f (h_execute h sql ps)) (\<lambda>_. in_tx d v c (w @ work d [(sql, ps)]))
           (\<lambda>_. stored d v c)"
proof (rule triple_call)
  fix b n b' assume "in_tx d v c w b" "h_execute h sql ps b = (Inr n, b')"
  then show "in_tx d v c (w @ work d [(sql, ps)]) b'"
    using assms law_execute [OF assms(1)] by (cases "v b") (fastforce simp: in_tx_def control_sql_def)
next
  fix b e b' assume "in_tx d v c w b" "h_execute h sql ps b = (Inl e, b')"
  then show "stored d v c b'"
    using assms law_execute_fails [OF assms(1)] by (fastforce simp: in_tx_def stored_def control_sql_def)
qed

lemma triple_execute_plain:
  assumes "transactional h v" "sql \<notin> set control_sql"
  shows "triple (at_rest d v c) (call f (h_execute h sql ps)) (\<lambda>_. at_rest d v (c @ work d [(sql, ps)]))
           (\<lambda>_. stored d v c)"
proof (rule triple_call)
  fix b n b' assume "at_rest d v c b" "h_execute h sql ps b = (Inr n, b')"
  then show "at_rest d v (c @ work d [(sql, ps)]) b'"
    using assms law_execute [OF assms(1)] by (cases "v b") (fastforce simp: at_rest_def control_sql_def)
next
  fix b e b' assume "at_rest d v c b" "h_execute h sql ps b = (Inl e, b')"
  then show "stored d v c b'"
    using assms law_execute_fails [OF assms(1)] by (fastforce simp: at_rest_def stored_def control_sql_def)
qed

lemma fetch_keeps: "transactional h v \<Longrightarrow> h_fetch h sql ps b = (r, b') \<Longrightarrow>
    (in_tx d v c w b' = in_tx d v c w b) \<and> (at_rest d v c b' = at_rest d v c b) \<and> (stored d v c b' = stored d v c b)"
  by (auto simp: in_tx_def at_rest_def stored_def dest!: law_fetch)

lemma tx_commit_stores:
  assumes t: "transactional h v" and i: "in_tx d v c w b" and r: "tx_commit h x b = (r, b')"
  shows "stored d v w b' \<or> stored d v c b' \<and> (\<exists>e. r = Inl e)"
proof -
  obtain q where vb: "v b = (fst (v b), Some q)" "work d q = w" "work d (fst (v b)) = c"
    using i by (cases "v b") (auto simp: in_tx_def)
  show ?thesis
  proof (cases x)
    case Driver_Tx
    with r have "h_commit h b = (r, b')" by simp
    from law_commit [OF t this] vb show ?thesis
      by (cases r) (auto simp: stored_def after_commit split: option.splits, (metis after_commit fst_conv option.simps(5))+)
  next
    case Foreign_Keys_Off
    obtain r1 b1 where f: "h_fetch h ''PRAGMA foreign_key_check'' [] b = (r1, b1)"
      by (cases "h_fetch h ''PRAGMA foreign_key_check'' [] b")
    have v1: "v b1 = v b" using law_fetch [OF t f] .
    obtain r2 b2 where y: "h_execute h ''COMMIT'' [] b1 = (r2, b2)" by (cases "h_execute h ''COMMIT'' [] b1")
    have v2: "fst (v b2) = q \<or> fst (v b2) = fst (v b) \<and> (\<exists>e. r2 = Inl e)"
      using y v1 vb law_execute [OF t, of "''COMMIT''" "[]" b1] law_execute_fails [OF t, of "''COMMIT''" "[]" b1]
      by (cases r2) (metis after.simps(2) fst_conv)+
    have ab: "abandon h e s = (r, b') \<Longrightarrow> work d (fst (v b')) = work d (fst (v s)) \<and> (\<exists>e. r = Inl e)" for e s
      using abandon_stored [OF t] by blast
    have re: "restore h b2 = (r, b') \<Longrightarrow> work d (fst (v b')) = work d (fst (v b2))"
      using restore_stored [OF t] .
    show ?thesis
      using r Foreign_Keys_Off f y v1 v2 vb ab re
      by (auto simp: stored_def split: sum.splits if_splits)
  qed
qed

lemma triple_tx_commit:
  "transactional h v \<Longrightarrow>
   triple (in_tx d v c w) (call f (tx_commit h x)) (\<lambda>_. stored d v w) (\<lambda>_ b. stored d v c b \<or> stored d v w b)"
  by (rule triple_call) (auto dest!: tx_commit_stores)

lemma tx_rollback_stored:
  assumes t: "transactional h v" and r: "tx_rollback h x b = (r, b')"
  shows "work d (fst (v b')) = work d (fst (v b))"
proof (cases x)
  case Driver_Tx
  with r law_rollback [OF t] show ?thesis by simp
next
  case Foreign_Keys_Off
  obtain r1 b1 where e: "h_execute h ''ROLLBACK'' [] b = (r1, b1)" by (cases "h_execute h ''ROLLBACK'' [] b")
  from rollback_stored [OF t e] have "fst (v b1) = fst (v b)" .
  with Foreign_Keys_Off r e show ?thesis
    using restore_stored [OF t, of b1 r b' d] by (auto split: sum.splits)
qed

lemma triple_roll_back:
  "transactional h v \<Longrightarrow>
   triple (stored d v c) (attempt (tx_rollback h x) (\<lambda>_. fail e)) Q (\<lambda>_. stored d v c)"
  by (rule triple_attempt [where R = "\<lambda>_. stored d v c"])
    (auto simp: stored_def intro!: triple_fail dest!: tx_rollback_stored [of _ _ _ _ _ _ d])

end
