(* ===== verification/Ledger_Correct.thy ===== *)
theory Ledger_Correct
  imports Ledger Transactions
begin

text \<open>
  What applying migrations does to the committed history: it grows by whole migrations, each
  with its ledger write, whatever fails. From that, the ledger stays a contiguous prefix of the
  migrations on disk, and a run that succeeds leaves the prefix its direction asks for.
\<close>

subsection \<open>The runner's own statements\<close>

definition engine_sql :: "dialect \<Rightarrow> str list" where
  "engine_sql d = [insert_ledger_sql d, delete_ledger_sql d, save_progress_sql d, clear_progress_sql d]"

lemmas engine_texts = create_ledger_sql_def create_progress_sql_def insert_ledger_sql_def delete_ledger_sql_def
  save_progress_sql_def clear_progress_sql_def ledger_table_def progress_table_def progress_columns_def
  quoted_cols_def replace_char_def

lemma engine_sql_kinds [simp]:
  "insert_ledger_sql d \<notin> set control_sql" "delete_ledger_sql d \<notin> set control_sql"
  "save_progress_sql d \<notin> set control_sql" "clear_progress_sql d \<notin> set control_sql"
  "create_ledger_sql d \<notin> set control_sql" "create_progress_sql d \<notin> set control_sql"
  by (simp_all add: control_sql_def engine_texts split: prod.split)

lemma engine_sql_work [simp]:
  "insert_ledger_sql d \<notin> set (housekeeping d)" "delete_ledger_sql d \<notin> set (housekeeping d)"
  "save_progress_sql d \<notin> set (housekeeping d)" "clear_progress_sql d \<notin> set (housekeeping d)"
  by (simp_all add: housekeeping_def) (simp_all add: engine_texts split: prod.split)

lemma engine_sql_distinct [simp]:
  "insert_ledger_sql d \<noteq> delete_ledger_sql d" "delete_ledger_sql d \<noteq> insert_ledger_sql d"
  by (cases d; simp add: engine_texts)+

text \<open>SQL a migration's author or planner may write: none that opens or closes a transaction or
  writes the engine's own tables.\<close>

fun unit_sql :: "plan_unit \<Rightarrow> str" where
  "unit_sql (Unit_Sql s) = s"
| "unit_sql (Unit_Minted s _) = s"
| "unit_sql (Unit_Chunked p) = []"

definition plain_units :: "dialect \<Rightarrow> plan_unit list \<Rightarrow> bool" where
  "plain_units d us \<longleftrightarrow> list_all (\<lambda>u. \<not> is_chunked u \<and> unit_sql u \<notin> set control_sql \<union> set (engine_sql d)) us"

subsection \<open>One migration\<close>

text \<open>The statements a run adds to the history: its units with their bound ids, then its ledger
  write.\<close>

definition made_by :: "dialect \<Rightarrow> migration_run \<Rightarrow> hist \<Rightarrow> bool" where
  "made_by d r s \<longleftrightarrow> (\<exists>xs. map fst xs = map unit_sql (rn_units r) \<and> s = work d xs @ [ledger_op d r])"

lemma mint_all_view: "mints_only (Some f) v \<Longrightarrow> v (snd (mint_all f ks b)) = v b"
  by (induction ks arbitrary: b) (auto simp: mints_only_def split: prod.splits, metis snd_conv)

lemma triple_bind_unit:
  assumes "mints_only mint v"
  shows "triple (stored d v c) (bind_unit u i mint) (\<lambda>x b. stored d v c b \<and> bd_sql x = unit_sql u) (\<lambda>_. stored d v c)"
proof (cases u)
  case (Unit_Minted s ks)
  have "mint = Some f \<Longrightarrow> mint_all f ks b = (vs, b') \<Longrightarrow> v b' = v b" for f b vs b'
    using assms mint_all_view [of f v ks b] by simp
  with Unit_Minted show ?thesis
    by (cases mint) (auto simp: triple_def fail_def stored_def split: prod.splits)
qed (auto simp: triple_def ret_def fail_def)

lemma triple_bind_all:
  assumes "mints_only mint v"
  shows "triple (stored d v c) (bind_all us i mint)
    (\<lambda>xs b. stored d v c b \<and> map bd_sql xs = map unit_sql us) (\<lambda>_. stored d v c)"
proof (induction us)
  case Nil
  then show ?case by (auto intro: triple_ret)
next
  case (Cons u us)
  show ?case unfolding bind_all.simps
  proof (rule triple_then [OF triple_bind_unit [OF assms]], rule triple_then)
    fix x show "triple (\<lambda>b. stored d v c b \<and> bd_sql x = unit_sql u) (bind_all us i mint)
      (\<lambda>xs b. stored d v c b \<and> map bd_sql (x # xs) = map unit_sql (u # us)) (\<lambda>_. stored d v c)"
      by (rule triple_weaken [OF triple_keep [OF Cons.IH, of "bd_sql x = unit_sql u"]]) auto
  qed (auto intro: triple_ret)
qed

abbreviation bound_stmt :: "bound \<Rightarrow> str \<times> sql_value list" where
  "bound_stmt s \<equiv> (bd_sql s, bd_params s)"

lemma triple_execute_all:
  assumes "transactional h v" "list_all (\<lambda>s. bd_sql s \<notin> set control_sql) ss"
  shows "triple (in_tx d v c w) (execute_all h stage i ss)
    (\<lambda>_. in_tx d v c (w @ work d (map bound_stmt ss))) (\<lambda>_. stored d v c)"
  using assms(2)
proof (induction ss arbitrary: i w)
  case Nil
  then show ?case by (auto intro: triple_ret)
next
  case (Cons s ss)
  have "work d [bound_stmt s] @ work d (map bound_stmt ss) = work d (map bound_stmt (s # ss))"
    by (simp add: work_def)
  moreover have "triple (in_tx d v c w) (execute_all h stage i (s # ss))
      (\<lambda>_. in_tx d v c ((w @ work d [bound_stmt s]) @ work d (map bound_stmt ss))) (\<lambda>_. stored d v c)"
    unfolding execute_all.simps using Cons
    by (intro triple_then [OF triple_execute [OF assms(1)]]) (simp_all del: append_assoc)
  ultimately show ?case by (metis append_assoc)
qed

lemma ledger_op_sql [simp]: "fst (ledger_op d r) \<notin> set control_sql" "work d [ledger_op d r] = [ledger_op d r]"
  by (cases "rn_down r"; simp add: ledger_op_def)+

lemma triple_rollback_fail:
  "transactional h v \<Longrightarrow> triple (stored d v c) (rollback_and_fail h t e) Q (\<lambda>_. stored d v c)"
  unfolding rollback_and_fail_def by (rule triple_roll_back)

lemma triple_run_statements:
  assumes "transactional h v" "list_all (\<lambda>s. bd_sql s \<notin> set control_sql) ss"
  shows "triple (in_tx d v c c) (run_statements h d r ss)
    (\<lambda>_. in_tx d v c (c @ work d (map bound_stmt ss) @ [ledger_op d r])) (\<lambda>_. stored d v c)"
  unfolding run_statements_def
proof (rule triple_then [OF triple_execute_all [OF assms]], rule triple_then)
  show "triple (in_tx d v c (c @ work d (map bound_stmt ss)))
      (call (\<lambda>e. (''ledger update'', e)) (h_execute h (fst (ledger_op d r)) (snd (ledger_op d r))))
      (\<lambda>_. in_tx d v c ((c @ work d (map bound_stmt ss)) @ [ledger_op d r])) (\<lambda>_. stored d v c)"
    using triple_execute [OF assms(1), of "fst (ledger_op d r)" d c _ _ "snd (ledger_op d r)"]
    by (simp del: append_assoc)
qed (rule triple_ret, simp)

lemma triple_run_in_tx:
  assumes "transactional h v" "list_all (\<lambda>s. bd_sql s \<notin> set control_sql) ss"
  shows "triple (stored d v c) (run_in_tx h d r ss)
    (\<lambda>_. stored d v (c @ work d (map bound_stmt ss) @ [ledger_op d r]))
    (\<lambda>_ b. stored d v c b \<or> stored d v (c @ work d (map bound_stmt ss) @ [ledger_op d r]) b)"
  unfolding run_in_tx_def
proof (rule triple_seq [OF triple_checkout [OF assms(1), of d c]])
  fix u show "triple (at_rest d v c)
    (then_do (call (failed d r ''begin'') (tx_begin h (has_rebuild d (map bd_sql ss)))) (\<lambda>t.
       match_do (run_statements h d r ss) (\<lambda>(stage, e). rollback_and_fail h t (failed d r stage e))
         (\<lambda>_. call (failed d r ''commit'') (tx_commit h t))))
    (\<lambda>_. stored d v (c @ work d (map bound_stmt ss) @ [ledger_op d r]))
    (\<lambda>_ b. stored d v c b \<or> stored d v (c @ work d (map bound_stmt ss) @ [ledger_op d r]) b)"
  proof (rule triple_seq [OF triple_tx_begin [OF assms(1), of d c]])
    fix t show "triple (in_tx d v c c)
      (match_do (run_statements h d r ss) (\<lambda>(stage, e). rollback_and_fail h t (failed d r stage e))
         (\<lambda>_. call (failed d r ''commit'') (tx_commit h t)))
      (\<lambda>_. stored d v (c @ work d (map bound_stmt ss) @ [ledger_op d r]))
      (\<lambda>_ b. stored d v c b \<or> stored d v (c @ work d (map bound_stmt ss) @ [ledger_op d r]) b)"
    proof (rule triple_match [OF triple_run_statements [OF assms]])
      fix e show "triple (stored d v c) (case e of (stage, e) \<Rightarrow> rollback_and_fail h t (failed d r stage e))
        (\<lambda>_. stored d v (c @ work d (map bound_stmt ss) @ [ledger_op d r]))
        (\<lambda>_ b. stored d v c b \<or> stored d v (c @ work d (map bound_stmt ss) @ [ledger_op d r]) b)"
        by (cases e) (auto intro: triple_weaken [OF triple_rollback_fail [OF assms(1)]])
    qed (rule triple_tx_commit [OF assms(1)])
  qed auto
qed auto

lemma triple_run_migration:
  assumes "transactional h v" "mints_only (ao_mint opts) v" "plain_units d (rn_units r)"
  shows "triple (stored d v c) (run_migration fuel h d r opts)
    (\<lambda>_ b. \<exists>s. made_by d r s \<and> stored d v (c @ s) b)
    (\<lambda>_ b. stored d v c b \<or> (\<exists>s. made_by d r s \<and> stored d v (c @ s) b))"
proof -
  have n: "\<not> list_ex is_chunked (rn_units r)"
    using assms(3) by (auto simp: plain_units_def list_ex_iff list_all_iff)
  have "triple (\<lambda>b. stored d v c b \<and> map bd_sql xs = map unit_sql (rn_units r)) (run_in_tx h d r xs)
    (\<lambda>_ b. \<exists>s. made_by d r s \<and> stored d v (c @ s) b)
    (\<lambda>_ b. stored d v c b \<or> (\<exists>s. made_by d r s \<and> stored d v (c @ s) b))" for xs
  proof (rule triple_pre)
    fix b assume a: "stored d v c b \<and> map bd_sql xs = map unit_sql (rn_units r)"
    then have "set (map bd_sql xs) = set (map unit_sql (rn_units r))" by (simp only:)
    then have l: "list_all (\<lambda>s. bd_sql s \<notin> set control_sql) xs"
      using assms(3) by (auto simp: plain_units_def list_all_iff)
        (metis (mono_tags, lifting) image_eqI image_iff)
    have m: "made_by d r (work d (map bound_stmt xs) @ [ledger_op d r])"
      using a unfolding made_by_def by (intro exI [of _ "map bound_stmt xs"]) (simp add: o_def)
    from a m show "triple (\<lambda>b. stored d v c b \<and> map bd_sql xs = map unit_sql (rn_units r)) (run_in_tx h d r xs)
      (\<lambda>_ b. \<exists>s. made_by d r s \<and> stored d v (c @ s) b)
      (\<lambda>_ b. stored d v c b \<or> (\<exists>s. made_by d r s \<and> stored d v (c @ s) b))"
      by (intro triple_weaken [OF triple_run_in_tx [OF assms(1) l, of d c r]]) auto
  qed
  with n show ?thesis unfolding run_migration_def
    by (simp add: triple_seq [OF triple_bind_all [OF assms(2), of d c]])
qed

end
