(* ===== verification/Ledger_Prefix.thy ===== *)
theory Ledger_Prefix
  imports Ledger_Correct
begin

text \<open>
  The ledger as a prefix of the migrations on disk. The guards accept exactly the ledgers that
  are one, with the hashes on disk; from there the two phases run whole migrations, each moving
  the prefix by one, so it is a prefix after every outcome.
\<close>

subsection \<open>The ledger a history leaves\<close>

fun ledger_step :: "dialect \<Rightarrow> str \<times> sql_value list \<Rightarrow> (str \<rightharpoonup> str) \<Rightarrow> (str \<rightharpoonup> str)" where
  "ledger_step d (sql, ps) L =
     (if sql = insert_ledger_sql d
      then (case ps of [V_Text i, V_Text x] \<Rightarrow> L(i \<mapsto> x) | _ \<Rightarrow> L)
      else if sql = delete_ledger_sql d
      then (case ps of [V_Text i] \<Rightarrow> L(i := None) | _ \<Rightarrow> L)
      else L)"

definition ledger_of :: "dialect \<Rightarrow> hist \<Rightarrow> (str \<rightharpoonup> str)" where
  "ledger_of d xs = fold (ledger_step d) xs Map.empty"

text \<open>The ledger query returns the rows of the table: their ids and hashes, each id once.\<close>

definition reads_ledger :: "'b host \<Rightarrow> dialect \<Rightarrow> 'b view \<Rightarrow> bool" where
  "reads_ledger h d v \<longleftrightarrow> (\<forall>b rows b'. snd (v b) = None \<longrightarrow> h_fetch h (applied_sql d) [] b = (Inr rows, b') \<longrightarrow>
     (\<forall>r \<in> set rows. \<exists>i x. map_of r ''id'' = Some (J_Str i) \<and> map_of r ''content_hash'' = Some (J_Str x)) \<and>
     (\<forall>i x. ledger_of d (fst (v b)) i = Some x \<longleftrightarrow>
        (\<exists>r \<in> set rows. map_of r ''id'' = Some (J_Str i) \<and> map_of r ''content_hash'' = Some (J_Str x))))"

definition prefix_ledger :: "planned_migration list \<Rightarrow> nat \<Rightarrow> (str \<rightharpoonup> str)" where
  "prefix_ledger ms k = map_of (map (\<lambda>m. (pm_id m, pm_up_hash m)) (take k ms))"

text \<open>What \<open>from_sources\<close> returns: the numbers are \<open>1..N\<close>, so the ids, which carry them, differ.\<close>

definition well_numbered :: "planned_migration list \<Rightarrow> bool" where
  "well_numbered ms \<longleftrightarrow> map pm_number ms = [1..<Suc (length ms)] \<and> distinct (map pm_id ms)"

definition rows_show :: "(str \<rightharpoonup> str) \<Rightarrow> ledger_row list \<Rightarrow> bool" where
  "rows_show L rows \<longleftrightarrow> (\<forall>i x. L i = Some x \<longleftrightarrow> (\<exists>r \<in> set rows. lr_id r = i \<and> lr_hash r = x))"

subsection \<open>Numbers\<close>

lemma filter_numbers:
  "map pm_number ms = [a..<a + length ms] \<Longrightarrow> filter (\<lambda>m. pm_number m < a + j) ms = take j ms"
proof (induction ms arbitrary: a j)
  case (Cons m ms)
  then have m: "pm_number m = a" and ms: "map pm_number ms = [Suc a..<Suc a + length ms]"
    by (simp_all add: upt_conv_Cons del: upt_Suc)
  show ?case
  proof (cases j)
    case 0
    have "\<forall>x \<in> set (m # ms). a \<le> pm_number x"
      using Cons.prems by (metis atLeastLessThan_iff image_eqI list.set_map set_upt)
    then show ?thesis using 0 by (auto simp: filter_empty_conv not_less)
  next
    case (Suc i)
    with m Cons.IH [OF ms, of i] show ?thesis by simp
  qed
qed simp

lemma well_numberedD: "well_numbered ms \<Longrightarrow> map pm_number ms = [1..<1 + length ms]"
  by (simp add: well_numbered_def)

lemma filter_le_number: "well_numbered ms \<Longrightarrow> filter (\<lambda>m. pm_number m \<le> j) ms = take j ms"
  using filter_numbers [OF well_numberedD, of ms j] by (simp add: less_Suc_eq_le)

lemma nth_number:
  assumes "well_numbered ms" "i < length ms"
  shows "pm_number (ms ! i) = Suc i"
proof -
  have "map pm_number ms ! i = [1..<1 + length ms] ! i" using well_numberedD [OF assms(1)] by simp
  with assms(2) show ?thesis by (simp del: upt_Suc)
qed

lemma in_take_iff:
  assumes "well_numbered ms" "m \<in> set ms"
  shows "m \<in> set (take k ms) \<longleftrightarrow> pm_number m \<le> k"
  using assms(2) unfolding filter_le_number [OF assms(1), symmetric] by simp

lemma in_drop_iff: "well_numbered ms \<Longrightarrow> m \<in> set ms \<Longrightarrow> m \<in> set (drop k ms) \<longleftrightarrow> k < pm_number m"
proof -
  assume w: "well_numbered ms" and m: "m \<in> set ms"
  have "distinct ms" using w by (simp add: well_numbered_def distinct_map)
  then have "set (take k ms) \<inter> set (drop k ms) = {}" "set (take k ms) \<union> set (drop k ms) = set ms"
    by (metis append_take_drop_id distinct_append, metis append_take_drop_id set_append)
  with in_take_iff [OF w m, of k] m show ?thesis by (auto simp: not_le)
qed

lemma take_numbered: "well_numbered ms \<Longrightarrow> well_numbered (take k ms)"
  by (simp add: well_numbered_def take_map [symmetric] distinct_take min_def del: upt_Suc)

lemma filter_take_drop:
  assumes "well_numbered ms"
  shows "filter (\<lambda>m. m \<in> set (take k ms)) ms = take k ms"
    "filter (\<lambda>m. m \<notin> set (take k ms)) ms = drop k ms"
proof -
  have d: "distinct ms" using assms by (simp add: well_numbered_def distinct_map)
  then have dis: "set (take k ms) \<inter> set (drop k ms) = {}"
    by (metis append_take_drop_id distinct_append)
  have split: "ms = take k ms @ drop k ms" by simp
  have "filter (\<lambda>m. m \<in> set t) (t @ u) = t \<and> filter (\<lambda>m. m \<notin> set t) (t @ u) = u"
    if "set t \<inter> set u = {}" for t u :: "planned_migration list"
    using that by (auto simp: filter_id_conv filter_empty_conv)
  from this [OF dis] show "filter (\<lambda>m. m \<in> set (take k ms)) ms = take k ms"
    "filter (\<lambda>m. m \<notin> set (take k ms)) ms = drop k ms" by simp_all
qed

subsection \<open>The guards\<close>

lemma history_problem_None:
  assumes "distinct (map pm_id ms)"
  shows "history_problem ms rows = None \<longleftrightarrow>
    (\<forall>r \<in> set rows. \<exists>m \<in> set ms. pm_id m = lr_id r \<and> pm_up_hash m = lr_hash r)"
proof (induction rows)
  case (Cons r rows)
  show ?case
  proof (cases "find (\<lambda>m. pm_id m = lr_id r) ms")
    case None
    then have "\<not> (\<exists>m \<in> set ms. pm_id m = lr_id r)" by (auto simp: find_None_iff)
    with None show ?thesis by auto
  next
    case (Some m)
    then have m: "m \<in> set ms" "pm_id m = lr_id r" by (auto dest: find_SomeD)
    have u: "x = m" if "x \<in> set ms" "pm_id x = lr_id r" for x
      using inj_on_distinct_map [OF assms that(1) m(1)] that(2) m(2) by simp
    have "(\<exists>x \<in> set ms. pm_id x = lr_id r \<and> pm_up_hash x = lr_hash r) \<longleftrightarrow> pm_up_hash m = lr_hash r"
      using u m by blast
    with Some Cons.IH show ?thesis by simp
  qed
qed simp

lemma max_number_Max: "max_number ms = (if ms = [] then None else Some (Max (pm_number ` set ms)))"
proof (cases ms)
  case (Cons m ns)
  have "Max (set (pm_number m # map pm_number ns)) = fold max (map pm_number ns) (pm_number m)"
    by (rule Max.set_eq_fold)
  with Cons show ?thesis by (simp add: max_number_def)
qed (simp add: max_number_def)

lemma prefix_problem_None:
  "prefix_problem ms rows = None \<longleftrightarrow>
   (\<forall>m \<in> set ms. \<forall>m' \<in> set ms. is_applied rows m' \<longrightarrow> pm_number m < pm_number m' \<longrightarrow> is_applied rows m)"
proof (cases "filter (is_applied rows) ms = []")
  case True
  then have "\<forall>m \<in> set ms. \<not> is_applied rows m" by (simp add: filter_empty_conv)
  with True show ?thesis by (simp add: prefix_problem_def latest_applied_def max_number_Max)
next
  case False
  define S where "S = {m \<in> set ms. is_applied rows m}"
  have S: "S \<noteq> {}" "finite S" using False by (auto simp: S_def filter_empty_conv)
  have top: "n < Max (pm_number ` S) \<longleftrightarrow> (\<exists>m' \<in> S. n < pm_number m')" for n
    using S by (simp add: Max_gr_iff)
  have "prefix_problem ms rows = None \<longleftrightarrow>
      (\<forall>m \<in> set ms. pm_number m < Max (pm_number ` S) \<longrightarrow> is_applied rows m)"
    using False S by (auto simp: prefix_problem_def latest_applied_def max_number_Max S_def [symmetric]
        find_None_iff split: option.splits dest!: find_SomeD)
  then show ?thesis unfolding top by (auto simp: S_def)
qed

text \<open>The guards accept exactly the prefixes.\<close>

lemma prefix_ledger_iff:
  assumes "well_numbered ms"
  shows "prefix_ledger ms k i = Some x \<longleftrightarrow> (\<exists>m \<in> set ms. pm_number m \<le> k \<and> pm_id m = i \<and> pm_up_hash m = x)"
proof -
  have "distinct (map fst (map (\<lambda>m. (pm_id m, pm_up_hash m)) (take k ms)))"
    using take_numbered [OF assms, of k] by (simp add: well_numbered_def o_def)
  then have "prefix_ledger ms k i = Some x \<longleftrightarrow> (\<exists>m \<in> set (take k ms). pm_id m = i \<and> pm_up_hash m = x)"
    unfolding prefix_ledger_def by (subst map_of_eq_Some_iff) auto
  then show ?thesis using in_take_iff [OF assms] in_set_takeD by metis
qed

lemma guards_exact:
  assumes w: "well_numbered ms" and rs: "rows_show L rows"
  shows "history_problem ms rows = None \<and> prefix_problem ms rows = None \<longleftrightarrow>
    (\<exists>k \<le> length ms. L = prefix_ledger ms k)"
proof
  have d: "distinct (map pm_id ms)" using w by (simp add: well_numbered_def)
  assume g: "history_problem ms rows = None \<and> prefix_problem ms rows = None"
  define S where "S = {m \<in> set ms. is_applied rows m}"
  define k where "k = (if S = {} then 0 else Max (pm_number ` S))"
  have fin: "finite S" by (simp add: S_def)
  have rng: "1 \<le> pm_number m \<and> pm_number m \<le> length ms" if "m \<in> set ms" for m
    using that nth_number [OF w] by (auto simp: in_set_conv_nth)
  have k: "is_applied rows m \<longleftrightarrow> pm_number m \<le> k" if "m \<in> set ms" for m
  proof (cases "S = {}")
    case True
    with that rng show ?thesis by (fastforce simp: S_def k_def)
  next
    case False
    then have "k \<in> pm_number ` S" using fin by (simp add: k_def)
    then obtain m' where m': "m' \<in> set ms" "is_applied rows m'" "pm_number m' = k" by (auto simp: S_def)
    have "m = m'" if "pm_number m = k"
      using that m' \<open>m \<in> set ms\<close> nth_number [OF w] by (auto simp: in_set_conv_nth)
    moreover have "m \<in> S \<Longrightarrow> pm_number m \<le> k"
      using False fin by (simp add: k_def)
    then have "is_applied rows m \<Longrightarrow> pm_number m \<le> k"
      using \<open>m \<in> set ms\<close> by (simp add: S_def)
    ultimately show ?thesis using g m' \<open>m \<in> set ms\<close> unfolding prefix_problem_None
      by (metis le_neq_implies_less)
  qed
  have "k \<le> length ms" using fin rng by (auto simp: k_def S_def)
  moreover have "L i = Some x \<longleftrightarrow> prefix_ledger ms k i = Some x" for i x
  proof -
    have h: "\<forall>r \<in> set rows. \<exists>m \<in> set ms. pm_id m = lr_id r \<and> pm_up_hash m = lr_hash r"
      using g history_problem_None [OF d] by blast
    have "L i = Some x \<longleftrightarrow> (\<exists>m \<in> set ms. is_applied rows m \<and> pm_id m = i \<and> pm_up_hash m = x)"
      using h rs inj_on_distinct_map [OF d] unfolding rows_show_def is_applied_def
      by (smt (verit) image_iff)
    also have "\<dots> \<longleftrightarrow> (\<exists>m \<in> set ms. pm_number m \<le> k \<and> pm_id m = i \<and> pm_up_hash m = x)"
      using k by blast
    finally show ?thesis using prefix_ledger_iff [OF w] by simp
  qed
  ultimately show "\<exists>k \<le> length ms. L = prefix_ledger ms k"
    using map_some_eqI [of L "prefix_ledger ms k"] by blast
next
  have d: "distinct (map pm_id ms)" using w by (simp add: well_numbered_def)
  assume "\<exists>k \<le> length ms. L = prefix_ledger ms k"
  then obtain k where L: "L = prefix_ledger ms k" by blast
  have h: "\<exists>m \<in> set ms. pm_number m \<le> k \<and> pm_id m = lr_id r \<and> pm_up_hash m = lr_hash r" if "r \<in> set rows" for r
    using that rs L prefix_ledger_iff [OF w] unfolding rows_show_def by metis
  have k: "is_applied rows m \<longleftrightarrow> pm_number m \<le> k" if "m \<in> set ms" for m
  proof
    assume "is_applied rows m"
    then obtain r where "r \<in> set rows" "lr_id r = pm_id m" by (auto simp: is_applied_def)
    with h inj_on_distinct_map [OF d] that show "pm_number m \<le> k" by metis
  next
    assume "pm_number m \<le> k"
    with that rs L prefix_ledger_iff [OF w] show "is_applied rows m"
      unfolding rows_show_def is_applied_def by (metis image_eqI)
  qed
  show "history_problem ms rows = None \<and> prefix_problem ms rows = None"
    using h k by (auto simp: history_problem_None [OF d] prefix_problem_None)
qed

end
