(* ===== verification/Ledger_Apply.thy ===== *)
theory Ledger_Apply
  imports Ledger_Prefix
begin

text \<open>
  The two phases of \<open>apply\<close> and its promises: whole migrations only, the ledger a prefix after
  every outcome, the requested prefix after a success, the tamper guard and the destructive gate.
\<close>

subsection \<open>What a run does to the ledger\<close>

lemma ledger_of_append: "ledger_of d (xs @ ys) = fold (ledger_step d) ys (ledger_of d xs)"
  by (simp add: ledger_of_def)

lemma ledger_step_other: "sql \<notin> set (engine_sql d) \<Longrightarrow> ledger_step d (sql, ps) L = L"
  by (simp add: engine_sql_def)

lemma ledger_step_housekeeping: "sql \<in> set (housekeeping d) \<Longrightarrow> ledger_step d (sql, ps) L = L"
  using engine_sql_work [of d] by (auto simp del: engine_sql_work)

lemma ledger_of_work: "ledger_of d (work d xs) = ledger_of d xs"
proof -
  have "fold (ledger_step d) (work d xs) L = fold (ledger_step d) xs L" for L
    by (induction xs arbitrary: L) (auto simp: work_def ledger_step_housekeeping simp del: ledger_step.simps)
  then show ?thesis by (simp add: ledger_of_def)
qed

lemma fold_ledger_other:
  "\<forall>s \<in> set xs. fst s \<notin> set (engine_sql d) \<Longrightarrow> fold (ledger_step d) xs L = L"
  by (induction xs arbitrary: L) (auto simp: ledger_step_other simp del: ledger_step.simps)

lemma made_by_ledger:
  assumes "made_by d r s" "plain_units d (rn_units r)"
  shows "ledger_of d (c @ s) = ledger_step d (ledger_op d r) (ledger_of d c)"
proof -
  obtain xs where xs: "map fst xs = map unit_sql (rn_units r)" "s = work d xs @ [ledger_op d r]"
    using assms(1) by (auto simp: made_by_def)
  have "set (map fst xs) \<inter> set (engine_sql d) = {}"
    using assms(2) unfolding xs(1) by (auto simp: plain_units_def list_all_iff)
  then have "\<forall>s \<in> set (work d xs). fst s \<notin> set (engine_sql d)" by (auto simp: work_def)
  then show ?thesis by (simp add: xs(2) ledger_of_append fold_ledger_other)
qed

definition made_all :: "dialect \<Rightarrow> migration_run list \<Rightarrow> hist \<Rightarrow> bool" where
  "made_all d rs s \<longleftrightarrow> (\<exists>ss. list_all2 (made_by d) rs ss \<and> s = concat ss)"

lemma made_all_Nil [simp]: "made_all d [] s \<longleftrightarrow> s = []"
  by (auto simp: made_all_def)

lemma made_all_Cons: "made_by d r a \<Longrightarrow> made_all d rs b \<Longrightarrow> made_all d (r # rs) (a @ b)"
  unfolding made_all_def by (metis concat.simps(2) list_all2_Cons)

lemma made_all_append: "made_all d rs a \<Longrightarrow> made_all d qs b \<Longrightarrow> made_all d (rs @ qs) (a @ b)"
  unfolding made_all_def by (metis concat_append list_all2_appendI)

lemma made_all_ledger:
  assumes "made_all d rs s" "\<forall>r \<in> set rs. plain_units d (rn_units r)"
  shows "ledger_of d (c @ s) = fold (\<lambda>r. ledger_step d (ledger_op d r)) rs (ledger_of d c)"
proof -
  obtain ss where "list_all2 (made_by d) rs ss" "s = concat ss" using assms(1) by (auto simp: made_all_def)
  then show ?thesis using assms(2)
  proof (induction rs ss arbitrary: c s rule: list_all2_induct)
    case (Cons r rs a ss)
    have "ledger_of d (c @ s) = ledger_of d ((c @ a) @ concat ss)" using Cons.prems by simp
    also have "\<dots> = fold (\<lambda>r. ledger_step d (ledger_op d r)) rs (ledger_of d (c @ a))"
      using Cons.IH [OF refl, of "c @ a"] Cons.prems by simp
    finally show ?case using made_by_ledger [OF Cons(1)] Cons.prems by simp
  qed simp
qed

subsection \<open>The phases\<close>

definition down_of :: "planned_migration \<Rightarrow> migration_run" where
  "down_of m = down_run m (the (pm_down m))"

definition plain_migration :: "dialect \<Rightarrow> planned_migration \<Rightarrow> bool" where
  "plain_migration d m \<longleftrightarrow> plain_units d (pm_up m) \<and> (case pm_down m of None \<Rightarrow> True | Some us \<Rightarrow> plain_units d us)"

text \<open>The state after running some of the runs \<open>rs\<close>, in order and each whole.\<close>

definition ran_part :: "dialect \<Rightarrow> 'b view \<Rightarrow> hist \<Rightarrow> migration_run list \<Rightarrow> 'b \<Rightarrow> bool" where
  "ran_part d v c rs b \<longleftrightarrow> (\<exists>k s. k \<le> length rs \<and> made_all d (take k rs) s \<and> stored d v (c @ s) b)"

definition ran_all :: "dialect \<Rightarrow> 'b view \<Rightarrow> hist \<Rightarrow> migration_run list \<Rightarrow> 'b \<Rightarrow> bool" where
  "ran_all d v c rs b \<longleftrightarrow> (\<exists>s. made_all d rs s \<and> stored d v (c @ s) b)"

lemma ran_none: "stored d v c b \<Longrightarrow> ran_part d v c rs b"
  unfolding ran_part_def by (intro exI [of _ 0] exI [of _ "[]"]) simp

lemma ran_more: "made_by d r s \<Longrightarrow> ran_part d v (c @ s) rs b \<Longrightarrow> ran_part d v c (r # rs) b"
  unfolding ran_part_def by (metis append.assoc length_Cons made_all_Cons Suc_le_mono take_Suc_Cons)

lemma ran_all_more: "made_by d r s \<Longrightarrow> ran_all d v (c @ s) rs b \<Longrightarrow> ran_all d v c (r # rs) b"
  unfolding ran_all_def by (metis append.assoc made_all_Cons)

lemma ran_all_part: "ran_all d v c rs b \<Longrightarrow> ran_part d v c rs b"
  unfolding ran_part_def ran_all_def by (metis order_refl take_all)

lemma ran_part_append:
  assumes "made_all d rs s" "ran_part d v (c @ s) qs b"
  shows "ran_part d v c (rs @ qs) b"
proof -
  obtain k t where t: "k \<le> length qs" "made_all d (take k qs) t" "stored d v ((c @ s) @ t) b"
    using assms(2) by (auto simp: ran_part_def)
  have "take (length rs + k) (rs @ qs) = rs @ take k qs" by simp
  with t made_all_append [OF assms(1) t(2)] show ?thesis unfolding ran_part_def
    by (intro exI [of _ "length rs + k"] exI [of _ "s @ t"]) simp
qed

lemma ran_part_weaken: "ran_part d v c rs b \<Longrightarrow> ran_part d v c (rs @ qs) b"
proof -
  assume "ran_part d v c rs b"
  then obtain k s where "k \<le> length rs" "made_all d (take k rs) s" "stored d v (c @ s) b"
    by (auto simp: ran_part_def)
  then show ?thesis unfolding ran_part_def by (intro exI [of _ k] exI [of _ s]) simp
qed


definition has_down :: "planned_migration \<Rightarrow> bool" where
  "has_down m \<longleftrightarrow> pm_down m \<noteq> None"

text \<open>The rollback phase stops at a migration without a down path.\<close>

lemma triple_roll_back_all:
  assumes "transactional h v" "mints_only (ao_mint opts) v" "list_all (plain_migration d) ms"
  shows "triple (stored d v c) (roll_back_all fuel h d opts ms ids)
    (\<lambda>x b. ran_all d v c (map down_of ms) b \<and> x = ids @ map pm_id ms \<and> list_all has_down ms)
    (\<lambda>_. ran_part d v c (map down_of (takeWhile has_down ms)))"
  using assms(3)
proof (induction ms arbitrary: c ids)
  case Nil
  then show ?case by (auto intro!: triple_ret simp: ran_all_def)
next
  case (Cons m ms)
  show ?case
  proof (cases "pm_down m")
    case None
    then show ?thesis by (auto intro!: triple_fail ran_none)
  next
    case (Some us)
    then have d: "down_of m = down_run m us" and p: "plain_units d (rn_units (down_run m us))"
      using Cons.prems by (simp_all add: down_of_def down_run_def plain_migration_def)
    have down: "has_down m" using Some by (simp add: has_down_def)
    have rest: "triple (\<lambda>b. \<exists>s. made_by d (down_run m us) s \<and> stored d v (c @ s) b)
        (roll_back_all fuel h d opts ms (ids @ [pm_id m]))
        (\<lambda>x b. ran_all d v c (map down_of (m # ms)) b \<and> x = ids @ map pm_id (m # ms) \<and> list_all has_down (m # ms))
        (\<lambda>_. ran_part d v c (map down_of (takeWhile has_down (m # ms))))"
    proof (rule triple_ex, rule triple_pre)
      fix s b assume s: "made_by d (down_run m us) s \<and> stored d v (c @ s) b"
      show "triple (\<lambda>b. made_by d (down_run m us) s \<and> stored d v (c @ s) b)
        (roll_back_all fuel h d opts ms (ids @ [pm_id m]))
        (\<lambda>x b. ran_all d v c (map down_of (m # ms)) b \<and> x = ids @ map pm_id (m # ms) \<and> list_all has_down (m # ms))
        (\<lambda>_. ran_part d v c (map down_of (takeWhile has_down (m # ms))))"
        by (rule triple_weaken [OF Cons.IH [of "c @ s" "ids @ [pm_id m]"]])
          (use s d down Cons.prems in \<open>auto intro: ran_all_more ran_more\<close>)
    qed
    show ?thesis unfolding roll_back_all.simps Some option.case
      by (rule triple_seq [OF triple_run_migration [OF assms(1,2) p] _ rest])
        (use d down in \<open>auto intro: ran_none ran_more\<close>)
  qed
qed

definition allowed :: "'b apply_opts \<Rightarrow> planned_migration \<Rightarrow> bool" where
  "allowed opts m \<longleftrightarrow> \<not> pm_destructive m \<or> ao_allow_destructive opts"

text \<open>The forward phase never runs past a migration that is not allowed.\<close>

lemma triple_roll_forward_all:
  assumes "transactional h v" "mints_only (ao_mint opts) v" "list_all (plain_migration d) ms"
  shows "triple (stored d v c) (roll_forward_all fuel h d opts ms ids)
    (\<lambda>x b. ran_all d v c (map up_run ms) b \<and> x = ids @ map pm_id ms \<and> list_all (allowed opts) ms)
    (\<lambda>_. ran_part d v c (map up_run (takeWhile (allowed opts) ms)))"
  using assms(3)
proof (induction ms arbitrary: c ids)
  case Nil
  then show ?case by (auto intro!: triple_ret simp: ran_all_def)
next
  case (Cons m ms)
  show ?case
  proof (cases "allowed opts m")
    case False
    then show ?thesis by (auto intro!: triple_fail simp: allowed_def ran_none)
  next
    case True
    then have p: "plain_units d (rn_units (up_run m))"
      using Cons.prems by (simp add: up_run_def plain_migration_def)
    have rest: "triple (\<lambda>b. \<exists>s. made_by d (up_run m) s \<and> stored d v (c @ s) b)
        (roll_forward_all fuel h d opts ms (ids @ [pm_id m]))
        (\<lambda>x b. ran_all d v c (map up_run (m # ms)) b \<and> x = ids @ map pm_id (m # ms) \<and> list_all (allowed opts) (m # ms))
        (\<lambda>_. ran_part d v c (map up_run (takeWhile (allowed opts) (m # ms))))"
    proof (rule triple_ex, rule triple_pre)
      fix s b assume s: "made_by d (up_run m) s \<and> stored d v (c @ s) b"
      show "triple (\<lambda>b. made_by d (up_run m) s \<and> stored d v (c @ s) b)
        (roll_forward_all fuel h d opts ms (ids @ [pm_id m]))
        (\<lambda>x b. ran_all d v c (map up_run (m # ms)) b \<and> x = ids @ map pm_id (m # ms) \<and> list_all (allowed opts) (m # ms))
        (\<lambda>_. ran_part d v c (map up_run (takeWhile (allowed opts) (m # ms))))"
        by (rule triple_weaken [OF Cons.IH [of "c @ s" "ids @ [pm_id m]"]])
          (use s True Cons.prems in \<open>auto intro: ran_all_more ran_more\<close>)
    qed
    have "roll_forward_all fuel h d opts (m # ms) ids = then_do (run_migration fuel h d (up_run m) opts)
        (\<lambda>_. roll_forward_all fuel h d opts ms (ids @ [pm_id m]))"
      using True by (auto simp: allowed_def)
    then show ?thesis
      by (simp only:) (rule triple_seq [OF triple_run_migration [OF assms(1,2) p] _ rest],
          use True in \<open>auto intro: ran_none ran_more\<close>)
  qed
qed

subsection \<open>Moving the prefix\<close>

lemma prefix_ledger_Suc:
  assumes "well_numbered ms" "k < length ms"
  shows "prefix_ledger ms (Suc k) = (prefix_ledger ms k)(pm_id (ms ! k) \<mapsto> pm_up_hash (ms ! k))"
    "(prefix_ledger ms (Suc k))(pm_id (ms ! k) := None) = prefix_ledger ms k"
proof -
  have d: "distinct (map pm_id ms)" using assms by (simp add: well_numbered_def)
  have t: "take (Suc k) ms = take k ms @ [ms ! k]" using assms(2) by (rule take_Suc_conv_app_nth)
  have "distinct (map pm_id (take (Suc k) ms))" using d by (simp add: take_map [symmetric])
  then have n: "pm_id (ms ! k) \<notin> pm_id ` set (take k ms)" by (simp add: t)
  then have none: "prefix_ledger ms k (pm_id (ms ! k)) = None"
    by (auto simp: prefix_ledger_def map_of_eq_None_iff image_iff)
  show a: "prefix_ledger ms (Suc k) = (prefix_ledger ms k)(pm_id (ms ! k) \<mapsto> pm_up_hash (ms ! k))"
    using none by (rule_tac ext) (auto simp: prefix_ledger_def t map_add_def split: option.split)
  show "(prefix_ledger ms (Suc k))(pm_id (ms ! k) := None) = prefix_ledger ms k"
    unfolding a using none by auto
qed

lemma ledger_step_up:
  "ledger_step d (ledger_op d (up_run m)) L = L(pm_id m \<mapsto> pm_up_hash m)"
  by (simp add: ledger_op_def up_run_def)

lemma ledger_step_down: "ledger_step d (ledger_op d (down_of m)) L = L(pm_id m := None)"
  by (simp add: ledger_op_def down_of_def down_run_def)

lemma ledger_forward:
  assumes "well_numbered ms"
  shows "k + j \<le> length ms \<Longrightarrow>
   fold (\<lambda>r. ledger_step d (ledger_op d r)) (map up_run (take j (drop k ms))) (prefix_ledger ms k)
     = prefix_ledger ms (k + j)"
proof (induction j)
  case (Suc j)
  then have "take (Suc j) (drop k ms) = take j (drop k ms) @ [ms ! (k + j)]"
    by (simp add: take_Suc_conv_app_nth)
  with Suc show ?case using prefix_ledger_Suc(1) [OF assms, of "k + j"] by (simp add: ledger_step_up)
qed simp

lemma ledger_back:
  assumes "well_numbered ms"
  shows "t + j \<le> length ms \<Longrightarrow> i \<le> j \<Longrightarrow>
   fold (\<lambda>r. ledger_step d (ledger_op d r)) (take i (map down_of (rev (take j (drop t ms))))) (prefix_ledger ms (t + j))
     = prefix_ledger ms (t + j - i)"
proof (induction i)
  case (Suc i)
  have l: "length (take j (drop t ms)) = j" using Suc.prems by simp
  have "rev (take j (drop t ms)) ! i = ms ! (t + j - Suc i)"
    using Suc.prems l by (simp add: rev_nth)
  then have "take (Suc i) (map down_of (rev (take j (drop t ms)))) =
      take i (map down_of (rev (take j (drop t ms)))) @ [down_of (ms ! (t + j - Suc i))]"
    using Suc.prems l by (simp add: take_Suc_conv_app_nth)
  moreover have "Suc (t + j - Suc i) = t + j - i" using Suc.prems by simp
  ultimately show ?case
    using Suc prefix_ledger_Suc(2) [OF assms, of "t + j - Suc i"] by (simp add: ledger_step_down)
qed simp

subsection \<open>The phases of a prefix\<close>

fun target :: "direction \<Rightarrow> nat \<Rightarrow> nat \<Rightarrow> nat" where
  "target Dir_Up n k = n"
| "target (Dir_To j) n k = min j n"
| "target Dir_Down n k = k - 1"

definition back_list :: "planned_migration list \<Rightarrow> nat \<Rightarrow> nat \<Rightarrow> planned_migration list" where
  "back_list ms k t = rev (drop t (take k ms))"

definition forth_list :: "planned_migration list \<Rightarrow> nat \<Rightarrow> nat \<Rightarrow> planned_migration list" where
  "forth_list ms k t = drop k (take t ms)"

lemma sorted_numbers: "well_numbered ms \<Longrightarrow> sorted (map pm_number ms) \<and> distinct (map pm_number ms)"
  by (simp add: well_numbered_def del: upt_Suc)

lemma filter_gt_number: "well_numbered ms \<Longrightarrow> filter (\<lambda>m. j < pm_number m) ms = drop j ms"
proof -
  assume w: "well_numbered ms"
  have "filter (\<lambda>m. j < pm_number m) ms = filter (\<lambda>m. m \<notin> set (take j ms)) ms"
    by (rule filter_cong) (auto simp: in_take_iff [OF w])
  with filter_take_drop(2) [OF w, of j] show ?thesis by simp
qed

lemma applied_prefix:
  assumes "well_numbered ms" "rows_show (prefix_ledger ms k) rows" "m \<in> set ms"
  shows "is_applied rows m \<longleftrightarrow> m \<in> set (take k ms)"
proof -
  have d: "distinct (map pm_id ms)" using assms by (simp add: well_numbered_def)
  have "is_applied rows m \<longleftrightarrow> (\<exists>x. prefix_ledger ms k (pm_id m) = Some x)"
    using assms(2) unfolding rows_show_def is_applied_def by (metis image_iff)
  also have "\<dots> \<longleftrightarrow> (\<exists>m' \<in> set ms. pm_number m' \<le> k \<and> pm_id m' = pm_id m)"
    by (auto simp: prefix_ledger_iff [OF assms(1)])
  also have "\<dots> \<longleftrightarrow> pm_number m \<le> k"
    using inj_on_distinct_map [OF d] assms(3) by metis
  finally show ?thesis by (simp add: in_take_iff [OF assms(1,3)])
qed

lemma lists_of_prefix:
  assumes w: "well_numbered ms" and r: "rows_show (prefix_ledger ms k) rows"
  shows "rollback_list keep ms rows = back_list ms k keep"
    "forward_list keep ms rows = forth_list ms k keep"
proof -
  let ?a = "drop keep (take k ms)"
  have "filter (\<lambda>m. is_applied rows m \<and> keep < pm_number m) ms =
      filter (\<lambda>m. keep < pm_number m) (filter (\<lambda>m. m \<in> set (take k ms)) ms)"
    by (auto intro!: filter_cong simp: applied_prefix [OF w r])
  then have a: "filter (\<lambda>m. is_applied rows m \<and> keep < pm_number m) ms = ?a"
    by (simp add: filter_take_drop(1) [OF w] filter_gt_number [OF take_numbered [OF w]])
  have s: "sorted (map pm_number ?a) \<and> distinct (map pm_number ?a)"
    using sorted_numbers [OF w] by (simp add: drop_map [symmetric] take_map [symmetric] sorted_wrt_drop sorted_wrt_take)
  have "sort_key (\<lambda>m. - int (pm_number m)) ?a = rev ?a"
  proof (rule sort_key_distinct_unique)
    have "map (\<lambda>m. - int (pm_number m)) (rev ?a) = rev (map (\<lambda>n. - int n) (map pm_number ?a))"
      by (simp add: rev_map o_def)
    moreover have "sorted (rev (map (\<lambda>n. - int n) (map pm_number ?a)))"
      using s by (auto simp: sorted_wrt_rev sorted_wrt_map)
    ultimately show "sorted (map (\<lambda>m. - int (pm_number m)) (rev ?a))" by simp
    show "distinct (map (\<lambda>m. - int (pm_number m)) (rev ?a))"
      using s by (auto simp: rev_map [symmetric] distinct_map inj_on_def)
    show "distinct ?a" using s by (auto simp: distinct_map)
  qed simp
  with a show "rollback_list keep ms rows = back_list ms k keep"
    by (simp add: rollback_list_def back_list_def)
  let ?f = "drop k (take keep ms)"
  have "filter (\<lambda>m. \<not> is_applied rows m \<and> pm_number m \<le> keep) ms =
      filter (\<lambda>m. pm_number m \<le> keep) (filter (\<lambda>m. m \<notin> set (take k ms)) ms)"
    by (auto intro!: filter_cong simp: applied_prefix [OF w r])
  also have "\<dots> = filter (\<lambda>m. k < pm_number m) (filter (\<lambda>m. pm_number m \<le> keep) ms)"
    by (auto intro!: filter_cong simp: in_take_iff [OF w] conj_commute)
  finally have f: "filter (\<lambda>m. \<not> is_applied rows m \<and> pm_number m \<le> keep) ms = ?f"
    by (simp add: filter_le_number [OF w] filter_gt_number [OF take_numbered [OF w]])
  have "sorted (map pm_number ?f) \<and> distinct (map pm_number ?f)"
    using sorted_numbers [OF w] by (simp add: drop_map [symmetric] take_map [symmetric] sorted_wrt_drop sorted_wrt_take)
  then have "sort_key pm_number ?f = ?f" by (intro sort_key_distinct_unique) (auto simp: distinct_map)
  with f show "forward_list keep ms rows = forth_list ms k keep"
    by (simp add: forward_list_def forth_list_def)
qed

lemma max_number_take:
  assumes "well_numbered ms" "k \<le> length ms"
  shows "max_number (take k ms) = (if k = 0 then None else Some k)"
proof (cases "k = 0")
  case False
  have "set (map pm_number (take k ms)) = {1..<Suc k}"
    using take_numbered [OF assms(1), of k] assms(2) by (simp add: well_numbered_def min_def del: upt_Suc)
  then have i: "pm_number ` set (take k ms) = {1..k}" by (simp add: atLeastLessThanSuc_atLeastAtMost)
  have "Max {1..k} = k" using False by (intro Max_eqI) auto
  with i assms(2) False show ?thesis by (auto simp: max_number_Max)
qed (simp add: max_number_def)

lemma keep_max_target:
  assumes w: "well_numbered ms" and k: "k \<le> length ms" and r: "rows_show (prefix_ledger ms k) rows"
  shows "min (keep_max dir ms rows) (length ms) = target dir (length ms) k"
proof (cases dir)
  case Dir_Up
  then show ?thesis using nth_number [OF w, of "length ms - 1"]
    by (cases "ms = []") (auto simp: keep_max_def last_conv_nth)
next
  case (Dir_To n)
  then show ?thesis by (simp add: keep_max_def)
next
  case Dir_Down
  have a: "filter (is_applied rows) ms = take k ms"
    using filter_take_drop(1) [OF w, of k] applied_prefix [OF w r] by (metis (mono_tags, lifting) filter_cong)
  have "latest_applied ms rows = (if k = 0 then None else Some k)"
    unfolding latest_applied_def a by (rule max_number_take [OF w k])
  moreover have "filter (\<lambda>m. is_applied rows m \<and> pm_number m < k) ms = take (k - 1) ms" if "k \<noteq> 0"
  proof -
    have "filter (\<lambda>m. is_applied rows m \<and> pm_number m < k) ms = filter (\<lambda>m. pm_number m \<le> k - 1) ms"
      using that applied_prefix [OF w r] in_take_iff [OF w] by (auto intro!: filter_cong)
    then show ?thesis by (simp add: filter_le_number [OF w])
  qed
  ultimately show ?thesis using Dir_Down k max_number_take [OF w, of "k - 1"]
    by (auto simp: keep_max_def)
qed

lemma phases_target:
  assumes "k \<le> length ms"
  shows "back_list ms k (min keep (length ms)) = back_list ms k keep"
    "forth_list ms k (min keep (length ms)) = forth_list ms k keep"
  using assms by (auto simp: back_list_def forth_list_def min_def)

subsection \<open>Applying\<close>

lemma ledger_row_cells:
  "map_of r ''id'' = Some (J_Str i) \<Longrightarrow> map_of r ''content_hash'' = Some (J_Str x) \<Longrightarrow>
   lr_id (ledger_row_of h r) = i \<and> lr_hash (ledger_row_of h r) = x"
  by (simp add: ledger_row_of_def field_text_def)

lemma fetched_ledger:
  assumes "reads_ledger h d v" "snd (v b) = None" "h_fetch h (applied_sql d) [] b = (Inr rs, b')"
  shows "rows_show (ledger_of d (fst (v b))) (map (ledger_row_of h) rs)"
  unfolding rows_show_def
proof (intro allI)
  fix i x
  have e: "\<exists>i x. map_of r ''id'' = Some (J_Str i) \<and> map_of r ''content_hash'' = Some (J_Str x)" if "r \<in> set rs" for r
    using assms that unfolding reads_ledger_def by blast
  have l: "ledger_of d (fst (v b)) i = Some x \<longleftrightarrow>
      (\<exists>r \<in> set rs. map_of r ''id'' = Some (J_Str i) \<and> map_of r ''content_hash'' = Some (J_Str x))"
    using assms unfolding reads_ledger_def by blast
  show "ledger_of d (fst (v b)) i = Some x \<longleftrightarrow>
      (\<exists>r \<in> set (map (ledger_row_of h) rs). lr_id r = i \<and> lr_hash r = x)"
    unfolding l
  proof
    assume "\<exists>r \<in> set rs. map_of r ''id'' = Some (J_Str i) \<and> map_of r ''content_hash'' = Some (J_Str x)"
    then obtain r where r: "r \<in> set rs" "lr_id (ledger_row_of h r) = i" "lr_hash (ledger_row_of h r) = x"
      using ledger_row_cells by blast
    then show "\<exists>r \<in> set (map (ledger_row_of h) rs). lr_id r = i \<and> lr_hash r = x" by auto
  next
    assume "\<exists>r \<in> set (map (ledger_row_of h) rs). lr_id r = i \<and> lr_hash r = x"
    then obtain r where r: "r \<in> set rs" "lr_id (ledger_row_of h r) = i" "lr_hash (ledger_row_of h r) = x" by auto
    from e [OF r(1)] obtain i' x' where
      m: "map_of r ''id'' = Some (J_Str i')" "map_of r ''content_hash'' = Some (J_Str x')" by blast
    with ledger_row_cells [OF m, of h] r show
      "\<exists>r \<in> set rs. map_of r ''id'' = Some (J_Str i) \<and> map_of r ''content_hash'' = Some (J_Str x)" by auto
  qed
qed

lemma triple_read_ledger:
  assumes "transactional h v" "reads_ledger h d v"
  shows "triple (at_rest d v c) (map_err Db_Error (read_ledger h d))
    (\<lambda>rows b. stored d v c b \<and> rows_show (ledger_of d c) rows) (\<lambda>_. stored d v c)"
proof (rule triple_map_err, unfold read_ledger_def, rule triple_then)
  let ?R = "\<lambda>rs b. stored d v c b \<and> rows_show (ledger_of d c) (map (ledger_row_of h) rs)"
  show "triple (at_rest d v c) (call id (h_fetch h (applied_sql d) [])) ?R (\<lambda>_. stored d v c)"
  proof (rule triple_call)
    fix b rs b' assume b: "at_rest d v c b" and f: "h_fetch h (applied_sql d) [] b = (Inr rs, b')"
    then have "snd (v b) = None" "ledger_of d (fst (v b)) = ledger_of d c"
      by (auto simp: at_rest_def ledger_of_work [symmetric, of d "fst (v b)"])
    with fetched_ledger [OF assms(2) _ f] have "rows_show (ledger_of d c) (map (ledger_row_of h) rs)" by simp
    moreover have "stored d v c b'" using b law_fetch [OF assms(1) f] by (simp add: at_rest_def stored_def)
    ultimately show "?R rs b'" by simp
  next
    fix b e b' assume b: "at_rest d v c b" and f: "h_fetch h (applied_sql d) [] b = (Inl e, b')"
    then show "stored d v c b'" using law_fetch [OF assms(1) f] by (simp add: at_rest_def stored_def)
  qed
qed (rule triple_ret)

lemma triple_ensure_ledger:
  assumes "transactional h v"
  shows "triple (at_rest d v c) (map_err Db_Error (ensure_ledger h d)) (\<lambda>_. at_rest d v c) (\<lambda>_. stored d v c)"
proof (rule triple_map_err)
  show "triple (at_rest d v c) (ensure_ledger h d) (\<lambda>_. at_rest d v c) (\<lambda>_. stored d v c)"
    unfolding ensure_ledger_def
    using triple_execute_plain [OF assms, of "create_ledger_sql d" d c]
    by (intro triple_then [where R = "\<lambda>_. at_rest d v c"] triple_ret) simp_all
qed

text \<open>The runs up to the first migration that stops a phase.\<close>

definition stopped_runs :: "'b apply_opts \<Rightarrow> planned_migration list \<Rightarrow> planned_migration list \<Rightarrow> migration_run list" where
  "stopped_runs opts undone forth = map down_of (takeWhile has_down undone) @
     (if list_all has_down undone then map up_run (takeWhile (allowed opts) forth) else [])"

definition applied_outcome ::
  "dialect \<Rightarrow> 'b view \<Rightarrow> 'b apply_opts \<Rightarrow> hist \<Rightarrow> planned_migration list \<Rightarrow> nat \<Rightarrow> migrate_error + apply_report \<Rightarrow> 'b \<Rightarrow> bool" where
  "applied_outcome d v opts c ms k r b =
     (let t = target (ao_direction opts) (length ms) k; undone = back_list ms k t; forth = forth_list ms k t in
      case r of
        Inr rep \<Rightarrow> ran_all d v c (map down_of undone @ map up_run forth) b \<and> list_all (allowed opts) forth
          \<and> list_all has_down undone
          \<and> rep = \<lparr>ar_applied = map pm_id forth, ar_rolled_back = map pm_id undone\<rparr>
      | Inl e \<Rightarrow> ran_part d v c (stopped_runs opts undone forth) b)"

lemma triple_forward_phase:
  assumes h: "transactional h v" "mints_only (ao_mint opts) v" and p: "list_all (plain_migration d) forth"
    and s: "made_all d (map down_of undone) s"
  shows "triple (stored d v (c @ s))
    (then_do (roll_forward_all fuel h d opts forth []) (\<lambda>applied. ret \<lparr>ar_applied = applied, ar_rolled_back = x\<rparr>))
    (\<lambda>rep b. ran_all d v c (map down_of undone @ map up_run forth) b \<and> list_all (allowed opts) forth
       \<and> rep = \<lparr>ar_applied = map pm_id forth, ar_rolled_back = x\<rparr>)
    (\<lambda>_. ran_part d v c (map down_of undone @ map up_run (takeWhile (allowed opts) forth)))"
proof (rule triple_seq [OF triple_roll_forward_all [OF h p]])
  fix b assume "ran_part d v (c @ s) (map up_run (takeWhile (allowed opts) forth)) b"
  then show "ran_part d v c (map down_of undone @ map up_run (takeWhile (allowed opts) forth)) b"
    by (rule ran_part_append [OF s])
next
  fix a
  have "ran_all d v (c @ s) (map up_run forth) b \<Longrightarrow> ran_all d v c (map down_of undone @ map up_run forth) b" for b
    using made_all_append [OF s] by (auto simp: ran_all_def)
  then show "triple (\<lambda>b. ran_all d v (c @ s) (map up_run forth) b \<and> a = [] @ map pm_id forth \<and> list_all (allowed opts) forth)
      (ret \<lparr>ar_applied = a, ar_rolled_back = x\<rparr>)
    (\<lambda>rep b. ran_all d v c (map down_of undone @ map up_run forth) b \<and> list_all (allowed opts) forth
       \<and> rep = \<lparr>ar_applied = map pm_id forth, ar_rolled_back = x\<rparr>)
    (\<lambda>_. ran_part d v c (map down_of undone @ map up_run (takeWhile (allowed opts) forth)))"
    by (intro triple_ret) auto
qed

lemma triple_phases:
  assumes h: "transactional h v" "mints_only (ao_mint opts) v"
    and p: "list_all (plain_migration d) undone" "list_all (plain_migration d) forth"
  shows "triple (stored d v c)
    (then_do (roll_back_all fuel h d opts undone []) (\<lambda>rolled_back.
     then_do (roll_forward_all fuel h d opts forth []) (\<lambda>applied.
     ret \<lparr>ar_applied = applied, ar_rolled_back = rolled_back\<rparr>)))
    (\<lambda>rep b. ran_all d v c (map down_of undone @ map up_run forth) b \<and> list_all (allowed opts) forth
       \<and> list_all has_down undone
       \<and> rep = \<lparr>ar_applied = map pm_id forth, ar_rolled_back = map pm_id undone\<rparr>)
    (\<lambda>_. ran_part d v c (stopped_runs opts undone forth))"
    (is "triple _ _ ?Q ?E")
proof (rule triple_seq [OF triple_roll_back_all [OF h p(1)]])
  fix b assume "ran_part d v c (map down_of (takeWhile has_down undone)) b"
  then show "ran_part d v c (stopped_runs opts undone forth) b"
    unfolding stopped_runs_def by (rule ran_part_weaken)
next
  fix x
  let ?m = "then_do (roll_forward_all fuel h d opts forth []) (\<lambda>applied. ret \<lparr>ar_applied = applied, ar_rolled_back = x\<rparr>)"
  show "triple (\<lambda>b. ran_all d v c (map down_of undone) b \<and> x = [] @ map pm_id undone \<and> list_all has_down undone) ?m ?Q ?E"
  proof (cases "x = map pm_id undone \<and> list_all has_down undone")
    case True
    then have t: "takeWhile has_down undone = undone" by (simp add: list_all_iff)
    have "triple (\<lambda>b. made_all d (map down_of undone) s \<and> stored d v (c @ s) b) ?m ?Q ?E" for s
    proof (cases "made_all d (map down_of undone) s")
      case made: True
      show ?thesis
        by (rule triple_weaken [OF triple_forward_phase [OF h p(2) made, of c fuel x]])
          (use True in \<open>simp_all add: stopped_runs_def t\<close>)
    qed (simp add: triple_def)
    then have "triple (\<lambda>b. \<exists>s. made_all d (map down_of undone) s \<and> stored d v (c @ s) b) ?m ?Q ?E"
      by (rule triple_ex)
    with True show ?thesis by (simp add: ran_all_def)
  qed (auto simp: triple_def)
qed

lemma lists_plain:
  "list_all P ms \<Longrightarrow> list_all P (back_list ms k t) \<and> list_all P (forth_list ms k t)"
  by (auto simp: back_list_def forth_list_def list_all_iff dest!: in_set_dropD in_set_takeD)

lemma triple_apply:
  assumes h: "transactional h v" "mints_only (ao_mint opts) v" "reads_ledger h d v"
    and ms: "well_numbered ms" "list_all (plain_migration d) ms"
  shows "triple (stored d v c) (apply_migrations fuel h d ms opts)
    (\<lambda>rep b. \<exists>k \<le> length ms. ledger_of d c = prefix_ledger ms k \<and> applied_outcome d v opts c ms k (Inr rep) b)
    (\<lambda>e b. stored d v c b \<or>
      (\<exists>k \<le> length ms. ledger_of d c = prefix_ledger ms k \<and> applied_outcome d v opts c ms k (Inl e) b))"
  (is "triple _ _ ?Q ?E")
  unfolding apply_migrations_def
proof (rule triple_seq [OF triple_checkout [OF h(1)] disjI1], assumption,
    rule triple_seq [OF triple_ensure_ledger [OF h(1)] disjI1], assumption,
    rule triple_seq [OF triple_read_ledger [OF h(1,3)] disjI1], assumption, rule triple_pre)
  fix rows b assume "stored d v c b \<and> rows_show (ledger_of d c) rows"
  then have rows: "rows_show (ledger_of d c) rows" ..
  let ?keep = "keep_max (ao_direction opts) ms rows"
  let ?PP = "\<lambda>undone forth. then_do (roll_back_all fuel h d opts undone []) (\<lambda>rolled_back.
         then_do (roll_forward_all fuel h d opts forth []) (\<lambda>applied.
         ret \<lparr>ar_applied = applied, ar_rolled_back = rolled_back\<rparr>))"
  have "triple (stored d v c) (case history_problem ms rows of Some e \<Rightarrow> fail e
       | None \<Rightarrow> (case prefix_problem ms rows of Some e \<Rightarrow> fail e
       | None \<Rightarrow> let keep = ?keep in
         ?PP (rollback_list keep ms rows) (forward_list keep ms rows))) ?Q ?E"
  proof (cases "history_problem ms rows = None \<and> prefix_problem ms rows = None")
    case True
    then obtain k where k: "k \<le> length ms" "ledger_of d c = prefix_ledger ms k"
      using guards_exact [OF ms(1) rows] by blast
    let ?t = "target (ao_direction opts) (length ms) k"
    have "min ?keep (length ms) = ?t" using keep_max_target [OF ms(1) k(1)] rows k(2) by simp
    then have "rollback_list ?keep ms rows = back_list ms k ?t" "forward_list ?keep ms rows = forth_list ms k ?t"
      using lists_of_prefix [OF ms(1), of k rows ?keep] phases_target [OF k(1), of ?keep] rows k(2) by simp_all
    moreover have "triple (stored d v c) (?PP (back_list ms k ?t) (forth_list ms k ?t)) ?Q ?E"
      by (rule triple_weaken [OF triple_phases [OF h(1,2)]])
        (use lists_plain [OF ms(2)] k in \<open>auto simp: applied_outcome_def Let_def\<close>)
    ultimately show ?thesis using True by (simp add: Let_def)
  next
    case False
    then show ?thesis by (cases "history_problem ms rows") (auto intro!: triple_fail)
  qed
  then show "triple (\<lambda>b. stored d v c b \<and> rows_show (ledger_of d c) rows) (case history_problem ms rows of Some e \<Rightarrow> fail e
       | None \<Rightarrow> (case prefix_problem ms rows of Some e \<Rightarrow> fail e
       | None \<Rightarrow> let keep = ?keep in
         ?PP (rollback_list keep ms rows) (forward_list keep ms rows))) ?Q ?E"
    by (rule triple_weaken) auto
qed

end
