(* ===== verification/Resume_Correct.thy ===== *)
theory Resume_Correct
  imports Ledger_Apply
begin

text \<open>
  Resuming is exactly-once: wherever a run of a migration with chunked steps stops, its
  committed statements are those of a position the progress row names, and running it again
  goes on from there. \<open>reach\<close> is the state machine of positions: which statements a run that is at
  segment \<open>i\<close> with the cursor \<open>c\<close> has made.
\<close>

subsection \<open>Positions\<close>

inductive reach :: "dialect \<Rightarrow> segment list \<Rightarrow> nat \<Rightarrow> str list option \<Rightarrow> hist \<Rightarrow> bool"
  for d :: dialect and segs :: "segment list" where
  start: "reach d segs 0 None []"
| plain: "reach d segs i None hs \<Longrightarrow> i < length segs \<Longrightarrow> segs ! i = Seg_Sql us \<Longrightarrow>
    map fst xs = map unit_sql us \<Longrightarrow> reach d segs (Suc i) None (hs @ work d xs)"
| batch: "reach d segs i c hs \<Longrightarrow> i < length segs \<Longrightarrow> segs ! i = Seg_Chunk p \<Longrightarrow>
    reach d segs i (Some k) (hs @ [(apply_sql p c k, [])])"
| close: "reach d segs i c hs \<Longrightarrow> i < length segs \<Longrightarrow> segs ! i = Seg_Chunk p \<Longrightarrow>
    reach d segs (Suc i) None hs"

inductive_cases reach_someE: "reach d segs i (Some k) hs"

lemma reach_cursor: "reach d segs i (Some k) hs \<Longrightarrow> i < length segs \<and> (\<exists>p. segs ! i = Seg_Chunk p)"
  by (erule reach_someE) auto

subsection \<open>The progress table of a history\<close>

fun progress_step :: "dialect \<Rightarrow> str \<Rightarrow> str \<times> sql_value list \<Rightarrow> sql_value list option \<Rightarrow> sql_value list option" where
  "progress_step d key (sql, ps) P =
     (if sql = save_progress_sql d \<and> ps \<noteq> [] \<and> hd ps = V_Text key then Some ps
      else if sql = clear_progress_sql d \<and> ps = [V_Text key] then None
      else P)"

definition stored_progress :: "dialect \<Rightarrow> str \<Rightarrow> hist \<Rightarrow> sql_value list option" where
  "stored_progress d key xs = fold (progress_step d key) xs None"

fun json_cell :: "sql_value \<Rightarrow> json" where
  "json_cell (V_Text s) = J_Str s"
| "json_cell (V_Int n) = J_Int n"
| "json_cell _ = J_Null"

definition progress_row :: "sql_value list \<Rightarrow> row" where
  "progress_row ps = zip (tl progress_columns) (map json_cell (tl ps))"

text \<open>The progress query returns the row stored under the key, and the JSON text of a list of
  strings reads back.\<close>

definition reads_progress :: "'b host \<Rightarrow> dialect \<Rightarrow> 'b view \<Rightarrow> bool" where
  "reads_progress h d v \<longleftrightarrow>
     (\<forall>key b rows b'. snd (v b) = None \<longrightarrow> h_fetch h (read_progress_sql d) [V_Text key] b = (Inr rows, b') \<longrightarrow>
        rows = (case stored_progress d key (fst (v b)) of None \<Rightarrow> [] | Some ps \<Rightarrow> [progress_row ps]))
   \<and> (\<forall>xs. h_list_read h (h_list_text h xs) = Some xs)"

lemma progress_engine_distinct [simp]:
  "save_progress_sql d \<noteq> clear_progress_sql d" "clear_progress_sql d \<noteq> save_progress_sql d"
  "save_progress_sql d \<noteq> insert_ledger_sql d" "save_progress_sql d \<noteq> delete_ledger_sql d"
  "clear_progress_sql d \<noteq> insert_ledger_sql d" "clear_progress_sql d \<noteq> delete_ledger_sql d"
  "insert_ledger_sql d \<noteq> save_progress_sql d" "delete_ledger_sql d \<noteq> save_progress_sql d"
  "insert_ledger_sql d \<noteq> clear_progress_sql d" "delete_ledger_sql d \<noteq> clear_progress_sql d"
  by (cases d; simp add: engine_texts)+

lemma stored_progress_append: "stored_progress d key (xs @ ys) = fold (progress_step d key) ys (stored_progress d key xs)"
  by (simp add: stored_progress_def)

lemma progress_step_other: "sql \<notin> set (engine_sql d) \<Longrightarrow> progress_step d key (sql, ps) P = P"
  by (simp add: engine_sql_def)

lemma progress_step_housekeeping: "sql \<in> set (housekeeping d) \<Longrightarrow> progress_step d key (sql, ps) P = P"
  using engine_sql_work [of d] by (auto simp del: engine_sql_work)

lemma stored_progress_work: "stored_progress d key (work d xs) = stored_progress d key xs"
proof -
  have "fold (progress_step d key) (work d xs) L = fold (progress_step d key) xs L" for L
    by (induction xs arbitrary: L) (auto simp: work_def progress_step_housekeeping simp del: progress_step.simps)
  then show ?thesis by (simp add: stored_progress_def)
qed

lemma fold_progress_other:
  "\<forall>s \<in> set xs. fst s \<notin> set (engine_sql d) \<Longrightarrow> fold (progress_step d key) xs P = P"
  by (induction xs arbitrary: P) (auto simp: progress_step_other simp del: progress_step.simps)

subsection \<open>The statements that are not the engine's\<close>

definition user :: "dialect \<Rightarrow> hist \<Rightarrow> hist" where
  "user d xs = filter (\<lambda>s. fst s \<notin> set (engine_sql d)) xs"

lemma user_append [simp]: "user d (xs @ ys) = user d xs @ user d ys"
  by (simp add: user_def)

lemma user_engine: "sql \<in> set (engine_sql d) \<Longrightarrow> user d [(sql, ps)] = []"
  by (simp add: user_def)

lemma user_id: "\<forall>s \<in> set xs. fst s \<notin> set (engine_sql d) \<Longrightarrow> user d xs = xs"
  by (simp add: user_def filter_id_conv)

lemma engine_members [simp]:
  "insert_ledger_sql d \<in> set (engine_sql d)" "delete_ledger_sql d \<in> set (engine_sql d)"
  "save_progress_sql d \<in> set (engine_sql d)" "clear_progress_sql d \<in> set (engine_sql d)"
  by (simp_all add: engine_sql_def)

text \<open>The plain statements of a run, and every batch its chunk plans can build, are its own.\<close>

definition own_segment :: "dialect \<Rightarrow> segment \<Rightarrow> bool" where
  "own_segment d s = (case s of
       Seg_Sql us \<Rightarrow> plain_units d us
     | Seg_Chunk p \<Rightarrow> (\<forall>c k. apply_sql p c k \<notin> set control_sql \<union> set (engine_sql d) \<union> set (housekeeping d)))"

subsection \<open>Where a run is\<close>

definition pos :: "dialect \<Rightarrow> migration_run \<Rightarrow> hist \<Rightarrow> nat \<Rightarrow> str list option \<Rightarrow> hist \<Rightarrow> bool" where
  "pos d r W0 i c W \<longleftrightarrow> (\<exists>hs. reach d (segments (rn_units r)) i c hs \<and> user d W = user d W0 @ hs)
     \<and> ledger_of d W = ledger_of d W0"

definition saved_at :: "'b host \<Rightarrow> dialect \<Rightarrow> migration_run \<Rightarrow> nat \<Rightarrow> str list option \<Rightarrow> hist \<Rightarrow> bool" where
  "saved_at h d r i c W \<longleftrightarrow>
     (\<exists>rows. stored_progress d (run_key r) W = Some (progress_params h (run_key r) (rn_hash r) i c rows))
     \<or> stored_progress d (run_key r) W = None \<and> i = 0 \<and> c = None"

definition completed :: "dialect \<Rightarrow> migration_run \<Rightarrow> hist \<Rightarrow> hist \<Rightarrow> bool" where
  "completed d r W0 W \<longleftrightarrow>
     (\<exists>hs. reach d (segments (rn_units r)) (length (segments (rn_units r))) None hs \<and> user d W = user d W0 @ hs)
     \<and> ledger_of d W = ledger_step d (ledger_op d r) (ledger_of d W0)
     \<and> stored_progress d (run_key r) W = None"

text \<open>At segment \<open>i\<close> with the cursor \<open>c\<close>, the progress row saying so; past the last segment, done.\<close>

definition run_at :: "'b host \<Rightarrow> dialect \<Rightarrow> migration_run \<Rightarrow> hist \<Rightarrow> nat \<Rightarrow> str list option \<Rightarrow> hist \<Rightarrow> bool" where
  "run_at h d r W0 i c W \<longleftrightarrow>
     (if i < length (segments (rn_units r)) then pos d r W0 i c W \<and> saved_at h d r i c W
      else completed d r W0 W)"

text \<open>Interrupted somewhere, with the position saved, or completed.\<close>

definition resumable :: "'b host \<Rightarrow> dialect \<Rightarrow> migration_run \<Rightarrow> hist \<Rightarrow> hist \<Rightarrow> bool" where
  "resumable h d r W0 W \<longleftrightarrow>
     (\<exists>i c. i < length (segments (rn_units r)) \<and> run_at h d r W0 i c W) \<or> completed d r W0 W"

definition holds :: "dialect \<Rightarrow> 'b view \<Rightarrow> (hist \<Rightarrow> bool) \<Rightarrow> 'b \<Rightarrow> bool" where
  "holds d v F b \<longleftrightarrow> F (work d (fst (v b)))"

lemma holds_stored: "holds d v F b \<longleftrightarrow> (\<exists>W. F W \<and> stored d v W b)"
  by (auto simp: holds_def stored_def)

subsection \<open>Moving on\<close>

definition save_stmts :: "'b host \<Rightarrow> dialect \<Rightarrow> migration_run \<Rightarrow> nat \<Rightarrow> str list option \<Rightarrow> nat \<Rightarrow> hist" where
  "save_stmts h d r i c rows =
     [(clear_progress_sql d, [V_Text (run_key r)]),
      (save_progress_sql d, progress_params h (run_key r) (rn_hash r) i c rows)]"

definition finish_stmts :: "'b host \<Rightarrow> dialect \<Rightarrow> migration_run \<Rightarrow> nat \<Rightarrow> bool \<Rightarrow> hist" where
  "finish_stmts h d r i is_last =
     (if is_last then [(clear_progress_sql d, [V_Text (run_key r)]), ledger_op d r]
      else save_stmts h d r (Suc i) None 0)"

lemma progress_params_hd [simp]:
  "progress_params h key hash i c rows \<noteq> []" "hd (progress_params h key hash i c rows) = V_Text key"
  by (simp_all add: progress_params_def)

lemma save_effect:
  "user d (W @ save_stmts h d r i c rows) = user d W"
  "ledger_of d (W @ save_stmts h d r i c rows) = ledger_of d W"
  "stored_progress d (run_key r) (W @ save_stmts h d r i c rows)
     = Some (progress_params h (run_key r) (rn_hash r) i c rows)"
  by (simp_all add: save_stmts_def user_def ledger_of_def stored_progress_append)

lemma ledger_op_engine: "fst (ledger_op d r) \<in> set (engine_sql d)"
  by (simp add: ledger_op_def)

lemma progress_ledger_op: "progress_step d key (ledger_op d r) P = P"
  by (simp add: ledger_op_def)

lemma close_effect:
  "user d (W @ finish_stmts h d r i True) = user d W"
  "ledger_of d (W @ finish_stmts h d r i True) = ledger_step d (ledger_op d r) (ledger_of d W)"
  "stored_progress d (run_key r) (W @ finish_stmts h d r i True) = None"
  using ledger_op_engine [of d r]
  by (simp_all add: finish_stmts_def user_def ledger_of_def stored_progress_append progress_ledger_op)

lemma engine_stmts_not_user [simp]:
  "user d (save_stmts h d r i c rows) = []" "user d (finish_stmts h d r i is_last) = []"
  using save_effect(1) [of d "[]"] close_effect(1) [of d "[]" h r i]
  by (simp_all add: finish_stmts_def user_def save_stmts_def)

lemma finished_last:
  assumes "pos d r W0 (length (segments (rn_units r))) None W"
  shows "completed d r W0 (W @ finish_stmts h d r i True)"
  using assms by (auto simp: completed_def pos_def close_effect simp del: ledger_step.simps)

lemma finished_at:
  assumes "pos d r W0 (Suc i) None W" "i < length (segments (rn_units r))"
  shows "run_at h d r W0 (Suc i) None (W @ finish_stmts h d r i (i = length (segments (rn_units r)) - 1))"
proof (cases "Suc i = length (segments (rn_units r))")
  case True
  then have t: "(i = length (segments (rn_units r)) - 1) = True" by simp
  from assms(1) have "completed d r W0 (W @ finish_stmts h d r i True)"
    unfolding True by (rule finished_last)
  with True show ?thesis unfolding t by (simp add: run_at_def)
next
  case False
  then have l: "Suc i < length (segments (rn_units r))" using assms(2) by simp
  then have f: "(i = length (segments (rn_units r)) - 1) = False" by simp
  have "finish_stmts h d r i False = save_stmts h d r (Suc i) None 0" by (simp add: finish_stmts_def)
  with assms(1) l show ?thesis unfolding f
    by (auto simp: run_at_def pos_def saved_at_def save_effect)
qed

lemma plain_moves:
  assumes "run_at h d r W0 i None W" "i < length (segments (rn_units r))"
    "segments (rn_units r) ! i = Seg_Sql us" "plain_units d us" "map fst xs = map unit_sql us"
  shows "pos d r W0 (Suc i) None (W @ work d xs)"
proof -
  obtain hs where hs: "reach d (segments (rn_units r)) i None hs" "user d W = user d W0 @ hs"
      "ledger_of d W = ledger_of d W0"
    using assms(1,2) by (auto simp: run_at_def pos_def)
  have "set (map fst xs) \<inter> set (engine_sql d) = {}"
    using assms(4) unfolding assms(5) by (auto simp: plain_units_def list_all_iff)
  then have o: "\<forall>s \<in> set (work d xs). fst s \<notin> set (engine_sql d)" by (auto simp: work_def)
  from reach.plain [OF hs(1) assms(2,3,5)] show ?thesis
    using hs o by (auto simp: pos_def user_id ledger_of_append fold_ledger_other)
qed

lemma close_moves:
  assumes "run_at h d r W0 i c W" "i < length (segments (rn_units r))"
    "segments (rn_units r) ! i = Seg_Chunk p"
  shows "pos d r W0 (Suc i) None W"
  using assms by (auto simp: run_at_def pos_def intro: reach.close)

lemma batch_moves:
  assumes "run_at h d r W0 i c W" "i < length (segments (rn_units r))"
    "segments (rn_units r) ! i = Seg_Chunk p" "own_segment d (Seg_Chunk p)"
  shows "run_at h d r W0 i (Some k) (W @ (apply_sql p c k, []) # save_stmts h d r i (Some k) rows)"
proof -
  let ?s = "[(apply_sql p c k, [])]"
  obtain hs where hs: "reach d (segments (rn_units r)) i c hs" "user d W = user d W0 @ hs"
      "ledger_of d W = ledger_of d W0"
    using assms(1,2) by (auto simp: run_at_def pos_def)
  have o: "\<forall>s \<in> set ?s. fst s \<notin> set (engine_sql d)" using assms(4) by (auto simp: own_segment_def)
  have "W @ (apply_sql p c k, []) # save_stmts h d r i (Some k) rows = (W @ ?s) @ save_stmts h d r i (Some k) rows" by simp
  with reach.batch [OF hs(1) assms(2,3), of k] hs o assms(2) show ?thesis
    by (simp only: run_at_def pos_def saved_at_def save_effect if_True)
      (auto simp: user_id ledger_of_append ledger_step_other simp del: ledger_step.simps)
qed

subsection \<open>The calls\<close>

lemma triple_engine_stmt:
  assumes "transactional h v" "sql \<in> set (engine_sql d)"
  shows "triple (in_tx d v c w) (then_do (call f (h_execute h sql ps)) (\<lambda>_. ret ()))
    (\<lambda>_. in_tx d v c (w @ [(sql, ps)])) (\<lambda>_. stored d v c)"
proof -
  have "sql \<notin> set control_sql" "work d [(sql, ps)] = [(sql, ps)]"
    using assms(2) by (auto simp: engine_sql_def)
  then show ?thesis using triple_execute [OF assms(1), of sql d c w f ps]
    by (intro triple_then [where R = "\<lambda>_. in_tx d v c (w @ [(sql, ps)])"]) (auto intro: triple_ret)
qed

lemma triple_clear_progress:
  assumes "transactional h v"
  shows "triple (in_tx d v c w) (clear_progress h d key)
    (\<lambda>_. in_tx d v c (w @ [(clear_progress_sql d, [V_Text key])])) (\<lambda>_. stored d v c)"
  unfolding clear_progress_def by (rule triple_engine_stmt [OF assms]) simp

lemma triple_save_progress:
  assumes "transactional h v"
  shows "triple (in_tx d v c w) (save_progress h d (run_key r) (rn_hash r) i cur rows)
    (\<lambda>_. in_tx d v c (w @ save_stmts h d r i cur rows)) (\<lambda>_. stored d v c)"
proof -
  have "triple (in_tx d v c w) (save_progress h d (run_key r) (rn_hash r) i cur rows)
    (\<lambda>_. in_tx d v c ((w @ [(clear_progress_sql d, [V_Text (run_key r)])])
        @ [(save_progress_sql d, progress_params h (run_key r) (rn_hash r) i cur rows)])) (\<lambda>_. stored d v c)"
    unfolding save_progress_def
    by (rule triple_then [OF triple_clear_progress [OF assms]], rule triple_engine_stmt [OF assms]) simp
  then show ?thesis by (simp add: save_stmts_def)
qed

lemma triple_finish_segment:
  assumes "transactional h v"
  shows "triple (in_tx d v c w) (finish_segment h d r i is_last)
    (\<lambda>_. in_tx d v c (w @ finish_stmts h d r i is_last)) (\<lambda>_. stored d v c)"
proof (cases is_last)
  case True
  have "triple (in_tx d v c w) (finish_segment h d r i True)
    (\<lambda>_. in_tx d v c ((w @ [(clear_progress_sql d, [V_Text (run_key r)])])
        @ [(fst (ledger_op d r), snd (ledger_op d r))])) (\<lambda>_. stored d v c)"
    unfolding finish_segment_def if_False not_True_eq_False
    by (rule triple_then [OF triple_clear_progress [OF assms]], rule triple_engine_stmt [OF assms ledger_op_engine])
  then show ?thesis using True by (simp add: finish_stmts_def)
next
  case False
  then show ?thesis using triple_save_progress [OF assms, of d c w r "Suc i" None 0]
    by (simp add: finish_segment_def finish_stmts_def)
qed

lemma triple_finish:
  assumes "transactional h v"
  shows "triple (in_tx d v c w) (finish h d r t i is_last)
    (\<lambda>_. stored d v (w @ finish_stmts h d r i is_last))
    (\<lambda>_ b. stored d v c b \<or> stored d v (w @ finish_stmts h d r i is_last) b)"
  unfolding finish_def
proof (rule triple_match [OF triple_finish_segment [OF assms]])
  fix e show "triple (stored d v c) (rollback_and_fail h t (failed d r ''progress update'' e))
    (\<lambda>_. stored d v (w @ finish_stmts h d r i is_last))
    (\<lambda>_ b. stored d v c b \<or> stored d v (w @ finish_stmts h d r i is_last) b)"
    by (rule triple_weaken [OF triple_rollback_fail [OF assms]]) auto
qed (rule triple_tx_commit [OF assms])

lemma triple_resume_begin:
  assumes "transactional h v"
  shows "triple (stored d v c) (resume_begin h d r rebuild) (\<lambda>_. in_tx d v c c) (\<lambda>_. stored d v c)"
  unfolding resume_begin_def
  by (rule triple_then [OF triple_checkout [OF assms] triple_tx_begin [OF assms]])

lemma triple_plain_segment:
  assumes "transactional h v" "mints_only (ao_mint opts) v" "plain_units d us"
  shows "triple (stored d v c) (run_plain_segment h d r opts us i is_last)
    (\<lambda>_ b. \<exists>xs. map fst xs = map unit_sql us \<and> stored d v (c @ work d xs @ finish_stmts h d r i is_last) b)
    (\<lambda>_ b. stored d v c b \<or>
       (\<exists>xs. map fst xs = map unit_sql us \<and> stored d v (c @ work d xs @ finish_stmts h d r i is_last) b))"
    (is "triple _ _ ?Q ?E")
  unfolding run_plain_segment_def
proof (rule triple_seq [OF triple_bind_all [OF assms(2)] disjI1], assumption, rule triple_pre)
  fix bound :: "bound list" and b assume "stored d v c b \<and> map bd_sql bound = map unit_sql us"
  then have m: "map bd_sql bound = map unit_sql us" by simp
  have "set (map bd_sql bound) = set (map unit_sql us)" using m by (simp only:)
  then have l: "list_all (\<lambda>s. bd_sql s \<notin> set control_sql) bound"
    using assms(3) by (auto simp: plain_units_def list_all_iff)
      (metis (mono_tags, lifting) image_eqI image_iff)
  let ?w = "c @ work d (map bound_stmt bound)"
  have x: "stored d v (?w @ finish_stmts h d r i is_last) b \<Longrightarrow> ?Q () b" for b
    using m by (intro exI [of _ "map bound_stmt bound"]) (simp add: o_def)
  have "triple (stored d v c)
    (then_do (resume_begin h d r (has_rebuild d (map bd_sql bound))) (\<lambda>t.
     match_do (execute_all h (segment_stage i (length bound)) 0 bound)
       (\<lambda>(stage, e). rollback_and_fail h t (failed d r stage e))
       (\<lambda>_. finish h d r t i is_last))) ?Q ?E"
  proof (rule triple_seq [OF triple_resume_begin [OF assms(1)] disjI1], assumption)
    fix t
    show "triple (in_tx d v c c) (match_do (execute_all h (segment_stage i (length bound)) 0 bound)
       (\<lambda>(stage, e). rollback_and_fail h t (failed d r stage e)) (\<lambda>_. finish h d r t i is_last)) ?Q ?E"
    proof (rule triple_match [OF triple_execute_all [OF assms(1) l]])
      show "triple (in_tx d v c ?w) (finish h d r t i is_last) ?Q ?E"
        by (rule triple_weaken [OF triple_finish [OF assms(1)]]) (use x in blast)+
    next
      fix e show "triple (stored d v c) (case e of (stage, e) \<Rightarrow> rollback_and_fail h t (failed d r stage e)) ?Q ?E"
        by (cases e) (auto intro: triple_weaken [OF triple_rollback_fail [OF assms(1)]])
    qed
  qed
  then show "triple (\<lambda>b. stored d v c b \<and> map bd_sql bound = map unit_sql us)
    (then_do (resume_begin h d r (has_rebuild d (map bd_sql bound))) (\<lambda>t.
     match_do (execute_all h (segment_stage i (length bound)) 0 bound)
       (\<lambda>(stage, e). rollback_and_fail h t (failed d r stage e))
       (\<lambda>_. finish h d r t i is_last))) ?Q ?E"
    by (rule triple_weaken) auto
qed

lemma triple_holds:
  assumes "\<And>W. F W \<Longrightarrow> triple (stored d v W) m Q E"
  shows "triple (holds d v F) m Q E"
proof -
  have "triple (\<lambda>b. F W \<and> stored d v W b) m Q E" for W
    using assms [of W] by (cases "F W") (simp_all, simp add: triple_def)
  then have "triple (\<lambda>b. \<exists>W. F W \<and> stored d v W b) m Q E" by (rule triple_ex)
  moreover have "holds d v F = (\<lambda>b. \<exists>W. F W \<and> stored d v W b)"
    by (rule ext) (rule holds_stored)
  ultimately show ?thesis by simp
qed

lemma holdsI: "stored d v W b \<Longrightarrow> F W \<Longrightarrow> holds d v F b"
  by (auto simp: holds_stored)

abbreviation run_segs :: "migration_run \<Rightarrow> segment list" where
  "run_segs r \<equiv> segments (rn_units r)"

lemma run_at_resumable: "run_at h d r W0 i c W \<Longrightarrow> resumable h d r W0 W"
  by (cases "i < length (run_segs r)") (auto simp: resumable_def run_at_def)

lemma triple_chunks:
  assumes h: "transactional h v" and i: "i < length (run_segs r)" "run_segs r ! i = Seg_Chunk p" "own_segment d (Seg_Chunk p)"
  shows "triple (holds d v (run_at h d r W0 i c)) (chunks fuel h d r p i (i = length (run_segs r) - 1) c rows)
    (\<lambda>_. holds d v (run_at h d r W0 (Suc i) None)) (\<lambda>_. holds d v (resumable h d r W0))"
proof (induction fuel arbitrary: c rows)
  case 0
  then show ?case by (simp add: triple_def)
next
  case (Suc fuel)
  show ?case
  proof (rule triple_holds)
    fix W assume W: "run_at h d r W0 i c W"
    let ?E = "\<lambda>_ :: migrate_error. holds d v (resumable h d r W0)" and ?Q = "\<lambda>_ :: unit. holds d v (run_at h d r W0 (Suc i) None)"
    have err: "stored d v W b \<Longrightarrow> holds d v (resumable h d r W0) b" for b
      using W by (auto intro: holdsI run_at_resumable)
    let ?last = "i = length (run_segs r) - 1"
    show "triple (stored d v W) (chunks (Suc fuel) h d r p i ?last c rows) ?Q ?E"
      unfolding chunks.simps
    proof (rule triple_seq [OF triple_resume_begin [OF h] err], assumption, rule triple_then)
      fix t
      show "triple (in_tx d v W W) (call (failed d r (cp_table p @ '' batch select'')) (h_fetch h (select_sql p c) []))
        (\<lambda>_. in_tx d v W W) ?E"
        by (rule triple_call) (use fetch_keeps [OF h] tx_stored err in metis)+
    next
      fix t and keys :: "row list"
      let ?w = "\<lambda>k. W @ [(apply_sql p c k, [])]"
      have fin: "triple (in_tx d v W W) (finish h d r t i ?last) ?Q ?E"
      proof (rule triple_weaken [OF triple_finish [OF h]], assumption)
        have f: "run_at h d r W0 (Suc i) None (W @ finish_stmts h d r i ?last)"
          by (rule finished_at [OF close_moves [OF W i(1,2)] i(1)])
        show "stored d v (W @ finish_stmts h d r i ?last) b \<Longrightarrow> holds d v (run_at h d r W0 (Suc i) None) b" for b
          using f by (rule holdsI [rotated])
        show "stored d v W b \<or> stored d v (W @ finish_stmts h d r i ?last) b \<Longrightarrow> holds d v (resumable h d r W0) b" for b
          using f err by (auto intro: holdsI run_at_resumable)
      qed
      have batch: "triple (in_tx d v W W)
         (then_do (call (failed d r (cp_table p @ '' batch write'')) (h_execute h (apply_sql p c k) [])) (\<lambda>_.
          then_do (map_err (failed d r ''progress update'')
            (save_progress h d (run_key r) (rn_hash r) i (Some k) (rows + length keys))) (\<lambda>_.
          then_do (call (failed d r ''commit'') (tx_commit h t)) (\<lambda>_.
          chunks fuel h d r p i ?last (Some k) (rows + length keys))))) ?Q ?E" for k
      proof -
        let ?n = "?w k @ save_stmts h d r i (Some k) (rows + length keys)"
        have own: "apply_sql p c k \<notin> set control_sql" "work d [(apply_sql p c k, [])] = [(apply_sql p c k, [])]"
          using i(3) by (auto simp: own_segment_def)
        have n: "run_at h d r W0 i (Some k) ?n"
          using batch_moves [OF W i, of k "rows + length keys"] by simp
        show ?thesis
        proof (rule triple_seq [OF triple_execute [OF h own(1)] err], assumption, unfold own(2),
            rule triple_seq [OF triple_map_err [where E = "\<lambda>_. stored d v W", OF triple_save_progress [OF h]] err],
            assumption, rule triple_seq [OF triple_tx_commit [OF h]])
          show "stored d v W b \<or> stored d v ?n b \<Longrightarrow> holds d v (resumable h d r W0) b" for b
            using n err by (auto intro: holdsI run_at_resumable)
          show "triple (stored d v ?n) (chunks fuel h d r p i ?last (Some k) (rows + length keys)) ?Q ?E"
            by (rule triple_weaken [OF Suc.IH]) (use n in \<open>auto intro: holdsI\<close>)
        qed
      qed
      have stop: "triple (in_tx d v W W) (fail e) ?Q ?E" for e
        by (rule triple_fail, rule err, rule tx_stored)
      show "triple (in_tx d v W W) (if keys = [] then finish h d r t i ?last
          else case key_of p (last keys) of Inl e \<Rightarrow> fail e | Inr k \<Rightarrow>
          then_do (call (failed d r (cp_table p @ '' batch write'')) (h_execute h (apply_sql p c k) [])) (\<lambda>_.
          then_do (map_err (failed d r ''progress update'')
            (save_progress h d (run_key r) (rn_hash r) i (Some k) (rows + length keys))) (\<lambda>_.
          then_do (call (failed d r ''commit'') (tx_commit h t)) (\<lambda>_.
          chunks fuel h d r p i ?last (Some k) (rows + length keys))))) ?Q ?E"
        using fin batch stop by (cases "key_of p (last keys)") simp_all
    qed
  qed
qed

lemma run_at_plain:
  assumes "run_at h d r W0 i c W" "i < length (run_segs r)" "run_segs r ! i = Seg_Sql us"
  shows "c = None"
proof (cases c)
  case (Some k)
  with assms reach_cursor [of d "run_segs r" i k] show ?thesis by (auto simp: run_at_def pos_def)
qed simp

lemma triple_plain_at:
  assumes h: "transactional h v" "mints_only (ao_mint opts) v"
    and i: "i < length (run_segs r)" "run_segs r ! i = Seg_Sql us" "plain_units d us"
  shows "triple (holds d v (run_at h d r W0 i None)) (run_plain_segment h d r opts us i (i = length (run_segs r) - 1))
    (\<lambda>_. holds d v (run_at h d r W0 (Suc i) None)) (\<lambda>_. holds d v (resumable h d r W0))"
proof (rule triple_holds)
  fix W assume W: "run_at h d r W0 i None W"
  let ?f = "finish_stmts h d r i (i = length (run_segs r) - 1)"
  have n: "run_at h d r W0 (Suc i) None (W @ work d xs @ ?f)" if "map fst xs = map unit_sql us" for xs
    using finished_at [OF plain_moves [OF W i that] i(1), of h] by simp
  have ok: "map fst xs = map unit_sql us \<Longrightarrow> stored d v (W @ work d xs @ ?f) b \<Longrightarrow>
      holds d v (run_at h d r W0 (Suc i) None) b \<and> holds d v (resumable h d r W0) b" for xs b
    using n run_at_resumable by (meson holdsI)
  have ko: "stored d v W b \<Longrightarrow> holds d v (resumable h d r W0) b" for b
    using W run_at_resumable by (meson holdsI)
  show "triple (stored d v W) (run_plain_segment h d r opts us i (i = length (run_segs r) - 1))
    (\<lambda>_. holds d v (run_at h d r W0 (Suc i) None)) (\<lambda>_. holds d v (resumable h d r W0))"
    by (rule triple_weaken [OF triple_plain_segment [OF h i(3)]]) (use ok ko in blast)+
qed

definition cursor_at :: "progress option \<Rightarrow> nat \<Rightarrow> str list option" where
  "cursor_at saved i = (case saved of
       Some g \<Rightarrow> (if pg_segment g = i then pg_cursor g else None) | None \<Rightarrow> None)"

lemma chunk_segment_cursor:
  "(case saved of
      Some g \<Rightarrow> (if pg_segment g = i then chunks fuel h d r p i e (pg_cursor g) (pg_rows g)
                 else chunks fuel h d r p i e None 0)
    | None \<Rightarrow> chunks fuel h d r p i e None 0)
   = chunks fuel h d r p i e (cursor_at saved i)
       (case saved of Some g \<Rightarrow> (if pg_segment g = i then pg_rows g else 0) | None \<Rightarrow> 0)"
  by (simp add: cursor_at_def split: option.split)

lemma triple_run_segments:
  assumes h: "transactional h v" "mints_only (ao_mint opts) v" and own: "list_all (own_segment d) (run_segs r)"
  shows "ss = drop i (run_segs r) \<Longrightarrow> cursor_at saved i = c \<Longrightarrow> (\<forall>j > i. cursor_at saved j = None) \<Longrightarrow> i \<le> length (run_segs r) \<Longrightarrow>
    triple (holds d v (run_at h d r W0 i c))
      (run_segments fuel h d r opts saved (length (run_segs r) - 1) i ss)
      (\<lambda>_. holds d v (completed d r W0)) (\<lambda>_. holds d v (resumable h d r W0))"
proof (induction ss arbitrary: i c)
  case Nil
  then have "i = length (run_segs r)" by simp
  then show ?case by (auto intro!: triple_ret simp: run_at_def holds_def)
next
  case (Cons s ss)
  then have i: "i < length (run_segs r)" and s: "run_segs r ! i = s" and ss: "ss = drop (Suc i) (run_segs r)"
    by (auto simp: not_le) (metis Cons_nth_drop_Suc drop_all le_less_linear list.inject list.simps(3))+
  have o: "own_segment d s" using own i s by (auto simp: list_all_length)
  have IH: "triple (holds d v (run_at h d r W0 (Suc i) None))
      (run_segments fuel h d r opts saved (length (run_segs r) - 1) (Suc i) ss)
      (\<lambda>_. holds d v (completed d r W0)) (\<lambda>_. holds d v (resumable h d r W0))"
    by (rule Cons.IH [OF ss]) (use Cons.prems(3) i in auto)
  have step: "triple (holds d v (run_at h d r W0 i c)) (case s of
         Seg_Sql us \<Rightarrow> run_plain_segment h d r opts us i (i = length (run_segs r) - 1)
       | Seg_Chunk p \<Rightarrow> chunks fuel h d r p i (i = length (run_segs r) - 1) (cursor_at saved i)
           (case saved of Some g \<Rightarrow> (if pg_segment g = i then pg_rows g else 0) | None \<Rightarrow> 0))
      (\<lambda>_. holds d v (run_at h d r W0 (Suc i) None)) (\<lambda>_. holds d v (resumable h d r W0))"
  proof (cases s)
    case (Seg_Sql us)
    have c: "run_at h d r W0 i c W \<Longrightarrow> run_at h d r W0 i None W" for W
      using run_at_plain [OF _ i, of h d W0 c W us] s Seg_Sql by auto
    have p: "plain_units d us" using o Seg_Sql by (simp add: own_segment_def)
    have "run_segs r ! i = Seg_Sql us" using s Seg_Sql by simp
    from triple_plain_at [OF h i this p] show ?thesis unfolding Seg_Sql segment.case
      by (rule triple_weaken) (use c in \<open>auto simp: holds_def\<close>)
  next
    case (Seg_Chunk p)
    from triple_chunks [OF h(1) i] s o Seg_Chunk Cons.prems(2) show ?thesis by simp
  qed
  show ?case unfolding run_segments.simps chunk_segment_cursor
    by (rule triple_then [OF step IH])
qed

subsection \<open>The whole run\<close>

text \<open>The saved row reads back as the position it was written for.\<close>

lemma nat_to_i64: "n < 2 ^ 63 \<Longrightarrow> nat (to_i64 n) = n"
  by (simp add: to_i64_def)

lemma read_back:
  assumes "h_list_read h (h_list_text h xs) = Some xs" "i < 2 ^ 63"
  shows "pg_hash (progress_of_row h (progress_row (progress_params h key hash i (Some xs) rows))) = hash"
    "pg_segment (progress_of_row h (progress_row (progress_params h key hash i (Some xs) rows))) = i"
    "pg_cursor (progress_of_row h (progress_row (progress_params h key hash i (Some xs) rows))) = Some xs"
  using assms by (simp_all add: progress_of_row_def progress_row_def progress_params_def progress_columns_def
      field_text_def count_field_def nat_to_i64)

lemma read_back_none:
  assumes "i < 2 ^ 63"
  shows "pg_hash (progress_of_row h (progress_row (progress_params h key hash i None rows))) = hash"
    "pg_segment (progress_of_row h (progress_row (progress_params h key hash i None rows))) = i"
    "pg_cursor (progress_of_row h (progress_row (progress_params h key hash i None rows))) = None"
  using assms by (simp_all add: progress_of_row_def progress_row_def progress_params_def progress_columns_def
      field_text_def count_field_def nat_to_i64)

text \<open>What the run has read: nothing, at the start, or the row of its position.\<close>

definition read_for :: "migration_run \<Rightarrow> nat \<Rightarrow> str list option \<Rightarrow> progress option \<Rightarrow> bool" where
  "read_for r i c saved \<longleftrightarrow> (case saved of
       None \<Rightarrow> i = 0 \<and> c = None
     | Some g \<Rightarrow> pg_hash g = rn_hash r \<and> pg_segment g = i \<and> pg_cursor g = c)"

lemma saved_read:
  assumes "reads_progress h d v" "saved_at h d r i c (work d (fst (v b)))" "i < 2 ^ 63" "snd (v b) = None"
    "h_fetch h (read_progress_sql d) [V_Text (run_key r)] b = (Inr rows, b')"
  shows "read_for r i c (case rows of [] \<Rightarrow> None | x # _ \<Rightarrow> Some (progress_of_row h x))"
proof -
  have rows: "rows = (case stored_progress d (run_key r) (fst (v b)) of None \<Rightarrow> [] | Some ps \<Rightarrow> [progress_row ps])"
    using assms(1,4,5) unfolding reads_progress_def by blast
  have t: "h_list_read h (h_list_text h xs) = Some xs" for xs
    using assms(1) unfolding reads_progress_def by blast
  from assms(2) show ?thesis unfolding saved_at_def stored_progress_work
  proof (elim disjE exE conjE)
    fix n assume "stored_progress d (run_key r) (fst (v b)) = Some (progress_params h (run_key r) (rn_hash r) i c n)"
    with rows show ?thesis using read_back [OF t assms(3)] read_back_none [OF assms(3), of h]
      by (cases c) (simp_all add: read_for_def)
  qed (simp add: rows read_for_def)
qed

lemma triple_read_progress:
  assumes "transactional h v" "reads_progress h d v" "i < 2 ^ 63" "saved_at h d r i c W"
  shows "triple (at_rest d v W) (map_err Db_Error (read_progress h d (run_key r)))
    (\<lambda>saved b. stored d v W b \<and> read_for r i c saved) (\<lambda>_. stored d v W)"
proof (rule triple_map_err, unfold read_progress_def, rule triple_then)
  let ?R = "\<lambda>rows b. stored d v W b \<and> read_for r i c (case rows of [] \<Rightarrow> None | x # _ \<Rightarrow> Some (progress_of_row h x))"
  show "triple (at_rest d v W) (call id (h_fetch h (read_progress_sql d) [V_Text (run_key r)])) ?R (\<lambda>_. stored d v W)"
  proof (rule triple_call)
    fix b rs b' assume b: "at_rest d v W b" and f: "h_fetch h (read_progress_sql d) [V_Text (run_key r)] b = (Inr rs, b')"
    then have "snd (v b) = None" "work d (fst (v b)) = W" by (simp_all add: at_rest_def)
    with saved_read [OF assms(2) _ assms(3) _ f] assms(4)
    have "read_for r i c (case rs of [] \<Rightarrow> None | x # _ \<Rightarrow> Some (progress_of_row h x))" by simp
    moreover have "stored d v W b'" using b law_fetch [OF assms(1) f] by (simp add: at_rest_def stored_def)
    ultimately show "?R rs b'" by simp
  next
    fix b e b' assume b: "at_rest d v W b" and f: "h_fetch h (read_progress_sql d) [V_Text (run_key r)] b = (Inl e, b')"
    then show "stored d v W b'" using law_fetch [OF assms(1) f] by (simp add: at_rest_def stored_def)
  qed
qed (rule triple_ret, simp)

lemma triple_run_resumable:
  assumes h: "transactional h v" "mints_only (ao_mint opts) v" "reads_progress h d v"
    and own: "list_all (own_segment d) (run_segs r)" and len: "length (run_segs r) \<le> 2 ^ 63"
    and i: "i < length (run_segs r)" and W: "run_at h d r W0 i c W"
  shows "triple (stored d v W) (run_resumable fuel h d r opts)
    (\<lambda>_. holds d v (completed d r W0)) (\<lambda>_. holds d v (resumable h d r W0))"
proof -
  have err: "stored d v W b \<Longrightarrow> holds d v (resumable h d r W0) b" for b
    using W run_at_resumable by (meson holdsI)
  have s: "saved_at h d r i c W" and i63: "i < 2 ^ 63" using W i len by (simp_all add: run_at_def)
  have create: "triple (at_rest d v W) (call Db_Error (h_execute h (create_progress_sql d) []))
      (\<lambda>_. at_rest d v W) (\<lambda>_. stored d v W)"
    using triple_execute_plain [OF h(1), of "create_progress_sql d" d W Db_Error "[]"] by simp
  show ?thesis unfolding run_resumable_def Let_def
  proof (rule triple_seq [OF triple_checkout [OF h(1)] err], assumption, rule triple_seq [OF create err], assumption,
      rule triple_seq [OF triple_read_progress [OF h(1,3) i63 s] err], assumption, rule triple_pre)
    fix saved b assume "stored d v W b \<and> read_for r i c saved"
    then have rd: "read_for r i c saved" ..
    have start: "(case saved of Some g \<Rightarrow> pg_segment g | None \<Rightarrow> 0) = i" "cursor_at saved i = c"
        "\<forall>j > i. cursor_at saved j = None"
      using rd by (auto simp: read_for_def cursor_at_def split: option.splits)
    have "(case saved of
       Some g \<Rightarrow> (if pg_hash g \<noteq> rn_hash r then fail (Tamper (rn_id r) (pg_hash g) (rn_hash r))
                  else run_segments fuel h d r opts saved (length (run_segs r) - 1) i (drop i (run_segs r)))
     | None \<Rightarrow> run_segments fuel h d r opts saved (length (run_segs r) - 1) i (drop i (run_segs r)))
       = run_segments fuel h d r opts saved (length (run_segs r) - 1) i (drop i (run_segs r))"
      using rd by (auto simp: read_for_def split: option.split)
    moreover have "triple (holds d v (run_at h d r W0 i c))
      (run_segments fuel h d r opts saved (length (run_segs r) - 1) i (drop i (run_segs r)))
      (\<lambda>_. holds d v (completed d r W0)) (\<lambda>_. holds d v (resumable h d r W0))"
      by (rule triple_run_segments [OF h(1,2) own refl start(2,3)]) (use i in simp)
    ultimately show "triple (\<lambda>b. stored d v W b \<and> read_for r i c saved) (case saved of
       Some g \<Rightarrow> (if pg_hash g \<noteq> rn_hash r then fail (Tamper (rn_id r) (pg_hash g) (rn_hash r))
                  else run_segments fuel h d r opts saved (length (run_segs r) - 1)
                    (case saved of Some g \<Rightarrow> pg_segment g | None \<Rightarrow> 0)
                    (drop (case saved of Some g \<Rightarrow> pg_segment g | None \<Rightarrow> 0) (run_segs r)))
     | None \<Rightarrow> run_segments fuel h d r opts saved (length (run_segs r) - 1)
         (case saved of Some g \<Rightarrow> pg_segment g | None \<Rightarrow> 0)
         (drop (case saved of Some g \<Rightarrow> pg_segment g | None \<Rightarrow> 0) (run_segs r)))
      (\<lambda>_. holds d v (completed d r W0)) (\<lambda>_. holds d v (resumable h d r W0))"
      unfolding start(1) by (simp only:) (erule triple_weaken, use W in \<open>auto intro: holdsI\<close>)
  qed
qed

end
