(* ===== verification/Returns.thy ===== *)
theory Returns
  imports Ledger
begin

text \<open>
  Every run of the migration runner returns, with a result or an error, when the walks of its
  chunked steps are finite: each batch read past a cursor lets the number of keys left go down.
\<close>

lemma returns_rollback [returns_intros]: "returns (rollback_and_fail h t e)"
  unfolding rollback_and_fail_def by (intro returns_intros)

lemma returns_execute_all [returns_intros]: "returns (execute_all h stage i ss)"
  by (induction ss arbitrary: i) (auto intro!: returns_intros)

lemma returns_bind_unit [returns_intros]: "returns (bind_unit u i mint)"
  by (cases u; cases mint) (auto simp: returns_def ret_def fail_def split: prod.splits)

lemma returns_bind_all [returns_intros]: "returns (bind_all us i mint)"
  by (induction us) (auto intro!: returns_intros)

lemma returns_progress [returns_intros]:
  "returns (clear_progress h d key)" "returns (save_progress h d key hash seg c n)"
  "returns (read_progress h d key)" "returns (ensure_ledger h d)" "returns (read_ledger h d)"
  unfolding clear_progress_def save_progress_def read_progress_def ensure_ledger_def read_ledger_def
  by (intro returns_intros)+

lemma returns_finish [returns_intros]: "returns (finish h d r t i l)"
  unfolding finish_def finish_segment_def by (auto intro!: returns_intros)

lemma returns_begin [returns_intros]: "returns (resume_begin h d r x)"
  unfolding resume_begin_def by (intro returns_intros)

lemma returns_plain_segment [returns_intros]: "returns (run_plain_segment h d r opts us i l)"
  unfolding run_plain_segment_def by (auto intro!: returns_intros split: prod.split)

subsection \<open>Walks\<close>

text \<open>Less than \<open>n\<close> keys past any cursor, and fewer past the last key of each batch.\<close>

definition walks_within :: "'b host \<Rightarrow> chunk_plan \<Rightarrow> nat \<Rightarrow> bool" where
  "walks_within h p n \<longleftrightarrow> (\<exists>left :: str list option \<Rightarrow> nat. (\<forall>c. left c < n) \<and>
     (\<forall>c b rows b' k. h_fetch h (select_sql p c) [] b = (Inr rows, b') \<longrightarrow> rows \<noteq> [] \<longrightarrow>
        key_of p (last rows) = Inr k \<longrightarrow> left (Some k) < left c))"

lemma returns_chunks:
  assumes "walks_within h p n" "n \<le> fuel"
  shows "returns (chunks fuel h d r p i l c rows)"
proof -
  obtain left :: "str list option \<Rightarrow> nat" where left: "\<And>c. left c < n"
    "\<And>c b rows b' k. h_fetch h (select_sql p c) [] b = (Inr rows, b') \<Longrightarrow> rows \<noteq> [] \<Longrightarrow>
        key_of p (last rows) = Inr k \<Longrightarrow> left (Some k) < left c"
    using assms(1) unfolding walks_within_def by blast
  have "left c < fuel \<Longrightarrow> returns (chunks fuel h d r p i l c rows)" for c rows
  proof (induction fuel arbitrary: c rows)
    case (Suc fuel)
    have next_batch: "returns (chunks fuel h d r p i l (Some k) m)"
      if "h_fetch h (select_sql p c) [] b = (Inr keys, b')" "keys \<noteq> []" "key_of p (last keys) = Inr k" for b keys b' k m
      by (rule Suc.IH) (use left(2) [OF that] Suc.prems in simp)
    show ?case unfolding chunks.simps
      by (rule returns_then [OF returns_begin], rule returns_call_then)
        (auto intro!: returns_intros next_batch split: sum.split)
  qed simp
  with left(1) [of c] assms(2) show ?thesis by simp
qed

definition run_walks_within :: "'b host \<Rightarrow> nat \<Rightarrow> plan_unit list \<Rightarrow> bool" where
  "run_walks_within h n us \<longleftrightarrow> (\<forall>p. Seg_Chunk p \<in> set (segments us) \<longrightarrow> walks_within h p n)"

lemma returns_run_segments:
  assumes "\<And>p. Seg_Chunk p \<in> set ss \<Longrightarrow> walks_within h p n" "n \<le> fuel"
  shows "returns (run_segments fuel h d r opts saved fin i ss)"
  using assms(1)
proof (induction ss arbitrary: i)
  case (Cons s ss)
  show ?case unfolding run_segments.simps
    by (rule returns_then, cases s)
      (auto intro!: returns_intros returns_chunks [OF _ assms(2)] Cons split: option.split)
qed (simp add: returns_intros)

lemma returns_run_resumable:
  assumes "run_walks_within h n (rn_units r)" "n \<le> fuel"
  shows "returns (run_resumable fuel h d r opts)"
proof -
  have "returns (run_segments fuel h d r opts saved fin i (drop j (segments (rn_units r))))" for saved fin i j
    by (rule returns_run_segments [OF _ assms(2)])
      (use assms(1) in \<open>auto simp: run_walks_within_def dest: in_set_dropD\<close>)
  from this this [of _ _ _ 0] show ?thesis unfolding run_resumable_def Let_def
    by (auto intro!: returns_intros split: option.split)
qed

lemma returns_run_migration:
  "run_walks_within h n (rn_units r) \<Longrightarrow> n \<le> fuel \<Longrightarrow> returns (run_migration fuel h d r opts)"
  unfolding run_migration_def run_in_tx_def run_statements_def
  by (auto intro!: returns_intros returns_run_resumable split: prod.split)

definition walks_of :: "planned_migration \<Rightarrow> plan_unit list list" where
  "walks_of m = pm_up m # (case pm_down m of None \<Rightarrow> [] | Some us \<Rightarrow> [us])"

lemma returns_phases:
  assumes "\<And>m us. m \<in> set ms \<Longrightarrow> us \<in> set (walks_of m) \<Longrightarrow> run_walks_within h n us" "n \<le> fuel"
  shows "returns (roll_back_all fuel h d opts ms ids)" "returns (roll_forward_all fuel h d opts ms ids)"
proof -
  have run: "returns (run_migration fuel h d (down_run m us) opts)" if "m \<in> set ms" "pm_down m = Some us" for m us
    using assms(1) [OF that(1), of us] that(2)
    by (intro returns_run_migration [OF _ assms(2)]) (simp add: down_run_def walks_of_def)
  have up: "returns (run_migration fuel h d (up_run m) opts)" if "m \<in> set ms" for m
    using assms(1) [OF that, of "pm_up m"]
    by (intro returns_run_migration [OF _ assms(2)]) (simp add: up_run_def walks_of_def)
  show "returns (roll_back_all fuel h d opts ms ids)" using run
    by (induction ms arbitrary: ids) (auto intro!: returns_intros split: option.split)
  show "returns (roll_forward_all fuel h d opts ms ids)" using up
    by (induction ms arbitrary: ids) (auto intro!: returns_intros)
qed

lemma returns_apply:
  assumes "\<And>m us. m \<in> set ms \<Longrightarrow> us \<in> set (walks_of m) \<Longrightarrow> run_walks_within h n us" "n \<le> fuel"
  shows "returns (apply_migrations fuel h d ms opts)"
proof -
  have "returns (roll_back_all fuel h d opts (rollback_list k ms l) ids)"
    "returns (roll_forward_all fuel h d opts (forward_list k ms l) ids)" for k l ids
    using assms(1) by (auto intro!: returns_phases [OF _ assms(2)] simp: rollback_list_def forward_list_def)
  then show ?thesis unfolding apply_migrations_def Let_def
    by (auto intro!: returns_intros split: option.split)
qed

end
