(* ===== verification/Mem_Db.thy ===== *)
theory Mem_Db
  imports Resume_Correct Returns
begin

text \<open>
  A database in memory: a history of statements, an open transaction, the faults to come and the
  answers to the queries that are not the engine's own. It meets every hypothesis about drivers,
  so the properties of the migration runner hold of something, and they are applied to it.
\<close>

record mem =
  m_done :: hist
  m_open :: "hist option"
  m_faults :: "bool list"
  m_answers :: "row list list"

definition mem_view :: "mem view" where
  "mem_view b = (m_done b, m_open b)"

definition mem_error :: db_error where
  "mem_error = db_error_new ''connection lost''"

definition mem_op :: "(mem \<Rightarrow> mem) \<Rightarrow> 'a \<Rightarrow> mem \<Rightarrow> (db_error + 'a) \<times> mem" where
  "mem_op f a b = (case m_faults b of
       [] \<Rightarrow> (Inr a, f b)
     | True # fs \<Rightarrow> (Inl mem_error, b\<lparr>m_faults := fs\<rparr>)
     | False # fs \<Rightarrow> (Inr a, f (b\<lparr>m_faults := fs\<rparr>)))"

definition mem_set :: "hist \<times> hist option \<Rightarrow> mem \<Rightarrow> mem" where
  "mem_set s b = b\<lparr>m_done := fst s, m_open := snd s\<rparr>"

text \<open>The rows of the ledger table.\<close>

definition put_row :: "str \<Rightarrow> str \<Rightarrow> (str \<times> str) list \<Rightarrow> (str \<times> str) list" where
  "put_row i x rs = (i, x) # filter (\<lambda>r. fst r \<noteq> i) rs"

fun row_step :: "dialect \<Rightarrow> str \<times> sql_value list \<Rightarrow> (str \<times> str) list \<Rightarrow> (str \<times> str) list" where
  "row_step d (sql, ps) rs =
     (if sql = insert_ledger_sql d
      then (case ps of [V_Text i, V_Text x] \<Rightarrow> put_row i x rs | _ \<Rightarrow> rs)
      else if sql = delete_ledger_sql d
      then (case ps of [V_Text i] \<Rightarrow> filter (\<lambda>r. fst r \<noteq> i) rs | _ \<Rightarrow> rs)
      else rs)"

definition mem_answer :: "dialect \<Rightarrow> str \<Rightarrow> sql_value list \<Rightarrow> mem \<Rightarrow> row list" where
  "mem_answer d sql ps b =
     (if sql = applied_sql d
      then map (\<lambda>(i, x). [(''id'', J_Str i), (''content_hash'', J_Str x), (''applied_at'', J_Str ''now'')])
        (fold (row_step d) (m_done b) [])
      else case ps of
        [V_Text key] \<Rightarrow> (if sql = read_progress_sql d
          then (case stored_progress d key (m_done b) of None \<Rightarrow> [] | Some r \<Rightarrow> [progress_row r])
          else (case m_answers b of [] \<Rightarrow> [] | a # _ \<Rightarrow> a))
      | _ \<Rightarrow> (case m_answers b of [] \<Rightarrow> [] | a # _ \<Rightarrow> a))"

definition mem_next :: "dialect \<Rightarrow> str \<Rightarrow> mem \<Rightarrow> mem" where
  "mem_next d sql b = (if sql = applied_sql d \<or> sql = read_progress_sql d then b else b\<lparr>m_answers := tl (m_answers b)\<rparr>)"

text \<open>A list of strings as text: each string quoted and followed by a comma.\<close>

definition list_text :: "str list \<Rightarrow> str" where
  "list_text xs = concat (map (\<lambda>x. quote Sqlite x @ '','') xs)"

fun list_read_from :: "nat \<Rightarrow> str \<Rightarrow> str list option" where
  "list_read_from n [] = Some []"
| "list_read_from 0 s = None"
| "list_read_from (Suc n) s = (case read_ident Sqlite s of
       Some (x, c # r) \<Rightarrow> map_option ((#) x) (list_read_from n r)
     | _ \<Rightarrow> None)"

definition list_read :: "str \<Rightarrow> str list option" where
  "list_read s = list_read_from (length s) s"

definition mem_host :: "dialect \<Rightarrow> mem host" where
  "mem_host d = \<lparr>
     h_checkout = (\<lambda>k b. mem_op id () (b\<lparr>m_open := None\<rparr>)),
     h_begin = mem_op (\<lambda>b. b\<lparr>m_open := Some (m_done b)\<rparr>) (),
     h_execute = (\<lambda>sql ps. mem_op (\<lambda>b. mem_set (after sql ps (mem_view b)) b) 1),
     h_fetch = (\<lambda>sql ps b. mem_op (mem_next d sql) (mem_answer d sql ps b) b),
     h_commit = mem_op (\<lambda>b. mem_set (after ''COMMIT'' [] (mem_view b)) b) (),
     h_rollback = mem_op (\<lambda>b. b\<lparr>m_open := None\<rparr>) (),
     h_json_text = (\<lambda>j. []),
     h_list_text = list_text,
     h_list_read = list_read\<rparr>"

subsection \<open>It meets the hypotheses\<close>

lemma list_read_text: "list_read (list_text xs) = Some xs"
proof -
  have "list_read_from n (list_text xs) = Some xs" if "length xs \<le> n" for n
    using that
  proof (induction xs arbitrary: n)
    case (Cons x xs)
    then obtain m where n: "n = Suc m" "length xs \<le> m" by (cases n) auto
    have r: "read_ident Sqlite (quote Sqlite x @ CHR '','' # list_text xs) = Some (x, CHR '','' # list_text xs)"
      by (rule read_ident_quote) (simp add: quote_char_def)
    have t: "list_text (x # xs) = backtick # tl (quote Sqlite x) @ CHR '','' # list_text xs"
      "quote Sqlite x = backtick # tl (quote Sqlite x)" by (simp_all add: list_text_def)
    with r have "read_ident Sqlite (list_text (x # xs)) = Some (x, CHR '','' # list_text xs)" by simp
    then show ?case using Cons.IH [OF n(2)] unfolding n(1) t(1) by (simp add: t(1))
  qed (simp add: list_text_def)
  moreover have "length xs \<le> length (list_text xs)"
    by (induction xs) (simp_all add: list_text_def)
  ultimately show ?thesis by (simp add: list_read_def)
qed

lemma mem_op_view:
  assumes "mem_op f a b = (r, b')"
  shows "(r = Inr a \<and> (\<exists>fs. b' = f (b\<lparr>m_faults := fs\<rparr>))) \<or> (r = Inl mem_error \<and> mem_view b' = mem_view b)"
proof (cases "m_faults b")
  case Nil
  with assms have r: "r = Inr a" "b' = f b" by (simp_all add: mem_op_def)
  have "b = b\<lparr>m_faults := m_faults b\<rparr>" by simp
  with r show ?thesis by metis
next
  case (Cons x fs)
  with assms show ?thesis by (cases x) (auto simp: mem_op_def mem_view_def)
qed

lemma mem_views [simp]:
  "mem_view (b\<lparr>m_faults := fs\<rparr>) = mem_view b"
  "mem_view (b\<lparr>m_open := t\<rparr>) = (m_done b, t)"
  "mem_view (mem_set s b) = s"
  "mem_view (mem_next d sql b) = mem_view b"
  by (simp_all add: mem_view_def mem_set_def mem_next_def)

lemma mem_transactional: "transactional (mem_host d) mem_view"
  unfolding transactional_def
proof (intro conjI allI impI)
  fix k b r b' assume "h_checkout (mem_host d) k b = (r, b')"
  then show "mem_view b' = (fst (mem_view b), None)"
    by (auto simp: mem_host_def mem_view_def dest!: mem_op_view)
next
  fix b r b' assume "h_begin (mem_host d) b = (r, b')"
  then have "(r = Inr () \<and> (\<exists>fs. b' = (\<lambda>b. b\<lparr>m_open := Some (m_done b)\<rparr>) (b\<lparr>m_faults := fs\<rparr>)))
      \<or> (r = Inl mem_error \<and> mem_view b' = mem_view b)"
    by (intro mem_op_view) (simp add: mem_host_def)
  then show "fst (mem_view b') = fst (mem_view b)" and "r = Inr () \<Longrightarrow> snd (mem_view b') = Some (fst (mem_view b))"
    by (auto simp: mem_view_def)
next
  fix sql ps b n b' assume "h_execute (mem_host d) sql ps b = (Inr n, b')"
  then show "mem_view b' = after sql ps (mem_view b)"
    by (auto simp: mem_host_def dest!: mem_op_view)
next
  fix sql ps b e b' assume "h_execute (mem_host d) sql ps b = (Inl e, b')"
  then show "fst (mem_view b') = fst (mem_view b) \<or> sql = ''COMMIT'' \<and> mem_view b' = after sql ps (mem_view b)"
    by (auto simp: mem_host_def dest!: mem_op_view)
next
  fix sql ps b r b' assume "h_fetch (mem_host d) sql ps b = (r, b')"
  then show "mem_view b' = mem_view b" by (auto simp: mem_host_def dest!: mem_op_view)
next
  fix b r b' assume "h_commit (mem_host d) b = (r, b')"
  then show "case r of Inl e \<Rightarrow> fst (mem_view b') = fst (mem_view b) \<or>
        fst (mem_view b') = fst (after ''COMMIT'' [] (mem_view b))
      | Inr _ \<Rightarrow> mem_view b' = after ''COMMIT'' [] (mem_view b)"
    by (auto simp: mem_host_def dest!: mem_op_view)
next
  fix b r b' assume "h_rollback (mem_host d) b = (r, b')"
  then show "fst (mem_view b') = fst (mem_view b)"
    by (auto simp: mem_host_def mem_view_def dest!: mem_op_view)
qed

lemma map_of_filter_key: "map_of (filter (\<lambda>r. fst r \<noteq> i) rs) = (map_of rs)(i := None)"
  by (induction rs) auto

lemma row_step_keeps:
  "distinct (map fst rs) \<Longrightarrow>
   distinct (map fst (row_step d s rs)) \<and> map_of (row_step d s rs) = ledger_step d s (map_of rs)"
  by (cases s) (auto simp: put_row_def map_of_filter_key distinct_map_filter
      split: list.split sql_value.split)

lemma rows_ledger:
  "distinct (map fst (fold (row_step d) xs [])) \<and> map_of (fold (row_step d) xs []) = ledger_of d xs"
  by (induction xs rule: rev_induct) (simp_all add: ledger_of_def row_step_keeps del: row_step.simps ledger_step.simps)

lemma fetch_answer:
  assumes "h_fetch (mem_host d) sql ps b = (Inr rows, b')"
  shows "rows = mem_answer d sql ps b"
  using assms by (auto simp: mem_host_def dest!: mem_op_view)

lemma mem_reads_ledger: "reads_ledger (mem_host d) d mem_view"
  unfolding reads_ledger_def
proof (intro allI impI conjI)
  fix b rows b' assume "h_fetch (mem_host d) (applied_sql d) [] b = (Inr rows, b')"
  from fetch_answer [OF this] have rows: "rows = map (\<lambda>(i, x).
      [(''id'', J_Str i), (''content_hash'', J_Str x), (''applied_at'', J_Str ''now'')]) (fold (row_step d) (m_done b) [])"
    by (simp add: mem_answer_def)
  show "\<forall>r \<in> set rows. \<exists>i x. map_of r ''id'' = Some (J_Str i) \<and> map_of r ''content_hash'' = Some (J_Str x)"
    by (auto simp: rows)
  fix i x
  have "ledger_of d (m_done b) i = Some x \<longleftrightarrow> (i, x) \<in> set (fold (row_step d) (m_done b) [])"
    using rows_ledger [of d "m_done b"] by (metis map_of_eq_Some_iff)
  then show "ledger_of d (fst (mem_view b)) i = Some x \<longleftrightarrow>
      (\<exists>r \<in> set rows. map_of r ''id'' = Some (J_Str i) \<and> map_of r ''content_hash'' = Some (J_Str x))"
    by (auto simp: rows mem_view_def intro!: bexI [of _ "(i, x)"])
qed

lemma applied_not_progress: "read_progress_sql d \<noteq> applied_sql d"
  by (cases d; simp add: read_progress_sql_def applied_sql_def engine_texts)

lemma mem_reads_progress: "reads_progress (mem_host d) d mem_view"
  unfolding reads_progress_def
proof (intro conjI allI impI)
  fix key b rows b' assume "h_fetch (mem_host d) (read_progress_sql d) [V_Text key] b = (Inr rows, b')"
  from fetch_answer [OF this] show "rows = (case stored_progress d key (fst (mem_view b)) of
      None \<Rightarrow> [] | Some ps \<Rightarrow> [progress_row ps])"
    by (simp add: mem_answer_def mem_view_def applied_not_progress)
next
  fix xs show "h_list_read (mem_host d) (h_list_text (mem_host d) xs) = Some xs"
    by (simp add: mem_host_def list_read_text)
qed

lemma no_mint: "mints_only None v"
  by (simp add: mints_only_def)

end
