(* ===== verification/Migrate_Samples.thy ===== *)
theory Migrate_Samples
  imports Mem_Db
begin

text \<open>Concrete migrations and databases, on which the properties of the runner are applied.\<close>

definition first_migration :: planned_migration where
  "first_migration = \<lparr>pm_number = 1, pm_id = ''0001_init'', pm_up = [Unit_Sql ''CREATE TABLE card (id TEXT)''],
     pm_up_hash = ''aa'', pm_destructive = False, pm_rename_hints = [],
     pm_down = Some [Unit_Sql ''DROP TABLE card'']\<rparr>"

definition second_migration :: planned_migration where
  "second_migration = \<lparr>pm_number = 2, pm_id = ''0002_drop'', pm_up = [Unit_Sql ''ALTER TABLE card DROP COLUMN id''],
     pm_up_hash = ''bb'', pm_destructive = True, pm_rename_hints = [], pm_down = None\<rparr>"

definition two_migrations :: "planned_migration list" where
  "two_migrations = [first_migration, second_migration]"

definition up_opts :: "bool \<Rightarrow> mem apply_opts" where
  "up_opts ack = \<lparr>ao_allow_destructive = ack, ao_direction = Dir_Up, ao_mint = None\<rparr>"

definition fresh :: "bool list \<Rightarrow> mem" where
  "fresh faults = \<lparr>m_done = [], m_open = None, m_faults = faults, m_answers = []\<rparr>"

definition after_run :: "(('e + 'a) \<times> 'b) option \<Rightarrow> 'b" where
  "after_run x = snd (the x)"

definition result_of :: "(('e + 'a) \<times> 'b) option \<Rightarrow> 'e + 'a" where
  "result_of x = fst (the x)"

lemma run_parts: "x \<noteq> None \<Longrightarrow> x = Some (result_of x, after_run x)"
  by (auto simp: after_run_def result_of_def)

lemma sample_numbered: "well_numbered two_migrations"
  by (simp add: well_numbered_def two_migrations_def first_migration_def second_migration_def)

lemma sample_plain: "list_all (plain_migration Sqlite) two_migrations"
  by code_simp

lemma sample_empty: "ledger_of Sqlite (fst (mem_view (fresh fs))) = prefix_ledger two_migrations 0"
  by (simp add: ledger_of_def mem_view_def fresh_def prefix_ledger_def)

abbreviation sample_run :: "bool \<Rightarrow> bool list \<Rightarrow> ((migrate_error + apply_report) \<times> mem) option" where
  "sample_run ack fs \<equiv> apply_migrations 0 (mem_host Sqlite) Sqlite two_migrations (up_opts ack) (fresh fs)"

lemma sample_acked: "result_of (sample_run True []) =
  Inr \<lparr>ar_applied = [''0001_init'', ''0002_drop''], ar_rolled_back = []\<rparr>"
  by code_simp

lemma chunk_by_concat: "concat (chunk_by P us) = us"
proof (induction P us rule: chunk_by.induct)
  case (3 P x y xs)
  then show ?case by (cases "chunk_by P (y # xs)") auto
qed simp_all

lemma no_walks:
  assumes "list_all (\<lambda>u. \<not> is_chunked u) us"
  shows "run_walks_within h n us"
proof -
  let ?g = "chunk_by (\<lambda>a b. \<not> is_chunked a \<and> \<not> is_chunked b) us"
  have "segment_of x \<noteq> Seg_Chunk p" if "x \<in> set ?g" for x p
  proof -
    have "set (concat ?g) = set us" by (simp only: chunk_by_concat)
    with that have "set x \<subseteq> set us" by auto
    then have "list_all (\<lambda>u. \<not> is_chunked u) x" using assms by (auto simp: list_all_iff)
    then show ?thesis by (cases x rule: segment_of.cases) auto
  qed
  then have "Seg_Chunk p \<notin> set (segments us)" for p
    unfolding segments_def set_map by (auto dest: sym)
  then show ?thesis by (simp add: run_walks_within_def)
qed

lemma sample_defined: "apply_migrations 0 (mem_host Sqlite) Sqlite two_migrations opts b \<noteq> None"
proof -
  have "returns (apply_migrations 0 (mem_host Sqlite) Sqlite two_migrations opts)"
    by (rule returns_apply [where n = 0])
      (auto simp: two_migrations_def first_migration_def second_migration_def walks_of_def intro: no_walks)
  then show ?thesis by (simp add: returns_def)
qed

lemma sample_returns: "sample_run ack fs = Some (result_of (sample_run ack fs), after_run (sample_run ack fs))"
  by (rule run_parts, rule sample_defined)

text \<open>A database whose first migration was applied with another hash.\<close>

definition edited :: mem where
  "edited = (fresh [])\<lparr>m_done := [(insert_ledger_sql Sqlite, [V_Text ''0001_init'', V_Text ''zz''])]\<rparr>"

lemma edited_not_prefix: "ledger_of Sqlite (fst (mem_view edited)) \<noteq> prefix_ledger two_migrations k"
proof -
  have "ledger_of Sqlite (fst (mem_view edited)) ''0001_init'' = Some ''zz''"
    by (simp add: edited_def ledger_of_def mem_view_def)
  moreover have "prefix_ledger two_migrations k ''0001_init'' \<noteq> Some ''zz''"
    unfolding prefix_ledger_iff [OF sample_numbered]
    by (simp add: two_migrations_def first_migration_def second_migration_def)
  ultimately show ?thesis by metis
qed

subsection \<open>A migration with a chunked step\<close>

definition card_walk :: chunk_plan where
  "card_walk = \<lparr>cp_table = ''card'', cp_key_columns = [''id''], cp_size = 2, cp_pause_ms = None,
     cp_dialect = Sqlite, cp_from = quote Sqlite ''card'', cp_keys = [quote Sqlite ''id''], cp_filter = None,
     cp_write_head = ''UPDATE card SET paid = 1''\<rparr>"

definition walk_run :: "bool \<Rightarrow> str \<Rightarrow> plan_unit list \<Rightarrow> migration_run" where
  "walk_run down hash us = \<lparr>rn_id = ''0003_paid'', rn_hash = hash, rn_down = down, rn_units = us\<rparr>"

definition walk_units :: "plan_unit list" where
  "walk_units = [Unit_Sql ''ALTER TABLE card ADD COLUMN paid INTEGER'', Unit_Chunked card_walk, Unit_Sql ''ANALYZE'']"

definition card_rows :: "int list \<Rightarrow> row list" where
  "card_rows ks = map (\<lambda>k. [(''id'', J_Int k)]) ks"

definition walk_db :: "bool list \<Rightarrow> mem" where
  "walk_db faults = (fresh faults)\<lparr>m_answers := [card_rows [1, 2], card_rows [3], []]\<rparr>"

abbreviation walk_once :: "bool list \<Rightarrow> ((migrate_error + unit) \<times> mem) option" where
  "walk_once fs \<equiv> run_resumable 5 (mem_host Sqlite) Sqlite (walk_run False ''cc'' walk_units) (up_opts False) (walk_db fs)"

lemma walk_segments: "segments walk_units = [Seg_Sql [hd walk_units], Seg_Chunk card_walk, Seg_Sql [last walk_units]]"
  by (simp add: segments_def walk_units_def)

lemma walk_own: "list_all (own_segment Sqlite) (segments (rn_units (walk_run down hash walk_units)))"
proof -
  have "apply_sql card_walk c k \<notin> set control_sql \<union> set (engine_sql Sqlite) \<union> set (housekeeping Sqlite)" for c k
    by (simp add: apply_sql_def card_walk_def control_sql_def engine_sql_def housekeeping_def)
      (simp add: engine_texts)
  moreover have "plain_units Sqlite [hd walk_units]" "plain_units Sqlite [last walk_units]" by code_simp+
  ultimately show ?thesis by (simp add: walk_run_def walk_segments own_segment_def)
qed

lemma walk_start: "run_at h d (walk_run False hash walk_units) [] 0 None []"
  by (simp add: run_at_def walk_run_def walk_segments pos_def user_def saved_at_def stored_progress_def reach.start)

text \<open>The second batch's commit fails.\<close>

definition cut_short :: "bool list" where
  "cut_short = replicate 22 False @ [True]"

lemma walk_returns: "walk_once cut_short \<noteq> None"
  by code_simp

text \<open>Stopped in its last segment.\<close>

definition nearly_done :: mem where
  "nearly_done = (fresh [])\<lparr>m_done :=
     [(insert_ledger_sql Sqlite, [V_Text ''0003_paid'', V_Text ''cc'']),
      (save_progress_sql Sqlite, progress_params (mem_host Sqlite) ''0003_paid:down'' ''cc'' 2 None 0)]\<rparr>"

abbreviation edited_again :: "((migrate_error + unit) \<times> mem) option" where
  "edited_again \<equiv> run_resumable 5 (mem_host Sqlite) Sqlite (walk_run True ''dd'' walk_units) (up_opts False) nearly_done"

lemma edited_returns: "edited_again \<noteq> None"
  by code_simp

end
