(* ===== verification/Migrate_Props.thy ===== *)
theory Migrate_Props
  imports Migrate_Samples
begin

text \<open>
  The promises of \<open>based migrate apply\<close>, on a database whose DDL is transactional, whatever calls
  of the driver fail. \<open>Mem_Db\<close> supplies the instances.
\<close>

subsection \<open>The ledger along the phases\<close>

lemma takeWhile_take: "takeWhile P xs = take (length (takeWhile P xs)) xs"
  by (induction xs) auto

lemma back_list_eq: "k \<le> length ms \<Longrightarrow> t \<le> k \<Longrightarrow> back_list ms k t = rev (take (k - t) (drop t ms))"
  by (simp add: back_list_def take_drop)

lemma forth_list_eq: "forth_list ms k t = take (t - k) (drop k ms)"
  by (cases "k \<le> t") (simp_all add: forth_list_def take_drop)

lemma one_phase: "t \<le> k \<Longrightarrow> forth_list ms k t = []" "k \<le> t \<Longrightarrow> back_list ms k t = []"
  by (simp_all add: forth_list_def back_list_def)

lemma forth_prefix:
  assumes "k \<le> length ms" "t \<le> length ms"
  obtains i where "takeWhile P (forth_list ms k t) = take i (drop k ms)" "k + i \<le> length ms"
proof -
  let ?f = "forth_list ms k t"
  let ?i = "min (length (takeWhile P ?f)) (t - k)"
  have "takeWhile P ?f = take ?i (drop k ms)"
    by (subst takeWhile_take) (simp add: forth_list_eq min.commute)
  moreover have "?i \<le> t - k" by simp
  then have "k + ?i \<le> length ms" using assms by linarith
  ultimately show ?thesis by (rule that)
qed

lemma stopped_runs_ledger:
  assumes w: "well_numbered ms" and k: "k \<le> length ms" "t \<le> length ms"
  shows "\<exists>m \<le> length ms. fold (\<lambda>r. ledger_step d (ledger_op d r))
    (take j (stopped_runs opts (back_list ms k t) (forth_list ms k t))) (prefix_ledger ms k) = prefix_ledger ms m"
proof (cases "t \<le> k")
  case True
  let ?b = "back_list ms k t"
  let ?i = "min (min j (length (takeWhile has_down ?b))) (k - t)"
  have l: "length ?b = k - t" using k True by (simp add: back_list_def min_def)
  have "take j (map down_of (takeWhile has_down ?b)) = map down_of (take ?i ?b)"
    by (subst takeWhile_take) (use l in \<open>simp add: take_map min.commute min.left_commute min_def\<close>)
  also have "\<dots> = take ?i (map down_of (rev (take (k - t) (drop t ms))))"
    using k True by (simp add: back_list_eq take_map)
  finally have b: "take j (map down_of (takeWhile has_down ?b)) = take ?i (map down_of (rev (take (k - t) (drop t ms))))" .
  have "fold (\<lambda>r. ledger_step d (ledger_op d r)) (take ?i (map down_of (rev (take (k - t) (drop t ms)))))
      (prefix_ledger ms (t + (k - t))) = prefix_ledger ms (t + (k - t) - ?i)"
    by (rule ledger_back [OF w]) (use k True in auto)
  moreover have "t + (k - t) = k" "t + (k - t) - ?i \<le> length ms" using True k by auto
  moreover have "stopped_runs opts ?b (forth_list ms k t) = map down_of (takeWhile has_down ?b)"
    using one_phase(1) [OF True] by (simp add: stopped_runs_def)
  ultimately show ?thesis using b by metis
next
  case False
  then have n: "back_list ms k t = []" by (simp add: one_phase)
  obtain i where i: "takeWhile (allowed opts) (forth_list ms k t) = take i (drop k ms)" "k + i \<le> length ms"
    by (rule forth_prefix [OF k])
  have "take j (map up_run (take i (drop k ms))) = map up_run (take (min j i) (drop k ms))"
    by (simp add: take_map)
  moreover have "fold (\<lambda>r. ledger_step d (ledger_op d r)) (map up_run (take (min j i) (drop k ms))) (prefix_ledger ms k)
      = prefix_ledger ms (k + min j i)"
    by (rule ledger_forward [OF w]) (use i(2) in auto)
  ultimately show ?thesis using n i by (intro exI [of _ "k + min j i"]) (auto simp: stopped_runs_def)
qed

lemma all_runs_ledger:
  assumes w: "well_numbered ms" and k: "k \<le> length ms" "t \<le> length ms"
  shows "fold (\<lambda>r. ledger_step d (ledger_op d r))
    (map down_of (back_list ms k t) @ map up_run (forth_list ms k t)) (prefix_ledger ms k) = prefix_ledger ms t"
proof (cases "t \<le> k")
  case True
  have "fold (\<lambda>r. ledger_step d (ledger_op d r)) (take (k - t) (map down_of (rev (take (k - t) (drop t ms)))))
      (prefix_ledger ms (t + (k - t))) = prefix_ledger ms (t + (k - t) - (k - t))"
    by (rule ledger_back [OF w]) (use k True in auto)
  then show ?thesis using True k one_phase(1) [OF True] by (simp add: back_list_eq)
next
  case False
  then have n: "back_list ms k t = []" by (simp add: one_phase)
  have "fold (\<lambda>r. ledger_step d (ledger_op d r)) (map up_run (take (t - k) (drop k ms))) (prefix_ledger ms k)
      = prefix_ledger ms (k + (t - k))"
    by (rule ledger_forward [OF w]) (use k False in auto)
  then show ?thesis using n False by (simp add: forth_list_eq)
qed

lemma target_le: "k \<le> n \<Longrightarrow> target dir n k \<le> n"
  by (cases dir) auto

lemma runs_plain:
  assumes "list_all (plain_migration d) ms" "list_all has_down us" "set us \<subseteq> set ms" "set fs \<subseteq> set ms"
  shows "\<forall>r \<in> set (map down_of us @ map up_run fs). plain_units d (rn_units r)"
proof
  fix r assume "r \<in> set (map down_of us @ map up_run fs)"
  then consider (down) m where "m \<in> set us" "r = down_of m" | (up) m where "m \<in> set fs" "r = up_run m" by auto
  then show "plain_units d (rn_units r)"
  proof cases
    case down
    then have "plain_migration d m" "pm_down m \<noteq> None"
      using assms(1-3) by (auto simp: list_all_iff has_down_def)
    with down(2) show ?thesis by (auto simp: plain_migration_def down_of_def down_run_def)
  next
    case up
    then have "plain_migration d m" using assms(1,4) by (auto simp: list_all_iff)
    with up(2) show ?thesis by (simp add: plain_migration_def up_run_def)
  qed
qed

lemma list_members: "set (back_list ms k t) \<subseteq> set ms" "set (forth_list ms k t) \<subseteq> set ms"
  by (auto simp: back_list_def forth_list_def dest!: in_set_dropD in_set_takeD)

lemma takeWhile_members: "set (takeWhile P xs) \<subseteq> set xs" "list_all P (takeWhile P xs)"
  by (auto simp: list_all_iff dest: set_takeWhileD)

lemma stopped_runs_plain:
  assumes "list_all (plain_migration d) ms"
  shows "\<forall>r \<in> set (take j (stopped_runs opts (back_list ms k t) (forth_list ms k t))). plain_units d (rn_units r)"
proof -
  let ?all = "map down_of (takeWhile has_down (back_list ms k t))
      @ map up_run (takeWhile (allowed opts) (forth_list ms k t))"
  have "\<forall>r \<in> set ?all. plain_units d (rn_units r)"
    by (rule runs_plain [OF assms takeWhile_members(2)
          subset_trans [OF takeWhile_members(1) list_members(1)] subset_trans [OF takeWhile_members(1) list_members(2)]])
  moreover have "set (take j (stopped_runs opts (back_list ms k t) (forth_list ms k t))) \<subseteq> set ?all"
    by (rule subset_trans [OF set_take_subset]) (auto simp: stopped_runs_def)
  ultimately show ?thesis by blast
qed

lemma stopped_runs_take:
  "\<exists>i. take j (stopped_runs opts us fs) = take i (map down_of us @ map up_run fs)"
proof -
  have "\<exists>n. stopped_runs opts us fs = take n (map down_of us @ map up_run fs)"
  proof (cases "list_all has_down us")
    case True
    have t: "takeWhile has_down us = us" using True by (simp add: list_all_iff)
    have "stopped_runs opts us fs = map down_of us @ map up_run (takeWhile (allowed opts) fs)"
      unfolding stopped_runs_def t using True by simp
    also have "\<dots> = take (length us + length (takeWhile (allowed opts) fs)) (map down_of us @ map up_run fs)"
      using takeWhile_take [of "allowed opts" fs] by (simp add: take_map)
    finally show ?thesis by blast
  next
    case False
    have "stopped_runs opts us fs = map down_of (takeWhile has_down us)"
      using False by (simp add: stopped_runs_def)
    also have "\<dots> = take (length (takeWhile has_down us)) (map down_of us @ map up_run fs)"
      using takeWhile_take [of has_down us] length_takeWhile_le [of has_down us] by (simp add: take_map)
    finally show ?thesis by blast
  qed
  then show ?thesis by (metis take_take)
qed

subsection \<open>What applying does\<close>

lemma applied_cases:
  assumes "transactional h v" "mints_only (ao_mint opts) v" "reads_ledger h d v"
    "well_numbered ms" "list_all (plain_migration d) ms" "apply_migrations fuel h d ms opts b = Some (r, b')"
  shows "(\<exists>e. r = Inl e) \<and> work d (fst (v b')) = work d (fst (v b)) \<or>
    (\<exists>k \<le> length ms. ledger_of d (fst (v b)) = prefix_ledger ms k
      \<and> applied_outcome d v opts (work d (fst (v b))) ms k r b')"
proof -
  have t: "triple (stored d v (work d (fst (v b)))) (apply_migrations fuel h d ms opts)
    (\<lambda>rep b'. \<exists>k \<le> length ms. ledger_of d (work d (fst (v b))) = prefix_ledger ms k \<and>
       applied_outcome d v opts (work d (fst (v b))) ms k (Inr rep) b')
    (\<lambda>e b'. stored d v (work d (fst (v b))) b' \<or>
      (\<exists>k \<le> length ms. ledger_of d (work d (fst (v b))) = prefix_ledger ms k
        \<and> applied_outcome d v opts (work d (fst (v b))) ms k (Inl e) b'))"
    by (rule triple_apply [OF assms(1-5)])
  have s: "stored d v (work d (fst (v b))) b" by (simp add: stored_def)
  show ?thesis
  proof (cases r)
    case (Inl e)
    with tripleD(2) [OF t s] assms(6) show ?thesis
      by (simp add: stored_def ledger_of_work)
  next
    case (Inr rep)
    with tripleD(1) [OF t s] assms(6) show ?thesis by (simp add: ledger_of_work)
  qed
qed

lemma applied_ledger:
  assumes "well_numbered ms" "list_all (plain_migration d) ms" "k \<le> length ms"
    "ledger_of d (fst (v b)) = prefix_ledger ms k" "applied_outcome d v opts (work d (fst (v b))) ms k (Inr rep) b'"
  shows "ledger_of d (fst (v b')) = prefix_ledger ms (target (ao_direction opts) (length ms) k)"
proof -
  let ?t = "target (ao_direction opts) (length ms) k"
  let ?rs = "map down_of (back_list ms k ?t) @ map up_run (forth_list ms k ?t)"
  obtain s where s: "made_all d ?rs s" "stored d v (work d (fst (v b)) @ s) b'" "list_all has_down (back_list ms k ?t)"
    using assms(5) by (auto simp: applied_outcome_def Let_def ran_all_def)
  have "ledger_of d (fst (v b')) = ledger_of d (work d (fst (v b)) @ s)"
    using s(2) by (metis stored_def ledger_of_work)
  also have "\<dots> = fold (\<lambda>r. ledger_step d (ledger_op d r)) ?rs (prefix_ledger ms k)"
    using made_all_ledger [OF s(1) runs_plain [OF assms(2) s(3) list_members]] assms(4) by (simp add: ledger_of_work)
  also have "\<dots> = prefix_ledger ms ?t" by (rule all_runs_ledger [OF assms(1,3) target_le [OF assms(3)]])
  finally show ?thesis .
qed

lemma stopped_runs_members:
  "r \<in> set (take j (stopped_runs opts us fs)) \<Longrightarrow> (\<exists>x. r = down_of x) \<or> (\<exists>x \<in> set fs. r = up_run x \<and> allowed opts x)"
  by (drule in_set_takeD) (auto simp: stopped_runs_def dest!: set_takeWhileD split: if_splits)

lemma fold_absent:
  "\<forall>r \<in> set rs. (\<exists>x. r = down_of x) \<or> (\<exists>x. r = up_run x \<and> pm_id x \<noteq> i) \<Longrightarrow> L i = None \<Longrightarrow>
   fold (\<lambda>r. ledger_step d (ledger_op d r)) rs L i = None"
proof (induction rs arbitrary: L)
  case (Cons r rs)
  then have "ledger_step d (ledger_op d r) L i = None" by (auto simp: ledger_step_up ledger_step_down)
  with Cons show ?case by simp
qed simp







subsection \<open>Returning\<close>


subsection \<open>Resuming\<close>


lemma triple_read_saved:
  assumes "transactional h v" "reads_progress h d v" "i < 2 ^ 63"
    "stored_progress d key W = Some (progress_params h key old i c n)"
  shows "triple (at_rest d v W) (map_err Db_Error (read_progress h d key))
    (\<lambda>saved b. stored d v W b \<and> (\<exists>g. saved = Some g \<and> pg_hash g = old)) (\<lambda>_. stored d v W)"
proof (rule triple_map_err, unfold read_progress_def, rule triple_then)
  let ?R = "\<lambda>rows b. stored d v W b \<and> (\<exists>x xs. rows = x # xs \<and> pg_hash (progress_of_row h x) = old)"
  show "triple (at_rest d v W) (call id (h_fetch h (read_progress_sql d) [V_Text key])) ?R (\<lambda>_. stored d v W)"
  proof (rule triple_call)
    fix b rs b' assume b: "at_rest d v W b" and f: "h_fetch h (read_progress_sql d) [V_Text key] b = (Inr rs, b')"
    then have "rs = (case stored_progress d key (fst (v b)) of None \<Rightarrow> [] | Some ps \<Rightarrow> [progress_row ps])"
      using assms(2) unfolding reads_progress_def at_rest_def by blast
    moreover have "stored_progress d key (fst (v b)) = Some (progress_params h key old i c n)"
      using b assms(4) by (metis at_rest_def stored_progress_work)
    moreover have "h_list_read h (h_list_text h xs) = Some xs" for xs
      using assms(2) unfolding reads_progress_def by blast
    ultimately have "rs = [progress_row (progress_params h key old i c n)]"
      "pg_hash (progress_of_row h (progress_row (progress_params h key old i c n))) = old"
      using read_back(1) [of h _ i] read_back_none(1) [of i h] assms(3) by (cases c; simp)+
    moreover have "stored d v W b'" using b law_fetch [OF assms(1) f] by (simp add: at_rest_def stored_def)
    ultimately show "?R rs b'" by simp
  next
    fix b e b' assume b: "at_rest d v W b" and f: "h_fetch h (read_progress_sql d) [V_Text key] b = (Inl e, b')"
    then show "stored d v W b'" using law_fetch [OF assms(1) f] by (simp add: at_rest_def stored_def)
  qed
next
  fix rs show "triple (\<lambda>b. stored d v W b \<and> (\<exists>x xs. rs = x # xs \<and> pg_hash (progress_of_row h x) = old))
     (ret (case rs of [] \<Rightarrow> None | x # _ \<Rightarrow> Some (progress_of_row h x)))
     (\<lambda>saved b. stored d v W b \<and> (\<exists>g. saved = Some g \<and> pg_hash g = old)) (\<lambda>_. stored d v W)"
    by (rule triple_ret) auto
qed

text \<open>C31: a run whose saved progress was made with another \<open>up.mig\<close> is refused, and nothing of the
  migration is run.\<close>

theorem edited_run_refused:
  assumes "transactional h v" "reads_progress h d v"
    "stored_progress d (run_key r) (fst (v b)) = Some (progress_params h (run_key r) old i c rows)"
    "old \<noteq> rn_hash r" "i < 2 ^ 63" "run_resumable fuel h d r opts b = Some (res, b')"
  shows "(\<exists>e. res = Inl e) \<and> work d (fst (v b')) = work d (fst (v b))"
proof -
  let ?W = "work d (fst (v b))"
  have s: "stored d v ?W b" by (simp add: stored_def)
  have p: "stored_progress d (run_key r) ?W = Some (progress_params h (run_key r) old i c rows)"
    using assms(3) by (simp add: stored_progress_work)
  have create: "triple (at_rest d v ?W) (call Db_Error (h_execute h (create_progress_sql d) []))
      (\<lambda>_. at_rest d v ?W) (\<lambda>_. stored d v ?W)"
    using triple_execute_plain [OF assms(1), of "create_progress_sql d" d ?W Db_Error "[]"] by simp
  have "triple (stored d v ?W) (run_resumable fuel h d r opts) (\<lambda>_ _. False) (\<lambda>_. stored d v ?W)"
    unfolding run_resumable_def Let_def
  proof (rule triple_then [OF triple_checkout [OF assms(1)]], rule triple_then [OF create],
      rule triple_then [OF triple_read_saved [OF assms(1,2,5) p]], rule triple_pre)
    fix saved :: "progress option" and b assume "stored d v ?W b \<and> (\<exists>g. saved = Some g \<and> pg_hash g = old)"
    then obtain g where "saved = Some g" "pg_hash g \<noteq> rn_hash r" using assms(4) by blast
    then show "triple (\<lambda>b. stored d v ?W b \<and> (\<exists>g. saved = Some g \<and> pg_hash g = old)) (case saved of
       Some g \<Rightarrow> (if pg_hash g \<noteq> rn_hash r then fail (Tamper (rn_id r) (pg_hash g) (rn_hash r))
                  else run_segments fuel h d r opts saved (length (run_segs r) - 1)
                    (case saved of Some g \<Rightarrow> pg_segment g | None \<Rightarrow> 0)
                    (drop (case saved of Some g \<Rightarrow> pg_segment g | None \<Rightarrow> 0) (run_segs r)))
     | None \<Rightarrow> run_segments fuel h d r opts saved (length (run_segs r) - 1)
         (case saved of Some g \<Rightarrow> pg_segment g | None \<Rightarrow> 0)
         (drop (case saved of Some g \<Rightarrow> pg_segment g | None \<Rightarrow> 0) (run_segs r)))
      (\<lambda>_ _. False) (\<lambda>_. stored d v ?W)"
      by (auto intro!: triple_fail)
  qed
  from tripleD [OF this s] assms(6) show ?thesis by (cases res) (auto simp: stored_def)
qed

text \<open>
  The progress of a rollback carries the hash of \<open>up.mig\<close>, not of the \<open>down.mig\<close> it runs. When a
  rollback stops in a late segment and \<open>down.mig\<close> is then shortened, the saved segment lies past
  the last one: the run does nothing, reports success, and the migration stays in the ledger.
\<close>

lemma shortened_down_skips_rollback:
  "let run = run_resumable 5 (mem_host Sqlite) Sqlite (walk_run True ''cc'' [Unit_Chunked card_walk]) (up_opts False) nearly_done
   in result_of run = Inr () \<and> work Sqlite (m_done (after_run run)) = work Sqlite (m_done nearly_done)"
  by code_simp

subsection \<open>Foreign keys around a table rebuild\<close>

text \<open>C30: a table rebuild whose commit is reported found no dangling reference, is committed whole,
  and left the connection enforcing foreign keys. Turning enforcement on is only assumed to take
  effect outside a transaction, as SQLite documents it.\<close>

theorem rebuild_restores_enforcement:
  assumes "transactional h v" "v b = (c, Some w)"
    "\<forall>b n b'. h_execute h ''PRAGMA foreign_keys = ON'' [] b = (Inr n, b') \<and> snd (v b) = None \<longrightarrow> on b'"
    "tx_commit h Foreign_Keys_Off b = (Inr u, b')"
  shows "fst (h_fetch h ''PRAGMA foreign_key_check'' [] b) = Inr [] \<and> on b'
    \<and> work d (fst (v b')) = work d w"
proof -
  have fails: "fst (abandon h e b1) \<noteq> Inr u" for e b1 and u :: unit
    by (auto simp: abandon_def restore_then_fail_def split: prod.splits sum.splits)
  have fails': "abandon h e b1 \<noteq> (Inr u, b2)" for e b1 b2 and u :: unit
    using fails [of e b1 u] by auto
  obtain b1 where b1: "h_fetch h ''PRAGMA foreign_key_check'' [] b = (Inr [], b1)"
    using assms(4) fails' by (auto split: prod.splits sum.splits if_splits)
  then obtain n b2 where b2: "h_execute h ''COMMIT'' [] b1 = (Inr n, b2)" and r: "restore h b2 = (Inr (), b')"
    using assms(4) fails' by (auto split: prod.splits sum.splits if_splits)
  have v2: "v b2 = (w, None)"
    using law_execute [OF assms(1) b2] law_fetch [OF assms(1) b1] assms(2) by simp
  obtain n' where on: "h_execute h ''PRAGMA foreign_keys = ON'' [] b2 = (Inr n', b')"
    using r by (auto simp: restore_def split: prod.splits sum.splits)
  have "v b' = (w @ [(''PRAGMA foreign_keys = ON'', [])], None)"
    using law_execute [OF assms(1) on] v2 by simp
  moreover have "on b'" using assms(3) on v2 by (metis snd_conv)
  ultimately show ?thesis using b1 by (simp add: work_def housekeeping_def)
qed

text \<open>A rebuild that leaves dangling references is an error and commits nothing.\<close>

theorem rebuild_violation_aborts:
  assumes "transactional h v" "h_fetch h ''PRAGMA foreign_key_check'' [] b = (Inr rows, b1)" "rows \<noteq> []"
    "tx_commit h Foreign_Keys_Off b = (r, b')"
  shows "(\<exists>e. r = Inl e) \<and> work d (fst (v b')) = work d (fst (v b))"
proof -
  have "abandon h (violation_error h rows) b1 = (r, b')" using assms(2-4) by simp
  from abandon_stored [OF assms(1) this, of d] law_fetch [OF assms(1,2)] show ?thesis by simp
qed

text \<open>
  Rolling back is less careful than abandoning: when \<open>ROLLBACK\<close> fails, enforcement stays off and no
  attempt is made to restore it, though the type's comment says both paths turn it back on.
\<close>

lemma failed_rollback_leaves_enforcement_off:
  "h_execute h ''ROLLBACK'' [] b = (Inl e, b') \<Longrightarrow> tx_rollback h Foreign_Keys_Off b = (Inl e, b')"
  by simp

subsection \<open>Witnesses\<close>

lemmas sample_hypotheses = mem_transactional no_mint mem_reads_ledger sample_numbered sample_plain

lemma up_opts_simps [simp]:
  "ao_mint (up_opts a) = None" "ao_direction (up_opts a) = Dir_Up" "ao_allow_destructive (up_opts a) = a"
  by (simp_all add: up_opts_def)

lemma sample_two [simp]: "length two_migrations = 2"
  by (simp add: two_migrations_def)

text \<open>The second commit fails: the first migration stays, the second leaves nothing.\<close>

definition second_commit_fails :: "bool list" where
  "second_commit_fails = replicate 12 False @ [True]"




lemma edited_run: "apply_migrations 0 (mem_host Sqlite) Sqlite two_migrations (up_opts True) edited =
    Some (result_of (apply_migrations 0 (mem_host Sqlite) Sqlite two_migrations (up_opts True) edited),
      after_run (apply_migrations 0 (mem_host Sqlite) Sqlite two_migrations (up_opts True) edited))"
  by (rule run_parts, rule sample_defined)



lemma sample_again: "result_of (apply_migrations 0 (mem_host Sqlite) Sqlite two_migrations (up_opts True)
    (after_run (sample_run True []))) = Inr \<lparr>ar_applied = [], ar_rolled_back = []\<rparr>"
  by code_simp




theorem edited_run_refused_witness:
  "(\<exists>e. result_of edited_again = Inl e)
   \<and> work Sqlite (fst (mem_view (after_run edited_again))) = work Sqlite (fst (mem_view nearly_done))"
proof (rule edited_run_refused [where v = mem_view and old = "''cc''" and i = 2 and c = None and rows = 0,
      OF mem_transactional mem_reads_progress _ _ _ run_parts [OF edited_returns]])
  show "stored_progress Sqlite (run_key (walk_run True ''dd'' walk_units)) (fst (mem_view nearly_done))
      = Some (progress_params (mem_host Sqlite) (run_key (walk_run True ''dd'' walk_units)) ''cc'' 2 None 0)"
    by (simp add: nearly_done_def mem_view_def stored_progress_def run_key_def walk_run_def)
qed (simp_all add: walk_run_def)

text \<open>A rebuild's transaction whose check reports a row.\<close>

definition dangling :: mem where
  "dangling = (fresh [])\<lparr>m_open := Some [(''DROP TABLE card'', [])],
     m_answers := [[[(''table'', J_Str ''deck''), (''rowid'', J_Int 1), (''parent'', J_Str ''card'')]]]\<rparr>"

abbreviation dangling_commit :: "(db_error + unit) \<times> mem" where
  "dangling_commit \<equiv> tx_commit (mem_host Sqlite) Foreign_Keys_Off dangling"

theorem rebuild_violation_aborts_witness:
  "(\<exists>e. fst dangling_commit = Inl e)
   \<and> work Sqlite (fst (mem_view (snd dangling_commit))) = work Sqlite (fst (mem_view dangling))"
proof (rule rebuild_violation_aborts [where v = mem_view, OF mem_transactional])
  show "h_fetch (mem_host Sqlite) ''PRAGMA foreign_key_check'' [] dangling =
      (Inr [[(''table'', J_Str ''deck''), (''rowid'', J_Int 1), (''parent'', J_Str ''card'')]], dangling\<lparr>m_answers := []\<rparr>)"
    by code_simp
  show "dangling_commit = (fst dangling_commit, snd dangling_commit)" by simp
qed simp

text \<open>The last statement that reached the database turned enforcement on.\<close>

definition enforced :: "mem \<Rightarrow> bool" where
  "enforced b = (m_done b \<noteq> [] \<and> fst (last (m_done b)) = ''PRAGMA foreign_keys = ON'')"

theorem rebuild_restores_enforcement_witness:
  "enforced (snd (tx_commit (mem_host Sqlite) Foreign_Keys_Off (dangling\<lparr>m_answers := []\<rparr>)))"
proof -
  let ?run = "tx_commit (mem_host Sqlite) Foreign_Keys_Off (dangling\<lparr>m_answers := []\<rparr>)"
  have on: "\<forall>b n b'. h_execute (mem_host Sqlite) ''PRAGMA foreign_keys = ON'' [] b = (Inr n, b') \<and> snd (mem_view b) = None
      \<longrightarrow> enforced b'"
  proof (intro allI impI, elim conjE)
    fix b n b'
    assume "h_execute (mem_host Sqlite) ''PRAGMA foreign_keys = ON'' [] b = (Inr n, b')" "snd (mem_view b) = None"
    moreover obtain c t where "mem_view b = (c, t)" by fastforce
    ultimately have "mem_view b' = (c @ [(''PRAGMA foreign_keys = ON'', [])], None)"
      using law_execute [OF mem_transactional] by fastforce
    then show "enforced b'" by (simp add: enforced_def mem_view_def)
  qed
  have "fst ?run = Inr ()" by code_simp
  then have "?run = (Inr (), snd ?run)" by (metis prod.collapse)
  from rebuild_restores_enforcement [where v = mem_view and on = enforced, OF mem_transactional _ on this]
  show ?thesis by (simp add: dangling_def mem_view_def)
qed

end
