(* ===== verification/Shard.thy ===== *)
theory Shard
  imports Database Fnv
begin

text \<open>
  \<open>based-runtime/src/shard.rs\<close> and the router of \<open>driver.rs\<close>: a shard key is hashed to one of 4096
  logical shards, and a table made at startup sends a logical shard to a physical one. Routing is
  total and in range, and the physical shards share the logical ones evenly.
\<close>

definition logical_shards :: nat where
  "logical_shards = 4096"

definition logical_shard :: "str \<Rightarrow> nat" where
  "logical_shard key = unat (fnv_mix key fnv_offset mod word_of_nat logical_shards)"

text \<open>Indexing out of range is a panic: \<open>None\<close>.\<close>

definition shard_for :: "nat list \<Rightarrow> str \<Rightarrow> nat option" where
  "shard_for assign key =
     (if logical_shard key < length assign then Some (assign ! logical_shard key) else None)"

definition round_robin :: "nat \<Rightarrow> nat list" where
  "round_robin n = map (\<lambda>i. i mod n) [0..<logical_shards]"

text \<open>\<open>ShardRouter::new\<close>, where \<open>build\<close> makes the pool of a url, and \<open>from_pool\<close>.\<close>

definition router_new :: "(str \<Rightarrow> db_error + 'p) \<Rightarrow> str list \<Rightarrow> db_error + 'p list \<times> nat list" where
  "router_new build urls =
     (if urls = [] then Inl (db_error_new ''shard router needs at least one database url'')
      else and_then (map_res build urls) (\<lambda>pools. Inr (pools, round_robin (length pools))))"

definition router_from_pool :: "'p \<Rightarrow> 'p list \<times> nat list" where
  "router_from_pool p = ([p], replicate logical_shards 0)"

text \<open>\<open>checkout_shard\<close>: the pool a key is served from.\<close>

definition pool_for :: "'p list \<times> nat list \<Rightarrow> str \<Rightarrow> (db_error + 'p) option" where
  "pool_for router key = map_option (\<lambda>s. if s < length (fst router) then Inr (fst router ! s)
       else Inl (db_error_new (''no shard '' @ dec s))) (shard_for (snd router) key)"

lemma logical_shard_less: "logical_shard key < logical_shards"
  unfolding logical_shard_def logical_shards_def by (simp add: unat_mod)

lemma round_robin_count:
  "s < n \<Longrightarrow> length (filter (\<lambda>i. i mod n = s) [0..<N]) = N div n + (if s < N mod n then 1 else 0)"
  by (induction N) (auto simp: div_Suc mod_Suc)

lemma shard_for_round_robin: "shard_for (round_robin n) key = Some (logical_shard key mod n)"
  using logical_shard_less [of key] by (simp add: shard_for_def round_robin_def)

text \<open>Routing never fails: every key of a router built over pools is served by one of them.\<close>

theorem routing_total:
  assumes "router_new build urls = Inr router"
  shows "\<exists>s < length urls. shard_for (snd router) key = Some s \<and> pool_for router key = Some (Inr (fst router ! s))"
proof -
  obtain pools where r: "router = (pools, round_robin (length pools))" "length pools = length urls" "urls \<noteq> []"
    using assms by (auto simp: router_new_def dest!: map_res_length split: if_splits)
  then have "logical_shard key mod length pools < length urls" by simp
  with r show ?thesis by (auto simp: pool_for_def shard_for_round_robin)
qed

theorem routing_total_witness:
  "\<exists>s < length [''a'', ''b'']. shard_for (snd ([''a'', ''b''], round_robin 2)) ''org-1'' = Some s
    \<and> pool_for ([''a'', ''b''], round_robin 2) ''org-1'' = Some (Inr (fst ([''a'', ''b''], round_robin 2) ! s))"
  by (rule routing_total [where build = Inr]) (simp add: router_new_def numeral_2_eq_2)

text \<open>The logical shards are spread evenly: of \<open>n\<close> physical shards each has the integer share,
  or one more.\<close>

theorem shards_balanced:
  assumes "s < n"
  shows "length (filter (\<lambda>x. x = s) (round_robin n)) \<in> {logical_shards div n, logical_shards div n + 1}"
  using round_robin_count [OF assms, of logical_shards] by (simp add: round_robin_def filter_map o_def)

theorem shards_balanced_witness:
  "length (filter (\<lambda>x. x = 2) (round_robin 3)) \<in> {logical_shards div 3, logical_shards div 3 + 1}"
  by (rule shards_balanced) simp

end
