(* ===== verification/Bind_Scan.thy ===== *)
theory Bind_Scan
  imports Migration_Sql
begin

text \<open>
  \<open>based-runtime/src/scan.rs\<close>: rewriting the named placeholders of generated SQL to the dialect's
  positional ones. The scanner is shown equal to a specification in two passes: cut the text into
  literal pieces and holes, then fill the holes in order. From it: bound values never become SQL
  text, the binds are in the order of their markers, and a quoted literal is copied as it is.
\<close>

subsection \<open>The scanner\<close>

datatype 'a binding = Bind_One 'a | Bind_Many "'a list"

fun bound_values :: "'a binding \<Rightarrow> 'a list" where
  "bound_values (Bind_One v) = [v]"
| "bound_values (Bind_Many vs) = vs"

definition is_ascii_alpha :: "char \<Rightarrow> bool" where
  "is_ascii_alpha c \<longleftrightarrow> (let n = (of_char c :: nat) in 65 \<le> n \<and> n \<le> 90 \<or> 97 \<le> n \<and> n \<le> 122)"

definition is_ascii_digit :: "char \<Rightarrow> bool" where
  "is_ascii_digit c \<longleftrightarrow> (let n = (of_char c :: nat) in 48 \<le> n \<and> n \<le> 57)"

definition is_ident_start :: "char \<Rightarrow> bool" where
  "is_ident_start c \<longleftrightarrow> is_ascii_alpha c \<or> c = CHR ''_''"

definition is_ident_char :: "char \<Rightarrow> bool" where
  "is_ident_char c \<longleftrightarrow> is_ascii_alpha c \<or> is_ascii_digit c \<or> c = CHR ''_''"

definition is_quote :: "char \<Rightarrow> bool" where
  "is_quote c \<longleftrightarrow> c = sql_quote_char \<or> c = dq \<or> c = backtick"

text \<open>The rest of a quoted literal, up to and with its close quote, and what follows it.\<close>

fun copy_literal :: "char \<Rightarrow> str \<Rightarrow> str \<times> str" where
  "copy_literal q [] = ([], [])"
| "copy_literal q (c # s) =
     (if c = q then ([c], s) else (case copy_literal q s of (lit, rest) \<Rightarrow> (c # lit, rest)))"

lemma copy_literal_append: "copy_literal q s = (a, r) \<Longrightarrow> a @ r = s"
  by (induction s arbitrary: a r) (auto split: if_splits prod.splits)

lemma copy_literal_shorter: "copy_literal q s = (a, r) \<Longrightarrow> length r \<le> length s"
  using copy_literal_append by fastforce

text \<open>The \<open>n\<close>-th marker, and those of the values after the \<open>used\<close> ones before them.\<close>

definition marker :: "dialect \<Rightarrow> nat \<Rightarrow> str" where
  "marker d n = (if d = Postgres then ''$'' @ dec n else ''?'')"

definition markers :: "dialect \<Rightarrow> nat \<Rightarrow> nat \<Rightarrow> str" where
  "markers d used k = join '', '' (map (marker d) [Suc used..<Suc (used + k)])"

function scan_binds ::
  "dialect \<Rightarrow> nat \<Rightarrow> (str \<Rightarrow> 'a binding option) \<Rightarrow> str \<Rightarrow> 'a list \<Rightarrow> str \<Rightarrow> str + str \<times> 'a list" where
  "scan_binds d off resolve out params [] = Inr (out, params)"
| "scan_binds d off resolve out params (c # s) =
     (if is_quote c then
        (case copy_literal c s of (lit, rest) \<Rightarrow> scan_binds d off resolve (out @ c # lit) params rest)
      else if c = CHR '':'' \<and> s \<noteq> [] \<and> hd s = CHR '':'' then
        scan_binds d off resolve (out @ ''::'') params (tl s)
      else if c = CHR '':'' \<and> s \<noteq> [] \<and> is_ident_start (hd s) then
        (case resolve (takeWhile is_ident_char s) of
           None \<Rightarrow> Inl (takeWhile is_ident_char s)
         | Some b \<Rightarrow> scan_binds d off resolve
             (out @ markers d (off + length params) (length (bound_values b)))
             (params @ bound_values b) (dropWhile is_ident_char s))
      else scan_binds d off resolve (out @ [c]) params s)"
  by pat_completeness auto
termination
  by (relation "measure (\<lambda>(_, _, _, _, _, s). length s)")
    (auto dest: copy_literal_shorter [OF sym] simp: length_dropWhile_le le_imp_less_Suc)

definition to_positional_from ::
  "str \<Rightarrow> dialect \<Rightarrow> nat \<Rightarrow> (str \<Rightarrow> 'a binding option) \<Rightarrow> str + str \<times> 'a list" where
  "to_positional_from sql d off resolve = scan_binds d off resolve [] [] sql"

definition to_positional :: "str \<Rightarrow> dialect \<Rightarrow> (str \<Rightarrow> 'a binding option) \<Rightarrow> str + str \<times> 'a list" where
  "to_positional sql d resolve = to_positional_from sql d 0 resolve"

subsection \<open>Text and holes\<close>

datatype piece = Piece_Text str | Hole str

function pieces :: "str \<Rightarrow> piece list" where
  "pieces [] = []"
| "pieces (c # s) =
     (if is_quote c then (case copy_literal c s of (lit, rest) \<Rightarrow> Piece_Text (c # lit) # pieces rest)
      else if c = CHR '':'' \<and> s \<noteq> [] \<and> hd s = CHR '':'' then Piece_Text ''::'' # pieces (tl s)
      else if c = CHR '':'' \<and> s \<noteq> [] \<and> is_ident_start (hd s) then
        Hole (takeWhile is_ident_char s) # pieces (dropWhile is_ident_char s)
      else Piece_Text [c] # pieces s)"
  by pat_completeness auto
termination
  by (relation "measure length")
    (auto dest: copy_literal_shorter [OF sym] simp: length_dropWhile_le le_imp_less_Suc)

fun piece_text :: "piece \<Rightarrow> str" where
  "piece_text (Piece_Text t) = t"
| "piece_text (Hole n) = '':'' @ n"

fun holes :: "piece list \<Rightarrow> str list" where
  "holes [] = []"
| "holes (Piece_Text t # ps) = holes ps"
| "holes (Hole n # ps) = n # holes ps"

text \<open>The SQL with every hole filled by its markers, counted on from \<open>used\<close>.\<close>

fun fill :: "dialect \<Rightarrow> (str \<Rightarrow> nat) \<Rightarrow> nat \<Rightarrow> piece list \<Rightarrow> str" where
  "fill d arity used [] = []"
| "fill d arity used (Piece_Text t # ps) = t @ fill d arity used ps"
| "fill d arity used (Hole n # ps) = markers d used (arity n) @ fill d arity (used + arity n) ps"

definition values_of :: "(str \<Rightarrow> 'a binding option) \<Rightarrow> str \<Rightarrow> 'a list" where
  "values_of resolve n = (case resolve n of Some b \<Rightarrow> bound_values b | None \<Rightarrow> [])"

lemma ident_start_char: "is_ident_start c \<Longrightarrow> is_ident_char c"
  by (auto simp: is_ident_start_def is_ident_char_def)

lemma pieces_text: "concat (map piece_text (pieces sql)) = sql"
proof (induction sql rule: pieces.induct)
  case (2 c s)
  show ?case
  proof (cases "is_quote c")
    case True
    then show ?thesis using 2(1) copy_literal_append [of c s] by (auto split: prod.splits)
  next
    case False
    then show ?thesis using 2(2-4) by (cases s) (auto dest: ident_start_char)
  qed
qed simp

lemma scan_binds_fill:
  "scan_binds d off resolve out params sql =
     (case find (\<lambda>n. resolve n = None) (holes (pieces sql)) of
        Some n \<Rightarrow> Inl n
      | None \<Rightarrow> Inr (out @ fill d (\<lambda>n. length (values_of resolve n)) (off + length params) (pieces sql),
          params @ concat (map (values_of resolve) (holes (pieces sql)))))"
proof (induction d off resolve out params sql rule: scan_binds.induct)
  case (2 d off resolve out params c s)
  show ?case
  proof (cases "is_quote c")
    case True
    then show ?thesis using 2(1) by (auto split: prod.splits option.splits)
  next
    case False
    then show ?thesis
      using 2(2-4) by (auto simp: values_of_def add.assoc split: option.splits)
  qed
qed simp

subsection \<open>Quoted text\<close>

lemma copy_literal_close: "q \<notin> set u \<Longrightarrow> copy_literal q (u @ q # r) = (u @ [q], r)"
  by (induction u) auto

lemma pieces_quoted:
  assumes "is_quote q"
  shows "\<exists>ts. pieces (q # replace_char q [q, q] s @ q # rest) = map Piece_Text ts @ pieces rest
    \<and> concat ts = q # replace_char q [q, q] s @ [q]"
proof (induction "length s" arbitrary: s rule: less_induct)
  case less
  show ?case
  proof (cases "q \<in> set s")
    case False
    then have "replace_char q [q, q] s = s" by (induction s) auto
    with False show ?thesis
      using assms by (intro exI [of _ "[q # s @ [q]]"]) (simp add: copy_literal_close)
  next
    case True
    then obtain u t where s: "s = u @ q # t" and u: "q \<notin> set u" by (metis split_list_first)
    from u have ru: "replace_char q [q, q] u = u" by (induction u) auto
    have r: "replace_char q [q, q] s = u @ q # q # replace_char q [q, q] t"
      by (simp add: s ru replace_char_def) (use ru in \<open>simp add: replace_char_def\<close>)
    from less [of t] obtain ts where ts: "pieces (q # replace_char q [q, q] t @ q # rest) = map Piece_Text ts @ pieces rest"
        "concat ts = q # replace_char q [q, q] t @ [q]" by (auto simp: s)
    have "pieces (q # replace_char q [q, q] s @ q # rest) =
        Piece_Text (q # u @ [q]) # pieces (q # replace_char q [q, q] t @ q # rest)"
      using assms copy_literal_close [OF u] by (simp add: r)
    with ts show ?thesis by (intro exI [of _ "(q # u @ [q]) # ts"]) (simp add: r)
  qed
qed

lemma holes_append: "holes (map Piece_Text ts @ ps) = holes ps"
  by (induction ts) auto

lemma fill_append: "fill d a used (map Piece_Text ts @ ps) = concat ts @ fill d a used ps"
  by (induction ts) auto

lemma quoted_text_copied:
  assumes "is_quote q"
  shows "to_positional_from (q # replace_char q [q, q] s @ q # rest) d off resolve =
    map_sum id (\<lambda>(sql, params). (q # replace_char q [q, q] s @ q # sql, params)) (to_positional_from rest d off resolve)"
proof -
  obtain ts where "pieces (q # replace_char q [q, q] s @ q # rest) = map Piece_Text ts @ pieces rest"
      "concat ts = q # replace_char q [q, q] s @ [q]" using pieces_quoted [OF assms] by blast
  then show ?thesis
    by (simp add: to_positional_from_def scan_binds_fill holes_append fill_append del: pieces.simps split: option.split)
qed

subsection \<open>Properties\<close>

text \<open>C34: the rewritten SQL is the text of the statement with each placeholder outside quotes
  replaced by its markers, the binds are the values of the placeholders in their order, and the
  first placeholder without a value is the error.\<close>

theorem positional_fills_holes:
  "concat (map piece_text (pieces sql)) = sql \<and>
   to_positional sql d resolve =
     (case find (\<lambda>n. resolve n = None) (holes (pieces sql)) of
        Some n \<Rightarrow> Inl n
      | None \<Rightarrow> Inr (fill d (\<lambda>n. length (values_of resolve n)) 0 (pieces sql),
          concat (map (values_of resolve) (holes (pieces sql)))))"
  by (simp add: pieces_text to_positional_def to_positional_from_def scan_binds_fill split: option.split)



text \<open>A quoted identifier is copied as it is and binds nothing, whatever the name holds.\<close>

theorem quoted_name_copied:
  "to_positional_from (quote d name @ rest) d' off resolve =
    map_sum id (\<lambda>(sql, params). (quote d name @ sql, params)) (to_positional_from rest d' off resolve)"
  using quoted_text_copied [of "quote_char d" name rest d' off resolve]
  by (simp add: quote_shape) (cases d; simp add: is_quote_def quote_char_def)

text \<open>So is a string literal, with its quotes doubled.\<close>

lemma string_literal_copied:
  "key_literal p (J_Str s) = Some lit \<Longrightarrow>
   to_positional_from (lit @ rest) d off resolve =
     map_sum id (\<lambda>(sql, params). (lit @ sql, params)) (to_positional_from rest d off resolve)"
  using quoted_text_copied [of sql_quote_char s rest d off resolve] by (auto simp: is_quote_def)

end
