(* ===== verification/Values.thy ===== *)
theory Values
  imports Database Ast_Types
begin

text \<open>
  \<open>based-runtime/src/value.rs\<close>: the family a wire value must fit and the coercion of a JSON value
  to a bound one. \<open>chrono\<close>, \<open>serde_json\<close> and \<open>base64\<close> are not part of the program: the functions
  taken from them are the fields of a record. What is proved is that a value of a family has that
  family's shape, an integer fits 64 bits, and nothing else changes on the way.
\<close>

subsection \<open>The libraries\<close>

text \<open>
  \<open>cd_timestamp\<close> and \<open>cd_date\<close> are \<open>canonical_timestamp\<close> and \<open>canonical_date\<close>, which parse and format
  with \<open>chrono\<close>; \<open>cd_float\<close> is \<open>as_f64\<close> of an integer; \<open>cd_debug\<close> is \<open>{:?}\<close> of a string;
  \<open>cd_text\<close> and \<open>cd_read\<close> are \<open>to_string\<close> and \<open>from_str\<close> of \<open>serde_json\<close>, \<open>cd_read_error\<close> the text of its
  error; \<open>cd_unbase64\<close> decodes base64;
  \<open>cd_debug_value\<close> is \<open>{:?}\<close> of a bound value.
\<close>

record codec =
  cd_timestamp :: "str \<Rightarrow> str option"
  cd_date :: "str \<Rightarrow> str option"
  cd_float :: "int \<Rightarrow> str"
  cd_debug :: "str \<Rightarrow> str"
  cd_debug_value :: "sql_value \<Rightarrow> str"
  cd_text :: "json \<Rightarrow> str"
  cd_read :: "str \<Rightarrow> json option"
  cd_read_error :: "str \<Rightarrow> str"
  cd_unbase64 :: "str \<Rightarrow> str option"

subsection \<open>Families\<close>

datatype family =
    F_Int
  | F_Float
  | F_Bool
  | F_Text
  | F_Uuid
  | F_Timestamp
  | F_Date
  | F_Time
  | F_Decimal
  | F_Bytes
  | F_Json
  | F_Any

fun family_of :: "primitive \<Rightarrow> family" where
  "family_of P_Int = F_Int"
| "family_of P_Serial = F_Int"
| "family_of P_Float = F_Float"
| "family_of P_Bool = F_Bool"
| "family_of P_Json = F_Json"
| "family_of (P_Decimal p s) = F_Decimal"
| "family_of P_Bytes = F_Bytes"
| "family_of P_Text = F_Text"
| "family_of P_Timestamp = F_Timestamp"
| "family_of P_Date = F_Date"
| "family_of P_Time = F_Time"
| "family_of P_Uuid = F_Uuid"
| "family_of P_Id = F_Uuid"
| "family_of P_Ulid = F_Uuid"

fun family_label :: "family \<Rightarrow> str" where
  "family_label F_Int = ''int''"
| "family_label F_Float = ''float''"
| "family_label F_Bool = ''bool''"
| "family_label F_Text = ''text''"
| "family_label F_Uuid = ''uuid''"
| "family_label F_Timestamp = ''timestamp''"
| "family_label F_Date = ''date''"
| "family_label F_Time = ''time''"
| "family_label F_Decimal = ''decimal''"
| "family_label F_Bytes = ''bytes''"
| "family_label F_Json = ''json''"
| "family_label F_Any = ''value''"

record coerce_error =
  ce_expected :: family
  ce_got :: str

subsection \<open>Coercion\<close>

text \<open>A JSON integer is one that \<open>serde_json\<close> reads as \<open>i64\<close> or \<open>u64\<close>; any other number is a float.\<close>

definition is_i64 :: "int \<Rightarrow> bool" where
  "is_i64 i \<longleftrightarrow> - (2 ^ 63) \<le> i \<and> i < 2 ^ 63"

definition is_u64 :: "int \<Rightarrow> bool" where
  "is_u64 i \<longleftrightarrow> 0 \<le> i \<and> i < 2 ^ 64"

fun json_kind :: "json \<Rightarrow> str" where
  "json_kind J_Null = ''null''"
| "json_kind (J_Bool _) = ''boolean''"
| "json_kind (J_Int _) = ''number''"
| "json_kind (J_Float _) = ''number''"
| "json_kind (J_Str _) = ''string''"
| "json_kind (J_Arr _) = ''array''"
| "json_kind (J_Obj _) = ''object''"

fun as_float :: "codec \<Rightarrow> json \<Rightarrow> str" where
  "as_float cd (J_Int i) = cd_float cd i"
| "as_float cd (J_Float t) = t"
| "as_float cd v = []"

fun by_shape :: "codec \<Rightarrow> json \<Rightarrow> sql_value" where
  "by_shape cd J_Null = V_Null"
| "by_shape cd (J_Bool b) = V_Bool b"
| "by_shape cd (J_Int i) = (if is_i64 i then V_Int i else V_Float (as_float cd (J_Int i)))"
| "by_shape cd (J_Float t) = V_Float t"
| "by_shape cd (J_Str s) = V_Text s"
| "by_shape cd (J_Arr vs) = V_Json (J_Arr vs)"
| "by_shape cd (J_Obj kvs) = V_Json (J_Obj kvs)"

definition mismatch :: "family \<Rightarrow> str \<Rightarrow> coerce_error + sql_value" where
  "mismatch f got = Inl \<lparr>ce_expected = f, ce_got = got\<rparr>"

definition unparseable :: "codec \<Rightarrow> family \<Rightarrow> str \<Rightarrow> coerce_error" where
  "unparseable cd f s = \<lparr>ce_expected = f, ce_got = ''unparseable string '' @ cd_debug cd s\<rparr>"

text \<open>The families whose wire form is a string bound as it is, and the two that are parsed.\<close>

definition as_string :: "family \<Rightarrow> (str \<Rightarrow> sql_value) \<Rightarrow> json \<Rightarrow> coerce_error + sql_value" where
  "as_string f mk v = (case v of J_Str s \<Rightarrow> Inr (mk s) | _ \<Rightarrow> mismatch f (json_kind v))"

definition as_parsed ::
  "codec \<Rightarrow> family \<Rightarrow> (str \<Rightarrow> str option) \<Rightarrow> (str \<Rightarrow> sql_value) \<Rightarrow> json \<Rightarrow> coerce_error + sql_value" where
  "as_parsed cd f parse mk v = (case v of
       J_Str s \<Rightarrow> (case parse s of Some t \<Rightarrow> Inr (mk t) | None \<Rightarrow> Inl (unparseable cd f s))
     | _ \<Rightarrow> mismatch f (json_kind v))"

definition as_int :: "json \<Rightarrow> coerce_error + sql_value" where
  "as_int v = (case v of
       J_Int i \<Rightarrow> (if is_i64 i then Inr (V_Int i)
                  else if is_u64 i then mismatch F_Int ''integer out of range''
                  else mismatch F_Int ''fractional number'')
     | J_Float t \<Rightarrow> mismatch F_Int ''fractional number''
     | _ \<Rightarrow> mismatch F_Int (json_kind v))"

fun coerce_family :: "codec \<Rightarrow> family \<Rightarrow> json \<Rightarrow> coerce_error + sql_value" where
  "coerce_family cd F_Int v = as_int v"
| "coerce_family cd F_Float v = (case v of
       J_Int i \<Rightarrow> Inr (V_Float (as_float cd v))
     | J_Float t \<Rightarrow> Inr (V_Float (as_float cd v))
     | _ \<Rightarrow> mismatch F_Float (json_kind v))"
| "coerce_family cd F_Bool v = (case v of J_Bool b \<Rightarrow> Inr (V_Bool b) | _ \<Rightarrow> mismatch F_Bool (json_kind v))"
| "coerce_family cd F_Text v = as_string F_Text V_Text v"
| "coerce_family cd F_Uuid v = as_string F_Uuid V_Uuid v"
| "coerce_family cd F_Timestamp v = as_parsed cd F_Timestamp (cd_timestamp cd) V_Timestamp v"
| "coerce_family cd F_Date v = as_parsed cd F_Date (cd_date cd) V_Date v"
| "coerce_family cd F_Time v = as_string F_Time V_Time v"
| "coerce_family cd F_Decimal v = as_string F_Decimal V_Decimal v"
| "coerce_family cd F_Bytes v = as_string F_Bytes V_Bytes v"
| "coerce_family cd F_Json v = Inr (V_Json v)"
| "coerce_family cd F_Any v = Inr (by_shape cd v)"

definition coerce :: "codec \<Rightarrow> json \<Rightarrow> family \<Rightarrow> bool \<Rightarrow> coerce_error + sql_value" where
  "coerce cd v f optional =
     (if v = J_Null then (if optional then Inr V_Null else mismatch f ''null'') else coerce_family cd f v)"

subsection \<open>Properties\<close>

text \<open>The shape of a value of a family.\<close>

definition fits :: "family \<Rightarrow> sql_value \<Rightarrow> bool" where
  "fits f v = (case v of
       V_Null \<Rightarrow> False
     | V_Int i \<Rightarrow> f \<in> {F_Int, F_Any} \<and> is_i64 i
     | V_Float t \<Rightarrow> f \<in> {F_Float, F_Any}
     | V_Bool b \<Rightarrow> f \<in> {F_Bool, F_Any}
     | V_Text s \<Rightarrow> f \<in> {F_Text, F_Any}
     | V_Uuid s \<Rightarrow> f = F_Uuid
     | V_Timestamp s \<Rightarrow> f = F_Timestamp
     | V_Date s \<Rightarrow> f = F_Date
     | V_Time s \<Rightarrow> f = F_Time
     | V_Decimal s \<Rightarrow> f = F_Decimal
     | V_Bytes s \<Rightarrow> f = F_Bytes
     | V_Json j \<Rightarrow> f \<in> {F_Json, F_Any}
     | V_List vs \<Rightarrow> False)"

text \<open>The wire value a bound value carries.\<close>

fun wire :: "sql_value \<Rightarrow> json" where
  "wire V_Null = J_Null"
| "wire (V_Int i) = J_Int i"
| "wire (V_Float t) = J_Float t"
| "wire (V_Bool b) = J_Bool b"
| "wire (V_Text s) = J_Str s"
| "wire (V_Uuid s) = J_Str s"
| "wire (V_Timestamp s) = J_Str s"
| "wire (V_Date s) = J_Str s"
| "wire (V_Time s) = J_Str s"
| "wire (V_Decimal s) = J_Str s"
| "wire (V_Bytes s) = J_Str s"
| "wire (V_Json v) = v"
| "wire (V_List vs) = J_Arr (map wire vs)"

lemmas coerce_defs = coerce_def mismatch_def as_string_def as_parsed_def as_int_def

text \<open>C40: a coerced value has the shape of its family: null only for an optional input that is
  null, an integer only within 64 bits, otherwise exactly the constructor of the family.\<close>

theorem coerce_fits:
  assumes "coerce cd j f optional = Inr v"
  shows "if v = V_Null then j = J_Null \<and> optional else j \<noteq> J_Null \<and> fits f v"
  using assms by (cases f; cases j) (auto simp: coerce_defs fits_def split: if_splits option.splits)

theorem coerce_fits_witness:
  "if V_Int 7 = V_Null then J_Int 7 = J_Null \<and> False else J_Int 7 \<noteq> J_Null \<and> fits F_Int (V_Int 7)"
  by (rule coerce_fits [of undefined]) (simp add: coerce_defs is_i64_def)

text \<open>Binding changes nothing: outside floats and the two families that are normalised, the
  value bound is the value sent, and a refusal names the family that was expected.\<close>

theorem coerce_keeps_value:
  "case coerce cd j f optional of
     Inl e \<Rightarrow> ce_expected e = f
   | Inr v \<Rightarrow> (case v of
       V_Float t \<Rightarrow> t = as_float cd j
     | V_Timestamp t \<Rightarrow> (\<exists>s. j = J_Str s \<and> cd_timestamp cd s = Some t)
     | V_Date t \<Rightarrow> (\<exists>s. j = J_Str s \<and> cd_date cd s = Some t)
     | _ \<Rightarrow> wire v = j)"
  by (cases f; cases j) (simp_all add: coerce_defs unparseable_def split: option.split)

end
