(* ===== verification/Cursor.thy ===== *)
theory Cursor
  imports Values Fnv
begin

text \<open>
  \<open>based-runtime/src/cursor.rs\<close>: the opaque cursor of a keyset page, a checksum and the hexadecimal
  bytes of a JSON array. Decoding an encoded cursor gives its values back; a changed byte, a wrong
  number of values or a text that is no cursor is an error. A string is its UTF-8 bytes: a slice that
  cuts a character panics, and \<open>None\<close> is that panic.
\<close>

subsection \<open>Hexadecimal\<close>

definition hex2 :: "char \<Rightarrow> str" where
  "hex2 c = [hex_digit ((of_char c :: nat) div 16), hex_digit ((of_char c :: nat) mod 16)]"

definition hex :: "str \<Rightarrow> str" where
  "hex bytes = concat (map hex2 bytes)"

text \<open>\<open>char::to_digit(16)\<close>.\<close>

definition hex_value :: "char \<Rightarrow> nat option" where
  "hex_value c = (let n = (of_char c :: nat) in
     if 48 \<le> n \<and> n \<le> 57 then Some (n - 48)
     else if 97 \<le> n \<and> n \<le> 102 then Some (n - 87)
     else if 65 \<le> n \<and> n \<le> 70 then Some (n - 55)
     else None)"

fun hex_number :: "nat \<Rightarrow> str \<Rightarrow> nat option" where
  "hex_number n [] = Some n"
| "hex_number n (c # s) = (case hex_value c of None \<Rightarrow> None | Some k \<Rightarrow> hex_number (16 * n + k) s)"

text \<open>\<open>from_str_radix(s, 16)\<close> of an unsigned integer below \<open>bound\<close>: one leading plus is allowed.\<close>

definition from_hex :: "nat \<Rightarrow> str \<Rightarrow> nat option" where
  "from_hex bound s =
     (let t = (case strip_prefix ''+'' s of Some r \<Rightarrow> r | None \<Rightarrow> s) in
      if t = [] then None
      else (case hex_number 0 t of Some n \<Rightarrow> (if n < bound then Some n else None) | None \<Rightarrow> None))"

text \<open>The byte does not start a character.\<close>

definition is_continuation :: "char \<Rightarrow> bool" where
  "is_continuation c \<longleftrightarrow> 128 \<le> (of_char c :: nat) \<and> (of_char c :: nat) < 192"

text \<open>Two bytes at a time; the outer \<open>None\<close> is a slice that ends inside a character.\<close>

fun unhex_pairs :: "str \<Rightarrow> str option option" where
  "unhex_pairs (a # b # s) =
     (if s \<noteq> [] \<and> is_continuation (hd s) then None
      else case from_hex 256 [a, b] of
        None \<Rightarrow> Some None
      | Some n \<Rightarrow> map_option (map_option ((#) (char_of n))) (unhex_pairs s))"
| "unhex_pairs s = Some (Some [])"

definition unhex :: "str \<Rightarrow> str option option" where
  "unhex s = (if length s mod 2 \<noteq> 0 then Some None else unhex_pairs s)"

subsection \<open>Cursors\<close>

definition encode_cursor :: "codec \<Rightarrow> json list \<Rightarrow> str" where
  "encode_cursor cd vs =
     (let payload = cd_text cd (J_Arr vs) in hex16 (fnv_mix payload fnv_offset) @ ''.'' @ hex payload)"

definition decode_payload :: "codec \<Rightarrow> nat \<Rightarrow> nat \<Rightarrow> str \<Rightarrow> str + json list" where
  "decode_payload cd n checksum payload =
     (if unat (fnv_mix payload fnv_offset) \<noteq> checksum then Inl ''cursor failed integrity check''
      else case cd_read cd payload of
        Some (J_Arr vs) \<Rightarrow> (if length vs \<noteq> n then Inl ''cursor arity mismatch'' else Inr vs)
      | _ \<Rightarrow> Inl ''malformed cursor payload'')"

definition decode_cursor :: "codec \<Rightarrow> str \<Rightarrow> nat \<Rightarrow> (str + json list) option" where
  "decode_cursor cd s n = (case split_once ''.'' s of
       None \<Rightarrow> Some (Inl ''malformed cursor'')
     | Some (sum_hex, payload_hex) \<Rightarrow> (case from_hex (2 ^ 64) sum_hex of
         None \<Rightarrow> Some (Inl ''malformed cursor checksum'')
       | Some checksum \<Rightarrow> (case unhex payload_hex of
           None \<Rightarrow> None
         | Some None \<Rightarrow> Some (Inl ''malformed cursor payload'')
         | Some (Some payload) \<Rightarrow> Some (decode_payload cd n checksum payload))))"

subsection \<open>Reading hexadecimal back\<close>

lemma hex_value_digit: "n < 16 \<Longrightarrow> hex_value (hex_digit n) = Some n"
  by (simp add: hex_value_def hex_digit_def Let_def)

lemma hex_digit_code: "n < 16 \<Longrightarrow> (of_char (hex_digit n) :: nat) = (if n < 10 then 48 + n else 87 + n)"
  by (simp add: hex_digit_def)

lemma hex_digit_ascii: "n < 16 \<Longrightarrow> hex_digit n \<noteq> CHR ''+'' \<and> hex_digit n \<noteq> CHR ''.'' \<and> \<not> is_continuation (hex_digit n)"
  using hex_digit_code [of n] by (auto simp: is_continuation_def split: if_splits)

lemma byte_nibbles: "(of_char c :: nat) div 16 < 16" "(of_char c :: nat) mod 16 < 16"
  by (simp_all add: less_mult_imp_div_less)

lemma from_hex_byte: "from_hex 256 (hex2 c) = Some (of_char c)"
  using byte_nibbles [of c] hex_digit_ascii [OF byte_nibbles(1), of c, THEN conjunct1, symmetric]
  by (simp add: from_hex_def hex2_def hex_value_digit Let_def mult.commute)

lemma unhex_pairs_hex: "unhex_pairs (hex s) = Some (Some s)"
proof (induction s)
  case (Cons c s)
  have "hex s = [] \<or> \<not> is_continuation (hd (hex s))"
    using hex_digit_ascii [OF byte_nibbles(1)] by (cases s) (simp_all add: hex_def hex2_def)
  moreover have "hex (c # s) = hd (hex2 c) # hd (tl (hex2 c)) # hex s" "[hd (hex2 c), hd (tl (hex2 c))] = hex2 c"
    by (simp_all add: hex_def hex2_def)
  ultimately show ?case using Cons from_hex_byte [of c] by auto
qed (simp add: hex_def)

lemma hex_even: "length (hex s) mod 2 = 0"
  by (induction s) (simp_all add: hex_def hex2_def)

lemma unhex_hex: "unhex (hex s) = Some (Some s)"
  using hex_even [of s] by (simp add: unhex_def unhex_pairs_hex)

lemma hex_number_digits:
  "(\<And>i. i < n \<Longrightarrow> ds i < 16) \<Longrightarrow>
   hex_number k (map (\<lambda>i. hex_digit (ds i)) (rev [0..<n])) = Some (k * 16 ^ n + (\<Sum>i<n. ds i * 16 ^ i))"
  by (induction n arbitrary: k) (simp_all add: hex_value_digit algebra_simps)

lemma digits_sum: "(\<Sum>i<n. (x div 16 ^ i mod 16) * 16 ^ i) = (x :: nat) mod 16 ^ n"
proof (induction n)
  case (Suc n)
  have "x mod 16 ^ Suc n = 16 ^ n * (x div 16 ^ n mod 16) + x mod 16 ^ n"
    by (simp only: power_Suc2 mod_mult2_eq)
  with Suc show ?case by simp
qed simp

lemma from_hex_hex16: "from_hex (2 ^ 64) (hex16 h) = Some (unat h)"
proof -
  have small: "unat h < 16 ^ 16" using unsigned_less [of h, where 'a = nat] by simp
  have n: "hex_number 0 (hex16 h) = Some (unat h)"
    unfolding hex16_def using hex_number_digits [of 16 "\<lambda>i. unat h div 16 ^ i mod 16" 0] small
    by (simp only: digits_sum) simp
  obtain c s where cs: "hex16 h = c # s" "c \<noteq> CHR ''+''"
    using hex_digit_ascii [of "unat h div 16 ^ 15 mod 16"] by (simp add: hex16_def upt_rec)
  with n small show ?thesis by (simp add: from_hex_def)
qed

lemma hex16_no_dot: "CHR ''.'' \<notin> set (hex16 h)"
proof
  assume "CHR ''.'' \<in> set (hex16 h)"
  then obtain i where "CHR ''.'' = hex_digit (unat h div 16 ^ i mod 16)" by (auto simp: hex16_def)
  then show False using hex_digit_ascii [of "unat h div 16 ^ i mod 16"] by simp
qed

lemma split_at_dot: "CHR ''.'' \<notin> set a \<Longrightarrow> split_once ''.'' (a @ CHR ''.'' # b) = Some (a, b)"
  by (induction a) (auto simp: prepend_def)

text \<open>A cursor whose checksum is that of one payload and whose bytes are another.\<close>

lemma decode_parts:
  "decode_cursor cd (hex16 h @ ''.'' @ hex payload) n = Some (decode_payload cd n (unat h) payload)"
  using split_at_dot [OF hex16_no_dot, of h "hex payload"]
  by (simp add: decode_cursor_def from_hex_hex16 [simplified] unhex_hex)

lemma cursor_keys:
  "cd_read cd (cd_text cd (J_Arr vs)) = Some (J_Arr vs) \<Longrightarrow>
   decode_cursor cd (encode_cursor cd vs) n = Some (if n = length vs then Inr vs else Inl ''cursor arity mismatch'')"
  by (simp add: encode_cursor_def Let_def decode_parts [simplified] decode_payload_def)

subsection \<open>Properties\<close>

text \<open>C37: decoding an encoded cursor gives the sort keys back, and asking for another number of them
  is an arity error.\<close>

theorem cursor_roundtrip:
  assumes "cd_read cd (cd_text cd (J_Arr vs)) = Some (J_Arr vs)"
  shows "decode_cursor cd (encode_cursor cd vs) n =
    Some (if n = length vs then Inr vs else Inl ''cursor arity mismatch'')"
  using assms by (rule cursor_keys)


text \<open>
  The payload of a cursor a client sends is sliced every two bytes: where a slice cuts a character
  of more than one byte, decoding panics instead of refusing the cursor.
\<close>

lemma decode_panics: "decode_cursor cd (''0.a'' @ [CHR 0xE2, CHR 0x82, CHR 0xAC]) 1 = None"
  by (simp add: decode_cursor_def unhex_def is_continuation_def from_hex_def hex_value_def prepend_def)

text \<open>Several texts decode to the same keys: each digit pair may be written with a plus.\<close>

lemma cursor_not_unique: "unhex ''+5'' = unhex ''05''"
  by code_simp

subsection \<open>Witnesses\<close>

text \<open>A library that writes an array of one string as that string.\<close>

definition one_string_codec :: codec where
  "one_string_codec = \<lparr>cd_timestamp = Some, cd_date = Some, cd_float = (\<lambda>i. []), cd_debug = id,
     cd_debug_value = (\<lambda>v. []), cd_text = (\<lambda>v. case v of J_Arr [J_Str s] \<Rightarrow> s | _ \<Rightarrow> []),
     cd_read = (\<lambda>s. Some (J_Arr [J_Str s])), cd_read_error = id, cd_unbase64 = (\<lambda>s. None)\<rparr>"

theorem cursor_roundtrip_witness:
  "decode_cursor one_string_codec (encode_cursor one_string_codec [J_Str ''ab'']) 2 =
    Some (Inl ''cursor arity mismatch'')"
  using cursor_roundtrip [of one_string_codec "[J_Str ''ab'']" 2] by (simp add: one_string_codec_def)


end
