(* ===== verification/Shaping.thy ===== *)
theory Shaping
  imports Cursor Str_Facts Dialect
begin

text \<open>
  \<open>based-runtime/src/run/shaping.rs\<close>: the rows of a query as the response. A nested sub-object comes
  as columns whose aliases are dotted paths, a nested list as one JSON text, and a keyset page as
  rows with hidden sort-key columns. A JSON object is a \<open>BTreeMap\<close>: its entries are sorted by key.
\<close>

subsection \<open>Objects\<close>

type_synonym object = "(str \<times> json) list"

fun obj_insert :: "str \<Rightarrow> json \<Rightarrow> object \<Rightarrow> object" where
  "obj_insert k v [] = [(k, v)]"
| "obj_insert k v ((a, x) # m) =
     (if k = a then (k, v) # m
      else if k < a then (k, v) # (a, x) # m
      else (a, x) # obj_insert k v m)"

definition nest_present :: str where
  "nest_present = ''__present''"

definition array_mark :: str where
  "array_mark = ''[]''"

definition keyset_prefix :: str where
  "keyset_prefix = ''__keyset_''"

subsection \<open>Stored JSON\<close>

text \<open>\<open>stored_json.rs\<close>, in a build with the \<open>mariadb\<close> driver.\<close>

definition parse_stored_json :: "codec \<Rightarrow> dialect \<Rightarrow> str \<Rightarrow> json option" where
  "parse_stored_json cd d text = (case cd_read cd text of
       Some v \<Rightarrow> Some v
     | None \<Rightarrow> (if d \<in> {Maria_Db, My_Sql} then Option.bind (cd_unbase64 cd (trim text)) (cd_read cd) else None))"

fun parse_array :: "codec \<Rightarrow> dialect \<Rightarrow> json \<Rightarrow> json" where
  "parse_array cd d (J_Str s) = (case parse_stored_json cd d s of Some v \<Rightarrow> v | None \<Rightarrow> J_Arr [])"
| "parse_array cd d (J_Arr vs) = J_Arr vs"
| "parse_array cd d v = J_Arr []"

fun parse_json_at :: "codec \<Rightarrow> dialect \<Rightarrow> str list \<Rightarrow> json \<Rightarrow> json" where
  "parse_json_at cd d [] v = (case v of
       J_Str s \<Rightarrow> (case parse_stored_json cd d s of Some p \<Rightarrow> p | None \<Rightarrow> v)
     | _ \<Rightarrow> v)"
| "parse_json_at cd d (head # rest) v = (case v of
       J_Obj m \<Rightarrow> (case strip_suffix array_mark head of
           Some key \<Rightarrow> (case map_of m key of
               Some (J_Arr vs) \<Rightarrow> J_Obj (obj_insert key (J_Arr (map (parse_json_at cd d rest) vs)) m)
             | _ \<Rightarrow> v)
         | None \<Rightarrow> (case map_of m head of
               Some child \<Rightarrow> J_Obj (obj_insert head (parse_json_at cd d rest child) m)
             | None \<Rightarrow> v))
     | _ \<Rightarrow> v)"

definition normalize_json :: "codec \<Rightarrow> dialect \<Rightarrow> str list \<Rightarrow> json \<Rightarrow> json" where
  "normalize_json cd d paths v = fold (\<lambda>path. parse_json_at cd d (split_on CHR ''.'' path)) paths v"

subsection \<open>Nesting a row\<close>

function insert_path :: "codec \<Rightarrow> dialect \<Rightarrow> str \<Rightarrow> json \<Rightarrow> object \<Rightarrow> object" where
  "insert_path cd d key v m = (case split_once ''.'' key of
       None \<Rightarrow> (case strip_suffix array_mark key of
           Some name \<Rightarrow> obj_insert name (parse_array cd d v) m
         | None \<Rightarrow> obj_insert key v m)
     | Some (head, rest) \<Rightarrow> (case map_of m head of
           None \<Rightarrow> obj_insert head (J_Obj (insert_path cd d rest v [])) m
         | Some (J_Obj child) \<Rightarrow> obj_insert head (J_Obj (insert_path cd d rest v child)) m
         | Some _ \<Rightarrow> m))"
  by pat_completeness auto
termination
  by (relation "measure (\<lambda>(_, _, key, _). length key)") (auto dest: split_once_shorter [of "''.''", simplified])

declare insert_path.simps [simp del]

text \<open>The presence probe of a nest that is absent makes it null; the others lose theirs.\<close>

fun collapse :: "json \<Rightarrow> json" and collapse_members :: "object \<Rightarrow> object" where
  "collapse (J_Obj m) = (if map_of m nest_present = Some J_Null then J_Null else J_Obj (collapse_members m))"
| "collapse v = v"
| "collapse_members [] = []"
| "collapse_members ((k, v) # m) =
     (if k = nest_present then collapse_members m else (k, collapse v) # collapse_members m)"

definition nest_row :: "codec \<Rightarrow> dialect \<Rightarrow> row \<Rightarrow> json" where
  "nest_row cd d r = collapse (J_Obj (fold (\<lambda>(k, v). insert_path cd d k v) r []))"

subsection \<open>Pages\<close>

record keyset_plan =
  kp_keys :: nat
  kp_page_size :: nat

datatype envelope = Env_One | Env_Many | Env_Page bool

record stmt =
  st_sql :: str
  st_params :: "sql_value list"

record query_plan =
  qp_main :: stmt
  qp_count :: "stmt option"
  qp_envelope :: envelope
  qp_keyset :: "keyset_plan option"
  qp_json_paths :: "str list"

definition key_column :: "nat \<Rightarrow> str" where
  "key_column i = keyset_prefix @ dec i"

definition sort_keys :: "nat \<Rightarrow> row \<Rightarrow> json list" where
  "sort_keys n r = map (\<lambda>i. case map_of r (key_column i) of Some v \<Rightarrow> v | None \<Rightarrow> J_Null) [0..<n]"

definition next_cursor :: "codec \<Rightarrow> row list \<Rightarrow> keyset_plan \<Rightarrow> str option" where
  "next_cursor cd rows ks =
     (if length rows < kp_page_size ks \<or> rows = [] then None
      else Some (encode_cursor cd (sort_keys (kp_keys ks) (last rows))))"

definition nested :: "codec \<Rightarrow> dialect \<Rightarrow> query_plan \<Rightarrow> row \<Rightarrow> json" where
  "nested cd d plan r =
     (if qp_json_paths plan = [] then nest_row cd d r else normalize_json cd d (qp_json_paths plan) (nest_row cd d r))"

definition visible :: "row \<Rightarrow> row" where
  "visible r = filter (\<lambda>e. \<not> starts_with keyset_prefix (fst e)) r"

definition page_body :: "codec \<Rightarrow> dialect \<Rightarrow> query_plan \<Rightarrow> row list \<Rightarrow> object" where
  "page_body cd d plan rows =
     (let cursor = Option.bind (qp_keyset plan) (next_cursor cd rows);
          shown = (if qp_keyset plan = None then rows else map visible rows) in
      obj_insert ''cursor'' (case cursor of Some c \<Rightarrow> J_Str c | None \<Rightarrow> J_Null)
        (obj_insert ''rows'' (J_Arr (map (nested cd d plan) shown)) []))"

text \<open>\<open>shape\<close>: run the plan's statements and assemble the response.\<close>

definition shape :: "'b host \<Rightarrow> codec \<Rightarrow> dialect \<Rightarrow> query_plan \<Rightarrow> ('b, db_error, json) act" where
  "shape h cd d plan =
     then_do (call id (h_fetch h (st_sql (qp_main plan)) (st_params (qp_main plan)))) (\<lambda>rows.
     case qp_envelope plan of
       Env_One \<Rightarrow> ret (case rows of [] \<Rightarrow> J_Null | r # _ \<Rightarrow> nested cd d plan r)
     | Env_Many \<Rightarrow> ret (J_Arr (map (nested cd d plan) rows))
     | Env_Page with_count \<Rightarrow> (case (with_count, qp_count plan) of
         (True, Some c) \<Rightarrow> then_do (call id (h_fetch h (st_sql c) (st_params c))) (\<lambda>counts.
           ret (J_Obj (obj_insert ''total'' (case counts of
               [] \<Rightarrow> J_Null
             | r # _ \<Rightarrow> (case map_of r ''count'' of Some v \<Rightarrow> v | None \<Rightarrow> J_Null)) (page_body cd d plan rows))))
       | _ \<Rightarrow> ret (J_Obj (page_body cd d plan rows))))"

subsection \<open>Objects as maps\<close>

lemma map_of_obj_insert [simp]: "map_of (obj_insert k v m) = (map_of m)(k \<mapsto> v)"
  by (induction m) (auto simp: fun_eq_iff)

lemma obj_insert_twice [simp]: "obj_insert k v (obj_insert k w m) = obj_insert k v m"
  by (induction m) auto

lemma obj_insert_last: "(\<And>a. a \<in> fst ` set m \<Longrightarrow> a < k) \<Longrightarrow> obj_insert k v m = m @ [(k, v)]"
proof (induction m)
  case (Cons e m)
  then have "fst e < k" by simp
  moreover from this have "\<not> k < fst e" "k \<noteq> fst e" by auto
  ultimately show ?case using Cons by (cases e) auto
qed simp

subsection \<open>Flattening\<close>

text \<open>How a query projects an object: a column per leaf, its alias the path to it.\<close>

fun flatten_at :: "str \<Rightarrow> json \<Rightarrow> row" and flatten :: "str \<Rightarrow> object \<Rightarrow> row" where
  "flatten_at key (J_Obj m) = flatten (key @ ''.'') m"
| "flatten_at key v = [(key, v)]"
| "flatten pre [] = []"
| "flatten pre ((k, v) # m) = flatten_at (pre @ k) v @ flatten pre m"

definition field_name :: "str \<Rightarrow> bool" where
  "field_name k \<longleftrightarrow> CHR ''.'' \<notin> set k \<and> strip_suffix array_mark k = None \<and> k \<noteq> nest_present"

fun nestable :: "json \<Rightarrow> bool" and nestable_members :: "object \<Rightarrow> bool" where
  "nestable (J_Obj m) \<longleftrightarrow> m \<noteq> [] \<and> nestable_members m"
| "nestable v \<longleftrightarrow> True"
| "nestable_members [] \<longleftrightarrow> True"
| "nestable_members ((k, v) # m) \<longleftrightarrow>
     field_name k \<and> nestable v \<and> list_all (\<lambda>e. k < fst e) m \<and> nestable_members m"

abbreviation insert_all :: "codec \<Rightarrow> dialect \<Rightarrow> row \<Rightarrow> object \<Rightarrow> object" where
  "insert_all cd d r m \<equiv> fold (\<lambda>(k, v). insert_path cd d k v) r m"

definition under :: "str \<Rightarrow> row \<Rightarrow> row" where
  "under p r = map (\<lambda>(x, v). (p @ x, v)) r"

lemma flatten_under:
  "flatten_at (p @ q) v = under p (flatten_at q v)" "flatten (p @ q) m = under p (flatten q m)"
proof (induction q v and q m rule: flatten_at_flatten.induct)
  case (1 key m)
  then show ?case by simp
qed (simp_all add: under_def)

lemma insert_path_leaf: "field_name k \<Longrightarrow> insert_path cd d k v m = obj_insert k v m"
  by (subst insert_path.simps) (simp add: field_name_def split_once_notin)

lemma insert_path_member:
  assumes "CHR ''.'' \<notin> set k"
  shows "insert_path cd d (k @ ''.'' @ x) v m = (case map_of m k of
      None \<Rightarrow> obj_insert k (J_Obj (insert_path cd d x v [])) m
    | Some (J_Obj child) \<Rightarrow> obj_insert k (J_Obj (insert_path cd d x v child)) m
    | Some _ \<Rightarrow> m)"
  using assms by (subst insert_path.simps) simp

lemma insert_all_child:
  "CHR ''.'' \<notin> set k \<Longrightarrow>
   insert_all cd d (under (k @ ''.'') r) (obj_insert k (J_Obj c) m) = obj_insert k (J_Obj (insert_all cd d r c)) m"
proof (induction r arbitrary: c)
  case (Cons e r)
  then show ?case
    using insert_path_member [of k cd d "fst e" "snd e" "obj_insert k (J_Obj c) m"]
    by (cases e) (simp add: under_def)
qed (simp add: under_def)

lemma insert_all_new_child:
  assumes "CHR ''.'' \<notin> set k" "map_of m k = None" "r \<noteq> []"
  shows "insert_all cd d (under (k @ ''.'') r) m = obj_insert k (J_Obj (insert_all cd d r [])) m"
proof -
  obtain x v r' where r: "r = (x, v) # r'" using assms(3) by (cases r) auto
  have "insert_path cd d (k @ ''.'' @ x) v m = obj_insert k (J_Obj (insert_path cd d x v [])) m"
    using assms by (simp add: insert_path_member [OF assms(1), simplified])
  then show ?thesis
    using insert_all_child [OF assms(1), of cd d r' "insert_path cd d x v []" m] by (simp add: r under_def)
qed

lemma flatten_nonempty: "nestable v \<Longrightarrow> flatten_at q v \<noteq> []" "nestable_members m \<Longrightarrow> m \<noteq> [] \<Longrightarrow> flatten q m \<noteq> []"
  by (induction q v and q m rule: flatten_at_flatten.induct) auto

lemma insert_all_flatten:
  "nestable v \<Longrightarrow> field_name k \<Longrightarrow> (\<And>a. a \<in> fst ` set acc \<Longrightarrow> a < k) \<Longrightarrow>
     insert_all cd d (flatten_at k v) acc = acc @ [(k, v)]"
  "nestable_members m \<Longrightarrow> (\<And>a e. a \<in> fst ` set acc \<Longrightarrow> e \<in> set m \<Longrightarrow> a < fst e) \<Longrightarrow>
     insert_all cd d (flatten [] m) acc = acc @ m"
proof (induction v and m arbitrary: k acc and acc rule: nestable_nestable_members.induct)
  case (1 m)
  have dot: "CHR ''.'' \<notin> set k" using 1(3) by (simp add: field_name_def)
  have new: "map_of acc k = None" using 1(4) by (force simp: map_of_eq_None_iff)
  have "flatten_at k (J_Obj m) = under (k @ ''.'') (flatten [] m)"
    using flatten_under(2) [of "k @ ''.''" "[]" m] by simp
  moreover have "flatten [] m \<noteq> []" using 1(2) flatten_nonempty(2) by simp
  ultimately have "insert_all cd d (flatten_at k (J_Obj m)) acc = obj_insert k (J_Obj (insert_all cd d (flatten [] m) [])) acc"
    using insert_all_new_child [OF dot new] by simp
  also have "insert_all cd d (flatten [] m) [] = m" using 1(1) [of "[]"] 1(2) by simp
  finally show ?case using obj_insert_last [OF 1(4)] by simp
next
  case (4 k v m)
  have "a < k" if "a \<in> fst ` set acc" for a using 4(4) [OF that, of "(k, v)"] by simp
  then have "insert_all cd d (flatten_at k v) acc = acc @ [(k, v)]" using 4 by simp
  moreover have "insert_all cd d (flatten [] m) (acc @ [(k, v)]) = (acc @ [(k, v)]) @ m"
  proof (rule 4(2))
    fix a e assume "a \<in> fst ` set (acc @ [(k, v)])" "e \<in> set m"
    then show "a < fst e" using 4(3) 4(4) [of a e] by (auto simp: list_all_iff)
  qed (use 4(3) in simp)
  ultimately show ?case by simp
qed (simp_all add: insert_path_leaf obj_insert_last)

lemma collapse_nestable: "nestable v \<Longrightarrow> collapse v = v" "nestable_members m \<Longrightarrow> collapse_members m = m \<and> map_of m nest_present = None"
  by (induction v and m rule: nestable_nestable_members.induct) (auto simp: field_name_def)

subsection \<open>Properties\<close>

text \<open>C39: a row nests back into the object it projects: an object flattened into dotted columns,
  at any depth, is reassembled exactly.\<close>

theorem nest_row_flatten:
  assumes "nestable (J_Obj m)"
  shows "nest_row cd d (flatten [] m) = J_Obj m"
  using assms insert_all_flatten(2) [of m "[]" cd d] collapse_nestable(1) [OF assms] by (simp add: nest_row_def)

theorem nest_row_flatten_witness:
  "nest_row one_string_codec Sqlite
      [(''buyer.name'', J_Str ''Ann''), (''buyer.org.id'', J_Int 3), (''total'', J_Int 9)] =
    J_Obj [(''buyer'', J_Obj [(''name'', J_Str ''Ann''), (''org'', J_Obj [(''id'', J_Int 3)])]), (''total'', J_Int 9)]"
proof -
  have "nestable (J_Obj [(''buyer'', J_Obj [(''name'', J_Str ''Ann''), (''org'', J_Obj [(''id'', J_Int 3)])]), (''total'', J_Int 9)])"
    by code_simp
  from nest_row_flatten [OF this, of one_string_codec Sqlite] show ?thesis by simp
qed

text \<open>The cursor of a page leads on from its last row: a full page carries the cursor that
  decodes to that row's sort keys, a short one carries none, and no response row shows the hidden
  sort-key columns.\<close>

theorem page_cursor_continues:
  assumes "qp_envelope plan = Env_Page count_too" "qp_keyset plan = Some ks"
    "cd_read cd (cd_text cd (J_Arr (sort_keys (kp_keys ks) (last rows)))) = Some (J_Arr (sort_keys (kp_keys ks) (last rows)))"
    "h_fetch h (st_sql (qp_main plan)) (st_params (qp_main plan)) b = (Inr rows, b1)"
    "shape h cd d plan b = Some (Inr v, b')"
  shows "\<exists>m. v = J_Obj m
    \<and> map_of m ''rows'' = Some (J_Arr (map (nested cd d plan \<circ> visible) rows))
    \<and> (if rows = [] \<or> length rows < kp_page_size ks then map_of m ''cursor'' = Some J_Null
       else \<exists>c. map_of m ''cursor'' = Some (J_Str c) \<and>
         decode_cursor cd c (kp_keys ks) = Some (Inr (sort_keys (kp_keys ks) (last rows))))"
proof -
  have len: "length (sort_keys n r) = n" for n r by (simp add: sort_keys_def)
  have dec: "decode_cursor cd (encode_cursor cd (sort_keys (kp_keys ks) (last rows))) (kp_keys ks) =
      Some (Inr (sort_keys (kp_keys ks) (last rows)))"
    using cursor_keys [OF assms(3)] by (simp add: len)
  obtain m where m: "v = J_Obj m" "map_of m ''rows'' = map_of (page_body cd d plan rows) ''rows''"
      "map_of m ''cursor'' = map_of (page_body cd d plan rows) ''cursor''"
    using assms(1,4,5)
    by (auto simp: shape_def then_do_def call_def ret_def split: bool.splits option.splits prod.splits sum.splits)
  show ?thesis using m assms(2) dec by (auto simp: page_body_def next_cursor_def Let_def)
qed

text \<open>A connection that answers every query with the same rows.\<close>

definition canned :: "row list \<Rightarrow> unit host" where
  "canned rows = \<lparr>
     h_checkout = (\<lambda>k b. (Inr (), b)), h_begin = (\<lambda>b. (Inr (), b)),
     h_execute = (\<lambda>sql ps b. (Inr 0, b)), h_fetch = (\<lambda>sql ps b. (Inr rows, b)),
     h_commit = (\<lambda>b. (Inr (), b)), h_rollback = (\<lambda>b. (Inr (), b)),
     h_json_text = (\<lambda>v. []), h_list_text = concat, h_list_read = (\<lambda>s. Some [s])\<rparr>"

definition card_page :: query_plan where
  "card_page = \<lparr>qp_main = \<lparr>st_sql = ''SELECT name FROM card'', st_params = []\<rparr>, qp_count = None,
     qp_envelope = Env_Page False, qp_keyset = Some \<lparr>kp_keys = 1, kp_page_size = 2\<rparr>, qp_json_paths = []\<rparr>"

definition page_rows :: "row list" where
  "page_rows = [[(''__keyset_0'', J_Str ''k1''), (''name'', J_Str ''Ann'')],
                [(''__keyset_0'', J_Str ''k2''), (''name'', J_Str ''Bo'')]]"

theorem page_cursor_continues_witness:
  "\<exists>m c. shape (canned page_rows) one_string_codec Sqlite card_page () = Some (Inr (J_Obj m), ())
    \<and> map_of m ''cursor'' = Some (J_Str c) \<and> decode_cursor one_string_codec c 1 = Some (Inr [J_Str ''k2''])"
proof -
  let ?v = "J_Obj (page_body one_string_codec Sqlite card_page page_rows)"
  have keys: "sort_keys 1 (last page_rows) = [J_Str ''k2'']" by code_simp
  have run: "shape (canned page_rows) one_string_codec Sqlite card_page () = Some (Inr ?v, ())"
    by (simp add: shape_def then_do_def call_def ret_def canned_def card_page_def)
  have "\<exists>m. ?v = J_Obj m
      \<and> map_of m ''rows'' = Some (J_Arr (map (nested one_string_codec Sqlite card_page \<circ> visible) page_rows))
      \<and> (if page_rows = [] \<or> length page_rows < kp_page_size \<lparr>kp_keys = 1, kp_page_size = 2\<rparr>
         then map_of m ''cursor'' = Some J_Null
         else \<exists>c. map_of m ''cursor'' = Some (J_Str c) \<and>
           decode_cursor one_string_codec c (kp_keys \<lparr>kp_keys = 1, kp_page_size = 2\<rparr>) =
             Some (Inr (sort_keys (kp_keys \<lparr>kp_keys = 1, kp_page_size = 2\<rparr>) (last page_rows))))"
    by (rule page_cursor_continues [where count_too = False, OF _ _ _ _ run])
      (simp_all add: card_page_def canned_def keys [simplified] one_string_codec_def)
  with keys run show ?thesis by (auto simp: page_rows_def)
qed

end
