(* ===== verification/Bulk.thy ===== *)
theory Bulk
  imports Bind_Scan Shaping
begin

text \<open>
  \<open>based-runtime/src/run/bulk.rs\<close> with the plan types of \<open>plan/ir.rs\<close>: a structured create is one
  multi-row insert per chunk of rows, its to-one children before it and its to-many children after
  it, and its rows can be read back by their keys. An index out of range panics; an action that
  panics does not return.
\<close>

subsection \<open>Plans\<close>

record bulk_out_col =
  oc_quoted :: str
  oc_literal :: "str option"

record pk_recover =
  pk_field :: str
  pk_bind :: "nat option"

record link_slot =
  ls_bind :: nat
  ls_key_field :: str

text \<open>
  \<open>BulkStep\<close>: table, columns, rows, binds per row, conflict tail, key rows, serial column, to-one and
  to-many children, key recovery. \<open>NestedBulk\<close>: step, parent rows, link slots.
\<close>

datatype bulk_step = Bulk_Step
    str "bulk_out_col list" "sql_value list list" nat "str option" "sql_value list list" "str option"
    "nested_bulk list" "nested_bulk list" "pk_recover list"
  and nested_bulk = Nested_Bulk bulk_step "nat list" "link_slot list"

fun bulk_pk_recover :: "bulk_step \<Rightarrow> pk_recover list" where
  "bulk_pk_recover (Bulk_Step tbl cols rows per tail_sql key_rows serial one many recover) = recover"

fun bulk_serial_return :: "bulk_step \<Rightarrow> str option" where
  "bulk_serial_return (Bulk_Step tbl cols rows per tail_sql key_rows serial one many recover) = serial"

fun bulk_key_rows :: "bulk_step \<Rightarrow> sql_value list list" where
  "bulk_key_rows (Bulk_Step tbl cols rows per tail_sql key_rows serial one many recover) = key_rows"

text \<open>\<open>ColInject\<close>: a bind index and its value in each row.\<close>

type_synonym col_inject = "nat \<times> sql_value list"

type_synonym env = "str \<Rightarrow> sql_value option"

definition panic :: "('b, 'e, 'a) act" where
  "panic b = None"

fun expand :: "sql_value \<Rightarrow> sql_value binding" where
  "expand (V_List []) = Bind_Many [V_Null]"
| "expand (V_List (v # vs)) = Bind_Many (v # vs)"
| "expand v = Bind_One v"

definition resolve_env :: "env \<Rightarrow> str \<Rightarrow> sql_value binding option" where
  "resolve_env env n = map_option expand (env n)"

subsection \<open>One statement per chunk\<close>

definition max_binds :: "dialect \<Rightarrow> nat" where
  "max_binds d = (if d = Sqlite then 900 else 65000)"

definition count_named :: "str \<Rightarrow> nat" where
  "count_named sql = (case to_positional sql Postgres (\<lambda>n. Some (Bind_One ())) of
       Inl n \<Rightarrow> 0 | Inr (text, vs) \<Rightarrow> length vs)"

text \<open>\<open>rows.chunks(n)\<close>.\<close>

function chunks_of :: "nat \<Rightarrow> 'a list \<Rightarrow> 'a list list" where
  "chunks_of n xs = (if xs = [] then [] else take (max n 1) xs # chunks_of n (drop (max n 1) xs))"
  by pat_completeness auto
termination by (relation "measure (\<lambda>(n, xs). length xs)") auto

declare chunks_of.simps [simp del]

text \<open>The cells of one row and its binds; \<open>None\<close> when the row has too few values.\<close>

fun tuple_of ::
  "dialect \<Rightarrow> nat \<Rightarrow> bulk_out_col list \<Rightarrow> sql_value list \<Rightarrow> nat \<Rightarrow> (str list \<times> sql_value list) option" where
  "tuple_of d ord [] row i = Some ([], [])"
| "tuple_of d ord (c # cs) row i = (case oc_literal c of
       Some lit \<Rightarrow> map_option (\<lambda>(ts, ps). (lit # ts, ps)) (tuple_of d ord cs row i)
     | None \<Rightarrow> (if i < length row
         then map_option (\<lambda>(ts, ps). (marker d (Suc ord) # ts, row ! i # ps)) (tuple_of d (Suc ord) cs row (Suc i))
         else None))"

fun tuples_of ::
  "dialect \<Rightarrow> nat \<Rightarrow> bulk_out_col list \<Rightarrow> sql_value list list \<Rightarrow> (str list \<times> sql_value list) option" where
  "tuples_of d ord cols [] = Some ([], [])"
| "tuples_of d ord cols (row # rows) = (case tuple_of d ord cols row 0 of
       None \<Rightarrow> None
     | Some (ts, ps) \<Rightarrow> map_option (\<lambda>(tuples, params). ((''('' @ join '', '' ts @ '')'') # tuples, ps @ params))
         (tuples_of d (ord + length ps) cols rows))"

fun json_to_key :: "codec \<Rightarrow> json \<Rightarrow> sql_value" where
  "json_to_key cd (J_Int n) =
     (if is_i64 n then V_Int n else if is_u64 n then V_Int (n - 2 ^ 64) else V_Text (cd_text cd (J_Int n)))"
| "json_to_key cd (J_Str s) = V_Text s"
| "json_to_key cd v = V_Text (cd_text cd v)"

definition field_or_null :: "row \<Rightarrow> str \<Rightarrow> json" where
  "field_or_null r k = (case map_of r k of Some v \<Rightarrow> v | None \<Rightarrow> J_Null)"

text \<open>The insert of one chunk without its end: the tail's binds go on counting.\<close>

definition chunk_insert ::
  "dialect \<Rightarrow> str \<Rightarrow> bulk_out_col list \<Rightarrow> str option \<Rightarrow> env \<Rightarrow> sql_value list list \<Rightarrow>
   (db_error + str \<times> sql_value list) option" where
  "chunk_insert d tbl cols tail_sql env chunk = (case tuples_of d 0 cols chunk of
       None \<Rightarrow> None
     | Some (tuples, params) \<Rightarrow>
         (let sql = ''INSERT INTO '' @ tbl @ '' ('' @ join '', '' (map oc_quoted cols) @ '')'' @ nl @ ''VALUES '' @ join '', '' tuples in
          case tail_sql of
            None \<Rightarrow> Some (Inr (sql, params))
          | Some t \<Rightarrow> (case to_positional_from t d (length params) (resolve_env env) of
              Inl n \<Rightarrow> Some (Inl (db_error_new (''unbound placeholder `:'' @ n @ ''` (upsert tail)'')))
            | Inr (frag, tparams) \<Rightarrow> Some (Inr (sql @ frag, params @ tparams)))))"

definition end_sql :: str where
  "end_sql = '';'' @ nl"

definition last_insert_id_sql :: str where
  "last_insert_id_sql = ''SELECT LAST_INSERT_ID() AS id''"

text \<open>The first of the generated ids of a MySQL insert.\<close>

definition first_id :: "row list \<Rightarrow> int option" where
  "first_id rows = (case rows of
       [] \<Rightarrow> None
     | r # _ \<Rightarrow> (case map_of r ''id'' of
         Some (J_Int n) \<Rightarrow> (if is_i64 n then Some n else None)
       | _ \<Rightarrow> None))"

definition run_chunk ::
  "'b host \<Rightarrow> codec \<Rightarrow> dialect \<Rightarrow> str option \<Rightarrow> nat \<Rightarrow> str \<Rightarrow> sql_value list \<Rightarrow> ('b, db_error, sql_value list) act" where
  "run_chunk h cd d returning n sql params = (case returning of
       None \<Rightarrow> then_do (call id (h_execute h (sql @ end_sql) params)) (\<lambda>_. ret [])
     | Some col \<Rightarrow>
         if d = Postgres \<or> d = Sqlite then
           then_do (call id (h_fetch h (sql @ '' RETURNING '' @ quote d col @ end_sql) params)) (\<lambda>rows.
           ret (map (\<lambda>r. json_to_key cd (field_or_null r col)) rows))
         else
           then_do (call id (h_execute h (sql @ end_sql) params)) (\<lambda>_.
           then_do (call id (h_fetch h last_insert_id_sql [])) (\<lambda>rows.
           case first_id rows of
             None \<Rightarrow> fail (db_error_new ''LAST_INSERT_ID() returned no row'')
           | Some first \<Rightarrow> ret (map (\<lambda>i. V_Int (first + int i)) [0..<n]))))"

fun insert_chunks ::
  "'b host \<Rightarrow> codec \<Rightarrow> dialect \<Rightarrow> str \<Rightarrow> bulk_out_col list \<Rightarrow> str option \<Rightarrow> env \<Rightarrow> str option \<Rightarrow>
   sql_value list list list \<Rightarrow> sql_value list \<Rightarrow> ('b, db_error, sql_value list) act" where
  "insert_chunks h cd d tbl cols tail_sql env returning [] ids = ret ids"
| "insert_chunks h cd d tbl cols tail_sql env returning (chunk # chunks) ids =
     (case chunk_insert d tbl cols tail_sql env chunk of
        None \<Rightarrow> panic
      | Some (Inl e) \<Rightarrow> fail e
      | Some (Inr (sql, params)) \<Rightarrow>
          then_do (run_chunk h cd d returning (length chunk) sql params) (\<lambda>new_ids.
          insert_chunks h cd d tbl cols tail_sql env returning chunks (ids @ new_ids)))"

definition chunk_rows :: "dialect \<Rightarrow> nat \<Rightarrow> str option \<Rightarrow> nat" where
  "chunk_rows d per tail_sql =
     max ((max_binds d - (case tail_sql of None \<Rightarrow> 0 | Some t \<Rightarrow> count_named t)) div max per 1) 1"

definition insert_bulk_rows ::
  "'b host \<Rightarrow> codec \<Rightarrow> dialect \<Rightarrow> str \<Rightarrow> bulk_out_col list \<Rightarrow> nat \<Rightarrow> str option \<Rightarrow> str option \<Rightarrow>
   sql_value list list \<Rightarrow> env \<Rightarrow> bool \<Rightarrow> ('b, db_error, sql_value list) act" where
  "insert_bulk_rows h cd d tbl cols per tail_sql serial rows env want_serial =
     insert_chunks h cd d tbl cols tail_sql env (if want_serial then serial else None)
       (chunks_of (chunk_rows d per tail_sql) rows) []"

subsection \<open>Nested writes\<close>

definition set_cell :: "nat \<Rightarrow> nat \<Rightarrow> sql_value \<Rightarrow> sql_value list list \<Rightarrow> sql_value list list" where
  "set_cell i k v rows =
     (if i < length rows \<and> k < length (rows ! i) then rows[i := (rows ! i)[k := v]] else rows)"

text \<open>\<open>iter().position(p)\<close>.\<close>

fun position :: "('a \<Rightarrow> bool) \<Rightarrow> 'a list \<Rightarrow> nat option" where
  "position P [] = None"
| "position P (x # xs) = (if P x then Some 0 else map_option Suc (position P xs))"

definition inject_rows :: "col_inject list \<Rightarrow> sql_value list list \<Rightarrow> sql_value list list" where
  "inject_rows injects rows =
     fold (\<lambda>(k, per_row). fold (\<lambda>(i, v). set_cell i k v) (enumerate 0 per_row)) injects rows"

text \<open>The key of child \<open>j\<close> spliced into the foreign key of its parent row.\<close>

definition link_parents ::
  "pk_recover list \<Rightarrow> nat list \<Rightarrow> link_slot list \<Rightarrow> sql_value list list \<Rightarrow> sql_value list list \<Rightarrow> sql_value list list" where
  "link_parents recover parent_of slots pks rows =
     fold (\<lambda>(j, parent). fold (\<lambda>slot rows.
         case position (\<lambda>p. pk_field p = ls_key_field slot) recover of
           None \<Rightarrow> rows
         | Some idx \<Rightarrow> (if j < length pks \<and> idx < length (pks ! j)
             then set_cell parent (ls_bind slot) (pks ! j ! idx) rows else rows)) slots)
       (enumerate 0 parent_of) rows"

text \<open>The keys of the inserted rows; \<open>None\<close> when a key column lies outside its row.\<close>

definition pk_rows :: "pk_recover list \<Rightarrow> sql_value list \<Rightarrow> sql_value list list \<Rightarrow> sql_value list list option" where
  "pk_rows recover ids rows = those (map (\<lambda>(i, row). those (map (\<lambda>p.
       case pk_bind p of
         Some k \<Rightarrow> (if k < length row then Some (row ! k) else None)
       | None \<Rightarrow> Some (if i < length ids then ids ! i else V_Null)) recover)) (enumerate 0 rows))"

definition child_injects ::
  "pk_recover list \<Rightarrow> nat list \<Rightarrow> link_slot list \<Rightarrow> sql_value list list \<Rightarrow> col_inject list" where
  "child_injects recover parent_of slots pks = concat (map (\<lambda>slot.
       case position (\<lambda>p. pk_field p = ls_key_field slot) recover of
         None \<Rightarrow> []
       | Some idx \<Rightarrow> [(ls_bind slot, map (\<lambda>parent.
           if parent < length pks \<and> idx < length (pks ! parent) then pks ! parent ! idx else V_Null) parent_of)]) slots)"

fun exec_bulk ::
  "'b host \<Rightarrow> codec \<Rightarrow> dialect \<Rightarrow> env \<Rightarrow> bulk_step \<Rightarrow> bool \<Rightarrow> col_inject list \<Rightarrow>
   ('b, db_error, sql_value list list) act"
and exec_one ::
  "'b host \<Rightarrow> codec \<Rightarrow> dialect \<Rightarrow> env \<Rightarrow> nested_bulk list \<Rightarrow> sql_value list list \<Rightarrow>
   ('b, db_error, sql_value list list) act"
and exec_many ::
  "'b host \<Rightarrow> codec \<Rightarrow> dialect \<Rightarrow> env \<Rightarrow> nested_bulk list \<Rightarrow> pk_recover list \<Rightarrow> sql_value list list \<Rightarrow>
   ('b, db_error, unit) act" where
  "exec_bulk h cd d env (Bulk_Step tbl cols rows0 per tail_sql key_rows serial one many recover) want_pk injects =
     then_do (exec_one h cd d env one (inject_rows injects rows0)) (\<lambda>rows.
     let need_pk = want_pk \<or> many \<noteq> [] in
     then_do (insert_bulk_rows h cd d tbl cols per tail_sql serial rows env (need_pk \<and> serial \<noteq> None)) (\<lambda>ids.
     case (if need_pk then pk_rows recover ids rows else Some []) of
       None \<Rightarrow> panic
     | Some pks \<Rightarrow> then_do (exec_many h cd d env many recover pks) (\<lambda>_. ret (if want_pk then pks else []))))"
| "exec_one h cd d env [] rows = ret rows"
| "exec_one h cd d env (Nested_Bulk step parent_of slots # ns) rows =
     then_do (exec_bulk h cd d env step True []) (\<lambda>pks.
     exec_one h cd d env ns (link_parents (bulk_pk_recover step) parent_of slots pks rows))"
| "exec_many h cd d env [] recover pks = ret ()"
| "exec_many h cd d env (Nested_Bulk step parent_of slots # ns) recover pks =
     then_do (exec_bulk h cd d env step False (child_injects recover parent_of slots pks)) (\<lambda>_.
     exec_many h cd d env ns recover pks)"

subsection \<open>Reading the rows back\<close>

record bulk_readback =
  rb_sql :: str
  rb_key_count :: nat
  rb_bulk :: bool
  rb_serial :: bool

text \<open>\<open>TxOutcome\<close>.\<close>

datatype tx_outcome =
    Outcome_Done json
  | Outcome_Replayed json
  | Outcome_Mismatch
  | Outcome_Not_Found

fun sql_value_to_json :: "codec \<Rightarrow> sql_value \<Rightarrow> json" where
  "sql_value_to_json cd (V_Int i) = J_Int i"
| "sql_value_to_json cd (V_Uuid s) = J_Str s"
| "sql_value_to_json cd (V_Text s) = J_Str s"
| "sql_value_to_json cd v = J_Str (cd_debug_value cd v)"

definition norm_key :: "codec \<Rightarrow> json list \<Rightarrow> str" where
  "norm_key cd parts = join [CHR 0x01] (map (cd_text cd) parts)"

definition bulk_keys_sentinel :: str where
  "bulk_keys_sentinel = ''/*BULK_KEYS*/''"

definition bulk_key_alias :: "nat \<Rightarrow> str" where
  "bulk_key_alias c = ''__bkk_'' @ dec c"

definition key_bind_name :: "nat \<Rightarrow> nat \<Rightarrow> str" where
  "key_bind_name r c = ''__bk_'' @ dec r @ ''_'' @ dec c"

definition key_binds :: "sql_value list list \<Rightarrow> (str \<times> sql_value) list" where
  "key_binds keys = concat (map (\<lambda>(r, key). map (\<lambda>(c, v). (key_bind_name r c, v)) (enumerate 0 key)) (enumerate 0 keys))"

definition key_tuple :: "nat \<Rightarrow> sql_value list \<Rightarrow> str" where
  "key_tuple r key = (case map (\<lambda>(c, v). '':'' @ key_bind_name r c) (enumerate 0 key) of
       [p] \<Rightarrow> p | ps \<Rightarrow> ''('' @ join '', '' ps @ '')'')"

text \<open>A fetched row's key columns, and the row without them.\<close>

definition row_key :: "nat \<Rightarrow> row \<Rightarrow> json list" where
  "row_key n r = map (\<lambda>c. field_or_null r (bulk_key_alias c)) [0..<n]"

definition row_shown :: "nat \<Rightarrow> row \<Rightarrow> row" where
  "row_shown n r = filter (\<lambda>e. fst e \<notin> bulk_key_alias ` {0..<n}) r"

definition read_in_order :: "codec \<Rightarrow> (str \<times> json) list \<Rightarrow> sql_value list list \<Rightarrow> json list" where
  "read_in_order cd by_key keys =
     concat (map (\<lambda>key. case map_of by_key (norm_key cd (map (sql_value_to_json cd) key)) of
       Some v \<Rightarrow> [v] | None \<Rightarrow> []) keys)"

definition run_bulk_readback ::
  "'b host \<Rightarrow> codec \<Rightarrow> dialect \<Rightarrow> str list \<Rightarrow> bulk_readback \<Rightarrow> sql_value list list \<Rightarrow> env \<Rightarrow>
   ('b, db_error, tx_outcome) act" where
  "run_bulk_readback h cd d json_paths rb keys env =
     (if keys = [] then ret (if rb_bulk rb then Outcome_Done (J_Arr []) else Outcome_Not_Found)
      else
        let tuples = join '', '' (map (\<lambda>(r, key). key_tuple r key) (enumerate 0 keys));
            sql = replace_text bulk_keys_sentinel tuples (rb_sql rb) in
        case to_positional sql d (\<lambda>n. map_option expand (case env n of Some v \<Rightarrow> Some v | None \<Rightarrow> map_of (key_binds keys) n)) of
          Inl n \<Rightarrow> fail (db_error_new (''unbound placeholder `:'' @ n @ ''` (bulk read-back)''))
        | Inr (text, params) \<Rightarrow> then_do (call id (h_fetch h text params)) (\<lambda>rows.
            let by_key = rev (map (\<lambda>r. (norm_key cd (row_key (rb_key_count rb) r),
                  normalize_json cd d json_paths (nest_row cd d (row_shown (rb_key_count rb) r)))) rows);
                out = read_in_order cd by_key keys in
            ret (if rb_bulk rb then Outcome_Done (J_Arr out)
                 else (case out of v # _ \<Rightarrow> Outcome_Done v | [] \<Rightarrow> Outcome_Not_Found))))"

subsection \<open>What a bulk insert sends\<close>

lemma chunks_of_Nil [simp]: "chunks_of n [] = []"
  by (subst chunks_of.simps) simp

lemma chunks_of_step: "xs \<noteq> [] \<Longrightarrow> chunks_of n xs = take (max n 1) xs # chunks_of n (drop (max n 1) xs)"
  by (subst chunks_of.simps) simp

lemma concat_chunks: "concat (chunks_of n xs) = xs"
proof (induction n xs rule: chunks_of.induct)
  case (1 n xs)
  then show ?case by (cases "xs = []") (simp_all add: chunks_of_step)
qed

lemma chunk_size: "c \<in> set (chunks_of n xs) \<Longrightarrow> c \<noteq> [] \<and> length c \<le> max n 1 \<and> set c \<subseteq> set xs"
proof (induction n xs rule: chunks_of.induct)
  case (1 n xs)
  show ?case
  proof (cases "xs = []")
    case False
    then consider "c = take (max n 1) xs" | "c \<in> set (chunks_of n (drop (max n 1) xs))"
      using 1(2) by (auto simp: chunks_of_step)
    then show ?thesis
    proof cases
      case 1
      with False show ?thesis using set_take_subset [of "max n 1" xs] by simp
    next
      case 2
      then show ?thesis using 1(1) [OF False] set_drop_subset [of "max n 1" xs] by blast
    qed
  qed (use 1(2) in simp)
qed

abbreviation bound_cols :: "bulk_out_col list \<Rightarrow> nat" where
  "bound_cols cols \<equiv> length (filter (\<lambda>c. oc_literal c = None) cols)"

lemma tuple_of_binds:
  "tuple_of d ord cols row i = Some (ts, ps) \<Longrightarrow> ps = take (bound_cols cols) (drop i row) \<and> length ps = bound_cols cols"
proof (induction cols arbitrary: ord i ts ps)
  case (Cons c cs)
  show ?case
  proof (cases "oc_literal c")
    case None
    with Cons.prems obtain ts' ps' where r: "i < length row" "tuple_of d (Suc ord) cs row (Suc i) = Some (ts', ps')" "ps = row ! i # ps'"
      by (auto split: if_splits)
    from Cons.IH [OF r(2)] have ps': "ps' = take (bound_cols cs) (drop (Suc i) row)" "length ps' = bound_cols cs" by blast+
    have "drop i row = row ! i # drop (Suc i) row" using r(1) by (simp add: Cons_nth_drop_Suc)
    with None have "ps = take (bound_cols (c # cs)) (drop i row)" by (simp add: r(3) ps'(1))
    moreover from None have "length ps = bound_cols (c # cs)" using ps'(2) by (simp add: r(3))
    ultimately show ?thesis ..
  next
    case (Some lit)
    with Cons show ?thesis by auto
  qed
qed simp

lemma tuples_of_binds:
  "tuples_of d ord cols rows = Some (ts, ps) \<Longrightarrow> (\<And>r. r \<in> set rows \<Longrightarrow> length r = bound_cols cols) \<Longrightarrow>
   ps = concat rows \<and> length ps = length rows * bound_cols cols"
proof (induction rows arbitrary: ord ts ps)
  case (Cons r rows)
  then obtain t p ts' ps' where r: "tuple_of d ord cols r 0 = Some (t, p)"
      "tuples_of d (ord + length p) cols rows = Some (ts', ps')" "ps = p @ ps'"
    by (auto split: option.splits)
  from tuple_of_binds [OF r(1)] Cons.prems(2) [of r] have "p = r" by simp
  with Cons.IH [OF r(2)] Cons.prems(2) r(3) show ?case by auto
qed simp

definition scalar_env :: "env \<Rightarrow> bool" where
  "scalar_env env \<longleftrightarrow> (\<forall>n v. env n = Some v \<longrightarrow> (\<forall>vs. v \<noteq> V_List vs))"

lemma scalar_binds:
  "scalar_env env \<Longrightarrow> resolve_env env n \<noteq> None \<Longrightarrow> length (values_of (resolve_env env) n) = 1"
  by (cases "env n"; cases "the (env n)") (auto simp: scalar_env_def resolve_env_def values_of_def)

lemma tail_binds:
  assumes "scalar_env env" "to_positional_from t d off (resolve_env env) = Inr (frag, ps)"
  shows "length ps = count_named t"
proof -
  have all: "\<And>n. n \<in> set (holes (pieces t)) \<Longrightarrow> resolve_env env n \<noteq> None"
    and ps: "ps = concat (map (values_of (resolve_env env)) (holes (pieces t)))"
    using assms(2) by (auto simp: to_positional_from_def scan_binds_fill find_None_iff split: option.splits)
  have "length (concat (map (values_of (resolve_env env)) ns)) = length ns"
    if "\<And>n. n \<in> set ns \<Longrightarrow> resolve_env env n \<noteq> None" for ns
    using that by (induction ns) (simp_all add: scalar_binds [OF assms(1)])
  with all ps have "length ps = length (holes (pieces t))" by blast
  moreover have "length (concat (map (values_of (\<lambda>n. Some (Bind_One ()))) ns)) = length ns" for ns
    by (induction ns) (simp_all add: values_of_def)
  ultimately show ?thesis
    using find_None_iff [of "\<lambda>n. False" "holes (pieces t)"]
    by (simp add: count_named_def to_positional_def to_positional_from_def scan_binds_fill)
qed


definition two_columns :: "bulk_out_col list" where
  "two_columns = [\<lparr>oc_quoted = ''id'', oc_literal = None\<rparr>, \<lparr>oc_quoted = ''at'', oc_literal = Some ''CURRENT_TIMESTAMP''\<rparr>]"


end
