(* ===== verification/Idempotency.thy ===== *)
theory Idempotency
  imports Migration_Sql Shaping
begin

text \<open>
  \<open>based-runtime/src/idempotency.rs\<close>: the stores that keep a retried mutation from running twice,
  and the fingerprint of a request (\<open>plan/ir.rs\<close>). The out-of-band store is an interface, a locale:
  what a claim answers and leaves of a key, in time. The invariant of concurrent attempts is proved
  from it and holds of \<open>MemStore\<close> by interpretation. The database store is a pair of actions inside
  the mutation's transaction.
\<close>

subsection \<open>Requests\<close>

record request =
  rq_callable :: str
  rq_args :: object
  rq_ctx :: object
  rq_key :: "str option"

fun as_object :: "json \<Rightarrow> object" where
  "as_object (J_Obj m) = m"
| "as_object v = []"

definition request_new :: "str \<Rightarrow> json \<Rightarrow> json \<Rightarrow> request" where
  "request_new callable args ctx =
     \<lparr>rq_callable = callable, rq_args = as_object args, rq_ctx = as_object ctx, rq_key = None\<rparr>"

definition with_idempotency_key :: "str option \<Rightarrow> request \<Rightarrow> request" where
  "with_idempotency_key key r =
     r\<lparr>rq_key := (case key of Some k \<Rightarrow> (if trim k = [] then None else Some k) | None \<Rightarrow> None)\<rparr>"

text \<open>\<open>Fingerprint::MAX\<close>, and the separator byte after each map.\<close>

definition separator :: char where
  "separator = CHR 0xFF"

definition fingerprint :: "codec \<Rightarrow> request \<Rightarrow> u64" where
  "fingerprint cd r =
     fold (\<lambda>m h. fnv_byte separator (fnv_mix (cd_text cd (J_Obj m)) h)) [rq_args r, rq_ctx r] fnv_offset"

subsection \<open>MemStore\<close>

datatype key_state = Key_Fresh | Key_Done json | Key_In_Flight | Key_Mismatch

datatype outcome = In_Flight | Recorded json

record key_entry =
  en_fingerprint :: u64
  en_outcome :: outcome
  en_expires :: nat

text \<open>A key is a callable and the caller's key. Instants and durations are counted in nanoseconds.\<close>

type_synonym idem_key = "str \<times> str"

record mem_store =
  ms_ttl :: nat
  ms_entries :: "idem_key \<Rightarrow> key_entry option"
  ms_next_sweep :: nat

definition mem_store_with_ttl :: "nat \<Rightarrow> nat \<Rightarrow> mem_store" where
  "mem_store_with_ttl now ttl = \<lparr>ms_ttl = ttl, ms_entries = (\<lambda>k. None), ms_next_sweep = now + ttl\<rparr>"

definition unexpired :: "nat \<Rightarrow> key_entry option \<Rightarrow> key_entry option" where
  "unexpired now e = (case e of Some x \<Rightarrow> (if now < en_expires x then Some x else None) | None \<Rightarrow> None)"

definition sweep_if_due :: "nat \<Rightarrow> mem_store \<Rightarrow> mem_store" where
  "sweep_if_due now st =
     (if ms_next_sweep st \<le> now
      then st\<lparr>ms_entries := (\<lambda>k. unexpired now (ms_entries st k)), ms_next_sweep := now + ms_ttl st\<rparr>
      else st)"

definition key_answer :: "u64 \<Rightarrow> key_entry \<Rightarrow> key_state" where
  "key_answer fp e =
     (if en_fingerprint e \<noteq> fp then Key_Mismatch
      else (case en_outcome e of In_Flight \<Rightarrow> Key_In_Flight | Recorded r \<Rightarrow> Key_Done r))"

definition mem_begin :: "nat \<Rightarrow> idem_key \<Rightarrow> u64 \<Rightarrow> mem_store \<Rightarrow> key_state \<times> mem_store" where
  "mem_begin now k fp st0 =
     (let st = sweep_if_due now st0 in
      case unexpired now (ms_entries st k) of
        Some e \<Rightarrow> (key_answer fp e, st)
      | None \<Rightarrow> (Key_Fresh, st\<lparr>ms_entries := (ms_entries st)
          (k \<mapsto> \<lparr>en_fingerprint = fp, en_outcome = In_Flight, en_expires = now + ms_ttl st\<rparr>)\<rparr>))"

definition mem_record :: "nat \<Rightarrow> idem_key \<Rightarrow> json \<Rightarrow> mem_store \<Rightarrow> mem_store" where
  "mem_record now k response st =
     st\<lparr>ms_entries := (ms_entries st)(k \<mapsto>
       \<lparr>en_fingerprint = (case ms_entries st k of Some e \<Rightarrow> en_fingerprint e | None \<Rightarrow> -1),
        en_outcome = Recorded response, en_expires = now + ms_ttl st\<rparr>)\<rparr>"

definition mem_abandon :: "idem_key \<Rightarrow> mem_store \<Rightarrow> mem_store" where
  "mem_abandon k st = st\<lparr>ms_entries := (ms_entries st)(k := None)\<rparr>"

text \<open>\<open>NoStore\<close>.\<close>

definition no_begin :: "nat \<Rightarrow> idem_key \<Rightarrow> u64 \<Rightarrow> 's \<Rightarrow> key_state \<times> 's" where
  "no_begin now k fp st = (Key_Fresh, st)"

subsection \<open>DbStore\<close>

datatype tx_claim = Claim_Fresh | Claim_Done json | Claim_Mismatch

definition idempotency_table :: str where
  "idempotency_table = ''_based_idempotency''"

definition idem_insert_sql :: "dialect \<Rightarrow> str" where
  "idem_insert_sql d =
     (let cols = ''('' @ quote d ''callable'' @ '', '' @ quote d ''key'' @ '', '' @ quote d ''fingerprint'' @ '', '' @ quote d ''created_at'' @ '')'';
          vals = ''('' @ placeholder d 1 @ '', '' @ placeholder d 2 @ '', '' @ placeholder d 3 @ '', CURRENT_TIMESTAMP)'';
          tbl = quote d idempotency_table in
      case d of
        Postgres \<Rightarrow> ''INSERT INTO '' @ tbl @ '' '' @ cols @ '' VALUES '' @ vals @
          '' ON CONFLICT ('' @ quote d ''callable'' @ '', '' @ quote d ''key'' @ '') DO NOTHING''
      | Sqlite \<Rightarrow> ''INSERT OR IGNORE INTO '' @ tbl @ '' '' @ cols @ '' VALUES '' @ vals
      | _ \<Rightarrow> ''INSERT IGNORE INTO '' @ tbl @ '' '' @ cols @ '' VALUES '' @ vals)"

definition idem_select_sql :: "dialect \<Rightarrow> str" where
  "idem_select_sql d = ''SELECT '' @ quote d ''fingerprint'' @ '', '' @ quote d ''response'' @ '' FROM '' @ quote d idempotency_table @
     '' WHERE '' @ quote d ''callable'' @ '' = '' @ placeholder d 1 @ '' AND '' @ quote d ''key'' @ '' = '' @ placeholder d 2"

definition idem_update_sql :: "dialect \<Rightarrow> str" where
  "idem_update_sql d = ''UPDATE '' @ quote d idempotency_table @ '' SET '' @ quote d ''response'' @ '' = '' @ placeholder d 1 @
     '' WHERE '' @ quote d ''callable'' @ '' = '' @ placeholder d 2 @ '' AND '' @ quote d ''key'' @ '' = '' @ placeholder d 3"

definition idem_delete_expired_sql :: "dialect \<Rightarrow> nat \<Rightarrow> str" where
  "idem_delete_expired_sql d secs =
     (let head = ''DELETE FROM '' @ quote d idempotency_table @ '' WHERE '' @ quote d ''created_at'' @ '' < '' in
      case d of
        Postgres \<Rightarrow> head @ ''CURRENT_TIMESTAMP - INTERVAL '' @ [sql_quote_char] @ dec secs @ '' seconds'' @ [sql_quote_char]
      | Sqlite \<Rightarrow> head @ ''datetime(CURRENT_TIMESTAMP, '' @ [sql_quote_char] @ ''-'' @ dec secs @ '' seconds'' @ [sql_quote_char] @ '')''
      | _ \<Rightarrow> head @ ''CURRENT_TIMESTAMP - INTERVAL '' @ dec secs @ '' SECOND'')"

definition claim_of_row :: "codec \<Rightarrow> str \<Rightarrow> row \<Rightarrow> db_error + tx_claim" where
  "claim_of_row cd fp_text r =
     (if (case map_of r ''fingerprint'' of Some (J_Str s) \<Rightarrow> s | _ \<Rightarrow> []) \<noteq> fp_text then Inr Claim_Mismatch
      else (case map_of r ''response'' of
          Some (J_Str s) \<Rightarrow> (case cd_read cd s of
              Some v \<Rightarrow> Inr (Claim_Done v)
            | None \<Rightarrow> Inl (db_error_new (''stored idempotency response is not JSON: '' @ cd_read_error cd s)))
        | None \<Rightarrow> Inl (db_error_new ''idempotency claim conflicted with a committed row that recorded no response'')
        | Some J_Null \<Rightarrow> Inl (db_error_new ''idempotency claim conflicted with a committed row that recorded no response'')
        | Some v \<Rightarrow> Inr (Claim_Done v)))"

definition fingerprint_text :: "u64 \<Rightarrow> str" where
  "fingerprint_text fp = dec (unat fp)"

lemma fingerprint_text_inject: "fingerprint_text a = fingerprint_text b \<longleftrightarrow> a = b"
  using dec_value by (metis fingerprint_text_def word_unat_eq_iff)

definition db_claim ::
  "'b host \<Rightarrow> codec \<Rightarrow> dialect \<Rightarrow> idem_key \<Rightarrow> u64 \<Rightarrow> ('b, db_error, tx_claim) act" where
  "db_claim h cd d k fp =
     then_do (call id (h_execute h (idem_insert_sql d) [V_Text (fst k), V_Text (snd k), V_Text (fingerprint_text fp)])) (\<lambda>affected.
     if 1 \<le> affected then ret Claim_Fresh
     else then_do (call id (h_fetch h (idem_select_sql d) [V_Text (fst k), V_Text (snd k)])) (\<lambda>rows.
       case rows of
         [] \<Rightarrow> fail (db_error_new ''idempotency key row vanished after a conflict'')
       | r # _ \<Rightarrow> (case claim_of_row cd (fingerprint_text fp) r of Inl e \<Rightarrow> fail e | Inr c \<Rightarrow> ret c)))"

definition db_record ::
  "'b host \<Rightarrow> codec \<Rightarrow> dialect \<Rightarrow> idem_key \<Rightarrow> json \<Rightarrow> ('b, db_error, unit) act" where
  "db_record h cd d k response =
     then_do (call id (h_execute h (idem_update_sql d) [V_Text (cd_text cd response), V_Text (fst k), V_Text (snd k)])) (\<lambda>_. ret ())"

subsection \<open>The contract of an out-of-band store\<close>

fun verdict :: "u64 \<times> json option \<Rightarrow> u64 \<Rightarrow> key_state" where
  "verdict (f, res) fp =
     (if f \<noteq> fp then Key_Mismatch else (case res of None \<Rightarrow> Key_In_Flight | Some r \<Rightarrow> Key_Done r))"

text \<open>
  \<open>seen t s k\<close> is what the store still holds of a key at time \<open>t\<close>: the fingerprint of its claim and
  the response, if any.
\<close>

locale idem_store =
  fixes claim :: "nat \<Rightarrow> 'k \<Rightarrow> u64 \<Rightarrow> 's \<Rightarrow> key_state \<times> 's"
    and record_done :: "nat \<Rightarrow> 'k \<Rightarrow> json \<Rightarrow> 's \<Rightarrow> 's"
    and release :: "'k \<Rightarrow> 's \<Rightarrow> 's"
    and seen :: "nat \<Rightarrow> 's \<Rightarrow> 'k \<Rightarrow> (u64 \<times> json option) option"
    and ttl :: "'s \<Rightarrow> nat"
  assumes claim_taken: "\<lbrakk>seen now s k = Some e; claim now k fp s = (a, s'); now \<le> t\<rbrakk> \<Longrightarrow>
      a = verdict e fp \<and> seen t s' = seen t s"
    and claim_free: "\<lbrakk>seen now s k = None; claim now k fp s = (a, s'); now \<le> t\<rbrakk> \<Longrightarrow>
      a = Key_Fresh \<and> (t < now + ttl s \<longrightarrow> seen t s' k = Some (fp, None)) \<and> (k' \<noteq> k \<longrightarrow> seen t s' k' = seen t s k')"
    and record_done: "\<lbrakk>seen now s k = Some (fp, x); now \<le> t\<rbrakk> \<Longrightarrow>
      (t < now + ttl s \<longrightarrow> seen t (record_done now k r s) k = Some (fp, Some r))
      \<and> (k' \<noteq> k \<longrightarrow> seen t (record_done now k r s) k' = seen t s k')"
    and release: "seen t (release k s) = (seen t s)(k := None)"
    and ttl_kept: "ttl (snd (claim now k fp s)) = ttl s" "ttl (record_done now k r s) = ttl s" "ttl (release k s) = ttl s"
begin

text \<open>
  Concurrent attempts on one store: each holds the key it claimed, with its fingerprint and the time
  of the claim. Time passes only while no attempt outlives the store's retention, which the module's
  documentation asks of a deployment.
\<close>

inductive attempt_step :: "nat \<times> 's \<times> (nat \<Rightarrow> ('k \<times> u64 \<times> nat) option) \<Rightarrow>
    nat \<times> 's \<times> (nat \<Rightarrow> ('k \<times> u64 \<times> nat) option) \<Rightarrow> bool" where
  arrive: "\<lbrakk>run i = None; claim now k fp s = (Key_Fresh, s')\<rbrakk> \<Longrightarrow>
    attempt_step (now, s, run) (now, s', run(i \<mapsto> (k, fp, now)))"
| turned_away: "\<lbrakk>claim now k fp s = (a, s'); a \<noteq> Key_Fresh\<rbrakk> \<Longrightarrow> attempt_step (now, s, run) (now, s', run)"
| finish: "run i = Some (k, fp, t0) \<Longrightarrow> attempt_step (now, s, run) (now, record_done now k r s, run(i := None))"
| cancel: "run i = Some (k, fp, t0) \<Longrightarrow> attempt_step (now, s, run) (now, release k s, run(i := None))"
| tick: "\<lbrakk>now \<le> now'; \<forall>i k fp t0. run i = Some (k, fp, t0) \<longrightarrow> now' < t0 + ttl s\<rbrakk> \<Longrightarrow> attempt_step (now, s, run) (now', s, run)"

definition guarded :: "nat \<times> 's \<times> (nat \<Rightarrow> ('k \<times> u64 \<times> nat) option) \<Rightarrow> bool" where
  "guarded c \<longleftrightarrow> (case c of (now, s, run) \<Rightarrow>
     0 < ttl s
     \<and> (\<forall>i k fp t0. run i = Some (k, fp, t0) \<longrightarrow>
          now < t0 + ttl s \<and> (\<forall>t \<ge> now. t < t0 + ttl s \<longrightarrow> seen t s k = Some (fp, None)))
     \<and> (\<forall>i j k fp fp' t0 t1. run i = Some (k, fp, t0) \<longrightarrow> run j = Some (k, fp', t1) \<longrightarrow> i = j))"

lemma guardedD:
  "guarded (now, s, run) \<Longrightarrow> 0 < ttl s"
  "guarded (now, s, run) \<Longrightarrow> run i = Some (k, fp, t0) \<Longrightarrow> now < t0 + ttl s"
  "guarded (now, s, run) \<Longrightarrow> run i = Some (k, fp, t0) \<Longrightarrow> now \<le> t \<Longrightarrow> t < t0 + ttl s \<Longrightarrow> seen t s k = Some (fp, None)"
  "guarded (now, s, run) \<Longrightarrow> run i = Some (k, fp, t0) \<Longrightarrow> run j = Some (k, fp', t1) \<Longrightarrow> i = j"
  by (auto simp: guarded_def)

lemma guarded_now: "guarded (now, s, run) \<Longrightarrow> run i = Some (k, fp, t0) \<Longrightarrow> seen now s k = Some (fp, None)"
  using guardedD(2,3) by blast

lemma fresh_is_free: "claim now k fp s = (Key_Fresh, s') \<Longrightarrow> seen now s k = None"
  using claim_taken [of now s k _ fp Key_Fresh s' now] by (cases "seen now s k") (auto split: if_splits option.splits)

lemma taken_claim_keeps: "claim now k fp s = (a, s') \<Longrightarrow> a \<noteq> Key_Fresh \<Longrightarrow> now \<le> t \<Longrightarrow> seen t s' = seen t s"
  using claim_taken claim_free by (cases "seen now s k") blast+

lemma guarded_step: "attempt_step c c' \<Longrightarrow> guarded c \<Longrightarrow> guarded c'"
proof (induction rule: attempt_step.induct)
  case (arrive run i now k fp s s')
  note free = fresh_is_free [OF arrive(2)]
  have t: "ttl s' = ttl s" using ttl_kept(1) [of now k fp s] arrive(2) by simp
  have none: "run j \<noteq> Some (k, f, t0)" for j f t0 using guarded_now [OF arrive(3)] free by fastforce
  have mine: "seen t s' k = Some (fp, None)" if "now \<le> t" "t < now + ttl s" for t
    using claim_free [OF free arrive(2) that(1)] that(2) by blast
  have other: "seen t s' k' = seen t s k'" if "now \<le> t" "k' \<noteq> k" for t k'
    using claim_free [OF free arrive(2) that(1)] that(2) by blast
  show ?case
    using guardedD [OF arrive(3)] none mine other
    unfolding guarded_def by (auto simp: t split: if_splits) (metis+)
next
  case (turned_away now k fp s a s' run)
  have t: "ttl s' = ttl s" using ttl_kept(1) [of now k fp s] turned_away(1) by simp
  show ?case
    using turned_away(3) taken_claim_keeps [OF turned_away(1,2)] unfolding guarded_def by (simp add: t)
next
  case (finish run i k fp t0 now s r)
  have other: "seen t (record_done now k r s) k' = seen t s k'" if "now \<le> t" "k' \<noteq> k" for t k'
    using record_done [OF guarded_now [OF finish(2,1)] that(1)] that(2) by blast
  have none: "k' \<noteq> k" if "run j = Some (k', f, t1)" "j \<noteq> i" for j k' f t1
    using guardedD(4) [OF finish(2,1)] that by blast
  show ?case
    using guardedD [OF finish(2)] none other unfolding guarded_def by (auto simp: ttl_kept split: if_splits)
next
  case (cancel run i k fp t0 now s)
  have none: "k' \<noteq> k" if "run j = Some (k', f, t1)" "j \<noteq> i" for j k' f t1
    using guardedD(4) [OF cancel(2,1)] that by blast
  show ?case
    using guardedD [OF cancel(2)] none unfolding guarded_def by (auto simp: ttl_kept release split: if_splits)
next
  case (tick now now' run s)
  then show ?case
    using guardedD [OF tick(3)] unfolding guarded_def by auto
qed

lemma guarded_steps: "attempt_step\<^sup>*\<^sup>* c c' \<Longrightarrow> guarded c \<Longrightarrow> guarded c'"
  by (induction rule: rtranclp_induct) (auto intro: guarded_step)

lemma guarded_start: "0 < ttl s \<Longrightarrow> guarded (now, s, \<lambda>i. None)"
  by (simp add: guarded_def)

text \<open>A recorded response answers the key until it expires.\<close>

definition recorded :: "nat \<Rightarrow> 'k \<Rightarrow> u64 \<Rightarrow> json \<Rightarrow> nat \<times> 's \<times> 'r \<Rightarrow> bool" where
  "recorded until_t k fp r c \<longleftrightarrow> (case c of (now, s, run) \<Rightarrow> \<forall>t \<ge> now. t < until_t \<longrightarrow> seen t s k = Some (fp, Some r))"

lemma recorded_step:
  "attempt_step c c' \<Longrightarrow> guarded c \<Longrightarrow> recorded u k0 fp0 r0 c \<Longrightarrow> recorded u k0 fp0 r0 c'"
proof (induction rule: attempt_step.induct)
  case (arrive run i now k fp s s')
  note free = fresh_is_free [OF arrive(2)]
  have "seen t s' k0 = Some (fp0, Some r0)" if "now \<le> t" "t < u" for t
  proof -
    have "seen now s k0 = Some (fp0, Some r0)" using arrive(4) that by (simp add: recorded_def)
    then have "k0 \<noteq> k" using free by auto
    then show ?thesis using claim_free [OF free arrive(2) that(1)] arrive(4) that by (simp add: recorded_def)
  qed
  then show ?case by (simp add: recorded_def)
next
  case (turned_away now k fp s a s' run)
  then show ?case using taken_claim_keeps [OF turned_away(1,2)] by (simp add: recorded_def)
next
  case (finish run i k fp t0 now s r)
  have "seen t (record_done now k r s) k0 = Some (fp0, Some r0)" if "now \<le> t" "t < u" for t
  proof -
    have "seen now s k0 = Some (fp0, Some r0)" using finish(3) that by (simp add: recorded_def)
    then have "k0 \<noteq> k" using guarded_now [OF finish(2,1)] by auto
    then show ?thesis
      using record_done [OF guarded_now [OF finish(2,1)] that(1)] finish(3) that by (simp add: recorded_def)
  qed
  then show ?case by (simp add: recorded_def)
next
  case (cancel run i k fp t0 now s)
  have "seen t (release k s) k0 = Some (fp0, Some r0)" if "now \<le> t" "t < u" for t
  proof -
    have "seen now s k0 = Some (fp0, Some r0)" using cancel(3) that by (simp add: recorded_def)
    then have "k0 \<noteq> k" using guarded_now [OF cancel(2,1)] by auto
    then show ?thesis using cancel(3) that by (simp add: recorded_def release)
  qed
  then show ?case by (simp add: recorded_def)
qed (auto simp: recorded_def)

lemma recorded_steps:
  "attempt_step\<^sup>*\<^sup>* c c' \<Longrightarrow> guarded c \<Longrightarrow> recorded u k fp r c \<Longrightarrow> recorded u k fp r c'"
  by (induction rule: rtranclp_induct) (auto intro: recorded_step dest: guarded_steps)

lemma single_flight:
  "0 < ttl s0 \<Longrightarrow> attempt_step\<^sup>*\<^sup>* (now0, s0, \<lambda>i. None) (now, s, run) \<Longrightarrow>
   run i = Some (k, fp, t0) \<Longrightarrow> run j = Some (k, fp', t1) \<Longrightarrow> i = j"
  using guarded_steps [OF _ guarded_start] guardedD(4) by blast

lemma finished_replays:
  assumes "0 < ttl s0" "attempt_step\<^sup>*\<^sup>* (now0, s0, \<lambda>i. None) (now, s, run)" "run i = Some (k, fp, t0)"
    "attempt_step\<^sup>*\<^sup>* (now, record_done now k r s, run(i := None)) (now', s', run')" "now' < now + ttl s"
  shows "fst (claim now' k fp' s') = verdict (fp, Some r) fp'"
proof -
  have g: "guarded (now, s, run)" by (rule guarded_steps [OF assms(2) guarded_start [OF assms(1)]])
  then have g2: "guarded (now, record_done now k r s, run(i := None))" by (rule guarded_step [OF attempt_step.finish [where run = run and i = i, OF assms(3)]])
  have "recorded (now + ttl s) k fp r (now, record_done now k r s, run(i := None))"
    using record_done [OF guarded_now [OF g assms(3)]] by (simp add: recorded_def)
  from recorded_steps [OF assms(4) g2 this] have "seen now' s' k = Some (fp, Some r)"
    using assms(5) by (simp add: recorded_def)
  then show ?thesis using claim_taken [of now' s' k _ fp' _ _ now'] by (metis order_refl prod.collapse)
qed

end

subsection \<open>MemStore meets the contract\<close>

definition entry_view :: "key_entry \<Rightarrow> u64 \<times> json option" where
  "entry_view e = (en_fingerprint e, case en_outcome e of In_Flight \<Rightarrow> None | Recorded r \<Rightarrow> Some r)"

definition mem_seen :: "nat \<Rightarrow> mem_store \<Rightarrow> idem_key \<Rightarrow> (u64 \<times> json option) option" where
  "mem_seen t st k = map_option entry_view (unexpired t (ms_entries st k))"

lemma unexpired_later: "now \<le> t \<Longrightarrow> unexpired t (unexpired now e) = unexpired t e"
  by (auto simp: unexpired_def split: option.split)

lemma mem_seen_sweep: "now \<le> t \<Longrightarrow> mem_seen t (sweep_if_due now st) = mem_seen t st"
  by (rule ext) (simp add: mem_seen_def sweep_if_due_def unexpired_later)

lemma key_answer_verdict: "key_answer fp e = verdict (entry_view e) fp"
  by (simp add: key_answer_def entry_view_def split: outcome.split)

lemma ttl_sweep [simp]: "ms_ttl (sweep_if_due now st) = ms_ttl st"
  by (simp add: sweep_if_due_def)

lemma mem_seen_now: "mem_seen now st k = map_option entry_view (unexpired now (ms_entries (sweep_if_due now st) k))"
  using fun_cong [OF mem_seen_sweep [of now now st], of k] by (simp add: mem_seen_def)

interpretation attempts: idem_store mem_begin mem_record mem_abandon mem_seen ms_ttl
proof
  fix now t :: nat and s s' :: mem_store and k fp a and e :: "u64 \<times> json option"
  assume e: "mem_seen now s k = Some e" and c: "mem_begin now k fp s = (a, s')" and t: "now \<le> t"
  from e obtain x where "unexpired now (ms_entries (sweep_if_due now s) k) = Some x" "entry_view x = e"
    by (auto simp: mem_seen_now)
  with c have "a = verdict e fp" "s' = sweep_if_due now s"
    by (auto simp: mem_begin_def Let_def key_answer_verdict)
  with t show "a = verdict e fp \<and> mem_seen t s' = mem_seen t s" by (simp add: mem_seen_sweep)
next
  fix now t :: nat and s s' :: mem_store and k k' fp a
  assume e: "mem_seen now s k = None" and c: "mem_begin now k fp s = (a, s')" and t: "now \<le> t"
  from e have "unexpired now (ms_entries (sweep_if_due now s) k) = None" by (simp add: mem_seen_now)
  with c have s': "a = Key_Fresh" "s' = (sweep_if_due now s)\<lparr>ms_entries := (ms_entries (sweep_if_due now s))
      (k \<mapsto> \<lparr>en_fingerprint = fp, en_outcome = In_Flight, en_expires = now + ms_ttl s\<rparr>)\<rparr>"
    by (auto simp: mem_begin_def Let_def)
  have "t < now + ms_ttl s \<Longrightarrow> mem_seen t s' k = Some (fp, None)"
    by (simp add: s'(2) mem_seen_def unexpired_def entry_view_def)
  moreover have "k' \<noteq> k \<Longrightarrow> mem_seen t s' k' = mem_seen t s k'"
    using fun_cong [OF mem_seen_sweep [OF t, of s], of k'] by (simp add: s'(2) mem_seen_def)
  ultimately show "a = Key_Fresh \<and> (t < now + ms_ttl s \<longrightarrow> mem_seen t s' k = Some (fp, None))
      \<and> (k' \<noteq> k \<longrightarrow> mem_seen t s' k' = mem_seen t s k')" using s'(1) by blast
next
  fix now t :: nat and s :: mem_store and k k' fp x r
  assume "mem_seen now s k = Some (fp, x)" "now \<le> t"
  then show "(t < now + ms_ttl s \<longrightarrow> mem_seen t (mem_record now k r s) k = Some (fp, Some r))
      \<and> (k' \<noteq> k \<longrightarrow> mem_seen t (mem_record now k r s) k' = mem_seen t s k')"
    by (auto simp: mem_seen_def mem_record_def unexpired_def entry_view_def split: option.splits if_splits)
qed (auto simp: mem_seen_def mem_abandon_def mem_begin_def mem_record_def unexpired_def Let_def fun_eq_iff split: option.splits)

subsection \<open>Properties\<close>

text \<open>C24: concurrent attempts on one store never run the same key twice at once, however they
  arrive, finish and are cancelled, while none outlives the retention.\<close>

theorem mem_store_single_flight:
  assumes "0 < ttl" "attempts.attempt_step\<^sup>*\<^sup>* (now0, mem_store_with_ttl now0 ttl, \<lambda>i. None) (now, s, run)"
  shows "\<exists>j. {i. \<exists>fp t0. run i = Some (k, fp, t0)} \<subseteq> {j}"
proof -
  have "i = j" if "run i = Some (k, fp, t0)" "run j = Some (k, fp', t1)" for i j fp fp' t0 t1
    by (rule attempts.single_flight [OF _ assms(2) that]) (simp add: mem_store_with_ttl_def assms(1))
  then show ?thesis by blast
qed

text \<open>Once an attempt has recorded its response, every later attempt within the retention is
  answered from it: the same request gets that response, another one under the same key is refused.\<close>

theorem mem_store_replays:
  assumes "0 < ttl" "attempts.attempt_step\<^sup>*\<^sup>* (now0, mem_store_with_ttl now0 ttl, \<lambda>i. None) (now, s, run)"
    "run i = Some (k, fp, t0)"
    "attempts.attempt_step\<^sup>*\<^sup>* (now, mem_record now k r s, run(i := None)) (now', s', run')" "now' < now + ms_ttl s"
  shows "fst (mem_begin now' k fp' s') = (if fp' = fp then Key_Done r else Key_Mismatch)"
proof -
  have "fst (mem_begin now' k fp' s') = verdict (fp, Some r) fp'"
    by (rule attempts.finished_replays [OF _ assms(2-5)]) (simp add: mem_store_with_ttl_def assms(1))
  then show ?thesis by simp
qed

text \<open>The bytes the fingerprint reads.\<close>

definition request_bytes :: "codec \<Rightarrow> request \<Rightarrow> str" where
  "request_bytes cd r = cd_text cd (J_Obj (rq_args r)) @ separator # cd_text cd (J_Obj (rq_ctx r)) @ [separator]"

lemma append_separator:
  "x \<notin> set a \<Longrightarrow> x \<notin> set c \<Longrightarrow> a @ x # b = c @ x # d \<longleftrightarrow> a = c \<and> b = d"
  by (induction a arbitrary: c) (case_tac c; auto)+

text \<open>The fingerprint is a hash of bytes that determine the arguments and the context apart, and
  a changed byte of them changes it.\<close>

theorem fingerprint_detects_change:
  assumes "\<And>m. separator \<notin> set (cd_text cd (J_Obj m))"
  shows "(request_bytes cd r = request_bytes cd r' \<longleftrightarrow>
      cd_text cd (J_Obj (rq_args r)) = cd_text cd (J_Obj (rq_args r'))
      \<and> cd_text cd (J_Obj (rq_ctx r)) = cd_text cd (J_Obj (rq_ctx r')))
    \<and> (request_bytes cd r = request_bytes cd r' \<longrightarrow> fingerprint cd r = fingerprint cd r')
    \<and> (\<forall>a x y b. request_bytes cd r = a @ x # b \<longrightarrow> request_bytes cd r' = a @ y # b \<longrightarrow> x \<noteq> y \<longrightarrow>
        fingerprint cd r \<noteq> fingerprint cd r')"
proof -
  have fp: "fingerprint cd r = fnv_mix (request_bytes cd r) fnv_offset" for r
    by (simp add: fingerprint_def request_bytes_def fnv_mix_def)
  show ?thesis
    using assms by (auto simp: fp fnv_mix_one_byte) (auto simp: request_bytes_def append_separator)
qed

subsection \<open>Witnesses\<close>

definition key_a :: idem_key where
  "key_a = (''buy'', ''k-1'')"

abbreviation claimed :: mem_store where
  "claimed \<equiv> snd (mem_begin 0 key_a 7 (mem_store_with_ttl 0 10))"

lemma first_claim:
  "attempts.attempt_step\<^sup>*\<^sup>* (0, mem_store_with_ttl 0 10, \<lambda>i. None) (0, claimed, [0 \<mapsto> (key_a, 7, 0)])"
  by (rule r_into_rtranclp, rule attempts.arrive)
    (simp_all add: mem_begin_def mem_store_with_ttl_def sweep_if_due_def unexpired_def)

theorem mem_store_single_flight_witness:
  "\<exists>j. {i. \<exists>fp t0. [0 :: nat \<mapsto> (key_a, 7 :: u64, 0 :: nat)] i = Some (key_a, fp, t0)} \<subseteq> {j}"
  by (rule mem_store_single_flight [OF _ first_claim]) simp

theorem mem_store_replays_witness:
  "fst (mem_begin 3 key_a 7 (mem_record 0 key_a (J_Int 1) claimed)) = (if (7 :: u64) = 7 then Key_Done (J_Int 1) else Key_Mismatch)"
proof (rule mem_store_replays [OF _ first_claim])
  show "attempts.attempt_step\<^sup>*\<^sup>* (0, mem_record 0 key_a (J_Int 1) claimed, [0 \<mapsto> (key_a, 7, 0)](0 := None))
      (3, mem_record 0 key_a (J_Int 1) claimed, [0 \<mapsto> (key_a, 7, 0)](0 := None))"
    by (rule r_into_rtranclp, rule attempts.tick) simp_all
qed (simp_all add: mem_begin_def mem_store_with_ttl_def sweep_if_due_def unexpired_def)

theorem fingerprint_detects_change_witness:
  "fingerprint one_string_codec (request_new ''m'' (J_Obj []) (J_Obj [])) =
   fingerprint one_string_codec (request_new ''m'' (J_Obj []) J_Null)"
  using fingerprint_detects_change [of one_string_codec "request_new ''m'' (J_Obj []) (J_Obj [])" "request_new ''m'' (J_Obj []) J_Null"]
  by (simp add: one_string_codec_def separator_def request_new_def)

end
