(* ===== verification/Mutation.thy ===== *)
theory Mutation
  imports Bulk Idempotency
begin

text \<open>
  \<open>based-runtime/src/run/mutation.rs\<close> with the plan types of \<open>plan/ir.rs\<close> and the errors of
  \<open>run/error.rs\<close>: a mutation's writes in one transaction, the claim of an idempotency key in it or
  around it, and the retry after a deadlock. Planning a request is not modelled: \<open>run_mutation\<close> takes
  its result.
\<close>

subsection \<open>Plans\<close>

record capture_bind =
  cb_bind :: str
  cb_column :: str
  cb_family :: family

record step_capture =
  cap_cols :: "capture_bind list"
  cap_followup :: "str option"

record write_step =
  ws_sql :: str
  ws_capture :: "step_capture option"
  ws_bulk :: "bulk_step option"

record mutation_plan =
  mp_name :: str
  mp_dialect :: dialect
  mp_steps :: "write_step list"
  mp_env0 :: env
  mp_result_id :: "str option"
  mp_ret_select :: "str option"
  mp_ack_check :: "nat option"
  mp_readback :: "bulk_readback option"
  mp_json_paths :: "str list"

datatype plan_error =
    Unknown_Query str
  | Unknown_Mutation str
  | Missing_Arg str
  | Bad_Arg str family str
  | Missing_Ctx str
  | Bad_Ctx str family str
  | Unbound_Placeholder str
  | Bad_Cursor str
  | Bad_Limit str int "nat option"

fun plan_error_code :: "plan_error \<Rightarrow> str" where
  "plan_error_code (Unknown_Query _) = ''unknown_query''"
| "plan_error_code (Unknown_Mutation _) = ''unknown_mutation''"
| "plan_error_code (Missing_Arg _) = ''missing_arg''"
| "plan_error_code (Bad_Arg _ _ _) = ''bad_arg''"
| "plan_error_code (Missing_Ctx _) = ''missing_ctx''"
| "plan_error_code (Bad_Ctx _ _ _) = ''bad_ctx''"
| "plan_error_code (Unbound_Placeholder _) = ''internal''"
| "plan_error_code (Bad_Cursor _) = ''bad_cursor''"
| "plan_error_code (Bad_Limit _ _ _) = ''bad_limit''"

fun plan_error_text :: "plan_error \<Rightarrow> str" where
  "plan_error_text (Unknown_Query n) = ''no query `'' @ n @ ''`''"
| "plan_error_text (Unknown_Mutation n) = ''no mutation `'' @ n @ ''`''"
| "plan_error_text (Missing_Arg n) = ''missing argument `'' @ n @ ''`''"
| "plan_error_text (Bad_Arg n f got) = ''argument `'' @ n @ ''`: expected '' @ family_label f @ '', got '' @ got"
| "plan_error_text (Missing_Ctx n) = ''missing request context `$ctx.'' @ n @ ''`''"
| "plan_error_text (Bad_Ctx n f got) = ''context `$ctx.'' @ n @ ''`: expected '' @ family_label f @ '', got '' @ got"
| "plan_error_text (Unbound_Placeholder n) = ''unbound placeholder `:'' @ n @ ''` (codegen/planner mismatch)''"
| "plan_error_text (Bad_Cursor msg) = ''invalid cursor: '' @ msg"
| "plan_error_text (Bad_Limit n got (Some mx)) =
     ''argument `'' @ n @ ''`: limit must be 1..='' @ dec mx @ '', got '' @ int_text got"
| "plan_error_text (Bad_Limit n got None) = ''argument `'' @ n @ ''`: limit must be at least 1, got '' @ int_text got"

datatype run_error =
    Run_Plan plan_error
  | Run_Db db_error
  | Run_Not_Found str
  | Run_Conflict str
  | Run_Key_Reuse str

fun run_error_code :: "run_error \<Rightarrow> str" where
  "run_error_code (Run_Plan e) = plan_error_code e"
| "run_error_code (Run_Db e) = db_error_code e"
| "run_error_code (Run_Not_Found _) = ''not_found''"
| "run_error_code (Run_Conflict _) = ''idempotency_conflict''"
| "run_error_code (Run_Key_Reuse _) = ''idempotency_key_reuse''"

fun run_error_text :: "run_error \<Rightarrow> str" where
  "run_error_text (Run_Plan e) = plan_error_text e"
| "run_error_text (Run_Db e) = de_message e"
| "run_error_text (Run_Not_Found n) = ''`'' @ n @ ''` matched no row (no such row, or it is out of scope)''"
| "run_error_text (Run_Conflict k) = ''a request with idempotency key `'' @ k @ ''` is already in progress''"
| "run_error_text (Run_Key_Reuse k) = ''idempotency key `'' @ k @ ''` was already used for a different request''"

subsection \<open>The writes\<close>

definition bind_sql :: "dialect \<Rightarrow> env \<Rightarrow> str \<Rightarrow> db_error + str \<times> sql_value list" where
  "bind_sql d env sql = (case to_positional sql d (resolve_env env) of
       Inl n \<Rightarrow> Inl (db_error_new (''unbound placeholder `:'' @ n @ ''` (planner mismatch)''))
     | Inr r \<Rightarrow> Inr r)"

fun family_debug :: "family \<Rightarrow> str" where
  "family_debug F_Int = ''Int''"
| "family_debug F_Float = ''Float''"
| "family_debug F_Bool = ''Bool''"
| "family_debug F_Text = ''Text''"
| "family_debug F_Uuid = ''Uuid''"
| "family_debug F_Timestamp = ''Timestamp''"
| "family_debug F_Date = ''Date''"
| "family_debug F_Time = ''Time''"
| "family_debug F_Decimal = ''Decimal''"
| "family_debug F_Bytes = ''Bytes''"
| "family_debug F_Json = ''Json''"
| "family_debug F_Any = ''Any''"

definition coerce_error_debug :: "codec \<Rightarrow> coerce_error \<Rightarrow> str" where
  "coerce_error_debug cd e = ''CoerceError { expected: '' @ family_debug (ce_expected e) @
     '', got: '' @ cd_debug cd (ce_got e) @ '' }''"

fun capture_cols :: "codec \<Rightarrow> capture_bind list \<Rightarrow> row \<Rightarrow> env \<Rightarrow> db_error + env" where
  "capture_cols cd [] r env = Inr env"
| "capture_cols cd (c # cs) r env = (case coerce cd (field_or_null r (cb_column c)) (cb_family c) True of
       Inl e \<Rightarrow> Inl (db_error_new (''capture `'' @ cb_column c @ ''`: '' @ coerce_error_debug cd e))
     | Inr v \<Rightarrow> capture_cols cd cs r (env(cb_bind c \<mapsto> v)))"

text \<open>A step ends with the environment and the read-back keys, or as a matched-no-row miss.\<close>

datatype step_end = Step_Missed | Step_Ran env "sql_value list list"

definition fetch_bound :: "'b host \<Rightarrow> dialect \<Rightarrow> env \<Rightarrow> str \<Rightarrow> ('b, db_error, row list) act" where
  "fetch_bound h d env sql = (case bind_sql d env sql of
       Inl e \<Rightarrow> fail e
     | Inr (text, params) \<Rightarrow> call id (h_fetch h text params))"

definition run_step ::
  "'b host \<Rightarrow> codec \<Rightarrow> mutation_plan \<Rightarrow> nat \<Rightarrow> write_step \<Rightarrow> env \<Rightarrow> sql_value list list \<Rightarrow> ('b, db_error, step_end) act" where
  "run_step h cd plan i step env keys = (case ws_bulk step of
       Some bulk \<Rightarrow> then_do (exec_bulk h cd (mp_dialect plan) env bulk (mp_readback plan \<noteq> None) []) (\<lambda>pks.
         ret (Step_Ran env (if mp_readback plan = None then keys
           else if bulk_serial_return bulk \<noteq> None then pks else bulk_key_rows bulk)))
     | None \<Rightarrow> (case bind_sql (mp_dialect plan) env (ws_sql step) of
         Inl e \<Rightarrow> fail e
       | Inr (sql, params) \<Rightarrow> (case ws_capture step of
           None \<Rightarrow> then_do (call id (h_execute h sql params)) (\<lambda>affected.
             ret (if mp_ack_check plan = Some i \<and> affected = 0 then Step_Missed else Step_Ran env keys))
         | Some cap \<Rightarrow> then_do (case cap_followup cap of
               Some sel \<Rightarrow> then_do (call id (h_execute h sql params)) (\<lambda>_. fetch_bound h (mp_dialect plan) env sel)
             | None \<Rightarrow> call id (h_fetch h sql params)) (\<lambda>rows.
             case rows of
               [] \<Rightarrow> fail (db_error_new ''bound create read-back returned no row'')
             | r # _ \<Rightarrow> (case capture_cols cd (cap_cols cap) r env of
                 Inl e \<Rightarrow> fail e | Inr env' \<Rightarrow> ret (Step_Ran env' keys))))))"

fun run_steps ::
  "'b host \<Rightarrow> codec \<Rightarrow> mutation_plan \<Rightarrow> nat \<Rightarrow> write_step list \<Rightarrow> env \<Rightarrow> sql_value list list \<Rightarrow>
   ('b, db_error, step_end) act" where
  "run_steps h cd plan i [] env keys = ret (Step_Ran env keys)"
| "run_steps h cd plan i (s # ss) env keys =
     then_do (run_step h cd plan i s env keys) (\<lambda>r. case r of
       Step_Missed \<Rightarrow> ret Step_Missed
     | Step_Ran env' keys' \<Rightarrow> run_steps h cd plan (Suc i) ss env' keys')"

definition final_read ::
  "'b host \<Rightarrow> codec \<Rightarrow> mutation_plan \<Rightarrow> env \<Rightarrow> sql_value list list \<Rightarrow> ('b, db_error, tx_outcome) act" where
  "final_read h cd plan env keys = (case mp_readback plan of
       Some rb \<Rightarrow> run_bulk_readback h cd (mp_dialect plan) (mp_json_paths plan) rb keys env
     | None \<Rightarrow> (case mp_ret_select plan of
         Some sql \<Rightarrow> then_do (fetch_bound h (mp_dialect plan) env sql) (\<lambda>rows.
           ret (case rows of
               r # _ \<Rightarrow> Outcome_Done (normalize_json cd (mp_dialect plan) (mp_json_paths plan) (nest_row cd (mp_dialect plan) r))
             | [] \<Rightarrow> Outcome_Not_Found))
       | None \<Rightarrow> ret (Outcome_Done (J_Obj (case env ''result_id'' of
             Some v \<Rightarrow> [(''id'', sql_value_to_json cd v)] | None \<Rightarrow> [])))))"

definition run_writes :: "'b host \<Rightarrow> codec \<Rightarrow> mutation_plan \<Rightarrow> ('b, db_error, tx_outcome) act" where
  "run_writes h cd plan = then_do (run_steps h cd plan 0 (mp_steps plan) (mp_env0 plan) []) (\<lambda>r. case r of
       Step_Missed \<Rightarrow> ret Outcome_Not_Found
     | Step_Ran env keys \<Rightarrow> final_read h cd plan env keys)"

subsection \<open>One attempt\<close>

record tx_claim_ctx =
  tc_dialect :: dialect
  tc_key :: idem_key
  tc_fingerprint :: u64

text \<open>What an attempt does between \<open>begin\<close> and \<open>commit\<close>.\<close>

definition tx_body ::
  "'b host \<Rightarrow> codec \<Rightarrow> mutation_plan \<Rightarrow> tx_claim_ctx option \<Rightarrow> ('b, db_error, tx_outcome) act" where
  "tx_body h cd plan claim =
     then_do (case claim of
         None \<Rightarrow> ret Claim_Fresh
       | Some c \<Rightarrow> db_claim h cd (tc_dialect c) (tc_key c) (tc_fingerprint c)) (\<lambda>claimed. case claimed of
       Claim_Done response \<Rightarrow> ret (Outcome_Replayed response)
     | Claim_Mismatch \<Rightarrow> ret Outcome_Mismatch
     | Claim_Fresh \<Rightarrow> then_do (run_writes h cd plan) (\<lambda>out. case out of
         Outcome_Done response \<Rightarrow> then_do (case claim of
             None \<Rightarrow> ret ()
           | Some c \<Rightarrow> db_record h cd (tc_dialect c) (tc_key c) response) (\<lambda>_. ret (Outcome_Done response))
       | other \<Rightarrow> ret other))"

definition apply_once ::
  "'b host \<Rightarrow> codec \<Rightarrow> mutation_plan \<Rightarrow> tx_claim_ctx option \<Rightarrow> ('b, db_error, tx_outcome) act" where
  "apply_once h cd plan claim =
     then_do (call id (h_begin h)) (\<lambda>_.
     then_do (tx_body h cd plan claim) (\<lambda>out. case out of
       Outcome_Done response \<Rightarrow> then_do (call id (h_commit h)) (\<lambda>_. ret (Outcome_Done response))
     | other \<Rightarrow> ret other))"

subsection \<open>Retries\<close>

definition tx_retry_limit :: nat where
  "tx_retry_limit = 5"

text \<open>Milliseconds to wait before attempt \<open>n\<close>; \<open>nanos\<close> is the sub-second part of the clock.\<close>

definition backoff_step :: "nat \<Rightarrow> nat" where
  "backoff_step n = min (min (min (2 ^ n) (2 ^ 64 - 1) * 2) (2 ^ 64 - 1)) 100"

definition deadlock_backoff :: "nat \<Rightarrow> nat \<Rightarrow> nat" where
  "deadlock_backoff nanos n = backoff_step n + nanos mod max (backoff_step n) 1"

fun apply_attempts ::
  "nat \<Rightarrow> 'b host \<Rightarrow> codec \<Rightarrow> str \<Rightarrow> mutation_plan \<Rightarrow> tx_claim_ctx option \<Rightarrow> ('b, db_error, tx_outcome) act" where
  "apply_attempts 0 h cd shard plan claim =
     then_do (call id (h_checkout h shard)) (\<lambda>_. apply_once h cd plan claim)"
| "apply_attempts (Suc n) h cd shard plan claim =
     then_do (call id (h_checkout h shard)) (\<lambda>_. match_do (apply_once h cd plan claim)
       (\<lambda>e. if is_deadlock e then apply_attempts n h cd shard plan claim else fail e) ret)"

definition apply_mutation ::
  "'b host \<Rightarrow> codec \<Rightarrow> str \<Rightarrow> mutation_plan \<Rightarrow> tx_claim_ctx option \<Rightarrow> ('b, db_error, tx_outcome) act" where
  "apply_mutation h cd shard plan claim = apply_attempts tx_retry_limit h cd shard plan claim"

subsection \<open>Requests\<close>

text \<open>
  \<open>dyn IdempotencyStore\<close>: the out-of-band operations act on the outside state, which holds the store
  and the clock; \<open>so_tx\<close> is the dialect of a store that takes part in the transaction.
\<close>

record 'b store =
  so_begin :: "idem_key \<Rightarrow> u64 \<Rightarrow> 'b \<Rightarrow> key_state \<times> 'b"
  so_record :: "idem_key \<Rightarrow> json \<Rightarrow> 'b \<Rightarrow> 'b"
  so_abandon :: "idem_key \<Rightarrow> 'b \<Rightarrow> 'b"
  so_tx :: "dialect option"

definition plain_outcome :: "str \<Rightarrow> tx_outcome \<Rightarrow> ('b, run_error, json) act" where
  "plain_outcome callable out = (case out of
       Outcome_Done r \<Rightarrow> ret r
     | Outcome_Not_Found \<Rightarrow> fail (Run_Not_Found callable)
     | _ \<Rightarrow> panic)"

definition run_keyed ::
  "'b host \<Rightarrow> codec \<Rightarrow> 'b store \<Rightarrow> str \<Rightarrow> mutation_plan \<Rightarrow> request \<Rightarrow> str \<Rightarrow> ('b, run_error, json) act" where
  "run_keyed h cd store shard plan req key b =
     (let k = (rq_callable req, key) in
      case so_begin store k (fingerprint cd req) b of
        (Key_Done response, b') \<Rightarrow> ret response b'
      | (Key_In_Flight, b') \<Rightarrow> fail (Run_Conflict key) b'
      | (Key_Mismatch, b') \<Rightarrow> fail (Run_Key_Reuse key) b'
      | (Key_Fresh, b') \<Rightarrow> match_do
          (then_do (map_err Run_Db (apply_mutation h cd shard plan None)) (plain_outcome (rq_callable req)))
          (\<lambda>e b2. fail e (so_abandon store k b2))
          (\<lambda>r b2. ret r (so_record store k r b2)) b')"

definition run_mutation ::
  "'b host \<Rightarrow> codec \<Rightarrow> 'b store \<Rightarrow> str \<Rightarrow> (plan_error + mutation_plan) \<Rightarrow> request \<Rightarrow> ('b, run_error, json) act" where
  "run_mutation h cd store shard planned req = (case planned of
       Inl e \<Rightarrow> fail (Run_Plan e)
     | Inr plan \<Rightarrow> (case (rq_key req, so_tx store) of
         (Some key, Some d) \<Rightarrow>
           then_do (map_err Run_Db (apply_mutation h cd shard plan
               (Some \<lparr>tc_dialect = d, tc_key = (rq_callable req, key), tc_fingerprint = fingerprint cd req\<rparr>))) (\<lambda>out. case out of
             Outcome_Done r \<Rightarrow> ret r
           | Outcome_Replayed r \<Rightarrow> ret r
           | Outcome_Mismatch \<Rightarrow> fail (Run_Key_Reuse key)
           | Outcome_Not_Found \<Rightarrow> fail (Run_Not_Found (rq_callable req)))
       | (None, _) \<Rightarrow>
           then_do (map_err Run_Db (apply_mutation h cd shard plan None)) (plain_outcome (rq_callable req))
       | (Some key, None) \<Rightarrow> run_keyed h cd store shard plan req key))"

text \<open>On a transaction the caller owns.\<close>

definition run_mutation_on ::
  "'b host \<Rightarrow> codec \<Rightarrow> (plan_error + mutation_plan) \<Rightarrow> request \<Rightarrow> ('b, run_error, json) act" where
  "run_mutation_on h cd planned req = (case planned of
       Inl e \<Rightarrow> fail (Run_Plan e)
     | Inr plan \<Rightarrow> then_do (map_err Run_Db (run_writes h cd plan)) (plain_outcome (rq_callable req)))"

end
