(* ===== verification/Mutation_Inside.thy ===== *)
theory Mutation_Inside
  imports Mutation
begin

text \<open>
  What every statement of a mutation keeps, its whole body keeps: \<open>I\<close> holds while the body runs, and
  \<open>E\<close> after a statement that failed. Used with the isolation of a transaction and with the count of
  attempts.
\<close>

definition steady :: "'b host \<Rightarrow> ('b \<Rightarrow> bool) \<Rightarrow> ('b \<Rightarrow> bool) \<Rightarrow> bool" where
  "steady h I E \<longleftrightarrow> (\<forall>b. I b \<longrightarrow> E b)
     \<and> (\<forall>sql ps b r b'. I b \<longrightarrow> h_execute h sql ps b = (r, b') \<longrightarrow> (case r of Inr n \<Rightarrow> I b' | Inl e \<Rightarrow> E b'))
     \<and> (\<forall>sql ps b r b'. I b \<longrightarrow> h_fetch h sql ps b = (r, b') \<longrightarrow> (case r of Inr n \<Rightarrow> I b' | Inl e \<Rightarrow> E b'))"

lemma steadyD:
  "steady h I E \<Longrightarrow> I b \<Longrightarrow> E b"
  "steady h I E \<Longrightarrow> I b \<Longrightarrow> h_execute h sql ps b = (r, b') \<Longrightarrow> (case r of Inr n \<Rightarrow> I b' | Inl e \<Rightarrow> E b')"
  "steady h I E \<Longrightarrow> I b \<Longrightarrow> h_fetch h sql ps b = (q, b') \<Longrightarrow> (case q of Inr n \<Rightarrow> I b' | Inl e \<Rightarrow> E b')"
  unfolding steady_def by blast+

definition stays :: "'b host \<Rightarrow> ('b \<Rightarrow> bool) \<Rightarrow> ('b \<Rightarrow> bool) \<Rightarrow> ('b, 'e, 'a) act \<Rightarrow> bool" where
  "stays h I E m \<longleftrightarrow> (steady h I E \<longrightarrow> triple I m (\<lambda>_. I) (\<lambda>_. E))"

named_theorems stays_rules "actions that keep what every statement keeps"

lemma stays_ret [stays_rules]: "stays h I E (ret a)"
  by (simp add: stays_def triple_ret)

lemma stays_fail [stays_rules]: "stays h I E (fail e)"
  by (auto simp: stays_def intro!: triple_fail dest: steadyD(1))

lemma stays_panic [stays_rules]: "stays h I E panic"
  by (simp add: stays_def triple_def panic_def)

lemma stays_then [stays_rules]: "stays h I E m \<Longrightarrow> (\<And>a. stays h I E (f a)) \<Longrightarrow> stays h I E (then_do m f)"
  unfolding stays_def by (blast intro: triple_then)

lemma stays_execute [stays_rules]: "stays h I E (call f (h_execute h sql ps))"
  unfolding stays_def by (auto intro!: triple_call dest: steadyD(2))

lemma stays_fetch [stays_rules]: "stays h I E (call f (h_fetch h sql ps))"
  unfolding stays_def by (auto intro!: triple_call dest: steadyD(3))

lemma stays_option [stays_rules]:
  "(x = None \<Longrightarrow> stays h I E m) \<Longrightarrow> (\<And>a. x = Some a \<Longrightarrow> stays h I E (f a)) \<Longrightarrow>
   stays h I E (case x of None \<Rightarrow> m | Some a \<Rightarrow> f a)"
  by (cases x) auto

lemma stays_sum [stays_rules]:
  "(\<And>e. stays h I E (g e)) \<Longrightarrow> (\<And>a. stays h I E (f a)) \<Longrightarrow> stays h I E (case x of Inl e \<Rightarrow> g e | Inr a \<Rightarrow> f a)"
  by (cases x) auto

lemma stays_list [stays_rules]:
  "stays h I E m \<Longrightarrow> (\<And>a as. stays h I E (f a as)) \<Longrightarrow> stays h I E (case x of [] \<Rightarrow> m | a # as \<Rightarrow> f a as)"
  by (cases x) auto

lemma stays_pair [stays_rules]: "(\<And>a b. stays h I E (f a b)) \<Longrightarrow> stays h I E (case x of (a, b) \<Rightarrow> f a b)"
  by (cases x) auto

lemma stays_if [stays_rules]: "stays h I E m \<Longrightarrow> stays h I E n \<Longrightarrow> stays h I E (if P then m else n)"
  by simp

lemma stays_step_end [stays_rules]:
  "stays h I E m \<Longrightarrow> (\<And>e k. stays h I E (f e k)) \<Longrightarrow> stays h I E (case x of Step_Missed \<Rightarrow> m | Step_Ran e k \<Rightarrow> f e k)"
  by (cases x) auto

lemma stays_outcome [stays_rules]:
  "(\<And>r. stays h I E (f r)) \<Longrightarrow> (\<And>r. stays h I E (g r)) \<Longrightarrow> stays h I E m \<Longrightarrow> stays h I E n \<Longrightarrow>
   stays h I E (case x of Outcome_Done r \<Rightarrow> f r | Outcome_Replayed r \<Rightarrow> g r | Outcome_Mismatch \<Rightarrow> m | Outcome_Not_Found \<Rightarrow> n)"
  by (cases x) auto

lemma stays_tx_claim [stays_rules]:
  "stays h I E m \<Longrightarrow> (\<And>r. stays h I E (f r)) \<Longrightarrow> stays h I E n \<Longrightarrow>
   stays h I E (case x of Claim_Fresh \<Rightarrow> m | Claim_Done r \<Rightarrow> f r | Claim_Mismatch \<Rightarrow> n)"
  by (cases x) auto

subsection \<open>The body\<close>

lemma stays_run_chunk [stays_rules]: "stays h I E (run_chunk h cd d returning n sql params)"
  unfolding run_chunk_def by (intro stays_rules)

lemma stays_insert_chunks [stays_rules]:
  "stays h I E (insert_chunks h cd d tbl cols tail_sql env returning chunks ids)"
  by (induction chunks arbitrary: ids) (simp_all, (intro stays_rules; simp)+)

lemma stays_exec_bulk [stays_rules]:
  "stays h I E (exec_bulk h cd d env step want injects)"
  "stays h I E (exec_one h cd d env ns rows)"
  "stays h I E (exec_many h cd d env ns recover pks)"
proof (induction h cd d env step want injects and h cd d env ns rows and h cd d env ns recover pks
    rule: exec_bulk_exec_one_exec_many.induct)
  case (1 h cd d env tbl cols rows0 per tail_sql key_rows serial one many recover want_pk injects)
  then show ?case
    unfolding exec_bulk.simps Let_def insert_bulk_rows_def by (intro stays_rules) auto
qed (simp_all, (intro stays_rules; simp)+)

lemma stays_readback [stays_rules]: "stays h I E (run_bulk_readback h cd d paths rb keys env)"
  unfolding run_bulk_readback_def Let_def by (intro stays_rules)

lemma stays_fetch_bound [stays_rules]: "stays h I E (fetch_bound h d env sql)"
  unfolding fetch_bound_def by (intro stays_rules)

lemma stays_run_step [stays_rules]: "stays h I E (run_step h cd plan i step env keys)"
  unfolding run_step_def by (intro stays_rules)

lemma stays_run_steps [stays_rules]: "stays h I E (run_steps h cd plan i ss env keys)"
  by (induction ss arbitrary: i env keys) (simp_all, (intro stays_rules; assumption)+)

lemma stays_final_read [stays_rules]: "stays h I E (final_read h cd plan env keys)"
  unfolding final_read_def by (intro stays_rules)

lemma stays_run_writes [stays_rules]: "stays h I E (run_writes h cd plan)"
  unfolding run_writes_def by (intro stays_rules)

lemma stays_claim [stays_rules]: "stays h I E (db_claim h cd d k fp)"
  unfolding db_claim_def by (intro stays_rules)

lemma stays_record [stays_rules]: "stays h I E (db_record h cd d k r)"
  unfolding db_record_def by (intro stays_rules)

lemma stays_body: "stays h I E (tx_body h cd plan claim)"
  unfolding tx_body_def by (intro stays_rules)

lemma body_inside: "steady h I E \<Longrightarrow> triple I (tx_body h cd plan claim) (\<lambda>_. I) (\<lambda>_. E)"
  using stays_body unfolding stays_def by blast

end
