(* ===== verification/Mutation_Correct.thy ===== *)
theory Mutation_Correct
  imports Mutation_Inside
begin

text \<open>
  What a mutation promises. Of the database it is assumed that a transaction is isolated until its
  commit, and of the key table of \<open>DbStore\<close> that its statements do what their SQL says; from that a
  mutation is all or nothing under every failure and retry, and a keyed mutation runs once.
\<close>

subsection \<open>Isolation\<close>

text \<open>\<open>v\<close> reads the committed data and, inside a transaction, the data it sees.\<close>

definition isolated :: "'b host \<Rightarrow> ('b \<Rightarrow> 'd \<times> 'd option) \<Rightarrow> bool" where
  "isolated h v \<longleftrightarrow>
     (\<forall>k b r b'. h_checkout h k b = (r, b') \<longrightarrow> v b' = (fst (v b), None))
   \<and> (\<forall>b r b'. h_begin h b = (r, b') \<longrightarrow>
        fst (v b') = fst (v b) \<and> (\<forall>u. r = Inr u \<longrightarrow> snd (v b') = Some (fst (v b))))
   \<and> (\<forall>sql ps b r b'. h_execute h sql ps b = (r, b') \<longrightarrow> snd (v b) \<noteq> None \<longrightarrow>
        fst (v b') = fst (v b) \<and> (\<forall>n. r = Inr n \<longrightarrow> snd (v b') \<noteq> None))
   \<and> (\<forall>sql ps b r b'. h_fetch h sql ps b = (r, b') \<longrightarrow> snd (v b) \<noteq> None \<longrightarrow>
        fst (v b') = fst (v b) \<and> (\<forall>rows. r = Inr rows \<longrightarrow> snd (v b') \<noteq> None))
   \<and> (\<forall>b r b' c w. h_commit h b = (r, b') \<longrightarrow> v b = (c, Some w) \<longrightarrow>
        (case r of Inr _ \<Rightarrow> v b' = (w, None)
         | Inl e \<Rightarrow> fst (v b') = c \<or> fst (v b') = w \<and> \<not> is_deadlock e))"

text \<open>
  A commit that fails may have taken effect, unless the error is a deadlock: the server reports that
  of a transaction it rolled back.
\<close>

lemma isolated_checkout: "isolated h v \<Longrightarrow> h_checkout h k b = (x, b') \<Longrightarrow> v b' = (fst (v b), None)"
  unfolding isolated_def by metis

lemma isolated_begin: "isolated h v \<Longrightarrow> h_begin h b = (x, b') \<Longrightarrow>
    fst (v b') = fst (v b) \<and> (\<forall>u. x = Inr u \<longrightarrow> snd (v b') = Some (fst (v b)))"
  unfolding isolated_def by metis

lemma isolated_execute: "isolated h v \<Longrightarrow> h_execute h sql ps b = (x, b') \<Longrightarrow> snd (v b) = Some w \<Longrightarrow>
    fst (v b') = fst (v b) \<and> (\<forall>n. x = Inr n \<longrightarrow> snd (v b') \<noteq> None)"
  unfolding isolated_def by (metis option.distinct(1))

lemma isolated_fetch: "isolated h v \<Longrightarrow> h_fetch h sql ps b = (x, b') \<Longrightarrow> snd (v b) = Some w \<Longrightarrow>
    fst (v b') = fst (v b) \<and> (\<forall>n. x = Inr n \<longrightarrow> snd (v b') \<noteq> None)"
  unfolding isolated_def by (metis option.distinct(1))

lemma isolated_commit: "isolated h v \<Longrightarrow> h_commit h b = (x, b') \<Longrightarrow> v b = (c, Some w) \<Longrightarrow>
    (case x of Inr _ \<Rightarrow> v b' = (w, None) | Inl e \<Rightarrow> fst (v b') = c \<or> fst (v b') = w \<and> \<not> is_deadlock e)"
  unfolding isolated_def by metis

definition inside_tx :: "('b \<Rightarrow> 'd \<times> 'd option) \<Rightarrow> 'd \<Rightarrow> 'b \<Rightarrow> bool" where
  "inside_tx v c b \<longleftrightarrow> fst (v b) = c \<and> snd (v b) \<noteq> None"

definition committed :: "('b \<Rightarrow> 'd \<times> 'd option) \<Rightarrow> 'd \<Rightarrow> 'b \<Rightarrow> bool" where
  "committed v c b \<longleftrightarrow> fst (v b) = c"

lemma execute_inside:
  assumes "isolated h v" "inside_tx v c b" "h_execute h sql ps b = (x, b')"
  shows "case x of Inr n \<Rightarrow> inside_tx v c b' | Inl e \<Rightarrow> committed v c b'"
proof -
  obtain w where "snd (v b) = Some w" using assms(2) by (auto simp: inside_tx_def)
  from isolated_execute [OF assms(1,3) this] assms(2) show ?thesis
    by (cases x) (simp_all add: inside_tx_def committed_def)
qed

lemma fetch_inside:
  assumes "isolated h v" "inside_tx v c b" "h_fetch h sql ps b = (x, b')"
  shows "case x of Inr n \<Rightarrow> inside_tx v c b' | Inl e \<Rightarrow> committed v c b'"
proof -
  obtain w where "snd (v b) = Some w" using assms(2) by (auto simp: inside_tx_def)
  from isolated_fetch [OF assms(1,3) this] assms(2) show ?thesis
    by (cases x) (simp_all add: inside_tx_def committed_def)
qed

lemma isolated_steady: "isolated h v \<Longrightarrow> steady h (inside_tx v c) (committed v c)"
  unfolding steady_def using execute_inside fetch_inside by (fastforce simp: inside_tx_def committed_def)

subsection \<open>All or nothing\<close>

text \<open>The whole body, run in a transaction on committed data \<open>c\<close>, made \<open>w\<close> of it and answered \<open>r\<close>.\<close>

definition body_ran ::
  "'b host \<Rightarrow> codec \<Rightarrow> ('b \<Rightarrow> 'd \<times> 'd option) \<Rightarrow> mutation_plan \<Rightarrow> tx_claim_ctx option \<Rightarrow> 'd \<Rightarrow> 'd \<Rightarrow> json \<Rightarrow> bool" where
  "body_ran h cd v plan claim c w r \<longleftrightarrow> (\<exists>b1 b2. v b1 = (c, Some c)
     \<and> tx_body h cd plan claim b1 = Some (Inr (Outcome_Done r), b2) \<and> v b2 = (c, Some w))"

definition body_gave ::
  "'b host \<Rightarrow> codec \<Rightarrow> ('b \<Rightarrow> 'd \<times> 'd option) \<Rightarrow> mutation_plan \<Rightarrow> tx_claim_ctx option \<Rightarrow> 'd \<Rightarrow> tx_outcome \<Rightarrow> bool" where
  "body_gave h cd v plan claim c out \<longleftrightarrow>
     (\<exists>b1 b2. v b1 = (c, Some c) \<and> tx_body h cd plan claim b1 = Some (Inr out, b2))"

lemma body_isolated:
  assumes "isolated h v" "v b = (c, Some w)"
  shows "tx_body h cd plan claim b = Some (Inr a, b') \<Longrightarrow> \<exists>w'. v b' = (c, Some w')"
    and "tx_body h cd plan claim b = Some (Inl e, b') \<Longrightarrow> fst (v b') = c"
  using tripleD [OF body_inside [OF isolated_steady [OF assms(1)]], of c b] assms(2)
  by (fastforce simp: inside_tx_def committed_def intro: prod_eqI)+

lemma apply_once_cases:
  assumes "isolated h v" "apply_once h cd plan claim b = Some (res, b')"
  shows "case res of
      Inr out \<Rightarrow> body_gave h cd v plan claim (fst (v b)) out \<and> (case out of
        Outcome_Done r \<Rightarrow> (\<exists>w. body_ran h cd v plan claim (fst (v b)) w r \<and> v b' = (w, None))
      | _ \<Rightarrow> fst (v b') = fst (v b))
    | Inl e \<Rightarrow> fst (v b') = fst (v b) \<or> \<not> is_deadlock e \<and> (\<exists>r. body_ran h cd v plan claim (fst (v b)) (fst (v b')) r)"
proof -
  let ?c = "fst (v b)"
  obtain x b1 where bgn: "h_begin h b = (x, b1)" by fastforce
  note v1 = isolated_begin [OF assms(1) bgn]
  show ?thesis
  proof (cases x)
    case (Inl e)
    with assms(2) bgn v1 show ?thesis by (auto simp: apply_once_def then_do_def call_def)
  next
    case (Inr u)
    with v1 have v1: "v b1 = (?c, Some ?c)" by (auto intro: prod_eqI)
    from assms(2) bgn Inr obtain y b2 where body: "tx_body h cd plan claim b1 = Some (y, b2)"
      by (auto simp: apply_once_def then_do_def call_def split: option.splits)
    show ?thesis
    proof (cases y)
      case (Inl e)
      with assms(2) bgn Inr body body_isolated(2) [OF assms(1) v1] show ?thesis
        by (auto simp: apply_once_def then_do_def call_def)
    next
      case (Inr out)
      then obtain w where v2: "v b2 = (?c, Some w)" using body_isolated(1) [OF assms(1) v1] body by blast
      show ?thesis
      proof (cases "\<exists>r. out = Outcome_Done r")
        case False
        have "body_gave h cd v plan claim ?c out" using v1 body Inr by (auto simp: body_gave_def)
        with False assms(2) bgn \<open>x = Inr u\<close> body Inr v2 show ?thesis
          by (cases out) (auto simp: apply_once_def then_do_def call_def ret_def)
      next
        case True
        then obtain r where r: "out = Outcome_Done r" ..
        have ran: "body_ran h cd v plan claim ?c w r"
          using v1 body Inr r v2 by (auto simp: body_ran_def)
        have gave: "body_gave h cd v plan claim ?c (Outcome_Done r)"
          using v1 body Inr r by (auto simp: body_gave_def)
        obtain z b3 where commit: "h_commit h b2 = (z, b3)" by fastforce
        from isolated_commit [OF assms(1) this v2] assms(2) bgn \<open>x = Inr u\<close> body Inr r commit ran gave
        show ?thesis by (cases z) (auto simp: apply_once_def then_do_def call_def ret_def)
      qed
    qed
  qed
qed

lemma apply_attempts_cases:
  assumes "isolated h v"
  shows "apply_attempts n h cd shard plan claim b = Some (res, b') \<Longrightarrow>
    (case res of
      Inr out \<Rightarrow> body_gave h cd v plan claim (fst (v b)) out \<and> (case out of
        Outcome_Done r \<Rightarrow> (\<exists>w. body_ran h cd v plan claim (fst (v b)) w r \<and> v b' = (w, None))
      | _ \<Rightarrow> fst (v b') = fst (v b))
    | Inl e \<Rightarrow> fst (v b') = fst (v b) \<or> (\<exists>r. body_ran h cd v plan claim (fst (v b)) (fst (v b')) r))"
proof (induction n arbitrary: b)
  case 0
  obtain x b1 where co: "h_checkout h shard b = (x, b1)" by fastforce
  have v1: "fst (v b1) = fst (v b)" using isolated_checkout [OF assms co] by simp
  show ?case
  proof (cases x)
    case (Inl e)
    with 0 co v1 show ?thesis by (auto simp: then_do_def call_def)
  next
    case (Inr u)
    with 0 co have "apply_once h cd plan claim b1 = Some (res, b')" by (simp add: then_do_def call_def)
    from apply_once_cases [OF assms this] v1 show ?thesis
      by (simp split: sum.splits tx_outcome.splits) blast
  qed
next
  case (Suc n)
  obtain x b1 where co: "h_checkout h shard b = (x, b1)" by fastforce
  have v1: "fst (v b1) = fst (v b)" using isolated_checkout [OF assms co] by simp
  show ?case
  proof (cases x)
    case (Inl e)
    with Suc(2) co v1 show ?thesis by (auto simp: then_do_def call_def)
  next
    case (Inr u)
    with Suc(2) co obtain y b2 where once: "apply_once h cd plan claim b1 = Some (y, b2)"
      by (auto simp: then_do_def call_def match_do_def split: option.splits)
    note c = apply_once_cases [OF assms once]
    show ?thesis
    proof (cases "\<exists>e. y = Inl e \<and> is_deadlock e")
      case True
      then obtain e where e: "y = Inl e" "is_deadlock e" by blast
      with c v1 have v2: "fst (v b2) = fst (v b)" by simp
      from Suc(2) co Inr once e have "apply_attempts n h cd shard plan claim b2 = Some (res, b')"
        by (simp add: then_do_def call_def match_do_def)
      from Suc(1) [OF this] show ?thesis unfolding v2 .
    next
      case False
      with Suc(2) co Inr once have "y = res" "b2 = b'"
        by (auto simp: then_do_def call_def match_do_def fail_def ret_def split: sum.splits)
      with c v1 show ?thesis by (simp split: sum.splits tx_outcome.splits) blast
    qed
  qed
qed

text \<open>C5: a mutation is all or nothing, whatever fails and however often a deadlock makes it run
  again: an answer means that its whole body, claim and record included, ran once on the committed
  data and is committed; a miss, a replay or a reused key commits nothing; and an error either
  commits nothing or is a failed commit that took effect as a whole.\<close>

theorem mutation_all_or_nothing:
  assumes "isolated h v" "apply_mutation h cd shard plan claim b = Some (res, b')"
  shows "case res of
      Inr out \<Rightarrow> (case out of
        Outcome_Done r \<Rightarrow> (\<exists>w. body_ran h cd v plan claim (fst (v b)) w r \<and> v b' = (w, None))
      | _ \<Rightarrow> fst (v b') = fst (v b))
    | Inl e \<Rightarrow> fst (v b') = fst (v b) \<or> (\<exists>r. body_ran h cd v plan claim (fst (v b)) (fst (v b')) r)"
  using apply_attempts_cases [OF assms(1) assms(2) [unfolded apply_mutation_def]] by (cases res) simp_all

subsection \<open>A keyed mutation runs once\<close>

text \<open>
  What the statements of \<open>DbStore\<close> do to its table: insert or ignore the claim row, read the row, set
  its response. \<open>keys\<close> reads the table: the fingerprint of each key and its response, if recorded.
\<close>

definition key_table ::
  "'b host \<Rightarrow> ('b \<Rightarrow> 'd \<times> 'd option) \<Rightarrow> dialect \<Rightarrow> ('d \<Rightarrow> idem_key \<Rightarrow> (str \<times> str option) option) \<Rightarrow> bool" where
  "key_table h v d keys \<longleftrightarrow>
     (\<forall>k t b n b' c w. h_execute h (idem_insert_sql d) [V_Text (fst k), V_Text (snd k), V_Text t] b = (Inr n, b') \<longrightarrow>
        v b = (c, Some w) \<longrightarrow>
        (\<exists>w'. v b' = (c, Some w') \<and>
          (if keys w k = None then 1 \<le> n \<and> keys w' k = Some (t, None) else n = 0 \<and> keys w' k = keys w k)))
   \<and> (\<forall>k b rows b' c w. h_fetch h (idem_select_sql d) [V_Text (fst k), V_Text (snd k)] b = (Inr rows, b') \<longrightarrow>
        v b = (c, Some w) \<longrightarrow>
        (\<forall>t x. keys w k = Some (t, x) \<longrightarrow> (\<exists>r. rows = [r] \<and> map_of r ''fingerprint'' = Some (J_Str t)
           \<and> map_of r ''response'' = Some (case x of None \<Rightarrow> J_Null | Some s \<Rightarrow> J_Str s))))
   \<and> (\<forall>k s b n b' c w t x. h_execute h (idem_update_sql d) [V_Text s, V_Text (fst k), V_Text (snd k)] b = (Inr n, b') \<longrightarrow>
        v b = (c, Some w) \<longrightarrow> keys w k = Some (t, x) \<longrightarrow>
        (\<exists>w'. v b' = (c, Some w') \<and> keys w' k = Some (t, Some s)))"

text \<open>The plan's own writes leave the key table alone.\<close>

definition leaves_keys ::
  "'b host \<Rightarrow> codec \<Rightarrow> ('b \<Rightarrow> 'd \<times> 'd option) \<Rightarrow> ('d \<Rightarrow> idem_key \<Rightarrow> (str \<times> str option) option) \<Rightarrow> mutation_plan \<Rightarrow> bool" where
  "leaves_keys h cd v keys plan \<longleftrightarrow> (\<forall>b out b' c w k. v b = (c, Some w) \<longrightarrow>
     run_writes h cd plan b = Some (Inr out, b') \<longrightarrow> (\<exists>w'. v b' = (c, Some w') \<and> keys w' k = keys w k))"

lemma claim_insert: "key_table h v d keys \<Longrightarrow>
    h_execute h (idem_insert_sql d) [V_Text (fst k), V_Text (snd k), V_Text t] b = (Inr n, b') \<Longrightarrow> v b = (c, Some w) \<Longrightarrow>
    \<exists>w'. v b' = (c, Some w') \<and>
      (if keys w k = None then 1 \<le> n \<and> keys w' k = Some (t, None) else n = 0 \<and> keys w' k = keys w k)"
  unfolding key_table_def by metis

lemma claim_select: "key_table h v d keys \<Longrightarrow>
    h_fetch h (idem_select_sql d) [V_Text (fst k), V_Text (snd k)] b = (Inr rows, b') \<Longrightarrow> v b = (c, Some w) \<Longrightarrow>
    keys w k = Some (t, x) \<Longrightarrow> \<exists>r. rows = [r] \<and> map_of r ''fingerprint'' = Some (J_Str t)
      \<and> map_of r ''response'' = Some (case x of None \<Rightarrow> J_Null | Some s \<Rightarrow> J_Str s)"
  unfolding key_table_def by blast

lemma record_update: "key_table h v d keys \<Longrightarrow>
    h_execute h (idem_update_sql d) [V_Text s, V_Text (fst k), V_Text (snd k)] b = (Inr n, b') \<Longrightarrow> v b = (c, Some w) \<Longrightarrow>
    keys w k = Some (t, x) \<Longrightarrow> \<exists>w'. v b' = (c, Some w') \<and> keys w' k = Some (t, Some s)"
  unfolding key_table_def by blast

text \<open>A claim of a key that is there answers from its row; of one that is not, it claims.\<close>

lemma db_claim_cases:
  assumes "key_table h v d keys" "v b = (c, Some w)" "db_claim h cd d k fp b = Some (Inr cl, b')"
  shows "case keys w k of
      None \<Rightarrow> cl = Claim_Fresh \<and> (\<exists>w'. v b' = (c, Some w') \<and> keys w' k = Some (fingerprint_text fp, None))
    | Some (t, x) \<Rightarrow> (if t \<noteq> fingerprint_text fp then cl = Claim_Mismatch
        else \<exists>s r. x = Some s \<and> cd_read cd s = Some r \<and> cl = Claim_Done r)"
proof -
  obtain n b1 where ins: "h_execute h (idem_insert_sql d) [V_Text (fst k), V_Text (snd k), V_Text (fingerprint_text fp)] b = (Inr n, b1)"
    using assms(3) by (auto simp: db_claim_def then_do_def call_def split: prod.splits sum.splits)
  from claim_insert [OF assms(1) this assms(2)] obtain w' where w': "v b1 = (c, Some w')"
    "if keys w k = None then 1 \<le> n \<and> keys w' k = Some (fingerprint_text fp, None) else n = 0 \<and> keys w' k = keys w k" by blast
  show ?thesis
  proof (cases "keys w k")
    case None
    with w' ins assms(3) show ?thesis by (simp add: db_claim_def then_do_def call_def ret_def)
  next
    case (Some e)
    obtain t x where e: "e = (t, x)" by fastforce
    from Some w' have n: "n = 0" "keys w' k = Some (t, x)" by (simp_all add: e)
    with ins assms(3) obtain rows b2 where sel: "h_fetch h (idem_select_sql d) [V_Text (fst k), V_Text (snd k)] b1 = (Inr rows, b2)"
      by (auto simp: db_claim_def then_do_def call_def split: prod.splits sum.splits)
    from claim_select [OF assms(1) sel w'(1) n(2)] obtain r where r: "rows = [r]" "map_of r ''fingerprint'' = Some (J_Str t)"
      "map_of r ''response'' = Some (case x of None \<Rightarrow> J_Null | Some s \<Rightarrow> J_Str s)" by blast
    from assms(3) ins n sel r(1) have "claim_of_row cd (fingerprint_text fp) r = Inr cl"
      by (auto simp: db_claim_def then_do_def call_def fail_def ret_def split: sum.splits)
    with r show ?thesis by (auto simp: Some e claim_of_row_def split: if_splits option.splits)
  qed
qed

lemma map_error_Inr [simp]: "map_sum f id x = Inr a \<longleftrightarrow> x = Inr a"
  by (cases x) auto

lemma run_writes_outcome:
  "run_writes h cd plan b = Some (Inr out, b') \<Longrightarrow> (\<exists>r. out = Outcome_Done r) \<or> out = Outcome_Not_Found"
  by (auto simp: run_writes_def final_read_def run_bulk_readback_def fetch_bound_def Let_def then_do_def call_def fail_def ret_def
      split: option.splits sum.splits prod.splits step_end.splits list.splits if_splits)

abbreviation claim_ctx :: "dialect \<Rightarrow> idem_key \<Rightarrow> u64 \<Rightarrow> tx_claim_ctx option" where
  "claim_ctx d k fp \<equiv> Some \<lparr>tc_dialect = d, tc_key = k, tc_fingerprint = fp\<rparr>"

lemma body_with_key:
  assumes "key_table h v d keys" "v b = (c, Some w)" "keys w k = Some (t, x)"
    "tx_body h cd plan (claim_ctx d k fp) b = Some (Inr out, b')"
  shows "if t \<noteq> fingerprint_text fp then out = Outcome_Mismatch
    else \<exists>s r. x = Some s \<and> cd_read cd s = Some r \<and> out = Outcome_Replayed r"
proof -
  obtain cl b1 where "db_claim h cd d k fp b = Some (Inr cl, b1)"
    using assms(4) by (auto simp: tx_body_def then_do_def split: option.splits sum.splits)
  with db_claim_cases [OF assms(1,2) this] assms(3,4) show ?thesis
    by (auto simp: tx_body_def then_do_def ret_def split: if_splits)
qed

lemma body_without_key:
  assumes "key_table h v d keys" "leaves_keys h cd v keys plan" "v b = (c, Some w)" "keys w k = None"
    "tx_body h cd plan (claim_ctx d k fp) b = Some (Inr (Outcome_Done r), b')" "v b' = (c', Some w')"
  shows "keys w' k = Some (fingerprint_text fp, Some (cd_text cd r))"
proof -
  obtain cl b1 where cl: "db_claim h cd d k fp b = Some (Inr cl, b1)"
    using assms(5) by (auto simp: tx_body_def then_do_def split: option.splits sum.splits)
  with db_claim_cases [OF assms(1,3) this] assms(4) obtain w1 where
    fresh: "cl = Claim_Fresh" "v b1 = (c, Some w1)" "keys w1 k = Some (fingerprint_text fp, None)" by auto
  with assms(5) cl obtain out b2 where wr: "run_writes h cd plan b1 = Some (Inr out, b2)"
    by (auto simp: tx_body_def then_do_def split: option.splits sum.splits)
  from assms(2) fresh(2) wr obtain w2 where w2: "v b2 = (c, Some w2)" "keys w2 k = Some (fingerprint_text fp, None)"
    unfolding leaves_keys_def using fresh(3) by metis
  from assms(5) cl fresh(1) wr have out: "out = Outcome_Done r"
    by (cases out) (auto simp: tx_body_def then_do_def ret_def split: option.splits sum.splits)
  with assms(5) cl fresh(1) wr obtain n where
    "h_execute h (idem_update_sql d) [V_Text (cd_text cd r), V_Text (fst k), V_Text (snd k)] b2 = (Inr n, b')"
    by (auto simp: tx_body_def db_record_def then_do_def call_def ret_def split: option.splits sum.splits prod.splits)
  from record_update [OF assms(1) this w2] assms(6) show ?thesis by auto
qed

text \<open>What a keyed run leaves: an answer is the recorded one.\<close>

lemma keyed_run_records:
  assumes "isolated h v" "key_table h v d keys" "leaves_keys h cd v keys plan" "cd_read cd (cd_text cd r) = Some r"
    "apply_mutation h cd shard plan (claim_ctx d k fp) b = Some (Inr out, b')" "out = Outcome_Done r \<or> out = Outcome_Replayed r"
  shows "\<exists>s. keys (fst (v b')) k = Some (fingerprint_text fp, Some s) \<and> cd_read cd s = Some r"
proof -
  let ?c = "fst (v b)"
  note cases = apply_attempts_cases [OF assms(1) assms(5) [unfolded apply_mutation_def]]
  show ?thesis
  proof (cases "keys ?c k")
    case None
    have "out = Outcome_Done r"
    proof (rule ccontr)
      assume "out \<noteq> Outcome_Done r"
      with assms(6) cases obtain b1 b2 where b1: "v b1 = (?c, Some ?c)" "tx_body h cd plan (claim_ctx d k fp) b1 = Some (Inr (Outcome_Replayed r), b2)"
        by (auto simp: body_gave_def)
      then obtain cl b3 where "db_claim h cd d k fp b1 = Some (Inr cl, b3)"
        by (auto simp: tx_body_def then_do_def split: option.splits sum.splits)
      with db_claim_cases [OF assms(2) b1(1) this] None b1(2) show False
        by (auto simp: tx_body_def then_do_def ret_def dest: run_writes_outcome
            split: option.splits sum.splits tx_outcome.splits)
    qed
    with cases obtain w where ran: "body_ran h cd v plan (claim_ctx d k fp) ?c w r" and v': "v b' = (w, None)" by auto
    then obtain b1 b2 where "v b1 = (?c, Some ?c)" "tx_body h cd plan (claim_ctx d k fp) b1 = Some (Inr (Outcome_Done r), b2)" "v b2 = (?c, Some w)"
      by (auto simp: body_ran_def)
    from body_without_key [OF assms(2,3) this(1) None this(2,3)] v' assms(4) show ?thesis by simp
  next
    case (Some e)
    obtain t x where e: "e = (t, x)" by fastforce
    from cases obtain b1 b2 where b1: "v b1 = (?c, Some ?c)" "tx_body h cd plan (claim_ctx d k fp) b1 = Some (Inr out, b2)"
      by (auto simp: body_gave_def)
    from body_with_key [OF assms(2) b1(1) Some [unfolded e] b1(2)] assms(6)
    have a: "t = fingerprint_text fp" "\<exists>s. x = Some s \<and> cd_read cd s = Some r" "out = Outcome_Replayed r"
      by (auto split: if_splits)
    from cases a(3) have "fst (v b') = ?c" by simp
    with Some a(1,2) show ?thesis by (auto simp: e)
  qed
qed

lemma keyed_rerun:
  assumes "isolated h v" "key_table h v d keys" "keys (fst (v b)) k = Some (t, Some s)"
    "apply_mutation h cd shard plan (claim_ctx d k fp) b = Some (res, b')"
  shows "fst (v b') = fst (v b) \<and> (\<forall>out. res = Inr out \<longrightarrow>
    (if t \<noteq> fingerprint_text fp then out = Outcome_Mismatch else \<exists>r. cd_read cd s = Some r \<and> out = Outcome_Replayed r))"
proof -
  let ?c = "fst (v b)"
  have no: "\<not> body_ran h cd v plan (claim_ctx d k fp) ?c w r" for w r
  proof
    assume "body_ran h cd v plan (claim_ctx d k fp) ?c w r"
    then obtain b1 b2 where "v b1 = (?c, Some ?c)" "tx_body h cd plan (claim_ctx d k fp) b1 = Some (Inr (Outcome_Done r), b2)"
      by (auto simp: body_ran_def)
    from body_with_key [OF assms(2) this(1) assms(3) this(2)] show False by (auto split: if_splits)
  qed
  note cases = apply_attempts_cases [OF assms(1) assms(4) [unfolded apply_mutation_def]]
  show ?thesis
  proof (cases res)
    case (Inl e)
    with cases no show ?thesis by auto
  next
    case (Inr out)
    with cases obtain b1 b2 where b1: "v b1 = (?c, Some ?c)" "tx_body h cd plan (claim_ctx d k fp) b1 = Some (Inr out, b2)"
      by (auto simp: body_gave_def)
    note o = body_with_key [OF assms(2) b1(1) assms(3) b1(2)]
    have "fst (v b') = ?c" using cases no Inr by (cases out) auto
    with o Inr show ?thesis by (auto split: if_splits)
  qed
qed

text \<open>C4: with the database store a keyed mutation takes effect once: after it has answered, the same
  key commits nothing more, on any instance and whatever fails; the same request gets the same
  answer, and a different request under the key gets none.\<close>

theorem keyed_mutation_once:
  assumes "isolated h v" "key_table h v d keys" "leaves_keys h cd v keys plan" "cd_read cd (cd_text cd r) = Some r"
    "so_tx store = Some d" "rq_key req = Some key" "rq_key req' = Some key" "rq_callable req' = rq_callable req"
    "run_mutation h cd store shard (Inr plan) req b = Some (Inr r, b1)"
    "run_mutation h cd store shard' planned req' b1 = Some (res, b2)"
  shows "fst (v b2) = fst (v b1) \<and> (\<forall>r'. res = Inr r' \<longrightarrow> fingerprint cd req' = fingerprint cd req \<and> r' = r)"
proof -
  let ?k = "(rq_callable req, key)"
  obtain out where one: "apply_mutation h cd shard plan (claim_ctx d ?k (fingerprint cd req)) b = Some (Inr out, b1)"
      "out = Outcome_Done r \<or> out = Outcome_Replayed r"
    using assms(5,6,9)
    by (auto simp: run_mutation_def then_do_def map_err_def fail_def ret_def split: option.splits sum.splits tx_outcome.splits prod.splits)
  from keyed_run_records [OF assms(1-4) one] obtain s where
    s: "keys (fst (v b1)) ?k = Some (fingerprint_text (fingerprint cd req), Some s)" "cd_read cd s = Some r" by blast
  show ?thesis
  proof (cases planned)
    case (Inl e)
    with assms(10) show ?thesis by (auto simp: run_mutation_def fail_def)
  next
    case (Inr plan2)
    with assms(5,7,8,10) obtain res1 where
      two: "apply_mutation h cd shard' plan2 (claim_ctx d ?k (fingerprint cd req')) b1 = Some (res1, b2)"
      and res: "\<And>r'. res = Inr r' \<Longrightarrow> res1 = Inr (Outcome_Done r') \<or> res1 = Inr (Outcome_Replayed r')"
      by (auto simp: run_mutation_def then_do_def map_err_def fail_def ret_def split: option.splits sum.splits tx_outcome.splits prod.splits)
    note again = keyed_rerun [OF assms(1,2) s(1) two]
    have "fingerprint cd req' = fingerprint cd req \<and> r' = r" if "res = Inr r'" for r'
    proof -
      from res [OF that] obtain out' where "res1 = Inr out'" "out' = Outcome_Done r' \<or> out' = Outcome_Replayed r'" by blast
      with again s(2) show ?thesis by (auto simp: fingerprint_text_inject split: if_splits)
    qed
    with again show ?thesis by blast
  qed
qed

end
