(* ===== verification/Mutation_Retry.thy ===== *)
theory Mutation_Retry
  imports Mutation_Inside
begin

text \<open>
  A mutation returns: the bulk steps that fit their columns never index out of range, and a deadlock
  is retried a bounded number of times.
\<close>

subsection \<open>Bulk steps that fit\<close>

text \<open>\<open>gives m Q\<close>: the action returns, and what it answers satisfies \<open>Q\<close>.\<close>

definition gives :: "('b, 'e, 'a) act \<Rightarrow> ('a \<Rightarrow> bool) \<Rightarrow> bool" where
  "gives m Q \<longleftrightarrow> (\<forall>b. \<exists>r b'. m b = Some (r, b') \<and> (\<forall>a. r = Inr a \<longrightarrow> Q a))"

lemma gives_returns: "gives m Q \<Longrightarrow> returns m"
  unfolding gives_def returns_def by (metis option.distinct(1))

lemma returns_gives: "returns m \<Longrightarrow> gives m (\<lambda>_. True)"
  unfolding gives_def returns_def by (metis not_None_eq surj_pair)

lemma gives_ret: "Q a \<Longrightarrow> gives (ret a) Q"
  by (simp add: gives_def ret_def)

lemma gives_then:
  assumes "gives m Q" "\<And>a. Q a \<Longrightarrow> gives (f a) R"
  shows "gives (then_do m f) R"
  unfolding gives_def
proof
  fix b
  obtain r b1 where r: "m b = Some (r, b1)" "\<And>a. r = Inr a \<Longrightarrow> Q a"
    using assms(1) unfolding gives_def by blast
  show "\<exists>x b'. then_do m f b = Some (x, b') \<and> (\<forall>a. x = Inr a \<longrightarrow> R a)"
  proof (cases r)
    case (Inl e)
    with r show ?thesis by (simp add: then_do_def)
  next
    case (Inr a)
    with assms(2) [OF r(2)] have "gives (f a) R" by blast
    with r Inr show ?thesis by (simp add: then_do_def gives_def)
  qed
qed

text \<open>Each row has a value for each bound column and for each key column.\<close>

abbreviation rows_fit :: "bulk_out_col list \<Rightarrow> pk_recover list \<Rightarrow> nat list \<Rightarrow> bool" where
  "rows_fit cols recover ns \<equiv> \<forall>n \<in> set ns. bound_cols cols \<le> n \<and> (\<forall>p \<in> set recover. \<forall>k. pk_bind p = Some k \<longrightarrow> k < n)"

fun bulk_fits :: "bulk_step \<Rightarrow> bool" and nested_fits :: "nested_bulk \<Rightarrow> bool" where
  "bulk_fits (Bulk_Step tbl cols rows per tail_sql key_rows serial one many recover) \<longleftrightarrow>
     rows_fit cols recover (map length rows) \<and> (\<forall>n \<in> set one. nested_fits n) \<and> (\<forall>n \<in> set many. nested_fits n)"
| "nested_fits (Nested_Bulk step parent_of slots) \<longleftrightarrow> bulk_fits step"

lemma set_cell_lengths [simp]: "map length (set_cell i k v rows) = map length rows"
  by (auto simp: set_cell_def map_update list_update_id intro!: nth_equalityI) (metis list_update_id nth_map)

lemma fold_lengths:
  "(\<And>x rows. map length (f x rows) = map length rows) \<Longrightarrow> map length (fold f xs rows) = map length rows"
  by (induction xs arbitrary: rows) simp_all

lemma inject_lengths [simp]: "map length (inject_rows injects rows) = map length rows"
  unfolding inject_rows_def by (auto intro!: fold_lengths split: prod.split)

lemma link_lengths [simp]: "map length (link_parents recover parent_of slots pks rows) = map length rows"
  unfolding link_parents_def by (auto intro!: fold_lengths split: prod.split option.split)

lemma tuple_fits: "i + bound_cols cols \<le> length row \<Longrightarrow> tuple_of d ord cols row i \<noteq> None"
proof (induction cols arbitrary: ord i)
  case (Cons c cs)
  then show ?case by (cases "oc_literal c") auto
qed simp

lemma tuples_fit: "\<forall>n \<in> set (map length rows). bound_cols cols \<le> n \<Longrightarrow> tuples_of d ord cols rows \<noteq> None"
proof (induction rows arbitrary: ord)
  case (Cons r rows)
  obtain t p where "tuple_of d ord cols r 0 = Some (t, p)"
    using tuple_fits [of 0 cols r d ord] Cons.prems by fastforce
  with Cons show ?case by simp
qed simp

lemma chunk_fits: "\<forall>n \<in> set (map length chunk). bound_cols cols \<le> n \<Longrightarrow> chunk_insert d tbl cols tail_sql env chunk \<noteq> None"
  using tuples_fit [of chunk cols d 0]
  by (auto simp: chunk_insert_def Let_def split: option.splits sum.splits)

lemma those_Some: "(\<And>x. x \<in> set xs \<Longrightarrow> x \<noteq> None) \<Longrightarrow> those xs \<noteq> None"
  by (induction xs) (auto split: option.split)

lemma pk_rows_fit:
  assumes "\<forall>n \<in> set (map length rows). \<forall>p \<in> set recover. \<forall>k. pk_bind p = Some k \<longrightarrow> k < n"
  shows "pk_rows recover ids rows \<noteq> None"
proof -
  have "(case x of (i, row) \<Rightarrow> those (map (\<lambda>p. case pk_bind p of
       Some k \<Rightarrow> (if k < length row then Some (row ! k) else None)
     | None \<Rightarrow> Some (if i < length ids then ids ! i else V_Null)) recover)) \<noteq> None"
    if "x \<in> set (enumerate 0 rows)" for x
  proof -
    obtain i row where x: "x = (i, row)" by fastforce
    with that have "row \<in> set rows" by (auto simp: in_set_enumerate_eq)
    with assms have "\<forall>p \<in> set recover. \<forall>k. pk_bind p = Some k \<longrightarrow> k < length row" by simp
    then show ?thesis unfolding x prod.case by (intro those_Some) (auto split: option.split)
  qed
  then show ?thesis unfolding pk_rows_def by (intro those_Some) auto
qed

subsection \<open>The body returns\<close>

lemma returns_run_chunk [returns_intros]: "returns (run_chunk h cd d returning n sql params)"
  unfolding run_chunk_def by (auto intro!: returns_intros split: option.split)

lemma returns_insert_chunks:
  "(\<And>c. c \<in> set chunks \<Longrightarrow> \<forall>n \<in> set (map length c). bound_cols cols \<le> n) \<Longrightarrow>
   returns (insert_chunks h cd d tbl cols tail_sql env returning chunks ids)"
proof (induction chunks arbitrary: ids)
  case (Cons c cs)
  have "chunk_insert d tbl cols tail_sql env c \<noteq> None" by (rule chunk_fits) (use Cons.prems [of c] in simp)
  moreover have "returns (insert_chunks h cd d tbl cols tail_sql env returning cs is)" for "is"
    by (rule Cons.IH) (use Cons.prems in \<open>blast intro: list.set_intros\<close>)
  ultimately show ?case by (auto intro!: returns_intros split: sum.split)
qed (simp add: returns_intros)

lemma returns_insert_bulk_rows:
  assumes "\<forall>n \<in> set (map length rows). bound_cols cols \<le> n"
  shows "returns (insert_bulk_rows h cd d tbl cols per tail_sql serial rows env w)"
  unfolding insert_bulk_rows_def
  by (rule returns_insert_chunks) (use assms in \<open>auto dest!: chunk_size\<close>)

lemma bulk_returns:
  "bulk_fits step \<Longrightarrow> returns (exec_bulk h cd d env step want injects)"
  "(\<forall>n \<in> set ns. nested_fits n) \<Longrightarrow> gives (exec_one h cd d env ns rows) (\<lambda>rows'. map length rows' = map length rows)"
  "(\<forall>n \<in> set ns. nested_fits n) \<Longrightarrow> returns (exec_many h cd d env ns recover pks)"
proof (induction h cd d env step want injects and h cd d env ns rows and h cd d env ns recover pks
    rule: exec_bulk_exec_one_exec_many.induct)
  case (1 h cd d env tbl cols rows0 per tail_sql key_rows serial one many recover want_pk injects)
  have fit: "rows_fit cols recover (map length rows0)" using 1(3) by simp
  have one: "gives (exec_one h cd d env one (inject_rows injects rows0)) (\<lambda>rows. map length rows = map length rows0)"
    using 1(1,3) by simp
  show ?case
  proof (rule gives_returns [of _ "\<lambda>_. True"], unfold exec_bulk.simps, rule gives_then [OF one], rule returns_gives)
    fix rows :: "sql_value list list" assume len: "map length rows = map length rows0"
    have pk: "pk_rows recover ids rows \<noteq> None" for ids
      using pk_rows_fit [of rows recover ids] fit unfolding len by blast
    have ins: "returns (insert_bulk_rows h cd d tbl cols per tail_sql serial rows env w)" for w
      using returns_insert_bulk_rows [of rows cols] fit unfolding len by blast
    have children: "returns (exec_many h cd d env many recover pks)"
      if "(if want_pk \<or> many \<noteq> [] then pk_rows recover ids rows else Some []) = Some pks" for pks ids
      using 1(2) [OF refl that] 1(3) by simp
    have rest: "returns (case (if want_pk \<or> many \<noteq> [] then pk_rows recover ids rows else Some []) of
       None \<Rightarrow> panic
     | Some pks \<Rightarrow> then_do (exec_many h cd d env many recover pks) (\<lambda>_. ret (if want_pk then pks else [])))" for ids
      using pk [of ids] children [of ids] by (auto intro!: returns_intros split: option.split)
    show "returns (let need_pk = want_pk \<or> many \<noteq> [] in
     then_do (insert_bulk_rows h cd d tbl cols per tail_sql serial rows env (need_pk \<and> serial \<noteq> None)) (\<lambda>ids.
     case (if need_pk then pk_rows recover ids rows else Some []) of
       None \<Rightarrow> panic
     | Some pks \<Rightarrow> then_do (exec_many h cd d env many recover pks) (\<lambda>_. ret (if want_pk then pks else []))))"
      unfolding Let_def by (rule returns_then [OF ins rest])
  qed
next
  case (3 h cd d env step parent_of slots ns rows)
  have "returns (exec_bulk h cd d env step True [])" using 3 by simp
  then show ?case
    using 3 by (auto intro!: gives_then [OF returns_gives])
qed (auto simp: gives_ret intro!: returns_intros)

definition plan_fits :: "mutation_plan \<Rightarrow> bool" where
  "plan_fits plan \<longleftrightarrow> (\<forall>s \<in> set (mp_steps plan). \<forall>bulk. ws_bulk s = Some bulk \<longrightarrow> bulk_fits bulk)"

lemma returns_fetch_bound [returns_intros]: "returns (fetch_bound h d env sql)"
  unfolding fetch_bound_def by (auto intro!: returns_intros split: sum.split prod.split)

lemma returns_run_step:
  assumes "\<And>bulk. ws_bulk step = Some bulk \<Longrightarrow> bulk_fits bulk"
  shows "returns (run_step h cd plan i step env keys)"
  unfolding run_step_def using assms
  by (auto intro!: returns_intros bulk_returns(1) split: option.split sum.split list.split)

lemma returns_run_steps:
  "(\<And>s bulk. s \<in> set ss \<Longrightarrow> ws_bulk s = Some bulk \<Longrightarrow> bulk_fits bulk) \<Longrightarrow>
   returns (run_steps h cd plan i ss env keys)"
proof (induction ss arbitrary: i env keys)
  case (Cons s ss)
  have "returns (run_steps h cd plan (Suc i) ss e k)" for e k
    by (rule Cons.IH) (use Cons.prems in auto)
  then show ?case
    using Cons.prems by (auto intro!: returns_intros returns_run_step split: step_end.split)
qed (simp add: returns_intros)

lemma returns_final_read [returns_intros]: "returns (final_read h cd plan env keys)"
  unfolding final_read_def run_bulk_readback_def Let_def
  by (auto intro!: returns_intros split: option.split sum.split prod.split list.split)

lemma returns_run_writes: "plan_fits plan \<Longrightarrow> returns (run_writes h cd plan)"
  unfolding run_writes_def plan_fits_def
  by (auto intro!: returns_intros returns_run_steps split: step_end.split)

lemma returns_keys [returns_intros]: "returns (db_claim h cd d k fp)" "returns (db_record h cd d k r)"
  unfolding db_claim_def db_record_def by (auto intro!: returns_intros split: list.split sum.split)

lemma returns_body: "plan_fits plan \<Longrightarrow> returns (tx_body h cd plan claim)"
  unfolding tx_body_def
  by (auto intro!: returns_intros returns_run_writes split: tx_claim.split tx_outcome.split option.split)

subsection \<open>Attempts\<close>

text \<open>\<open>tries\<close> counts the connections handed out; a failing checkout is not a deadlock.\<close>

definition counts_tries :: "'b host \<Rightarrow> ('b \<Rightarrow> nat) \<Rightarrow> bool" where
  "counts_tries h tries \<longleftrightarrow>
     (\<forall>k b r b'. h_checkout h k b = (r, b') \<longrightarrow> tries b' = Suc (tries b) \<and> (\<forall>e. r = Inl e \<longrightarrow> \<not> is_deadlock e))
   \<and> (\<forall>b r b'. h_begin h b = (r, b') \<longrightarrow> tries b' = tries b)
   \<and> (\<forall>b r b'. h_commit h b = (r, b') \<longrightarrow> tries b' = tries b)
   \<and> (\<forall>n. steady h (\<lambda>b. tries b = n) (\<lambda>b. tries b = n))"

lemma counts_triesD:
  "counts_tries h tries \<Longrightarrow> h_checkout h k b = (r, b') \<Longrightarrow> tries b' = Suc (tries b) \<and> (\<forall>e. r = Inl e \<longrightarrow> \<not> is_deadlock e)"
  "counts_tries h tries \<Longrightarrow> h_begin h b = (q, b') \<Longrightarrow> tries b' = tries b"
  "counts_tries h tries \<Longrightarrow> h_commit h b = (s, b') \<Longrightarrow> tries b' = tries b"
  "counts_tries h tries \<Longrightarrow> steady h (\<lambda>b. tries b = n) (\<lambda>b. tries b = n)"
  unfolding counts_tries_def by blast+

lemma returns_once: "plan_fits plan \<Longrightarrow> returns (apply_once h cd plan claim)"
  unfolding apply_once_def by (auto intro!: returns_intros returns_body split: tx_outcome.split)

lemma once_keeps_tries:
  assumes "counts_tries h tries"
  shows "triple (\<lambda>b. tries b = n) (apply_once h cd plan claim) (\<lambda>_ b. tries b = n) (\<lambda>_ b. tries b = n)"
proof -
  let ?I = "\<lambda>b. tries b = n"
  have "triple ?I (case out of Outcome_Done r \<Rightarrow> then_do (call id (h_commit h)) (\<lambda>_. ret (Outcome_Done r)) | other \<Rightarrow> ret other)
      (\<lambda>_. ?I) (\<lambda>_. ?I)" for out :: tx_outcome
    by (cases out) (auto intro!: triple_then [where R = "\<lambda>_. ?I"] triple_call triple_ret dest: counts_triesD(3) [OF assms])
  then show ?thesis unfolding apply_once_def
    by (auto intro!: triple_then [where R = "\<lambda>_. ?I"] triple_call body_inside counts_triesD(4) [OF assms]
        dest: counts_triesD(2) [OF assms])
qed

lemma once_outcome:
  assumes "plan_fits plan" "counts_tries h tries"
  obtains y b2 where "apply_once h cd plan claim b1 = Some (y, b2)" "tries b2 = tries b1"
proof -
  have "apply_once h cd plan claim b1 \<noteq> None" using returns_once [OF assms(1), of h cd claim] unfolding returns_def by blast
  then obtain y b2 where once: "apply_once h cd plan claim b1 = Some (y, b2)" by auto
  have "tries b2 = tries b1"
    using tripleD [OF once_keeps_tries [OF assms(2)] refl] once by (cases y) auto
  with once that show ?thesis by blast
qed

lemma attempts_bounded:
  assumes "plan_fits plan" "counts_tries h tries"
  shows "\<exists>res b'. apply_attempts n h cd shard plan claim b = Some (res, b') \<and> tries b < tries b' \<and> tries b' \<le> tries b + Suc n
    \<and> (\<forall>e. res = Inl e \<longrightarrow> is_deadlock e \<longrightarrow> tries b' = tries b + Suc n)"
proof (induction n arbitrary: b)
  case 0
  obtain x b1 where co: "h_checkout h shard b = (x, b1)" by fastforce
  note t1 = counts_triesD(1) [OF assms(2) co]
  obtain y b2 where once: "apply_once h cd plan claim b1 = Some (y, b2)" "tries b2 = tries b1"
    by (rule once_outcome [OF assms])
  show ?case using co t1 once by (cases x) (simp_all add: then_do_def call_def)
next
  case (Suc n)
  obtain x b1 where co: "h_checkout h shard b = (x, b1)" by fastforce
  note t1 = counts_triesD(1) [OF assms(2) co]
  obtain y b2 where once: "apply_once h cd plan claim b1 = Some (y, b2)" "tries b2 = tries b1"
    by (rule once_outcome [OF assms])
  have run: "apply_attempts (Suc n) h cd shard plan claim b = (case x of
      Inl e \<Rightarrow> Some (Inl e, b1)
    | Inr u \<Rightarrow> (case y of
        Inl e \<Rightarrow> (if is_deadlock e then apply_attempts n h cd shard plan claim b2 else Some (Inl e, b2))
      | Inr a \<Rightarrow> Some (Inr a, b2)))"
    using co once by (cases x; cases y) (simp_all add: then_do_def call_def match_do_def fail_def ret_def)
  show ?case
  proof (cases "\<exists>u e. x = Inr u \<and> y = Inl e \<and> is_deadlock e")
    case True
    then have "apply_attempts (Suc n) h cd shard plan claim b = apply_attempts n h cd shard plan claim b2"
      unfolding run by auto
    moreover have "tries b2 = Suc (tries b)" using t1 once by simp
    moreover obtain res b' where "apply_attempts n h cd shard plan claim b2 = Some (res, b')"
        "tries b2 < tries b'" "tries b' \<le> tries b2 + Suc n"
        "\<And>e. res = Inl e \<Longrightarrow> is_deadlock e \<Longrightarrow> tries b' = tries b2 + Suc n"
      using Suc [of b2] by blast
    ultimately show ?thesis by auto
  next
    case False
    then show ?thesis unfolding run using t1 once(2) by (auto split: sum.split)
  qed
qed

text \<open>C23: a mutation whose bulk rows fit their columns always answers, a value or an error: no index
  is out of range, a deadlock starts it again at most five times, each on a new connection, and a
  deadlock is reported only after the sixth attempt.\<close>

theorem mutation_attempts_bounded:
  assumes "plan_fits plan" "counts_tries h tries"
  shows "\<exists>res b'. apply_mutation h cd shard plan claim b = Some (res, b') \<and> tries b < tries b' \<and> tries b' \<le> tries b + 6
    \<and> (\<forall>e. res = Inl e \<longrightarrow> is_deadlock e \<longrightarrow> tries b' = tries b + 6)"
  using attempts_bounded [OF assms, of tx_retry_limit cd shard claim b]
  by (simp add: apply_mutation_def tx_retry_limit_def)

lemma backoff_bound: "deadlock_backoff nanos n < 200"
proof -
  have "backoff_step n \<le> 100" by (simp add: backoff_step_def)
  moreover have "nanos mod max (backoff_step n) 1 < max (backoff_step n) 1"
    by (rule mod_less_divisor) (simp add: less_max_iff_disj)
  ultimately show ?thesis unfolding deadlock_backoff_def by linarith
qed

end
