(* ===== verification/Mutation_Samples.thy ===== *)
theory Mutation_Samples
  imports Mutation_Correct Mutation_Retry
begin

text \<open>
  A database in memory with a key table, a list of the other statements it ran, and deadlocks to
  come. It meets every hypothesis about drivers, and the properties of mutations are applied to it.
\<close>

type_synonym key_data = "(idem_key \<times> str \<times> str option) list \<times> str list"

record key_db =
  k_done :: key_data
  k_open :: "key_data option"
  k_tries :: nat
  k_deadlocks :: nat

definition key_view :: "key_db \<Rightarrow> key_data \<times> key_data option" where
  "key_view b = (k_done b, k_open b)"

definition keys_of :: "key_data \<Rightarrow> idem_key \<Rightarrow> (str \<times> str option) option" where
  "keys_of w = map_of (fst w)"

definition key_write :: "dialect \<Rightarrow> str \<Rightarrow> sql_value list \<Rightarrow> key_data \<Rightarrow> nat \<times> key_data" where
  "key_write d sql ps w =
     (if sql = idem_insert_sql d then (case ps of
          [V_Text c, V_Text k, V_Text t] \<Rightarrow>
            (case keys_of w (c, k) of None \<Rightarrow> (1, ((c, k), t, None) # fst w, snd w) | Some e \<Rightarrow> (0, w))
        | _ \<Rightarrow> (0, w))
      else if sql = idem_update_sql d then (case ps of
          [V_Text s, V_Text c, V_Text k] \<Rightarrow>
            (case keys_of w (c, k) of None \<Rightarrow> (0, w) | Some (t, x) \<Rightarrow> (1, ((c, k), t, Some s) # fst w, snd w))
        | _ \<Rightarrow> (0, w))
      else (1, fst w, snd w @ [sql]))"

definition key_read :: "dialect \<Rightarrow> str \<Rightarrow> sql_value list \<Rightarrow> key_data \<Rightarrow> row list" where
  "key_read d sql ps w = (case ps of
       [V_Text c, V_Text k] \<Rightarrow> (if sql = idem_select_sql d then
           (case keys_of w (c, k) of None \<Rightarrow> []
            | Some (t, x) \<Rightarrow> [[(''fingerprint'', J_Str t), (''response'', case x of None \<Rightarrow> J_Null | Some s \<Rightarrow> J_Str s)]])
         else [])
     | _ \<Rightarrow> [])"

definition deadlock_error :: db_error where
  "deadlock_error = \<lparr>de_message = ''deadlock'', de_kind = Deadlock\<rparr>"

definition key_host :: "dialect \<Rightarrow> key_db host" where
  "key_host d = \<lparr>
     h_checkout = (\<lambda>k b. (Inr (), b\<lparr>k_open := None, k_tries := Suc (k_tries b)\<rparr>)),
     h_begin = (\<lambda>b. (Inr (), b\<lparr>k_open := Some (k_done b)\<rparr>)),
     h_execute = (\<lambda>sql ps b. (case (k_open b, k_deadlocks b) of
         (Some w, 0) \<Rightarrow> (let (n, w') = key_write d sql ps w in (Inr n, b\<lparr>k_open := Some w'\<rparr>))
       | (_, n) \<Rightarrow> (Inl deadlock_error, b\<lparr>k_open := None, k_deadlocks := n - 1\<rparr>))),
     h_fetch = (\<lambda>sql ps b. (Inr (case k_open b of None \<Rightarrow> [] | Some w \<Rightarrow> key_read d sql ps w), b)),
     h_commit = (\<lambda>b. (case k_open b of
         Some w \<Rightarrow> (Inr (), b\<lparr>k_done := w, k_open := None\<rparr>)
       | None \<Rightarrow> (Inl (db_error_new ''no transaction''), b))),
     h_rollback = (\<lambda>b. (Inr (), b\<lparr>k_open := None\<rparr>)),
     h_json_text = (\<lambda>j. []),
     h_list_text = (\<lambda>xs. []),
     h_list_read = (\<lambda>s. None)\<rparr>"

lemma key_views [simp]:
  "key_view (b\<lparr>k_open := t\<rparr>) = (k_done b, t)"
  "key_view (b\<lparr>k_tries := n\<rparr>) = key_view b"
  "key_view (b\<lparr>k_deadlocks := n\<rparr>) = key_view b"
  by (simp_all add: key_view_def)

lemma key_isolated: "isolated (key_host d) key_view"
  unfolding isolated_def
  by (auto simp: key_host_def key_view_def split: option.splits nat.splits prod.splits)

lemma key_counts: "counts_tries (key_host d) k_tries"
  unfolding counts_tries_def steady_def
  by (auto simp: key_host_def db_error_new_def is_deadlock_def split: option.splits nat.splits prod.splits)

lemma idem_sqls: "idem_update_sql d \<noteq> idem_insert_sql d"
  by (cases d) (simp_all add: idem_update_sql_def idem_insert_sql_def)

lemma keys_of_cons [simp]: "keys_of (e # ks, s) k = (if fst e = k then Some (snd e) else keys_of (ks, s) k)"
  by (cases e) (simp add: keys_of_def)

lemma key_table_host: "key_table (key_host d) key_view d keys_of"
  unfolding key_table_def
proof (intro conjI allI impI)
  fix k t b n b' c w
  assume "h_execute (key_host d) (idem_insert_sql d) [V_Text (fst k), V_Text (snd k), V_Text t] b = (Inr n, b')"
    "key_view b = (c, Some w)"
  then show "\<exists>w'. key_view b' = (c, Some w') \<and>
      (if keys_of w k = None then 1 \<le> n \<and> keys_of w' k = Some (t, None) else n = 0 \<and> keys_of w' k = keys_of w k)"
    by (cases w) (auto simp: key_host_def key_view_def key_write_def split: option.splits nat.splits prod.splits)
next
  fix k b rows b' c w t x
  assume "h_fetch (key_host d) (idem_select_sql d) [V_Text (fst k), V_Text (snd k)] b = (Inr rows, b')"
    "key_view b = (c, Some w)" "keys_of w k = Some (t, x)"
  then show "\<exists>r. rows = [r] \<and> map_of r ''fingerprint'' = Some (J_Str t)
      \<and> map_of r ''response'' = Some (case x of None \<Rightarrow> J_Null | Some s \<Rightarrow> J_Str s)"
    by (auto simp: key_host_def key_view_def key_read_def)
next
  fix k s b n b' c w t x
  assume "h_execute (key_host d) (idem_update_sql d) [V_Text s, V_Text (fst k), V_Text (snd k)] b = (Inr n, b')"
    "key_view b = (c, Some w)" "keys_of w k = Some (t, x)"
  then show "\<exists>w'. key_view b' = (c, Some w') \<and> keys_of w' k = Some (t, Some s)"
    by (auto simp: key_host_def key_view_def key_write_def idem_sqls split: option.splits nat.splits prod.splits)
qed

lemma key_ops:
  "h_checkout (key_host d) k b = (Inr (), b\<lparr>k_open := None, k_tries := Suc (k_tries b)\<rparr>)"
  "h_begin (key_host d) b = (Inr (), b\<lparr>k_open := Some (k_done b)\<rparr>)"
  "k_open b = Some w \<Longrightarrow> h_commit (key_host d) b = (Inr (), b\<lparr>k_done := w, k_open := None\<rparr>)"
  "k_open b = Some w \<Longrightarrow> k_deadlocks b = 0 \<Longrightarrow> h_execute (key_host d) sql ps b =
     (let (n, w') = key_write d sql ps w in (Inr n, b\<lparr>k_open := Some w'\<rparr>))"
  "k_open b = Some w \<Longrightarrow> h_fetch (key_host d) sql ps b = (Inr (key_read d sql ps w), b)"
  by (simp_all add: key_host_def)

subsection \<open>A mutation\<close>

definition add_card :: mutation_plan where
  "add_card = \<lparr>mp_name = ''add_card'', mp_dialect = Sqlite,
     mp_steps = [\<lparr>ws_sql = ''INSERT INTO card VALUES (1)'', ws_capture = None, ws_bulk = None\<rparr>],
     mp_env0 = [''result_id'' \<mapsto> V_Int 1], mp_result_id = None, mp_ret_select = None, mp_ack_check = Some 0,
     mp_readback = None, mp_json_paths = []\<rparr>"

definition card_codec :: codec where
  "card_codec = \<lparr>cd_timestamp = Some, cd_date = Some, cd_float = (\<lambda>i. []), cd_debug = id,
     cd_debug_value = (\<lambda>v. []), cd_text = (\<lambda>v. ''1''), cd_read = (\<lambda>s. Some (J_Obj [(''id'', J_Int 1)])),
     cd_read_error = id, cd_unbase64 = (\<lambda>s. None)\<rparr>"

lemma add_card_writes:
  "run_writes (key_host Sqlite) card_codec add_card b = (case (k_open b, k_deadlocks b) of
      (Some w, 0) \<Rightarrow> Some (Inr (Outcome_Done (J_Obj [(''id'', J_Int 1)])),
        b\<lparr>k_open := Some (fst w, snd w @ [''INSERT INTO card VALUES (1)''])\<rparr>)
    | (_, n) \<Rightarrow> Some (Inl deadlock_error, b\<lparr>k_open := None, k_deadlocks := n - 1\<rparr>))"
proof -
  have sql: "bind_sql Sqlite e ''INSERT INTO card VALUES (1)'' = Inr (''INSERT INTO card VALUES (1)'', [])" for e
    by code_simp
  have other: "''INSERT INTO card VALUES (1)'' \<noteq> idem_insert_sql Sqlite" "''INSERT INTO card VALUES (1)'' \<noteq> idem_update_sql Sqlite"
    by (code_simp, code_simp)
  show ?thesis
    by (auto simp: run_writes_def add_card_def run_step_def sql other final_read_def then_do_def call_def ret_def key_host_def
        key_write_def split: option.split nat.split)
qed

lemma add_card_leaves_keys: "leaves_keys (key_host Sqlite) card_codec key_view keys_of add_card"
  unfolding leaves_keys_def add_card_writes
  by (auto simp: key_view_def keys_of_def split: option.splits nat.splits)

text \<open>Two deadlocks, then the mutation goes through.\<close>

definition empty_db :: key_db where
  "empty_db = \<lparr>k_done = ([], []), k_open = None, k_tries = 0, k_deadlocks = 2\<rparr>"

definition one_card :: key_data where
  "one_card = ([], [''INSERT INTO card VALUES (1)''])"

theorem mutation_all_or_nothing_witness:
  "\<exists>w. body_ran (key_host Sqlite) card_codec key_view add_card None ([], []) w (J_Obj [(''id'', J_Int 1)]) \<and> (one_card, None) = (w, None)"
proof -
  have "apply_mutation (key_host Sqlite) card_codec ''a'' add_card None empty_db =
      Some (Inr (Outcome_Done (J_Obj [(''id'', J_Int 1)])),
        \<lparr>k_done = one_card, k_open = None, k_tries = 3, k_deadlocks = 0\<rparr>)"
    by (simp add: apply_mutation_def tx_retry_limit_def numeral_eq_Suc empty_db_def apply_once_def tx_body_def add_card_writes
        then_do_def match_do_def call_def ret_def is_deadlock_def deadlock_error_def key_ops one_card_def)
  from mutation_all_or_nothing [OF key_isolated this] show ?thesis
    by (simp add: empty_db_def key_view_def)
qed

definition card_request :: request where
  "card_request = \<lparr>rq_callable = ''add_card'', rq_args = [], rq_ctx = [], rq_key = Some ''k1''\<rparr>"

definition card_store :: "key_db store" where
  "card_store = \<lparr>so_begin = (\<lambda>k fp b. (Key_Fresh, b)), so_record = (\<lambda>k r b. b), so_abandon = (\<lambda>k b. b), so_tx = Some Sqlite\<rparr>"

definition card_once :: key_data where
  "card_once = ([((''add_card'', ''k1''), fingerprint_text (fingerprint card_codec card_request), Some ''1''),
     ((''add_card'', ''k1''), fingerprint_text (fingerprint card_codec card_request), None)], [''INSERT INTO card VALUES (1)''])"

definition calm_db :: "key_data \<Rightarrow> nat \<Rightarrow> key_db" where
  "calm_db w n = \<lparr>k_done = w, k_open = None, k_tries = n, k_deadlocks = 0\<rparr>"

theorem keyed_mutation_once_witness:
  "\<exists>b1 b2. run_mutation (key_host Sqlite) card_codec card_store ''a'' (Inr add_card) card_request (calm_db ([], []) 0) =
       Some (Inr (J_Obj [(''id'', J_Int 1)]), b1)
     \<and> run_mutation (key_host Sqlite) card_codec card_store ''b'' (Inr add_card) card_request b1 =
       Some (Inr (J_Obj [(''id'', J_Int 1)]), b2)
     \<and> fst (key_view b2) = fst (key_view b1)"
proof -
  note run = run_mutation_def card_request_def card_store_def map_err_def apply_mutation_def tx_retry_limit_def numeral_eq_Suc
    apply_once_def tx_body_def add_card_writes then_do_def match_do_def call_def ret_def key_ops calm_db_def db_claim_def
    db_record_def key_write_def key_read_def keys_of_def idem_sqls idem_sqls [symmetric] claim_of_row_def
  have codec: "cd_text card_codec r = ''1''" "cd_read card_codec s = Some (J_Obj [(''id'', J_Int 1)])" for r s
    by (simp_all add: card_codec_def)
  have one: "run_mutation (key_host Sqlite) card_codec card_store ''a'' (Inr add_card) card_request (calm_db ([], []) 0) =
      Some (Inr (J_Obj [(''id'', J_Int 1)]), calm_db card_once 1)"
    by (simp add: run card_once_def codec)
  have two: "run_mutation (key_host Sqlite) card_codec card_store ''b'' (Inr add_card) card_request (calm_db card_once 1) =
      Some (Inr (J_Obj [(''id'', J_Int 1)]), (calm_db card_once 2)\<lparr>k_open := Some card_once\<rparr>)"
    by (simp add: run card_once_def codec)
  have "fst (key_view ((calm_db card_once 2)\<lparr>k_open := Some card_once\<rparr>)) = fst (key_view (calm_db card_once 1))"
    using keyed_mutation_once [OF key_isolated key_table_host add_card_leaves_keys _ _ _ _ _ one two]
    by (simp add: card_codec_def card_store_def card_request_def)
  with one two show ?thesis by blast
qed

theorem mutation_attempts_bounded_witness:
  "\<exists>res b'. apply_mutation (key_host Sqlite) card_codec ''a'' add_card None empty_db = Some (res, b')
     \<and> 0 < k_tries b' \<and> k_tries b' \<le> 6"
  using mutation_attempts_bounded [OF _ key_counts, of add_card Sqlite card_codec "''a''" None empty_db]
  by (force simp: add_card_def plan_fits_def empty_db_def)

end
