(* ===== verification/Gen_Script.thy ===== *)
theory Gen_Script
  imports Script Snap_Roundtrip
begin

text \<open>
  The script \<open>migrate gen\<close> writes, read by the scanner: every line of a rendered step is a
  structural line, whatever the names and types in it, so a generated script carries no authored
  item. The side condition is that of the snapshot round trip (\<open>text_ok\<close>).
\<close>

subsection \<open>Lines that open nothing\<close>

lemma trim_start_rev_keeps:
  assumes "word_char c"
  shows "\<exists>k. trim_start_rev (u @ c # v) = drop k u @ c # v"
proof (induction u rule: length_induct)
  case (1 u)
  have no: "\<not> ascii_ws c" "\<not> ws2 c x" "\<not> ws2 x c" "\<not> ws3 c x y" "\<not> ws3 x y c" "\<not> ws3 x c y" for x y
    using assms by (auto simp: ascii_ws_def ws2_def ws3_def word_char_def)
  let ?s = "u @ c # v"
  show ?case
  proof (cases "ws_len_rev ?s = 0")
    case True
    then show ?thesis by (subst trim_start_rev.simps) (auto intro: exI [of _ 0])
  next
    case False
    have le: "ws_len_rev ?s \<le> length u"
    proof (cases u)
      case Nil
      then show ?thesis using assms by simp
    next
      case (Cons e u')
      then show ?thesis using no
        by (cases u'; cases "tl u'") (auto simp: ws_len_rev.simps(2) split: list.split)
    qed
    then have d: "drop (ws_len_rev ?s) ?s = drop (ws_len_rev ?s) u @ c # v" by simp
    moreover have "length (drop (ws_len_rev ?s) u) < length u" using False le by simp
    ultimately obtain k where "trim_start_rev (drop (ws_len_rev ?s) ?s) = drop k (drop (ws_len_rev ?s) u) @ c # v"
      using 1 by metis
    then show ?thesis using False by (subst trim_start_rev.simps) (auto simp: add.commute)
  qed
qed

lemma trim_keeps:
  assumes "solid w"
  shows "\<exists>k. trim (w @ x) = w @ take k x"
proof -
  obtain w' c where w: "w = w' @ [c]" "word_char c" using assms by (cases w rule: rev_cases) (auto simp: solid_def)
  obtain k where "trim_start_rev (rev x @ c # rev w') = drop k (rev x) @ c # rev w'"
    using trim_start_rev_keeps [OF w(2)] by blast
  then have "trim_end (w @ x) = w @ take (length x - k) x"
    by (simp add: trim_end_def w(1) rev_drop)
  moreover have "trim_start (w @ x) = w @ x" using assms by (intro trim_start_append_hd) (simp_all add: solid_def)
  ultimately show ?thesis by (auto simp: trim_def)
qed

lemma trim_indent: "trim (''  '' @ s) = trim s"
  by simp

lemma entry_structural:
  "trim l \<noteq> format_marker \<Longrightarrow> raw_line_opener l = None \<Longrightarrow> \<not> is_data_opener (trim l) \<Longrightarrow>
   entry_at l rest = (Structural l, rest)"
  by (simp add: entry_at_def)

text \<open>A line that starts with a word which opens neither a raw escape nor a data step.\<close>

definition plain_word :: "str \<Rightarrow> bool" where
  "plain_word w \<longleftrightarrow> w \<noteq> [] \<and> word w \<and> w \<notin> {''update'', ''delete'', ''create'', ''format''} \<and> hd w \<noteq> CHR ''r'' \<or> w = ''rename''"

lemma plain_word_solid: "plain_word w \<Longrightarrow> solid w"
  by (auto simp: plain_word_def solid_word)

lemma plain_word_entry:
  assumes "plain_word w" "trim l = trim (w @ CHR '' '' # r)"
  shows "entry_at l rest = (Structural l, rest)"
proof -
  obtain k where k: "trim l = w @ take k (CHR '' '' # r)"
    using trim_keeps [OF plain_word_solid [OF assms(1)]] assms(2) by metis
  have w: "word w" "w \<noteq> []" using assms(1) by (auto simp: plain_word_def)
  obtain y where y: "trim l = w @ y" "y = [] \<or> (\<exists>r'. y = CHR '' '' # r')" using k by (cases k) auto
  have sw: "\<exists>ws. split_whitespace (trim l) = w # ws" using y w by auto
  have "\<not> is_data_opener (trim l)"
  proof -
    obtain ws where "split_whitespace (trim l) = w # ws" using sw by blast
    then show ?thesis using assms(1) by (cases ws) (auto simp: is_data_opener_def plain_word_def)
  qed
  moreover have "trim l \<noteq> format_marker"
  proof
    assume "trim l = format_marker"
    then obtain ws where "split_whitespace format_marker = w # ws" using sw by auto
    moreover have "split_whitespace format_marker = [''format'', ''2'']"
      using split_whitespace_word(2) [of "''format''" "''2''"] split_whitespace_word(1) [of "''2''"]
      by (simp add: format_marker_def word_char_def)
    ultimately show False using assms(1) by (auto simp: plain_word_def)
  qed
  moreover have "raw_line_opener l = None"
  proof -
    have "strip_prefix ''raw('' (w @ y) = None"
      using assms(1) by (cases w) (auto simp: plain_word_def)
    then show ?thesis by (simp add: raw_line_opener_def y)
  qed
  ultimately show ?thesis by (intro entry_structural)
qed

lemma close_entry: "entry_at ''}'' rest = (Structural ''}'', rest)"
proof -
  have t: "trim ''}'' = ''}''" by (rule trim_word) (simp add: word_char_def)
  have "split_whitespace ''}'' = [''}'']" by (rule split_whitespace_word) (simp_all add: word_char_def)
  then show ?thesis by (simp add: entry_at_def t format_marker_def raw_line_opener_def is_data_opener_def)
qed

lemma create_table_entry:
  assumes "word name" "name \<noteq> []" "hd name \<noteq> CHR ''{''" "hd name \<noteq> CHR ''[''"
  shows "entry_at (''create table '' @ name @ '' {'') rest = (Structural (''create table '' @ name @ '' {''), rest)"
proof -
  let ?l = "''create table '' @ name @ '' {''"
  have t: "trim ?l = ?l" by (rule solid_trim) (simp add: solid_def word_char_def)
  have "split_whitespace (''create'' @ CHR '' '' # ''table'' @ CHR '' '' # name @ CHR '' '' # ''{'') =
      [''create'', ''table'', name, ''{'']"
    using assms(1,2) split_whitespace_word(2) [of "''create''"] split_whitespace_word(2) [of "''table''"]
      split_whitespace_word(1) [of "''{''"] by (simp add: word_char_def)
  then have s: "split_whitespace ?l = [''create'', ''table'', name, ''{'']" by simp
  have "\<not> starts_with ''{'' name" "\<not> starts_with ''['' name"
    using assms(2-4) by (cases name; simp add: starts_with_def)+
  then have "\<not> is_data_opener ?l" unfolding is_data_opener_def s by simp
  moreover have "raw_line_opener ?l = None" unfolding raw_line_opener_def t by simp
  moreover have "?l \<noteq> format_marker" by (simp add: format_marker_def)
  ultimately show ?thesis by (intro entry_structural) (simp_all only: t not_False_eq_True)
qed

subsection \<open>The lines of a step\<close>

definition structural_line :: "str \<Rightarrow> bool" where
  "structural_line l \<longleftrightarrow> line_ok l \<and> (\<forall>rest. entry_at l rest = (Structural l, rest))"

lemma plain_line:
  "plain_word w \<Longrightarrow> list_all text_char r \<Longrightarrow> structural_line (w @ CHR '' '' # r)"
  unfolding structural_line_def
  by (intro conjI allI plain_word_entry line_ok_text) (auto simp: plain_word_def word_text text_char_def)

lemma plain_line_indented:
  "plain_word w \<Longrightarrow> list_all text_char r \<Longrightarrow> structural_line (''  '' @ w @ CHR '' '' # r)"
  unfolding structural_line_def
  by (intro conjI allI plain_word_entry line_ok_text) (auto simp: plain_word_def word_text text_char_def trim_indent)

definition create_lines :: "table_snap \<Rightarrow> str list" where
  "create_lines t =
     (''create table '' @ (case t_schema t of Some s \<Rightarrow> s @ ''.'' | None \<Rightarrow> []) @ t_name t @ '' {'')
     # map (\<lambda>c. ''  column '' @ column_spec c) (t_columns t)
     @ map (\<lambda>i. ''  '' @ (if ix_unique i then ''unique'' else ''index'') @ '' '' @ index_spec_text i) (t_indexes t)
     @ map (\<lambda>f. ''  '' @ fk_spec_text f) (t_foreign_keys t) @ [''}'']"

fun step_lines :: "step \<Rightarrow> str list" where
  "step_lines (Create_Table t) = create_lines t"
| "step_lines st = [butlast (render_step st)]"

lemma render_step_lines: "render_step st = unlines (step_lines st)"
proof (cases st)
  case (Create_Table t)
  then show ?thesis by (simp add: render_create_table_def create_lines_def unlines_def writeln_def comp_def)
qed (simp_all add: writeln_def butlast_append)

fun change_ok :: "column_change \<Rightarrow> bool" where
  "change_ok (Type_Change _ to) = list_all text_char to"
| "change_ok (Set_Default d) = list_all text_char d"
| "change_ok _ = True"

fun step_ok :: "step \<Rightarrow> bool" where
  "step_ok (Create_Table t) = table_ok t"
| "step_ok (Drop_Table n _) = ident n"
| "step_ok (Add_Column t _ c) = (ident t \<and> column_ok c)"
| "step_ok (Drop_Column t _ c) = (ident t \<and> ident c)"
| "step_ok (Alter_Column t _ c changes _) = (ident t \<and> ident c \<and> list_all change_ok changes)"
| "step_ok (Add_Index _ _ i) = index_ok i"
| "step_ok (Drop_Index _ _ n) = ident n"
| "step_ok (Add_Unique _ _ i) = index_ok i"
| "step_ok (Drop_Unique _ _ n) = ident n"
| "step_ok (Add_Foreign_Key t _ f) = (ident t \<and> fk_ok f)"
| "step_ok (Drop_Foreign_Key t _ cols) = (ident t \<and> list_all ident cols)"
| "step_ok (Step_Rename_Table from to _) = (ident from \<and> ident to)"
| "step_ok (Step_Rename_Column t _ from to) = (ident t \<and> ident from \<and> ident to)"
| "step_ok (Alter_Schema t from to) = (ident t \<and> opt_ok ident from \<and> opt_ok ident to)"
| "step_ok (Raw_Step _ _) = False"
| "step_ok (Scope_Change sc) = (case sc of
       Scope_Add s \<Rightarrow> scope_ok s
     | Scope_Alter s \<Rightarrow> scope_ok s
     | Scope_Drop n \<Rightarrow> ident n
     | Scope_Table t alts \<Rightarrow> ident t \<and> list_all (list_all path_text) alts)"

lemma space_text [simp]: "text_char (CHR '' '')" "text_char (CHR ''#'')" "text_char (CHR ''D'')" "text_char (CHR ''E'')" "text_char (CHR ''S'')" "text_char (CHR ''T'')" "text_char (CHR ''R'')" "text_char (CHR ''U'')"
  "text_char (CHR ''C'')" "text_char (CHR ''I'')" "text_char (CHR ''V'')" "text_char (CHR ''L'')" "text_char (CHR ''N'')" "text_char (CHR ''O'')"
  "text_char (CHR '';'')" "text_char (CHR ''-'')" "text_char (CHR ''_'')" "text_char (CHR ''>'')" "text_char (CHR ''='')" "text_char (CHR ''<'')"
  by (simp_all add: text_char_def)

lemma column_spec_text: "column_ok c \<Longrightarrow> list_all text_char (column_spec c)"
  using column_line_text [of c] by (simp add: column_line_def column_spec_def)

lemma change_text: "change_ok ch \<Longrightarrow> list_all text_char (render_change ch)"
  by (cases ch) (auto simp: text_char_def)

lemma changes_text: "list_all change_ok chs \<Longrightarrow> list_all text_char (join '' '' (map render_change chs))"
  by (rule list_all_text_join) (auto simp: list_all_iff change_text [unfolded list_all_iff, rule_format])

lemma plain_words [simp]:
  "plain_word ''column''" "plain_word ''unique''" "plain_word ''index''" "plain_word ''fk''" "plain_word ''drop''"
  "plain_word ''add''" "plain_word ''alter''" "plain_word ''rename''" "plain_word ''scope''"
  by (simp_all add: plain_word_def word_char_def)

lemma plain_render:
  "render_step st = (w @ CHR '' '' # r) @ nl \<Longrightarrow> step_lines st = [butlast (render_step st)] \<Longrightarrow> plain_word w \<Longrightarrow>
   list_all text_char r \<Longrightarrow> list_all structural_line (step_lines st)"
  by (simp add: plain_line butlast_append del: append_assoc append.simps)

lemma table_word: "table_ok t \<Longrightarrow> word ((case t_schema t of Some s \<Rightarrow> s @ ''.'' | None \<Rightarrow> []) @ t_name t)"
  by (auto simp: table_ok_def header_ok_def split: option.split)

lemma ident_no_bracket: "ident s \<Longrightarrow> hd s \<noteq> CHR ''{'' \<and> hd s \<noteq> CHR ''[''"
  by (cases s) (auto simp: ident_def ident_char_def)

lemma create_lines_structural:
  assumes "table_ok t"
  shows "list_all structural_line (create_lines t)"
proof -
  let ?n = "(case t_schema t of Some s \<Rightarrow> s @ ''.'' | None \<Rightarrow> []) @ t_name t"
  have n: "ident (t_name t)" "opt_ok ident (t_schema t)" using assms by (simp_all add: table_ok_def header_ok_def)
  have "?n \<noteq> []" "hd ?n \<noteq> CHR ''{''" "hd ?n \<noteq> CHR ''[''"
    using n ident_no_bracket by (cases "t_schema t"; force simp: hd_append)+
  then have "structural_line (''create table '' @ ?n @ '' {'')"
    using table_word [OF assms] unfolding structural_line_def
    by (intro conjI allI create_table_entry line_ok_text) (auto simp: word_text text_char_def)
  moreover have "structural_line (''  column '' @ column_spec c)" if "c \<in> set (t_columns t)" for c
    using plain_line_indented [of "''column''" "column_spec c"] column_spec_text [of c] assms that
    by (simp add: table_ok_def list_all_iff [of column_ok])
  moreover have "structural_line (''  '' @ (if ix_unique i then ''unique'' else ''index'') @ '' '' @ index_spec_text i)"
    if "i \<in> set (t_indexes t)" for i
    using plain_line_indented [of _ "index_spec_text i"] index_line_text [of i] assms that
    by (simp add: table_ok_def list_all_iff [of index_ok])
  moreover have "structural_line (''  '' @ fk_spec_text f)" if "f \<in> set (t_foreign_keys t)" for f
    using plain_line_indented [of "''fk''" "tl (tl (tl (fk_spec_text f)))"] fk_line_text [of f] assms that
    by (simp add: table_ok_def list_all_iff [of fk_ok] fk_spec_text_def)
  moreover have "structural_line ''}''"
    by (simp add: structural_line_def close_entry line_ok_def)
  ultimately show ?thesis by (auto simp: create_lines_def list_all_iff [of structural_line])
qed

lemma alts_text:
  assumes "list_all (list_all path_text) alts"
  shows "list_all text_char (join '' '' (map (\<lambda>a. ''('' @ join '', '' a @ '')'') alts))"
proof (rule list_all_text_join)
  fix x
  assume "x \<in> set (map (\<lambda>a. ''('' @ join '', '' a @ '')'') alts)"
  then obtain a where "a \<in> set alts" "x = ''('' @ join '', '' a @ '')''" by auto
  then show "list_all text_char x" using assms path_join_text [of a]
    by (simp add: list_all_iff [of "list_all path_text"])
qed simp

lemma step_lines_structural: "step_ok st \<Longrightarrow> list_all structural_line (step_lines st)"
proof (cases st)
  case (Create_Table t)
  assume "step_ok st"
  then show ?thesis using create_lines_structural by (simp add: Create_Table)
next
  case (Drop_Table n sc)
  assume "step_ok st"
  then show ?thesis using plain_line [of "''drop''" "''table '' @ n @ ''  # DESTRUCTIVE''"]
    by (simp add: Drop_Table writeln_def butlast_append)
next
  case (Add_Column t sc c)
  assume "step_ok st"
  then show ?thesis using plain_line [of "''add''" "''column '' @ t @ ''.'' @ column_spec c"] column_spec_text [of c]
    by (simp add: Add_Column writeln_def butlast_append)
next
  case (Drop_Column t sc c)
  assume "step_ok st"
  then show ?thesis using plain_line [of "''drop''" "''column '' @ t @ ''.'' @ c @ ''  # DESTRUCTIVE''"]
    by (simp add: Drop_Column writeln_def butlast_append)
next
  case (Alter_Column t sc c changes after)
  assume "step_ok st"
  then show ?thesis using plain_line [of "''alter''" "''column '' @ t @ ''.'' @ c @ '' '' @ join '' '' (map render_change changes)
       @ (if destructive st then ''  # DESTRUCTIVE'' else [])"] changes_text [of changes]
    by (simp add: Alter_Column writeln_def butlast_append)
next
  case (Add_Index t sc i)
  assume "step_ok st"
  then show ?thesis using plain_line [of "''add''" "''index '' @ index_spec_text i"] index_line_text [of i]
    by (simp add: Add_Index writeln_def butlast_append)
next
  case (Drop_Index t sc n)
  assume "step_ok st"
  then show ?thesis using plain_line [of "''drop''" "''index '' @ n"] by (simp add: Drop_Index writeln_def butlast_append)
next
  case (Add_Unique t sc i)
  assume "step_ok st"
  then show ?thesis using plain_line [of "''add''" "''unique '' @ index_spec_text i @ ''  # DESTRUCTIVE''"] index_line_text [of i]
    by (simp add: Add_Unique writeln_def butlast_append)
next
  case (Drop_Unique t sc n)
  assume "step_ok st"
  then show ?thesis using plain_line [of "''drop''" "''unique '' @ n"] by (simp add: Drop_Unique writeln_def butlast_append)
next
  case (Add_Foreign_Key t sc f)
  assume "step_ok st"
  then have "list_all text_char (''foreign_key '' @ t @ ''.'' @ tl (tl (tl (fk_spec_text f))))" "ident t"
    using fk_line_text [of f] by (simp_all add: Add_Foreign_Key fk_spec_text_def)
  then show ?thesis using plain_line [of "''add''" "''foreign_key '' @ t @ ''.'' @ tl (tl (tl (fk_spec_text f)))"]
    by (simp add: Add_Foreign_Key writeln_def butlast_append fk_spec_text_def fk_ref_text_def)
next
  case (Drop_Foreign_Key t sc cols)
  assume "step_ok st"
  then show ?thesis using plain_line [of "''drop''" "''foreign_key '' @ t @ ''.'' @ col_list_text cols"] col_list_text_text [of cols]
    by (simp add: Drop_Foreign_Key writeln_def butlast_append)
next
  case (Step_Rename_Table n1 n2 sc)
  assume "step_ok st"
  then show ?thesis using plain_line [of "''rename''" "''table '' @ n1 @ '' -> '' @ n2"]
    by (simp add: Step_Rename_Table writeln_def butlast_append)
next
  case (Step_Rename_Column t sc n1 n2)
  assume "step_ok st"
  then show ?thesis using plain_line [of "''rename''" "''column '' @ t @ ''.'' @ n1 @ '' -> '' @ n2"]
    by (simp add: Step_Rename_Column writeln_def butlast_append)
next
  case (Alter_Schema t n1 n2)
  assume "step_ok st"
  then show ?thesis using plain_line [of "''alter''" "''schema '' @ t @ '' '' @ or_default n1 @ '' -> '' @ or_default n2"]
    by (cases n1; cases n2) (simp_all add: Alter_Schema writeln_def butlast_append or_default_def)
next
  case (Scope_Change sc)
  assume "step_ok st"
  then show ?thesis
  proof (cases sc)
    case (Scope_Add s)
    then show ?thesis using \<open>step_ok st\<close> render_scope_text [of s]
        plain_line [of "''scope''" "drop 6 (render_scope_decl s) @ ''  # code-level; no DDL''"]
      by (simp add: Scope_Change writeln_def butlast_append render_scope_decl_def Let_def)
  next
    case (Scope_Alter s)
    then show ?thesis using \<open>step_ok st\<close> render_scope_text [of s]
        plain_line [of "''alter''" "render_scope_decl s @ ''  # code-level; no DDL''"]
      by (simp add: Scope_Change writeln_def butlast_append)
  next
    case (Scope_Drop n)
    then show ?thesis using \<open>step_ok st\<close> plain_line [of "''drop''" "''scope '' @ n @ ''  # code-level; no DDL''"]
      by (simp add: Scope_Change writeln_def butlast_append)
  next
    case (Scope_Table t alts)
    then show ?thesis using \<open>step_ok st\<close> alts_text [of alts] plain_line [of "''scope''" "''table '' @ t @ '' = '' @
        (if alts = [] then ''unscoped'' else join '' '' (map (\<lambda>a. ''('' @ join '', '' a @ '')'') alts)) @ ''  # code-level; no DDL''"]
      by (simp add: Scope_Change writeln_def butlast_append)
  qed
qed simp

subsection \<open>The steps of a diff\<close>

lemma found_column: "find_column t n = Some c \<Longrightarrow> table_ok t \<Longrightarrow> column_ok c \<and> ident n"
  by (auto simp: find_column_def table_ok_def list_all_iff [of column_ok] column_ok_def dest!: find_SomeD)

lemma found_index: "find_index t n = Some i \<Longrightarrow> table_ok t \<Longrightarrow> index_ok i"
  by (auto simp: find_index_def table_ok_def list_all_iff [of index_ok] dest!: find_SomeD)

lemma found_table: "find_table s n = Some t \<Longrightarrow> text_ok s \<Longrightarrow> table_ok t \<and> ident n"
  by (auto simp: find_table_def text_ok_def list_all_iff [of table_ok] table_ok_def header_ok_def dest!: find_SomeD)

lemma table_ok_parts:
  assumes "table_ok t"
  shows "ident (t_name t)" "opt_ok ident (t_schema t)" "c \<in> set (t_columns t) \<Longrightarrow> column_ok c \<and> ident (c_name c)"
    "i \<in> set (t_indexes t) \<Longrightarrow> index_ok i \<and> ident (ix_name i)"
    "f \<in> set (t_foreign_keys t) \<Longrightarrow> fk_ok f \<and> list_all ident (f_columns f)"
  using assms by (auto simp: table_ok_def header_ok_def list_all_iff [of column_ok] list_all_iff [of index_ok]
      list_all_iff [of fk_ok] column_ok_def index_ok_def fk_ok_def)

lemma column_changes_ok: "column_ok new \<Longrightarrow> list_all change_ok (column_changes old new)"
  by (auto simp: column_changes_def column_ok_def ty_ok_def raw_ok_def word_text split: option.splits list.splits if_splits)

lemma alter_step_ok: "table_ok now \<Longrightarrow> column_ok new \<Longrightarrow> list_all step_ok (alter_step now old new)"
  using column_changes_ok [of new old] by (simp add: alter_step_def Let_def table_ok_parts column_ok_def)

lemma diff_columns_ok:
  assumes "table_ok prev" "table_ok now"
  shows "list_all step_ok (diff_columns prev now renames)"
proof -
  have r: "list_all step_ok (rename_column_steps prev now (a, b))"
    if "(a, b) \<in> set (column_renames prev now renames)" for a b
  proof -
    from that obtain x y where f: "find_column prev a = Some x" "find_column now b = Some y"
      by (auto simp: column_renames_def map_filter_def elim!: column_rename_of.elims split: if_splits)
    show ?thesis using found_column [OF f(1) assms(1)] found_column [OF f(2) assms(2)] column_changes_ok [of y x]
      by (simp add: rename_column_steps_def f Let_def table_ok_parts [OF assms(2)])
  qed
  have s: "list_all step_ok (survivor_column_steps prev now c)" if "c \<in> set (t_columns now)" for c
    using table_ok_parts(1,3) [OF assms(2)] that alter_step_ok [OF assms(2)]
    by (auto simp: survivor_column_steps_def split: option.split)
  show ?thesis using r s table_ok_parts [OF assms(1)] table_ok_parts [OF assms(2)]
    unfolding diff_columns_def Let_def by (auto simp: list_all_iff [of step_ok])
qed

lemma index_steps_ok: "index_ok i \<Longrightarrow> step_ok (add_index_step t i) \<and> step_ok (drop_index_step i t)"
  by (simp add: add_index_step_def drop_index_step_def index_ok_def)

lemma diff_indexes_ok:
  assumes "table_ok prev" "table_ok now"
  shows "list_all step_ok (diff_indexes prev now)"
proof -
  have ok: "step_ok (add_index_step t i) \<and> step_ok (drop_index_step i t)"
    if "i \<in> set (t_indexes now) \<or> i \<in> set (t_indexes prev) \<or> find_index prev n = Some i" for i t n
    using that table_ok_parts(4) [OF assms(1)] table_ok_parts(4) [OF assms(2)] found_index [OF _ assms(1)]
      index_steps_ok by blast
  show ?thesis unfolding list_all_iff [of step_ok] diff_indexes_def
    by (auto split: option.splits if_splits intro: ok [THEN conjunct1] ok [THEN conjunct2])
qed

lemma diff_fks_ok: "table_ok prev \<Longrightarrow> table_ok now \<Longrightarrow> list_all step_ok (diff_foreign_keys prev now)"
  using table_ok_parts [of prev] table_ok_parts [of now]
  by (auto simp: list_all_iff [of step_ok] diff_foreign_keys_def split: option.splits if_splits)

lemma diff_table_ok: "table_ok prev \<Longrightarrow> table_ok now \<Longrightarrow> list_all step_ok (diff_table prev now renames)"
  using diff_columns_ok [of prev now] diff_indexes_ok [of prev now] diff_fks_ok [of prev now]
  by (auto simp: diff_table_def table_ok_parts)

lemma diff_scopes_ok: "text_ok prev \<Longrightarrow> text_ok now \<Longrightarrow> list_all step_ok (diff_scopes prev now)"
  by (auto simp: list_all_iff [of step_ok] diff_scopes_def text_ok_def list_all_iff [of scope_ok] list_all_iff [of table_ok]
      table_ok_def header_ok_def scope_ok_def split: option.splits if_splits)

lemma diff_steps_ok:
  assumes "text_ok prev" "text_ok now"
  shows "list_all step_ok (diff_snapshots prev now)"
proof -
  have s: "list_all step_ok (survivor_steps prev now to_names t)" if "t \<in> set (s_tables now)" for to_names t
    using that assms found_table [OF _ assms(1)]
    by (auto simp: survivor_steps_def Let_def text_ok_def list_all_iff [of table_ok] bind_eq_Some_conv
        intro!: diff_table_ok split: option.splits if_splits)
  have r: "ident a \<and> ident b" if "(a, b) \<in> set (table_renames prev now)" for a b
    using that found_table [OF _ assms(1)] found_table [OF _ assms(2)]
    by (auto simp: table_renames_def map_filter_def is_valid_table_rename_def elim!: table_rename_of.elims split: if_splits)
  show ?thesis using s r assms diff_scopes_ok [OF assms]
    unfolding diff_snapshots_def Let_def
    by (auto simp: list_all_iff [of step_ok] text_ok_def list_all_iff [of table_ok] table_ok_parts(1))
qed

subsection \<open>Scanning a generated script\<close>

lemma scan_keeps_items:
  "list_all (\<lambda>l. structural_line l \<or> l = format_marker) ls \<Longrightarrow>
   sc_items (scan_from n c ls out) = sc_items out \<and> sc_saw_raw (scan_from n c ls out) = sc_saw_raw out"
proof (induction ls arbitrary: n c out)
  case (Cons l ls)
  then show ?case by (cases "l = format_marker") (auto simp: marker_entry structural_line_def Let_def)
qed simp

lemma comment_structural: "line_ok l \<Longrightarrow> \<exists>r. l = CHR ''#'' # r \<Longrightarrow> structural_line l"
  by (auto simp: structural_line_def comment_entry)

lemma header_lines:
  "list_all (\<lambda>l. structural_line l \<or> l = format_marker) up_header_lines"
  "list_all (\<lambda>l. structural_line l \<or> l = format_marker) (down_header_lines @ [format_marker])"
proof -
  have "list_all line_ok (butlast up_header_lines)" using up_header_ok by (subst (asm) up_header_split(1)) simp
  then have "list_all structural_line (butlast up_header_lines)"
    using up_header_split(2) by (auto simp: list_all_iff intro!: comment_structural)
  then show "list_all (\<lambda>l. structural_line l \<or> l = format_marker) up_header_lines"
    by (subst up_header_split(1)) (auto simp: list_all_iff)
  have "list_all (\<lambda>l. line_ok l \<and> (\<exists>r. l = CHR ''#'' # r)) down_header_lines"
    by (simp add: down_header_lines_def line_ok_def dash_def)
  then show "list_all (\<lambda>l. structural_line l \<or> l = format_marker) (down_header_lines @ [format_marker])"
    by (auto simp: list_all_iff intro!: comment_structural)
qed

lemma steps_lines: "concat (map render_step steps) = unlines (concat (map step_lines steps))"
  by (induction steps) (simp_all add: render_step_lines)

lemma steps_structural: "list_all step_ok steps \<Longrightarrow> list_all structural_line (concat (map step_lines steps))"
  by (induction steps) (simp_all add: step_lines_structural)

lemma structural_ok: "list_all (\<lambda>l. structural_line l \<or> l = format_marker) ls \<Longrightarrow> list_all line_ok ls"
  by (auto simp: list_all_iff structural_line_def format_marker_def line_ok_def)

lemma scan_unlines:
  "list_all (\<lambda>l. structural_line l \<or> l = format_marker) ls \<Longrightarrow>
   sc_items (scan (unlines ls)) = [] \<and> \<not> sc_saw_raw (scan (unlines ls))"
  using lines_unlines [OF structural_ok [of ls]] by (simp add: scan_def scan_keeps_items)

lemma render_up_items:
  assumes "list_all step_ok steps"
  shows "sc_items (scan (render_up_as_is steps)) = []" "\<not> has_raw_step (render_up_as_is steps)"
proof -
  have "render_up_as_is steps = unlines (up_header_lines @ concat (map step_lines steps))"
    by (simp add: render_up_as_is_def up_header_unlines steps_lines)
  moreover have "list_all (\<lambda>l. structural_line l \<or> l = format_marker) (up_header_lines @ concat (map step_lines steps))"
    using header_lines(1) steps_structural [OF assms] by (auto simp: list_all_iff)
  ultimately show "sc_items (scan (render_up_as_is steps)) = []" "\<not> has_raw_step (render_up_as_is steps)"
    by (simp_all only: scan_unlines has_raw_step_def not_False_eq_True)
qed

lemma render_down_unlines:
  "render_down_steps steps = unlines (down_header_lines @ [format_marker] @ concat (map step_lines steps))"
  by (simp add: render_down_steps_def steps_lines unlines_def writeln_def [abs_def])

lemma render_down_items:
  assumes "list_all step_ok steps"
  shows "sc_items (scan (render_down_steps steps)) = []"
  using header_lines(2) steps_structural [OF assms]
  unfolding render_down_unlines by (intro scan_unlines [THEN conjunct1]) (auto simp: list_all_iff)

lemma render_down_in_order:
  assumes "list_all step_ok steps"
  shows "sc_in_order (scan (render_down_steps steps))"
proof -
  let ?ls = "down_header_lines @ [format_marker] @ concat (map step_lines steps)"
  have "list_all (\<lambda>l. structural_line l \<or> l = format_marker) ?ls"
    using header_lines(2) steps_structural [OF assms] by (auto simp: list_all_iff)
  then have "lines (unlines ?ls) = ?ls" by (intro lines_unlines structural_ok)
  moreover have "list_all (\<lambda>l. \<exists>r. l = CHR ''#'' # r) down_header_lines"
    by (simp add: down_header_lines_def)
  then obtain out where "scan_from 1 0 (down_header_lines @ format_marker # concat (map step_lines steps))
        \<lparr>sc_in_order = False, sc_structural = [], sc_items = [], sc_saw_raw = False\<rparr> =
      scan_from (1 + length down_header_lines) 0 (format_marker # concat (map step_lines steps)) out"
    using scan_comments by metis
  ultimately have "scan (render_down_steps steps) =
      scan_from (1 + length down_header_lines) 0 (format_marker # concat (map step_lines steps)) out"
    unfolding scan_def render_down_unlines by simp
  then show ?thesis by (simp add: marker_entry scan_keeps_in_order)
qed

end
