(* ===== verification/Load.thy ===== *)
theory Load
  imports Script_Plan Snap_Parse Ledger
begin

text \<open>
  From the files of \<open>migrations/\<close> to the migrations the runner executes: the numbered set of
  \<open>based-project/src/migrations\<close>, the rename hints of \<open>lifecycle.rs\<close>, the planning of a set
  (\<open>from_sources\<close> of \<open>based-runtime/src/migrate.rs\<close>) and the offline gate that reads the same
  files without a database (\<open>verify.rs\<close>). Reading the directory is the argument of
  \<open>read_migrations\<close>; the checked schema enters the gate as its snapshot.
\<close>

subsection \<open>Sources (source.rs, files.rs)\<close>

record migration_source =
  ms_id :: str
  ms_up :: str
  ms_down :: "str option"
  ms_snapshot :: str

definition migration_number :: "str \<Rightarrow> nat option" where
  "migration_number name = (case split_once ''_'' name of None \<Rightarrow> None | Some (n, _) \<Rightarrow> parse_u32 n)"

definition source_number :: "migration_source \<Rightarrow> nat option" where
  "source_number s = migration_number (ms_id s)"

text \<open>One entry of the directory: its name, whether it is a directory, and what reading its three
  files gives, an absent \<open>down.mig\<close> as \<open>None\<close>. A failed read is its message.\<close>

record dir_entry =
  de_name :: str
  de_is_dir :: "str + bool"
  de_up :: "str + str"
  de_down :: "(str + str) option"
  de_snapshot :: "str + str"

record migration_files =
  mfl_number :: nat
  mfl_source :: migration_source

definition optional_read :: "(str + str) option \<Rightarrow> str + str option" where
  "optional_read m = (case m of None \<Rightarrow> Inr None | Some r \<Rightarrow> and_then r (\<lambda>t. Inr (Some t)))"

fun read_entries :: "(str + dir_entry) list \<Rightarrow> str + migration_files list" where
  "read_entries [] = Inr []"
| "read_entries (entry # rest) =
     and_then entry (\<lambda>e.
     and_then (de_is_dir e) (\<lambda>is_dir.
     case (if is_dir then migration_number (de_name e) else None) of
       None \<Rightarrow> read_entries rest
     | Some n \<Rightarrow>
         and_then (de_up e) (\<lambda>up_text.
         and_then (optional_read (de_down e)) (\<lambda>down_text.
         and_then (de_snapshot e) (\<lambda>snap_text.
         and_then (read_entries rest) (\<lambda>fs.
         Inr (\<lparr>mfl_number = n, mfl_source = \<lparr>ms_id = de_name e, ms_up = up_text, ms_down = down_text,
           ms_snapshot = snap_text\<rparr>\<rparr> # fs)))))))"

text \<open>A missing directory is an empty set.\<close>

definition read_migrations :: "(str + (str + dir_entry) list) option \<Rightarrow> str + migration_files list" where
  "read_migrations listing = (case listing of
       None \<Rightarrow> Inr []
     | Some dir \<Rightarrow> and_then dir (\<lambda>es. and_then (read_entries es) (\<lambda>fs. Inr (sort_key mfl_number fs))))"

subsection \<open>Rename hints (lifecycle.rs)\<close>

record rename_hint =
  rh_table :: str
  rh_dropped :: str
  rh_added :: str

definition hint_message :: "rename_hint \<Rightarrow> str" where
  "hint_message h =
     ''if this renames `'' @ rh_dropped h @ ''` '' @ arrow @ '' `'' @ rh_added h @ ''` on `'' @ rh_table h @
     ''`, add `@was('' @ [CHR 0x22] @ rh_dropped h @ [CHR 0x22] @ '')` on `'' @ rh_added h @
     ''` and re-run `based migrate gen`; otherwise `'' @ rh_dropped h @ ''` is dropped (data loss)''"

definition dropped_columns :: "step list \<Rightarrow> (str \<times> str) list" where
  "dropped_columns = List.map_filter (\<lambda>st. case st of Drop_Column t _ c \<Rightarrow> Some (t, c) | _ \<Rightarrow> None)"

definition added_columns :: "step list \<Rightarrow> (str \<times> column_snap) list" where
  "added_columns = List.map_filter (\<lambda>st. case st of Add_Column t _ c \<Rightarrow> Some (t, c) | _ \<Rightarrow> None)"

text \<open>The entries of one table, as \<open>entry(table).or_default().push(...)\<close> collects them.\<close>

definition entries_of :: "str \<Rightarrow> (str \<times> 'a) list \<Rightarrow> 'a list" where
  "entries_of t xs = map snd (filter (\<lambda>x. fst x = t) xs)"

definition rename_hint_of :: "snapshot \<Rightarrow> step list \<Rightarrow> str \<Rightarrow> rename_hint option" where
  "rename_hint_of prev steps t =
     (case (entries_of t (dropped_columns steps), entries_of t (added_columns steps)) of
       ([x], [y]) \<Rightarrow>
         (if x \<noteq> c_name y \<and> map_option c_ty (Option.bind (find_table prev t) (\<lambda>tb. find_column tb x)) = Some (c_ty y)
          then Some \<lparr>rh_table = t, rh_dropped = x, rh_added = c_name y\<rparr> else None)
     | _ \<Rightarrow> None)"

text \<open>The tables in the order of a \<open>BTreeMap\<close>.\<close>

definition rename_hints :: "snapshot \<Rightarrow> snapshot \<Rightarrow> rename_hint list" where
  "rename_hints prev now =
     (let steps = diff_snapshots prev now in
      List.map_filter (rename_hint_of prev steps) (sort (remdups (map fst (dropped_columns steps)))))"

subsection \<open>Planning a set (migrate.rs)\<close>

text \<open>A refusal, or the slice of the snapshot parser that panics.\<close>

datatype load_failure =
    Refused migrate_error
  | Load_Panics

definition padded :: "nat \<Rightarrow> str" where
  "padded n = replicate (4 - length (dec n)) (CHR ''0'') @ dec n"

definition parse_error_text :: "nat \<Rightarrow> str \<Rightarrow> str" where
  "parse_error_text line m = ''schema.snap line '' @ dec line @ '': '' @ m"

definition script_problem_text :: "script_problem \<Rightarrow> str" where
  "script_problem_text p =
     (if sp_line p = 0 then sp_file p @ '': '' @ sp_message p
      else sp_file p @ '' line '' @ dec (sp_line p) @ '': '' @ sp_message p)"

definition script_error :: "str \<Rightarrow> str \<Rightarrow> script_problem list \<Rightarrow> migrate_error" where
  "script_error migration file problems =
     Artifact (migration @ ''/'' @ file @ '': '' @ join ''; '' (map script_problem_text problems))"

definition numbered_source :: "migration_source \<Rightarrow> load_failure + nat \<times> migration_source" where
  "numbered_source s = (case source_number s of
       Some n \<Rightarrow> Inr (n, s)
     | None \<Rightarrow> Inl (Refused (Order_Error (''migration `'' @ ms_id s @ ''` has no `NNNN_` number prefix''))))"

definition gap_error :: "str \<Rightarrow> nat \<Rightarrow> migrate_error" where
  "gap_error name i = Order_Error (''migration numbering has a gap or is out of order at `'' @ name @
     ''` (expected '' @ padded i @ '')'')"

fun snap_failure :: "str \<Rightarrow> snap_error \<Rightarrow> load_failure" where
  "snap_failure name (Parse_Error line m) = Refused (Artifact (name @ ''/schema.snap: '' @ parse_error_text line m))"
| "snap_failure name Slice_Panic = Load_Panics"

fun map_Inl :: "('e \<Rightarrow> 'f) \<Rightarrow> 'e + 'a \<Rightarrow> 'f + 'a" where
  "map_Inl f (Inl e) = Inl (f e)"
| "map_Inl f (Inr a) = Inr a"

lemma map_Inl_Inr [simp]: "map_Inl f m = Inr a \<longleftrightarrow> m = Inr a"
  by (cases m) auto

text \<open>One migration between its snapshots.\<close>

definition plan_migration :: "(dialect \<Rightarrow> str \<Rightarrow> str option) \<Rightarrow> parser \<Rightarrow> dialect \<Rightarrow> nat \<Rightarrow> migration_source \<Rightarrow> snapshot \<Rightarrow>
    snapshot \<Rightarrow> load_failure + planned_migration" where
  "plan_migration gen parse d n s prev snap =
     (let steps = up_steps prev snap (ms_up s) in
      if \<not> up_mig_matches_snapshot (ms_up s) steps then Inl (Refused (Up_Mig_Drift (ms_id s)))
      else
        and_then (map_Inl (\<lambda>p. Refused (script_error (ms_id s) ''up.mig'' p)) (plan_up gen parse prev snap (ms_up s) d)) (\<lambda>plan.
        and_then (case ms_down s of
            None \<Rightarrow> Inr None
          | Some t \<Rightarrow> and_then (map_Inl (\<lambda>p. Refused (script_error (ms_id s) ''down.mig'' p)) (plan_down gen parse prev snap t d))
              (\<lambda>p. Inr (map_option dn_units p))) (\<lambda>authored.
        Inr \<lparr>pm_number = n, pm_id = ms_id s, pm_up = up_units plan, pm_up_hash = content_hash (ms_up s),
          pm_destructive = list_ex destructive steps,
          pm_rename_hints = map hint_message (rename_hints prev snap),
          pm_down = (case authored of Some us \<Rightarrow> Some us | None \<Rightarrow> up_auto_down plan)\<rparr>)))"

fun load_from :: "(dialect \<Rightarrow> str \<Rightarrow> str option) \<Rightarrow> parser \<Rightarrow> dialect \<Rightarrow> nat \<Rightarrow> snapshot \<Rightarrow> (nat \<times> migration_source) list \<Rightarrow>
    load_failure + planned_migration list" where
  "load_from gen parse d i prev [] = Inr []"
| "load_from gen parse d i prev ((n, s) # rest) =
     (if n \<noteq> i then Inl (Refused (gap_error (ms_id s) i))
      else
        and_then (map_Inl (snap_failure (ms_id s)) (parse_snapshot (ms_snapshot s))) (\<lambda>snap.
        and_then (plan_migration gen parse d n s prev snap) (\<lambda>m.
        and_then (load_from gen parse d (Suc i) snap rest) (\<lambda>ms. Inr (m # ms)))))"

definition from_sources :: "(dialect \<Rightarrow> str \<Rightarrow> str option) \<Rightarrow> parser \<Rightarrow> dialect \<Rightarrow> migration_source list \<Rightarrow>
    load_failure + planned_migration list" where
  "from_sources gen parse d sources =
     and_then (map_res numbered_source sources) (\<lambda>ns. load_from gen parse d 1 empty_snapshot (sort_key fst ns))"

definition load_migrations :: "(dialect \<Rightarrow> str \<Rightarrow> str option) \<Rightarrow> parser \<Rightarrow> dialect \<Rightarrow> (str + (str + dir_entry) list) option \<Rightarrow>
    load_failure + planned_migration list" where
  "load_migrations gen parse d listing =
     and_then (map_Inl (\<lambda>m. Refused (Io_Error m)) (read_migrations listing))
       (\<lambda>fs. from_sources gen parse d (map mfl_source fs))"

end
