(* ===== verification/Offline_Gate.thy ===== *)
theory Offline_Gate
  imports Load
begin

text \<open>
  The offline gate of \<open>based migrate verify\<close> and \<open>based-build\<close> (\<open>based-project/src/migrations/verify.rs\<close>):
  the findings on a set of migrations, in order. The snapshot of the checked schema is an argument.
  \<open>None\<close> is a panic: a snapshot whose parsing slices backwards, or a table name that is sought
  from the middle of a character.
\<close>

datatype severity = Sev_Problem | Sev_Warning | Sev_Note

record gate_finding =
  gf_migration :: "str option"
  gf_severity :: severity
  gf_message :: str

subsection \<open>Modeled tables in raw SQL (diff.rs)\<close>

definition sql_ident_char :: "char \<Rightarrow> bool" where
  "sql_ident_char c \<longleftrightarrow> (let n = (of_char c :: nat) in
     48 \<le> n \<and> n \<le> 57 \<or> 65 \<le> n \<and> n \<le> 90 \<or> 97 \<le> n \<and> n \<le> 122 \<or> c = CHR ''_'')"

definition continuation_byte :: "char \<Rightarrow> bool" where
  "continuation_byte c \<longleftrightarrow> (let n = (of_char c :: nat) in 128 \<le> n \<and> n < 192)"

text \<open>The search from \<open>rest\<close>, with the text before it reversed: the first occurrence that stands
  alone, else on from one byte behind the start of the occurrence.\<close>

function names_word_from :: "str \<Rightarrow> str \<Rightarrow> str \<Rightarrow> bool option" where
  "names_word_from w before rest = (case split_once w rest of
       None \<Rightarrow> Some False
     | Some (a, b) \<Rightarrow>
         let before' = rev a @ before in
         if (before' = [] \<or> \<not> sql_ident_char (hd before')) \<and> (b = [] \<or> \<not> sql_ident_char (hd b)) then Some True
         else if length rest < Suc (length a) \<or>
           drop (Suc (length a)) rest \<noteq> [] \<and> continuation_byte (hd (drop (Suc (length a)) rest)) then None
         else names_word_from w (rev (take (Suc (length a)) rest) @ before) (drop (Suc (length a)) rest))"
  by pat_completeness auto
termination by (relation "measure (\<lambda>(_, _, rest). length rest)") auto

declare names_word_from.simps [simp del]

definition sql_names_word :: "str \<Rightarrow> str \<Rightarrow> bool option" where
  "sql_names_word haystack w = names_word_from w [] haystack"

fun modeled_tables :: "str \<Rightarrow> table_snap list \<Rightarrow> str list option" where
  "modeled_tables lower [] = Some []"
| "modeled_tables lower (t # ts) =
     Option.bind (sql_names_word lower (map ascii_lower (t_name t))) (\<lambda>named.
     map_option (\<lambda>ns. if named then t_name t # ns else ns) (modeled_tables lower ts))"

definition raw_modeled_tables :: "str \<Rightarrow> snapshot \<Rightarrow> str list option" where
  "raw_modeled_tables raw_sql s = modeled_tables (map ascii_lower raw_sql) (s_tables s)"

subsection \<open>One migration\<close>

fun raw_warnings :: "str \<Rightarrow> snapshot \<Rightarrow> step list \<Rightarrow> gate_finding list option" where
  "raw_warnings name s [] = Some []"
| "raw_warnings name s (Raw_Step d sql # sts) =
     Option.bind (raw_modeled_tables sql s) (\<lambda>touched.
     map_option (\<lambda>ws. if touched = [] then ws else
         \<lparr>gf_migration = Some name, gf_severity = Sev_Warning,
          gf_message = ''W0109 raw step touches modeled table(s) '' @ join '', '' touched @ '' '' @ em_dash @
            '' the snapshot is blind to it''\<rparr> # ws)
       (raw_warnings name s sts))"
| "raw_warnings name s (_ # sts) = raw_warnings name s sts"

definition of_migration :: "migration_source \<Rightarrow> severity \<Rightarrow> str \<Rightarrow> gate_finding" where
  "of_migration s sev m = \<lparr>gf_migration = Some (ms_id s), gf_severity = sev, gf_message = m\<rparr>"

definition check_up_mig :: "migration_source \<Rightarrow> step list \<Rightarrow> snapshot \<Rightarrow> gate_finding list option" where
  "check_up_mig s steps snap =
     map_option (\<lambda>ws.
       (if \<not> up_mig_matches_snapshot (ms_up s) steps
        then [of_migration s Sev_Problem ''up.mig has drifted from schema.snap (re-run `based migrate gen`)'']
        else if has_raw_step (ms_up s)
        then [of_migration s Sev_Note (''partial (carries a raw step '' @ em_dash @ '' not offline-verifiable)'')]
        else []) @ ws)
       (raw_warnings (ms_id s) snap (parse_raw_steps (ms_up s)))"

definition number_findings :: "migration_source \<Rightarrow> nat \<Rightarrow> gate_finding list" where
  "number_findings s idx =
     (let expected = (if idx + 1 < 2 ^ 32 then idx + 1 else 2 ^ 32 - 1) in
      if source_number s = Some expected then []
      else [of_migration s Sev_Problem (''number out of sequence (expected '' @ padded expected @ '')'')])"

definition problems_of :: "migration_source \<Rightarrow> script_problem list \<Rightarrow> gate_finding list" where
  "problems_of s ps = map (\<lambda>p. of_migration s Sev_Problem (script_problem_text p)) ps"

definition up_findings :: "(dialect \<Rightarrow> str \<Rightarrow> str option) \<Rightarrow> parser \<Rightarrow> dialect \<Rightarrow> migration_source \<Rightarrow> snapshot \<Rightarrow> snapshot \<Rightarrow>
    gate_finding list" where
  "up_findings gen parse d s prev snap = (case plan_up gen parse prev snap (ms_up s) d of
       Inr plan \<Rightarrow> (if up_has_data plan then [of_migration s Sev_Note ''data steps checked''] else [])
     | Inl ps \<Rightarrow> problems_of s ps)"

definition down_findings :: "(dialect \<Rightarrow> str \<Rightarrow> str option) \<Rightarrow> parser \<Rightarrow> dialect \<Rightarrow> migration_source \<Rightarrow> snapshot \<Rightarrow> snapshot \<Rightarrow>
    gate_finding list" where
  "down_findings gen parse d s prev snap = (case ms_down s of
       None \<Rightarrow> []
     | Some t \<Rightarrow> (case plan_down gen parse prev snap t d of Inl ps \<Rightarrow> problems_of s ps | Inr _ \<Rightarrow> []))"

subsection \<open>The set\<close>

text \<open>The findings on the migrations, and the last snapshot that parsed.\<close>

fun verify_from :: "(dialect \<Rightarrow> str \<Rightarrow> str option) \<Rightarrow> parser \<Rightarrow> dialect \<Rightarrow> nat \<Rightarrow> snapshot \<Rightarrow> migration_source list \<Rightarrow>
    (gate_finding list \<times> snapshot) option" where
  "verify_from gen parse d idx prev [] = Some ([], prev)"
| "verify_from gen parse d idx prev (s # rest) = (case parse_snapshot (ms_snapshot s) of
       Inl Slice_Panic \<Rightarrow> None
     | Inl (Parse_Error line m) \<Rightarrow>
         map_option (\<lambda>(fs, out). (number_findings s idx @ [of_migration s Sev_Problem (parse_error_text line m)] @ fs, out))
           (verify_from gen parse d (Suc idx) prev rest)
     | Inr snap \<Rightarrow>
         Option.bind (check_up_mig s (up_steps prev snap (ms_up s)) snap) (\<lambda>checked.
         map_option (\<lambda>(fs, out). (number_findings s idx @ checked @ up_findings gen parse d s prev snap @
             down_findings gen parse d s prev snap @ fs, out))
           (verify_from gen parse d (Suc idx) snap rest)))"

definition uncaptured_message :: "migration_source list \<Rightarrow> snapshot \<Rightarrow> snapshot \<Rightarrow> str option" where
  "uncaptured_message migrations prev current =
     (if migrations = []
      then (if s_tables current \<noteq> [] then Some (''no migrations yet '' @ em_dash @ '' run `based migrate gen` to capture the schema'') else None)
      else if diff_snapshots prev current \<noteq> []
      then Some (''schema has uncaptured changes not in any migration '' @ em_dash @ '' run `based migrate gen`'')
      else None)"

definition verify_migrations :: "(dialect \<Rightarrow> str \<Rightarrow> str option) \<Rightarrow> parser \<Rightarrow> dialect \<Rightarrow> snapshot \<Rightarrow> migration_source list \<Rightarrow>
    gate_finding list option" where
  "verify_migrations gen parse d current migrations =
     map_option (\<lambda>(fs, prev). fs @ (case uncaptured_message migrations prev current of
         None \<Rightarrow> []
       | Some m \<Rightarrow> [\<lparr>gf_migration = None, gf_severity = Sev_Problem, gf_message = m\<rparr>]))
       (verify_from gen parse d 0 empty_snapshot migrations)"

definition finding_text :: "gate_finding \<Rightarrow> str" where
  "finding_text f = (case gf_migration f of Some name \<Rightarrow> name @ '': '' @ gf_message f | None \<Rightarrow> gf_message f)"

end
