(* ===== verification/Load_Props.thy ===== *)
theory Load_Props
  imports Offline_Gate Ledger_Prefix
begin

text \<open>
  What loading promises the runner: the migrations it returns are numbered \<open>1..N\<close> with distinct
  ids, each planned between the snapshots of its predecessor and its own, and the offline gate
  passes a set exactly when it loads.
\<close>

subsection \<open>Numbers\<close>

lemma numbered_source_Inr: "numbered_source s = Inr x \<longleftrightarrow> (\<exists>n. source_number s = Some n \<and> x = (n, s))"
  by (auto simp: numbered_source_def split: option.splits)

lemma numbered_sources:
  "map_res numbered_source sources = Inr ns \<Longrightarrow>
   map snd ns = sources \<and> (\<forall>x \<in> set ns. migration_number (ms_id (snd x)) = Some (fst x))"
  by (induction sources arbitrary: ns) (fastforce simp: numbered_source_Inr source_number_def)+

lemma sort_key_sorted: "sorted (map f xs) \<Longrightarrow> sort_key f xs = xs"
  by (induction xs) (auto simp: insort_is_Cons)

lemma plan_migration_named:
  "plan_migration gen parse d n s prev snap = Inr m \<Longrightarrow> pm_number m = n \<and> pm_id m = ms_id s"
  by (auto simp: plan_migration_def Let_def split: if_splits)

lemma load_from_numbers:
  "load_from gen parse d i prev ns = Inr ms \<Longrightarrow>
   map fst ns = [i..<i + length ns] \<and> map pm_number ms = map fst ns \<and> map pm_id ms = map (ms_id \<circ> snd) ns"
proof (induction ns arbitrary: i prev ms)
  case (Cons x ns)
  obtain n s where x: "x = (n, s)" by (cases x)
  from Cons.prems obtain snap m ms' where n: "n = i"
    and m: "plan_migration gen parse d n s prev snap = Inr m"
    and l: "load_from gen parse d (Suc i) snap ns = Inr ms'" "ms = m # ms'"
    by (auto simp: x split: if_splits)
  show ?case using Cons.IH [OF l(1)] plan_migration_named [OF m]
    by (simp add: x n l(2) upt_conv_Cons del: upt_Suc)
qed simp

lemma from_sources_Inr:
  assumes "from_sources gen parse d sources = Inr ms"
  obtains ns where "map_res numbered_source sources = Inr ns"
    "load_from gen parse d 1 empty_snapshot (sort_key fst ns) = Inr ms"
  using assms by (auto simp: from_sources_def)

lemma loaded_well_numbered:
  assumes "from_sources gen parse d sources = Inr ms"
  shows "well_numbered ms"
proof -
  obtain ns where ns: "map_res numbered_source sources = Inr ns"
    and l: "load_from gen parse d 1 empty_snapshot (sort_key fst ns) = Inr ms"
    using assms by (rule from_sources_Inr)
  note L = load_from_numbers [OF l]
  have num: "map pm_number ms = [1..<Suc (length ms)]" using L by (metis length_map plus_1_eq_Suc)
  have "map (\<lambda>x. the (migration_number (ms_id (snd x)))) (sort_key fst ns) = map fst (sort_key fst ns)"
    using numbered_sources [OF ns] by (intro map_cong) simp_all
  then have "map (\<lambda>i. the (migration_number i)) (map pm_id ms) = map fst (sort_key fst ns)"
    using L by (simp add: comp_def del: upt_Suc)
  then have "map (\<lambda>i. the (migration_number i)) (map pm_id ms) = [1..<Suc (length ms)]" using L num by metis
  then have "distinct (map (\<lambda>i. the (migration_number i)) (map pm_id ms))" by (metis distinct_upt)
  then show ?thesis using num by (metis distinct_map well_numbered_def)
qed

subsection \<open>What each migration runs\<close>

text \<open>The specification of one planned migration between two snapshots.\<close>

definition planned_between :: "(dialect \<Rightarrow> str \<Rightarrow> str option) \<Rightarrow> parser \<Rightarrow> dialect \<Rightarrow> migration_source \<Rightarrow> snapshot \<Rightarrow>
    snapshot \<Rightarrow> planned_migration \<Rightarrow> bool" where
  "planned_between gen parse d s prev snap m \<longleftrightarrow>
     parse_snapshot (ms_snapshot s) = Inr snap \<and> pm_id m = ms_id s \<and>
     pm_up_hash m = content_hash (ms_up s) \<and>
     up_mig_matches_snapshot (ms_up s) (up_steps prev snap (ms_up s)) \<and>
     (\<exists>plan. plan_up gen parse prev snap (ms_up s) d = Inr plan \<and> pm_up m = up_units plan) \<and>
     (pm_destructive m \<longleftrightarrow> (\<exists>st \<in> set (diff_snapshots prev snap). destructive st)) \<and>
     (ms_down s = None \<longrightarrow> pm_down m = None \<or>
       (\<exists>plan. plan_up gen parse prev snap (ms_up s) d = Inr plan \<and> pm_down m = up_auto_down plan))"

lemma up_steps_set: "set (up_steps prev now up_text) = set (diff_snapshots prev now)"
  by (simp add: up_steps_def constraint_safe_def)

lemma plan_migration_between:
  assumes "plan_migration gen parse d n s prev snap = Inr m" "parse_snapshot (ms_snapshot s) = Inr snap"
  shows "planned_between gen parse d s prev snap m"
proof -
  have "pm_destructive m \<longleftrightarrow> list_ex destructive (up_steps prev snap (ms_up s))"
    using assms(1) by (auto simp: plan_migration_def Let_def simp del: list_ex_iff split: if_splits)
  then show ?thesis using assms
    by (auto simp: plan_migration_def planned_between_def Let_def list_ex_iff up_steps_set simp del: list.set_map
        split: if_splits option.splits)
qed

lemma load_from_chain:
  "load_from gen parse d i prev ns = Inr ms \<Longrightarrow>
   \<exists>snaps. length snaps = Suc (length ms) \<and> length ns = length ms \<and> snaps ! 0 = prev \<and>
     (\<forall>k < length ms. planned_between gen parse d (snd (ns ! k)) (snaps ! k) (snaps ! Suc k) (ms ! k))"
proof (induction ns arbitrary: i prev ms)
  case Nil
  then show ?case by (intro exI [of _ "[prev]"]) simp
next
  case (Cons x ns)
  obtain n s where x: "x = (n, s)" by (cases x)
  from Cons.prems obtain snap m ms' where s: "parse_snapshot (ms_snapshot s) = Inr snap"
    and m: "plan_migration gen parse d n s prev snap = Inr m"
    and l: "load_from gen parse d (Suc i) snap ns = Inr ms'" and ms: "ms = m # ms'"
    by (auto simp: x split: if_splits)
  from Cons.IH [OF l] obtain snaps where snaps: "length snaps = Suc (length ms')" "length ns = length ms'"
      "snaps ! 0 = snap"
    "\<forall>k < length ms'. planned_between gen parse d (snd (ns ! k)) (snaps ! k) (snaps ! Suc k) (ms' ! k)"
    by blast
  have "planned_between gen parse d (snd ((x # ns) ! k)) ((prev # snaps) ! k) ((prev # snaps) ! Suc k) (ms ! k)"
    if "k < length ms" for k
    using that snaps plan_migration_between [OF m s] by (cases k) (simp_all add: ms x)
  then show ?case using snaps(1,2) by (intro exI [of _ "prev # snaps"]) (simp add: ms)
qed

text \<open>C17: loading establishes what applying relies on: whatever order the files come in, the loaded migrations
  are numbered \<open>1..N\<close> without a gap and have distinct ids, they are exactly the sources given, and
  each is planned between its predecessor's snapshot and its own: its units are the plan of its
  script, its hash is the hash of that script, the script agrees with the diff, and it is marked
  destructive exactly when that diff has a destructive step.\<close>

theorem loaded_migrations_chain:
  assumes "from_sources gen parse d sources = Inr ms"
  shows "well_numbered ms \<and>
    (\<exists>ss snaps. mset ss = mset sources \<and> length ss = length ms \<and> length snaps = Suc (length ms) \<and>
      snaps ! 0 = empty_snapshot \<and>
      (\<forall>k < length ms. planned_between gen parse d (ss ! k) (snaps ! k) (snaps ! Suc k) (ms ! k)))"
proof -
  obtain ns where ns: "map_res numbered_source sources = Inr ns"
    and l: "load_from gen parse d 1 empty_snapshot (sort_key fst ns) = Inr ms"
    using assms by (rule from_sources_Inr)
  obtain snaps where snaps: "length snaps = Suc (length ms)" "length (sort_key fst ns) = length ms"
      "snaps ! 0 = empty_snapshot"
    "\<forall>k < length ms. planned_between gen parse d (snd (sort_key fst ns ! k)) (snaps ! k) (snaps ! Suc k) (ms ! k)"
    using load_from_chain [OF l] by blast
  have "mset (map snd (sort_key fst ns)) = mset sources"
    using numbered_sources [OF ns] by (metis mset_map mset_sort)
  then show ?thesis using snaps loaded_well_numbered [OF assms]
    by (intro conjI exI [of _ "map snd (sort_key fst ns)"] exI [of _ snaps]) simp_all
qed

subsection \<open>The gate\<close>

definition clean :: "gate_finding list \<Rightarrow> bool" where
  "clean fs \<longleftrightarrow> (\<forall>f \<in> set fs. gf_severity f \<noteq> Sev_Problem)"

lemma clean_simps [simp]:
  "clean []" "clean (f # fs) \<longleftrightarrow> gf_severity f \<noteq> Sev_Problem \<and> clean fs" "clean (a @ b) \<longleftrightarrow> clean a \<and> clean b"
  by (auto simp: clean_def)

lemma of_migration_severity [simp]: "gf_severity (of_migration s sev m) = sev"
  by (simp add: of_migration_def)

lemma raw_warnings_clean: "raw_warnings name s sts = Some ws \<Longrightarrow> clean ws"
  by (induction name s sts arbitrary: ws rule: raw_warnings.induct)
    (auto split: if_splits simp: bind_eq_Some_conv)

lemma problems_of_clean [simp]: "clean (problems_of s ps) \<longleftrightarrow> ps = []"
  by (cases ps) (simp_all add: problems_of_def)

lemma plan_in_order_problems: "plan_in_order gen parse file from to steps sc d \<noteq> Inl []"
  by (auto simp: plan_in_order_def walk_end_def Let_def split: sum.split)

lemma plan_up_problems: "plan_up gen parse prev snap t d \<noteq> Inl []"
  by (auto simp: plan_up_def legacy_plan_def Let_def plan_in_order_problems split: sum.split option.split)

lemma plan_down_problems: "plan_down gen parse prev snap t d \<noteq> Inl []"
  by (auto simp: plan_down_def Let_def and_then_Inl_iff plan_in_order_problems)

lemma up_findings_clean: "clean (up_findings gen parse d s prev snap) \<longleftrightarrow> (\<exists>plan. plan_up gen parse prev snap (ms_up s) d = Inr plan)"
  using plan_up_problems [of gen parse prev snap "ms_up s" d] by (auto simp: up_findings_def split: sum.splits)

lemma down_findings_clean:
  "clean (down_findings gen parse d s prev snap) \<longleftrightarrow>
   (\<forall>t. ms_down s = Some t \<longrightarrow> (\<exists>plan. plan_down gen parse prev snap t d = Inr plan))"
  using plan_down_problems [of gen parse prev snap _ d]
  by (auto simp: down_findings_def split: sum.splits option.splits)

lemma check_up_mig_clean:
  "check_up_mig s steps snap = Some fs \<Longrightarrow> clean fs \<longleftrightarrow> up_mig_matches_snapshot (ms_up s) steps"
  by (auto simp: check_up_mig_def dest: raw_warnings_clean split: if_splits)

lemma number_findings_clean:
  "Suc idx < 2 ^ 32 \<Longrightarrow> clean (number_findings s idx) \<longleftrightarrow> source_number s = Some (Suc idx)"
  by (simp add: number_findings_def)

lemma plan_migration_iff:
  "(\<exists>m. plan_migration gen parse d n s prev snap = Inr m) \<longleftrightarrow>
   up_mig_matches_snapshot (ms_up s) (up_steps prev snap (ms_up s)) \<and>
   (\<exists>plan. plan_up gen parse prev snap (ms_up s) d = Inr plan) \<and>
   (\<forall>t. ms_down s = Some t \<longrightarrow> (\<exists>plan. plan_down gen parse prev snap t d = Inr plan))"
  by (cases "plan_up gen parse prev snap (ms_up s) d"; cases "ms_down s";
      cases "plan_down gen parse prev snap (the (ms_down s)) d") (auto simp: plan_migration_def Let_def)

text \<open>The sources load in the order they are given.\<close>

definition loads_from :: "(dialect \<Rightarrow> str \<Rightarrow> str option) \<Rightarrow> parser \<Rightarrow> dialect \<Rightarrow> nat \<Rightarrow> snapshot \<Rightarrow> migration_source list \<Rightarrow> bool" where
  "loads_from gen parse d i prev sources \<longleftrightarrow>
     (\<exists>ns ms. map_res numbered_source sources = Inr ns \<and> load_from gen parse d i prev ns = Inr ms)"

lemma loads_from_Nil [simp]: "loads_from gen parse d i prev []"
  by (simp add: loads_from_def)

lemma loads_from_Cons:
  "loads_from gen parse d i prev (s # ss) \<longleftrightarrow> source_number s = Some i \<and>
     (\<exists>snap. parse_snapshot (ms_snapshot s) = Inr snap \<and> (\<exists>m. plan_migration gen parse d i s prev snap = Inr m) \<and>
       loads_from gen parse d (Suc i) snap ss)"
proof (cases "source_number s")
  case None
  then show ?thesis by (auto simp: loads_from_def numbered_source_Inr)
next
  case (Some n)
  then have "numbered_source s = Inr (n, s)" by (simp add: numbered_source_Inr)
  then show ?thesis using Some by (cases "map_res numbered_source ss") (auto simp: loads_from_def)
qed

lemma verify_from_loads:
  "verify_from gen parse d idx prev sources = Some (fs, out) \<Longrightarrow> idx + length sources < 2 ^ 32 \<Longrightarrow>
   clean fs \<longleftrightarrow> loads_from gen parse d (Suc idx) prev sources"
proof (induction sources arbitrary: idx prev fs)
  case (Cons s ss)
  show ?case
  proof (cases "parse_snapshot (ms_snapshot s)")
    case (Inl e)
    with Cons.prems(1) show ?thesis by (cases e) (auto simp: loads_from_Cons)
  next
    case (Inr snap)
    with Cons.prems(1) obtain checked fs' where c: "check_up_mig s (up_steps prev snap (ms_up s)) snap = Some checked"
      and v: "verify_from gen parse d (Suc idx) snap ss = Some (fs', out)"
      and fs: "fs = number_findings s idx @ checked @ up_findings gen parse d s prev snap @
             down_findings gen parse d s prev snap @ fs'"
      by (auto simp: bind_eq_Some_conv)
    have "clean fs' \<longleftrightarrow> loads_from gen parse d (Suc (Suc idx)) snap ss"
      using Cons.prems(2) by (intro Cons.IH [OF v]) simp
    moreover have "Suc idx < 2 ^ 32" using Cons.prems(2) by simp
    ultimately show ?thesis
      by (simp add: fs loads_from_Cons Inr number_findings_clean check_up_mig_clean [OF c] up_findings_clean
          down_findings_clean plan_migration_iff)
  qed
qed simp

definition scoped_findings :: "gate_finding list \<Rightarrow> bool" where
  "scoped_findings fs \<longleftrightarrow> (\<forall>f \<in> set fs. gf_migration f \<noteq> None)"

lemma scoped_simps [simp]:
  "scoped_findings []" "scoped_findings (f # fs) \<longleftrightarrow> gf_migration f \<noteq> None \<and> scoped_findings fs"
  "scoped_findings (a @ b) \<longleftrightarrow> scoped_findings a \<and> scoped_findings b"
  by (auto simp: scoped_findings_def)

lemma of_migration_scope [simp]: "gf_migration (of_migration s sev m) = Some (ms_id s)"
  by (simp add: of_migration_def)

lemma scoped_parts [simp]:
  "scoped_findings (number_findings s idx)" "scoped_findings (problems_of s ps)"
  "scoped_findings (up_findings gen parse d s prev snap)" "scoped_findings (down_findings gen parse d s prev snap)"
  by (auto simp: number_findings_def up_findings_def down_findings_def problems_of_def scoped_findings_def
      split: sum.splits option.splits)

lemma raw_warnings_scoped: "raw_warnings name s sts = Some ws \<Longrightarrow> scoped_findings ws"
  by (induction name s sts arbitrary: ws rule: raw_warnings.induct)
    (auto split: if_splits simp: bind_eq_Some_conv)

lemma check_up_mig_scoped: "check_up_mig s steps snap = Some fs \<Longrightarrow> scoped_findings fs"
  by (auto simp: check_up_mig_def dest: raw_warnings_scoped)

lemma verify_from_scoped: "verify_from gen parse d idx prev sources = Some (fs, out) \<Longrightarrow> scoped_findings fs"
  by (induction sources arbitrary: idx prev fs)
    (auto simp: bind_eq_Some_conv dest: check_up_mig_scoped split: sum.splits snap_error.splits)

lemma loads_in_order:
  "loads_from gen parse d 1 empty_snapshot sources \<longleftrightarrow>
   (\<exists>ms. from_sources gen parse d sources = Inr ms \<and> map pm_id ms = map ms_id sources)"
proof
  assume "loads_from gen parse d 1 empty_snapshot sources"
  then obtain ns ms where ns: "map_res numbered_source sources = Inr ns"
    and l: "load_from gen parse d 1 empty_snapshot ns = Inr ms" by (auto simp: loads_from_def)
  have "sorted (map fst ns)" using load_from_numbers [OF l] by (metis sorted_upt)
  then have "from_sources gen parse d sources = Inr ms"
    using ns l by (simp add: from_sources_def sort_key_sorted)
  then show "\<exists>ms. from_sources gen parse d sources = Inr ms \<and> map pm_id ms = map ms_id sources"
    using load_from_numbers [OF l] numbered_sources [OF ns] by (auto simp: comp_def)
next
  assume "\<exists>ms. from_sources gen parse d sources = Inr ms \<and> map pm_id ms = map ms_id sources"
  then obtain ms ns where ns: "map_res numbered_source sources = Inr ns"
    and l: "load_from gen parse d 1 empty_snapshot (sort_key fst ns) = Inr ms"
    and i: "map pm_id ms = map ms_id sources" by (meson from_sources_Inr)
  note L = load_from_numbers [OF l]
  let ?f = "\<lambda>x. the (migration_number (ms_id (snd x)))"
  have f: "map ?f xs = map fst xs" if "set xs \<subseteq> set ns" for xs
    using numbered_sources [OF ns] that by (intro map_cong) (fastforce dest: subsetD)+
  have "map (ms_id \<circ> snd) (sort_key fst ns) = map (ms_id \<circ> snd) ns"
    using L i numbered_sources [OF ns] by (metis map_map)
  then have "map (the \<circ> migration_number) (map (ms_id \<circ> snd) (sort_key fst ns)) =
      map (the \<circ> migration_number) (map (ms_id \<circ> snd) ns)" by simp
  then have "map ?f (sort_key fst ns) = map ?f ns" by (simp add: comp_def)
  then have "map fst (sort_key fst ns) = map fst ns" using f [of ns] f [of "sort_key fst ns"] by simp
  then have "sorted (map fst ns)" using L by (metis sorted_upt)
  then show "loads_from gen parse d 1 empty_snapshot sources"
    using ns l by (auto simp: loads_from_def sort_key_sorted)
qed

lemma gate_iff_loads:
  assumes "verify_migrations gen parse d current sources = Some fs" "length sources < 2 ^ 32"
  shows "(\<exists>f \<in> set fs. gf_severity f = Sev_Problem \<and> gf_migration f \<noteq> None) \<longleftrightarrow>
    \<not> (\<exists>ms. from_sources gen parse d sources = Inr ms \<and> map pm_id ms = map ms_id sources)"
proof -
  obtain gs out where v: "verify_from gen parse d 0 empty_snapshot sources = Some (gs, out)"
    and fs: "fs = gs @ (case uncaptured_message sources out current of
         None \<Rightarrow> [] | Some m \<Rightarrow> [\<lparr>gf_migration = None, gf_severity = Sev_Problem, gf_message = m\<rparr>])"
    using assms(1) by (auto simp: verify_migrations_def)
  have "(\<exists>f \<in> set fs. gf_severity f = Sev_Problem \<and> gf_migration f \<noteq> None) \<longleftrightarrow> \<not> clean gs"
    using verify_from_scoped [OF v] by (auto simp: fs clean_def scoped_findings_def split: option.splits)
  then show ?thesis using verify_from_loads [OF v] assms(2) by (simp add: loads_in_order [unfolded One_nat_def])
qed

text \<open>C11: the offline gate and the runner agree: on any set of migrations, \<open>verify\<close> reports a problem with
  one of them exactly when loading the set, on the same dialect, either refuses it or runs it in an
  order other than the one given. What passes the gate is what can be applied.\<close>

theorem gate_passes_what_loads:
  assumes "verify_migrations gen parse d current sources = Some fs" "length sources < 2 ^ 32"
  shows "(\<exists>f \<in> set fs. gf_severity f = Sev_Problem \<and> gf_migration f \<noteq> None) \<longleftrightarrow>
    \<not> (\<exists>ms. from_sources gen parse d sources = Inr ms \<and> map pm_id ms = map ms_id sources)"
  using assms by (rule gate_iff_loads)

end
