(* ===== verification/Generate.thy ===== *)
theory Generate
  imports Gen_Script Load_Props Plan_Props
begin

text \<open>
  \<open>based migrate gen\<close> (\<open>based-cli/src/migrate.rs\<close>): the next migration from the recorded ones and the
  snapshot of the current schema, and what loading makes of it. Writing the files, the messages and
  the removal of spent \<open>@was\<close> directives from the sources are left out.
\<close>

subsection \<open>The command\<close>

text \<open>The numbered directories, in order; \<open>parse\<close> of the number as in \<open>read_migrations\<close>.\<close>

fun numbered_dirs :: "(str + str \<times> (str + bool)) list \<Rightarrow> str + (nat \<times> str) list" where
  "numbered_dirs [] = Inr []"
| "numbered_dirs (entry # rest) =
     and_then entry (\<lambda>(name, is_dir). and_then is_dir (\<lambda>dir. and_then (numbered_dirs rest) (\<lambda>ds.
       Inr ((case (if dir then migration_number name else None) of None \<Rightarrow> [] | Some n \<Rightarrow> [(n, name)]) @ ds))))"

definition existing_migrations :: "(str + (str + str \<times> (str + bool)) list) option \<Rightarrow> str + (nat \<times> str) list" where
  "existing_migrations listing = (case listing of
       None \<Rightarrow> Inr []
     | Some dir \<Rightarrow> and_then dir (\<lambda>es. and_then (numbered_dirs es) (\<lambda>ds. Inr (sort_key fst ds))))"

definition migration_slug :: "str option \<Rightarrow> nat \<Rightarrow> str" where
  "migration_slug name number = (case name of
       Some n \<Rightarrow> snake_case (map (\<lambda>c. if c = CHR '' '' \<or> c = CHR ''-'' then CHR ''_'' else c) n)
     | None \<Rightarrow> (if number = 1 then ''init'' else ''schema_update''))"

text \<open>The baseline is the snapshot of the last migration. The number after the largest 32-bit one
  wraps, as in a release build.\<close>

definition latest_snapshot :: "migration_source list \<Rightarrow> snapshot snap_result" where
  "latest_snapshot existing = (if existing = [] then Inr empty_snapshot else parse_snapshot (ms_snapshot (last existing)))"

definition next_number :: "migration_source list \<Rightarrow> nat" where
  "next_number existing =
     (if existing = [] then 1
      else case source_number (last existing) of Some n \<Rightarrow> (n + 1) mod 2 ^ 32 | None \<Rightarrow> 1)"

definition migrate_gen :: "migration_source list \<Rightarrow> str option \<Rightarrow> bool \<Rightarrow> snapshot \<Rightarrow> migration_source option snap_result" where
  "migrate_gen existing name data now =
     and_then (latest_snapshot existing) (\<lambda>prev.
       let steps = diff_snapshots prev now; number = next_number existing in
       if steps = [] \<and> \<not> data then Inr None
       else Inr (Some \<lparr>ms_id = padded number @ ''_'' @ migration_slug name number, ms_up = render_up steps,
         ms_down = Some (render_down prev now), ms_snapshot = render_snapshot now\<rparr>))"

subsection \<open>The number of a generated migration\<close>

lemma padded_digits: "c \<in> set (padded n) \<Longrightarrow> dec_digit c \<and> c \<noteq> CHR ''_'' \<and> c \<noteq> CHR ''+''"
  by (auto simp: padded_def dec_digit_def Let_def dest: dec_chars)

lemma padded_value: "foldl (\<lambda>m c. 10 * m + ((of_char c :: nat) - 48)) 0 (padded n) = n"
proof -
  have "foldl (\<lambda>m c. 10 * m + ((of_char c :: nat) - 48)) 0 (replicate k (CHR ''0'')) = 0" for k
    by (induction k) simp_all
  then show ?thesis by (simp add: padded_def dec_value)
qed

lemma parse_padded: "n < 2 ^ 32 \<Longrightarrow> parse_u32 (padded n) = Some n"
proof -
  assume n: "n < 2 ^ 32"
  obtain c r where p: "padded n = c # r" by (cases "padded n") (simp_all add: padded_def)
  then have "c \<noteq> CHR ''+''" using padded_digits [of c n] by simp
  then show ?thesis using n padded_value [of n] padded_digits [of _ n]
    by (simp add: parse_u32_def Let_def p list_all_iff)
qed

lemma generated_number: "n < 2 ^ 32 \<Longrightarrow> migration_number (padded n @ ''_'' @ slug) = Some n"
proof -
  assume "n < 2 ^ 32"
  moreover have "CHR ''_'' \<notin> set (padded n)" using padded_digits by blast
  ultimately show ?thesis by (simp add: migration_number_def parse_padded)
qed

subsection \<open>Appending to a history that loads\<close>

lemma load_from_snoc:
  "load_from gen parse d i prev ns = Inr ms \<Longrightarrow>
   (if ns = [] then Inr prev else parse_snapshot (ms_snapshot (snd (last ns)))) = Inr before \<Longrightarrow>
   parse_snapshot (ms_snapshot s) = Inr snap \<Longrightarrow>
   plan_migration gen parse d (i + length ns) s before snap = Inr m \<Longrightarrow>
   load_from gen parse d i prev (ns @ [(i + length ns, s)]) = Inr (ms @ [m])"
proof (induction ns arbitrary: i prev ms)
  case (Cons x ns)
  obtain n x' where x: "x = (n, x')" by (cases x)
  from Cons.prems(1) obtain snap' m' ms' where n: "n = i" and sn: "parse_snapshot (ms_snapshot x') = Inr snap'"
    and m: "plan_migration gen parse d n x' prev snap' = Inr m'"
    and l: "load_from gen parse d (Suc i) snap' ns = Inr ms'" and ms: "ms = m' # ms'"
    by (auto simp: x split: if_splits)
  have "load_from gen parse d (Suc i) snap' (ns @ [(Suc i + length ns, s)]) = Inr (ms' @ [m])"
    using Cons.prems(2-4) sn by (intro Cons.IH [OF l]) (auto simp: x split: if_splits)
  then show ?case using n sn m by (simp add: x ms)
qed simp

text \<open>The sources load, in the order given, up to a snapshot.\<close>

lemma loads_snoc:
  assumes "from_sources gen parse d sources = Inr ms" "map pm_id ms = map ms_id sources"
    and "latest_snapshot sources = Inr before" "parse_snapshot (ms_snapshot s) = Inr snap"
    and "source_number s = Some (Suc (length sources))"
    and "plan_migration gen parse d (Suc (length sources)) s before snap = Inr m"
  shows "from_sources gen parse d (sources @ [s]) = Inr (ms @ [m])"
proof -
  have "loads_from gen parse d 1 empty_snapshot sources" using assms(1,2) loads_in_order by blast
  then obtain ns ms' where ns: "map_res numbered_source sources = Inr ns"
    and l: "load_from gen parse d 1 empty_snapshot ns = Inr ms'" by (auto simp: loads_from_def)
  have len: "length ns = length sources" using ns by (rule map_res_length)
  have sorted: "map fst ns = [1..<1 + length ns]" using load_from_numbers [OF l] by simp
  then have "sort_key fst ns = ns" by (metis sort_key_sorted sorted_upt)
  then have ms: "ms' = ms" using ns l assms(1) by (simp add: from_sources_def)
  have last: "snd (last ns) = last sources" if "ns \<noteq> []"
    using numbered_sources [OF ns] that by (metis last_map)
  have "load_from gen parse d 1 empty_snapshot (ns @ [(1 + length ns, s)]) = Inr (ms @ [m])"
    using l assms(3,4,6) last len unfolding ms
    by (intro load_from_snoc [where before = before and snap = snap]) (auto simp: latest_snapshot_def split: if_splits)
  moreover have "map_res numbered_source (sources @ [s]) = Inr (ns @ [(1 + length ns, s)])"
    using ns assms(5) len by (intro map_res_append) (simp_all add: numbered_source_Inr)
  moreover have "sort_key fst (ns @ [(1 + length ns, s)]) = ns @ [(1 + length ns, s)]"
  proof (rule sort_key_sorted)
    have "map fst (ns @ [(1 + length ns, s)]) = [1..<1 + length ns + 1]" using sorted by simp
    then show "sorted (map fst (ns @ [(1 + length ns, s)]))" by (metis sorted_upt)
  qed
  ultimately show ?thesis by (simp add: from_sources_def)
qed

subsection \<open>A generated migration\<close>

lemma snapshot_wf_target: "text_ok prev \<Longrightarrow> text_ok now \<Longrightarrow> text_ok (rollback_target prev now)"
proof -
  assume p: "text_ok prev" and n: "text_ok now"
  have tb: "ident x \<Longrightarrow> list_all rename_ok rs \<Longrightarrow> ident (table_back rs x)" for rs x
    by (induction rs x rule: table_back.induct) auto
  have "rename_ok (rename_back (s_renames now) r)" if "r \<in> set (s_renames now)" for r
    using n that tb [of _ "s_renames now"] by (cases r) (auto simp: text_ok_def list_all_iff [of rename_ok])
  then show ?thesis using p by (simp add: rollback_target_def text_ok_def list_all_iff [of rename_ok])
qed

lemma ordered_ok: "list_all step_ok steps \<Longrightarrow> list_all step_ok (constraint_safe steps)"
  by (simp add: constraint_safe_def list_all_iff)

lemma generated_up:
  assumes "text_ok prev" "text_ok now"
  shows "\<exists>stmts. migration_sql gen (constraint_safe (diff_snapshots prev now)) d now = Inr stmts \<and>
    plan_up gen parse prev now (render_up (diff_snapshots prev now)) d = Inr \<lparr>up_units = map Unit_Sql stmts,
      up_review = render_migration gen (constraint_safe (diff_snapshots prev now)) d now, up_auto_down = None, up_has_data = False\<rparr>"
proof -
  have ok: "list_all step_ok (constraint_safe (diff_snapshots prev now))" using assms by (intro ordered_ok diff_steps_ok)
  obtain stmts where u: "migration_sql gen (constraint_safe (diff_snapshots prev now)) d now = Inr stmts"
    using diff_sql_total by blast
  then show ?thesis using plan_in_order_plain [OF render_up_items(1) [OF ok] u, of parse "''up.mig''" prev]
    by (simp add: plan_up_def Let_def render_up_def render_up_in_order)
qed

lemma generated_down:
  assumes "text_ok prev" "text_ok now"
  shows "\<exists>reverse_sql r. migration_sql gen (down_steps prev now) d (rollback_target prev now) = Inr reverse_sql \<and>
    plan_down gen parse prev now (render_down prev now) d = Inr (when_units (map Unit_Sql reverse_sql) r)"
proof -
  let ?t = "rollback_target prev now"
  have ok: "list_all step_ok (down_steps prev now)"
    unfolding down_steps_def using assms snapshot_wf_target by (intro ordered_ok diff_steps_ok)
  obtain reverse_sql where b: "migration_sql gen (down_steps prev now) d ?t = Inr reverse_sql"
    using diff_sql_total [of gen now ?t d] unfolding down_steps_def by blast
  then show ?thesis
    using plan_in_order_plain [OF render_down_items [OF ok] b, of parse "''down.mig''" now] render_down_in_order [OF ok]
    by (simp add: plan_down_def Let_def render_down_def down_mig_matches_def) blast
qed

lemma generated_steps:
  "up_steps prev now (render_up (diff_snapshots prev now)) = constraint_safe (diff_snapshots prev now)"
  "up_mig_matches_snapshot (render_up (diff_snapshots prev now)) (constraint_safe (diff_snapshots prev now))"
  by (simp_all add: up_steps_def up_mig_matches_snapshot_def render_up_def render_up_in_order)

lemma generated_plans:
  assumes "text_ok prev" "text_ok now"
    and "ms_up s = render_up (diff_snapshots prev now)" "ms_down s = Some (render_down prev now)"
  shows "\<exists>stmts reverse_sql m. migration_sql gen (constraint_safe (diff_snapshots prev now)) d now = Inr stmts \<and>
    migration_sql gen (down_steps prev now) d (rollback_target prev now) = Inr reverse_sql \<and>
    plan_migration gen parse d n s prev now = Inr m \<and>
    pm_up m = map Unit_Sql stmts \<and> pm_down m = (if reverse_sql = [] then None else Some (map Unit_Sql reverse_sql)) \<and>
    (pm_destructive m \<longleftrightarrow> (\<exists>st \<in> set (diff_snapshots prev now). destructive st))"
proof -
  obtain stmts where u: "migration_sql gen (constraint_safe (diff_snapshots prev now)) d now = Inr stmts"
      "plan_up gen parse prev now (ms_up s) d = Inr \<lparr>up_units = map Unit_Sql stmts,
      up_review = render_migration gen (constraint_safe (diff_snapshots prev now)) d now, up_auto_down = None, up_has_data = False\<rparr>"
    using generated_up [OF assms(1,2)] assms(3) by metis
  obtain reverse_sql r where b: "migration_sql gen (down_steps prev now) d (rollback_target prev now) = Inr reverse_sql"
      "plan_down gen parse prev now (render_down prev now) d = Inr (when_units (map Unit_Sql reverse_sql) r)"
    using generated_down [OF assms(1,2)] by metis
  have "set (constraint_safe (diff_snapshots prev now)) = set (diff_snapshots prev now)" by (simp add: constraint_safe_def)
  then show ?thesis using u b generated_steps [of prev now] assms(3,4)
    by (cases reverse_sql) (simp_all add: plan_migration_def Let_def when_units_def list_ex_iff)
qed

lemma generated_next:
  assumes "from_sources gen parse d sources = Inr ms" "map pm_id ms = map ms_id sources"
    and "latest_snapshot sources = Inr prev" "migrate_gen sources name data now = Inr (Some s)" "length sources + 1 < 2 ^ 32"
  shows "source_number s = Some (Suc (length sources)) \<and> ms_up s = render_up (diff_snapshots prev now) \<and>
    ms_down s = Some (render_down prev now) \<and> ms_snapshot s = render_snapshot now"
proof -
  let ?n = "Suc (length sources)"
  have "loads_from gen parse d 1 empty_snapshot sources" using assms(1,2) loads_in_order by blast
  then obtain ns ms' where ns: "map_res numbered_source sources = Inr ns"
    and l: "load_from gen parse d 1 empty_snapshot ns = Inr ms'" by (auto simp: loads_from_def)
  have len: "length ns = length sources" using ns by (rule map_res_length)
  have "map source_number sources = map (Some \<circ> fst) ns"
    using numbered_sources [OF ns] by (auto simp: source_number_def)
  then have "map source_number sources = map Some [1..<1 + length sources]"
    using load_from_numbers [OF l] len by (metis list.map_comp)
  then have number: "next_number sources = ?n"
    using assms(5) by (cases sources rule: rev_cases) (auto simp: next_number_def)
  have s: "s = \<lparr>ms_id = padded ?n @ ''_'' @ migration_slug name ?n, ms_up = render_up (diff_snapshots prev now),
         ms_down = Some (render_down prev now), ms_snapshot = render_snapshot now\<rparr>"
    using assms(3,4) by (auto simp: migrate_gen_def Let_def number split: if_splits)
  have "source_number s = Some ?n"
    using assms(5) by (simp only: s source_number_def migration_source.simps) (rule generated_number, simp)
  then show ?thesis by (simp add: s)
qed

lemma generated_loads:
  assumes "from_sources gen parse d sources = Inr ms" "map pm_id ms = map ms_id sources"
    and "latest_snapshot sources = Inr prev" "text_ok prev" "text_ok now" "length sources + 1 < 2 ^ 32"
    and "migrate_gen sources name data now = Inr (Some s)"
  shows "\<exists>m stmts reverse_sql. from_sources gen parse d (sources @ [s]) = Inr (ms @ [m]) \<and> pm_id m = ms_id s \<and>
    migration_sql gen (constraint_safe (diff_snapshots prev now)) d now = Inr stmts \<and> pm_up m = map Unit_Sql stmts \<and>
    migration_sql gen (down_steps prev now) d (rollback_target prev now) = Inr reverse_sql \<and>
    pm_down m = (if reverse_sql = [] then None else Some (map Unit_Sql reverse_sql)) \<and>
    (pm_destructive m \<longleftrightarrow> (\<exists>st \<in> set (diff_snapshots prev now). destructive st))"
proof -
  let ?n = "Suc (length sources)"
  note s = generated_next [OF assms(1-3,7,6)]
  have p: "parse_snapshot (ms_snapshot s) = Inr now" using parse_render [OF assms(5)] s by simp
  obtain stmts reverse_sql m where m: "migration_sql gen (constraint_safe (diff_snapshots prev now)) d now = Inr stmts"
      "migration_sql gen (down_steps prev now) d (rollback_target prev now) = Inr reverse_sql"
      "plan_migration gen parse d ?n s prev now = Inr m" "pm_up m = map Unit_Sql stmts"
      "pm_down m = (if reverse_sql = [] then None else Some (map Unit_Sql reverse_sql))"
      "pm_destructive m \<longleftrightarrow> (\<exists>st \<in> set (diff_snapshots prev now). destructive st)"
    using generated_plans [OF assms(4,5), of s gen d parse ?n] s by metis
  have "from_sources gen parse d (sources @ [s]) = Inr (ms @ [m])"
    using assms(1-3) p conjunct1 [OF s] m(3) by (rule loads_snoc)
  then show ?thesis using m plan_migration_named [OF m(3)] by blast
qed


subsection \<open>Histories that were only generated\<close>

text \<open>What a project that never edits a migration holds after some runs of \<open>migrate gen\<close>, each on the
  schema of its time.\<close>

inductive generated_history :: "migration_source list \<Rightarrow> snapshot \<Rightarrow> bool" where
  no_migrations: "generated_history [] empty_snapshot"
| next_migration: "generated_history ss prev \<Longrightarrow> text_ok now \<Longrightarrow> length ss + 1 < 2 ^ 32 \<Longrightarrow>
    migrate_gen ss name data now = Inr (Some s) \<Longrightarrow> generated_history (ss @ [s]) now"

lemma text_ok_empty: "text_ok empty_snapshot"
  by (simp add: text_ok_def empty_snapshot_def)

lemma generated_source:
  assumes "latest_snapshot ss = Inr prev" "migrate_gen ss name data now = Inr (Some s)"
  shows "ms_up s = render_up (diff_snapshots prev now) \<and> ms_down s = Some (render_down prev now) \<and>
    ms_snapshot s = render_snapshot now"
  using assms by (auto simp: migrate_gen_def Let_def split: if_splits)

lemma generated_history_latest:
  "generated_history ss now \<Longrightarrow> latest_snapshot ss = Inr now \<and> text_ok now"
proof (induction rule: generated_history.induct)
  case no_migrations
  then show ?case by (simp add: latest_snapshot_def text_ok_empty)
next
  case (next_migration ss prev now name data s)
  then show ?case using generated_source [OF _ next_migration.hyps(4), of prev] parse_render [of now]
    by (simp add: latest_snapshot_def)
qed

lemma generated_history_loads:
  "generated_history ss now \<Longrightarrow> \<exists>ms. from_sources gen parse d ss = Inr ms \<and> map pm_id ms = map ms_id ss"
proof (induction rule: generated_history.induct)
  case no_migrations
  then show ?case by (simp add: from_sources_def)
next
  case (next_migration ss prev now name data s)
  from next_migration.IH obtain ms where ms: "from_sources gen parse d ss = Inr ms" "map pm_id ms = map ms_id ss" by blast
  have p: "latest_snapshot ss = Inr prev" "text_ok prev" using generated_history_latest [OF next_migration.hyps(1)] by simp_all
  from generated_loads [OF ms p next_migration.hyps(2-4)]
  obtain m where "from_sources gen parse d (ss @ [s]) = Inr (ms @ [m])" "pm_id m = ms_id s" by blast
  then show ?case using ms(2) by (intro exI [of _ "ms @ [m]"]) simp
qed

lemma verify_from_snoc:
  "verify_from gen parse d idx prev ss = Some ([], before) \<Longrightarrow>
   verify_from gen parse d (idx + length ss) before [s] = Some (fs, out) \<Longrightarrow>
   verify_from gen parse d idx prev (ss @ [s]) = Some (fs, out)"
proof (induction ss arbitrary: idx prev)
  case (Cons x ss)
  show ?case
  proof (cases "parse_snapshot (ms_snapshot x)")
    case (Inl e)
    with Cons.prems(1) show ?thesis by (cases e) auto
  next
    case (Inr snap)
    with Cons.prems(1) obtain checked gs where c: "check_up_mig x (up_steps prev snap (ms_up x)) snap = Some checked"
      and v: "verify_from gen parse d (Suc idx) snap ss = Some (gs, before)"
      and e: "number_findings x idx = []" "checked = []" "up_findings gen parse d x prev snap = []"
        "down_findings gen parse d x prev snap = []" "gs = []"
      by (auto simp: bind_eq_Some_conv)
    have "verify_from gen parse d (Suc idx) snap (ss @ [s]) = Some (fs, out)"
      using Cons.IH [of "Suc idx" snap] v e(5) Cons.prems(2) by simp
    then show ?thesis using c e by (simp add: Inr)
  qed
qed simp

lemma generated_verifies:
  assumes "text_ok prev" "text_ok now" "latest_snapshot ss = Inr prev" "migrate_gen ss name data now = Inr (Some s)"
    and "source_number s = Some (Suc (length ss))" "length ss + 1 < 2 ^ 32"
  shows "verify_from gen parse d (length ss) prev [s] = Some ([], now)"
proof -
  let ?steps = "diff_snapshots prev now"
  note s = generated_source [OF assms(3,4)]
  have ok: "list_all step_ok (constraint_safe ?steps)" using assms(1,2) by (intro ordered_ok diff_steps_ok)
  have "parse_raw_steps (ms_up s) = []" "\<not> has_raw_step (ms_up s)"
    using render_up_items [OF ok] by (simp_all add: s parse_raw_steps_def render_up_def)
  then have "check_up_mig s (up_steps prev now (ms_up s)) now = Some []"
    using generated_steps [of prev now] by (simp add: check_up_mig_def s)
  moreover have "up_findings gen parse d s prev now = []"
    using generated_up [OF assms(1,2), of gen d parse] by (auto simp: up_findings_def s)
  moreover have "down_findings gen parse d s prev now = []"
    using generated_down [OF assms(1,2), of gen d parse] by (auto simp: down_findings_def s)
  moreover have "number_findings s (length ss) = []" using assms(5,6) by (simp add: number_findings_def)
  ultimately show ?thesis using parse_render [OF assms(2)] by (simp add: s)
qed

lemma generated_history_number:
  assumes "generated_history ss prev" "migrate_gen ss name data now = Inr (Some s)" "length ss + 1 < 2 ^ 32"
  shows "source_number s = Some (Suc (length ss))"
proof -
  obtain ms where "from_sources undefined undefined Sqlite ss = Inr ms" "map pm_id ms = map ms_id ss"
    using generated_history_loads [OF assms(1)] by blast
  with generated_next [OF this, of prev] generated_history_latest [OF assms(1)] assms(2,3) show ?thesis by simp
qed

lemma generated_history_verifies:
  "generated_history ss now \<Longrightarrow> verify_from gen parse d 0 empty_snapshot ss = Some ([], now)"
proof (induction rule: generated_history.induct)
  case (next_migration ss prev now name data s)
  note h = generated_history_latest [OF next_migration.hyps(1)]
  have "verify_from gen parse d (0 + length ss) prev [s] = Some ([], now)"
    using generated_verifies [OF conjunct2 [OF h] next_migration.hyps(2) conjunct1 [OF h] next_migration.hyps(4)
        generated_history_number [OF next_migration.hyps(1,4,3)] next_migration.hyps(3)] by simp
  then show ?case by (rule verify_from_snoc [OF next_migration.IH])
qed simp

lemma generated_gate:
  assumes "generated_history ss now" "wf_snapshot now"
  shows "verify_migrations gen parse d now ss = Some []"
proof -
  have v: "verify_from gen parse d 0 empty_snapshot ss = Some ([], now)" using assms(1) by (rule generated_history_verifies)
  have "uncaptured_message ss now now = None"
    using diff_self [OF assms(2)] v by (cases ss) (auto simp: uncaptured_message_def empty_snapshot_def)
  then show ?thesis using v by (simp add: verify_migrations_def)
qed


subsection \<open>Samples\<close>

definition generated_source_of :: "migration_source list \<Rightarrow> snapshot \<Rightarrow> migration_source" where
  "generated_source_of existing now = (case migrate_gen existing None False now of
       Inr (Some s) \<Rightarrow> s
     | _ \<Rightarrow> \<lparr>ms_id = [], ms_up = [], ms_down = None, ms_snapshot = []\<rparr>)"

definition first_card :: migration_source where
  "first_card = generated_source_of [] card_before"

definition second_card :: migration_source where
  "second_card = generated_source_of [first_card] card_after"

lemma card_snapshots:
  "text_ok card_before" "text_ok card_after" "wf_snapshot card_after"
  "diff_snapshots empty_snapshot card_before \<noteq> []" "diff_snapshots card_before card_after \<noteq> []"
  by code_simp+

lemma generated_source_of_step:
  "latest_snapshot ss = Inr prev \<Longrightarrow> diff_snapshots prev now \<noteq> [] \<Longrightarrow>
   migrate_gen ss None False now = Inr (Some (generated_source_of ss now))"
  by (simp add: generated_source_of_def migrate_gen_def Let_def)

lemma first_card_step: "migrate_gen [] None False card_before = Inr (Some first_card)"
  unfolding first_card_def
  using card_snapshots(4) by (intro generated_source_of_step [where prev = empty_snapshot]) (simp_all add: latest_snapshot_def)

lemma first_history: "generated_history [first_card] card_before"
  using generated_history.next_migration [OF no_migrations card_snapshots(1) _ first_card_step] by simp

lemma second_card_step: "migrate_gen [first_card] None False card_after = Inr (Some second_card)"
  unfolding second_card_def
  using card_snapshots(5) generated_history_latest [OF first_history] by (intro generated_source_of_step) simp_all

lemma card_history: "generated_history [first_card, second_card] card_after"
  using generated_history.next_migration [OF first_history card_snapshots(2) _ second_card_step] by simp



theorem gate_passes_what_loads_witness:
  "\<exists>ms. from_sources (\<lambda>d s. None) (\<lambda>s. Inl []) Sqlite [first_card, second_card] = Inr ms \<and>
    map pm_id ms = map ms_id [first_card, second_card]"
  using gate_passes_what_loads [OF generated_gate [OF card_history card_snapshots(3)], of "\<lambda>d s. None" "\<lambda>s. Inl []" Sqlite] by simp

theorem loaded_migrations_chain_witness:
  "\<exists>ms. from_sources (\<lambda>d s. None) (\<lambda>s. Inl []) Sqlite [first_card, second_card] = Inr ms \<and> well_numbered ms \<and>
    (\<exists>ss snaps. mset ss = mset [first_card, second_card] \<and> length ss = length ms \<and> length snaps = Suc (length ms) \<and>
      snaps ! 0 = empty_snapshot \<and>
      (\<forall>k < length ms. planned_between (\<lambda>d s. None) (\<lambda>s. Inl []) Sqlite (ss ! k) (snaps ! k) (snaps ! Suc k) (ms ! k)))"
proof -
  obtain ms where ms: "from_sources (\<lambda>d s. None) (\<lambda>s. Inl []) Sqlite [first_card, second_card] = Inr ms"
    using generated_history_loads [OF card_history] by blast
  from loaded_migrations_chain [OF ms] ms show ?thesis by blast
qed

text \<open>The search for a table name goes on one byte behind a match, which is inside a character when the
  name starts with one of several bytes: a raw line that names the table as part of a longer word
  makes the gate panic.\<close>

lemma gate_panics_inside_character:
  "let name = [CHR 0xC3, CHR 0xA9] @ ''t'' in
   sql_names_word (''UPDATE '' @ name @ ''_old'') name = None"
  by code_simp

end
