(* ===== verification/Ast.thy ===== *)
theory Ast
  imports Expr_Ast
begin

text \<open>
  The rest of \<open>based-ast/src/lib.rs\<close>: the declarations of a \<open>.bsl\<close> file, node for node, over the
  expressions of \<open>Expr_Ast\<close>. A boxed node is the node; \<open>Spanned<String>\<close> is \<open>ident_node\<close>.
\<close>

subsection \<open>Enums\<close>

datatype variant_value = Variant_Str str | Variant_Int int

record enum_variant =
  ev_name :: ident_node
  ev_value :: "(variant_value \<times> span) option"

record enum_decl =
  en_name :: ident_node
  en_variants :: "enum_variant list"
  en_span :: span

subsection \<open>Types and fields\<close>

record raw_dialect =
  rd_dialect :: ident_node
  rd_text :: ident_node

datatype raw_spec_body = Spec_All ident_node | Spec_Per_Dialect "raw_dialect list"

record raw_spec =
  rw_body :: raw_spec_body
  rw_span :: span

datatype base_type = Base_Primitive primitive | Base_Model ident_node | Base_Raw raw_spec

record type_expr =
  ty_base :: base_type
  ty_optional :: bool
  ty_many :: bool
  ty_span :: span

record inverse_ref =
  iv_model :: ident_node
  iv_field :: ident_node

datatype default_val =
    Default_Lit literal
  | Default_Func ident_node "ast_value list"
  | Default_Variant ident_node

record column_alias =
  ca_part :: ident_node
  ca_column :: str
  ca_span :: span

datatype modifier =
    Mod_Unique
  | Mod_Default default_val
  | Mod_Column str
  | Mod_Column_Map "column_alias list"

datatype sort_dir = Sort_Asc | Sort_Desc
datatype nulls_placement = Nulls_First | Nulls_Last

record sort_term =
  so_path :: path
  so_dir :: sort_dir
  so_nulls :: "nulls_placement option"

record fk_annot =
  fa_reason :: "ident_node option"
  fa_on_delete :: "ident_node option"
  fa_on_update :: "ident_node option"
  fa_span :: span

record no_fk_annot =
  nf_reason :: "ident_node option"
  nf_span :: span

record field_decl =
  fd_name :: ident_node
  fd_ty :: type_expr
  fd_inverse :: "inverse_ref option"
  fd_modifiers :: "modifier list"
  fd_relation_on :: "predicate option"
  fd_sort :: "sort_term list option"
  fd_was :: "ident_node option"
  fd_fk :: "fk_annot option"
  fd_no_fk :: "no_fk_annot option"
  fd_span :: span

subsection \<open>Models\<close>

record generated_field =
  gf_name :: ident_node
  gf_expr :: shape_expr
  gf_span :: span

datatype soft_op = Soft_Restore | Soft_Delete | Soft_Read

record soft_override =
  sv_op :: soft_op
  sv_raw :: raw_sql

record index_decl =
  xd_columns :: "ident_node list"
  xd_unique :: bool
  xd_method :: "ident_node option"
  xd_raw :: "raw_spec option"
  xd_span :: span

datatype member =
    Member_Field field_decl
  | Member_Index index_decl
  | Member_Soft soft_override
  | Member_Generated generated_field

datatype deco_arg =
    Deco_Sort sort_term
  | Deco_Pred predicate
  | Deco_Ident ident_node
  | Deco_Path path
  | Deco_Lit literal

record decorator =
  dk_name :: ident_node
  dk_args :: "deco_arg list"
  dk_span :: span

record scope_ref =
  sr_names :: "ident_node list"
  sr_span :: span

record model_decl =
  md_decorators :: "decorator list"
  md_scopes :: "scope_ref list"
  md_name :: ident_node
  md_members :: "member list"
  md_span :: span

record scope_term =
  stm_col :: ident_node
  stm_ty :: type_expr
  stm_ctx :: param_ref
  stm_span :: span

record scope_decl =
  sdc_name :: ident_node
  sdc_terms :: "scope_term list"
  sdc_span :: span

subsection \<open>Shapes\<close>

datatype bucket = Bucket_Day | Bucket_Week

definition bucket_from_name :: "str \<Rightarrow> bucket option" where
  "bucket_from_name s = (if s = ''date'' then Some Bucket_Day else if s = ''week'' then Some Bucket_Week else None)"

record bucket_call =
  bc_bucket :: bucket
  bc_func :: ident_node
  bc_args :: "path list"
  bc_span :: span

record agg_call =
  ag_func :: ident_node
  ag_arg :: "path option"
  ag_span :: span

record filter_projection =
  fp_name :: ident_node
  fp_args :: "ast_value list"
  fp_span :: span

datatype shape_value =
    Sval_Path path
  | Sval_Raw raw_sql
  | Sval_Agg agg_call
  | Sval_Computed shape_expr
  | Sval_Filter filter_projection
  | Sval_Bucket bucket_call

datatype shape_field =
    Shape_Bare ident_node
  | Shape_Rename ident_node shape_value
  | Shape_Nest ident_node "shape_field list"
  | Shape_Nest_Ref ident_node ident_node
  | Shape_Spread ident_node
  | Shape_Flatten ident_node path "shape_field list"

record shape_decl =
  sh_name :: ident_node
  sh_from :: ident_node
  sh_body :: "shape_field list"
  sh_span :: span

fun lone_path :: "shape_expr \<Rightarrow> path option" where
  "lone_path (Expr_Value (Val_Path p)) = Some p"
| "lone_path _ = None"

subsection \<open>Queries\<close>

datatype param_binding = Bind_Edge ident_node | Bind_Col_Op cmp_op ident_node

record param =
  pm_name :: ident_node
  pm_optional :: bool
  pm_ty :: "type_expr option"
  pm_binding :: "param_binding option"
  pm_default :: "default_val option"

record ret_type =
  rt_ty :: ident_node
  rt_many :: bool
  rt_stream :: bool
  rt_ack :: bool

datatype group_key = Group_Column path | Group_Bucket bucket_call

datatype unindexed_kind = Unindexed_Max_Rows nat | Unindexed_Unsafe "str option"

record unindexed =
  ui_kind :: unindexed_kind
  ui_span :: span

record page_clause =
  pg_size :: nat
  pg_offset :: bool
  pg_with_count :: bool

datatype limit_value = Limit_Lit nat | Limit_Param param_ref

record limit_clause =
  li_value :: limit_value
  li_max :: "nat option"
  li_span :: span

datatype clause =
    Clause_Where predicate
  | Clause_Order "sort_term list"
  | Clause_Page page_clause
  | Clause_Limit limit_clause
  | Clause_Unindexed unindexed
  | Clause_Group_By "group_key list"
  | Clause_Having predicate

datatype verb = Verb_Get | Verb_List
datatype lock_wait = Lock_Wait | Lock_No_Wait | Lock_Skip_Locked

record statement =
  sm_verb :: verb
  sm_model :: ident_node
  sm_clauses :: "clause list"
  sm_distinct :: bool
  sm_for_update :: "lock_wait option"

datatype query_body =
    Body_Bare
  | Body_Inline "clause list"
  | Body_Block statement
  | Body_Raw raw_sql

record scoped =
  sc_names :: "ident_node list"
  sc_span :: span

record unscoped =
  us_reason :: str
  us_span :: span

record query_decl =
  qu_name :: ident_node
  qu_params :: "param list"
  qu_ret :: ret_type
  qu_scoped :: "scoped option"
  qu_unscoped :: "unscoped option"
  qu_body :: query_body
  qu_span :: span

subsection \<open>Mutations\<close>

datatype assign_rhs =
    Rhs_Value ast_value
  | Rhs_Arith assign_rhs arith_op assign_rhs span

record assign =
  as_col :: ident_node
  as_value :: assign_rhs

record create_from =
  cf_param :: ident_node
  cf_bulk :: bool
  cf_span :: span

record on_conflict =
  oc_target :: "ident_node list"
  oc_update :: "assign list"
  oc_spread :: "conflict_spread option"
  oc_span :: span

datatype write_stmt =
    Write_Create ident_node "assign list" "create_from option" "on_conflict option" "ident_node option"
  | Write_Update ident_node predicate "assign list"
  | Write_Delete ident_node "predicate option"
  | Write_Restore ident_node predicate
  | Write_Hard_Delete ident_node "predicate option"
  | Write_Tx "write_stmt list"
  | Write_Raw raw_sql

record mutation_decl =
  mu_name :: ident_node
  mu_params :: "param list"
  mu_ret :: ret_type
  mu_guard :: "ident_node option"
  mu_scoped :: "scoped option"
  mu_unscoped :: "unscoped option"
  mu_body :: "write_stmt list"
  mu_span :: span

record named_filter =
  ft_name :: ident_node
  ft_params :: "param list"
  ft_pred :: predicate
  ft_span :: span

subsection \<open>Files\<close>

datatype decl =
    Decl_Model model_decl
  | Decl_Shape shape_decl
  | Decl_Scope scope_decl
  | Decl_Enum enum_decl
  | Decl_Query query_decl
  | Decl_Mutation mutation_decl
  | Decl_Filter named_filter

record schema_file =
  sf_decls :: "decl list"

end
