(* ===== verification/Lexer.thy ===== *)
theory Lexer
  imports Expr_Ast Str_Facts
begin

text \<open>
  \<open>based-parser/src/lexer.rs\<close>: the tokens of \<open>.bsl\<close> text with their byte ranges. The longest match
  wins; whitespace and comments separate. How many bytes the token library drops where nothing
  matches is the argument \<open>skip\<close> (at least one). Sources are shorter than 4 GiB, so offsets fit.
\<close>

datatype tok =
    Tok_Lower | Tok_Upper | Tok_Float | Tok_Int | Tok_Str | Tok_Raw
  | Tok_LBrace | Tok_RBrace | Tok_LParen | Tok_RParen | Tok_LBracket | Tok_RBracket
  | Tok_Colon | Tok_Comma | Tok_Dots | Tok_Dot | Tok_Semi | Tok_At | Tok_Dollar | Tok_Arrow | Tok_Question
  | Tok_Ne | Tok_Ge | Tok_Le | Tok_Eq | Tok_Gt | Tok_Lt | Tok_Tilde
  | Tok_Pipes | Tok_Plus | Tok_Minus | Tok_Star | Tok_Slash

record lexed =
  lx_tok :: tok
  lx_start :: nat
  lx_end :: nat

record lexing =
  lg_tokens :: "lexed list"
  lg_errors :: "(nat \<times> nat) list"

subsection \<open>One token\<close>

definition lower_start :: "char \<Rightarrow> bool" where
  "lower_start c \<longleftrightarrow> c \<in> set ''abcdefghijklmnopqrstuvwxyz_''"

definition upper_start :: "char \<Rightarrow> bool" where
  "upper_start c \<longleftrightarrow> c \<in> set ''ABCDEFGHIJKLMNOPQRSTUVWXYZ''"

definition digit_char :: "char \<Rightarrow> bool" where
  "digit_char c \<longleftrightarrow> c \<in> set ''0123456789''"

definition name_char :: "char \<Rightarrow> bool" where
  "name_char c \<longleftrightarrow> lower_start c \<or> upper_start c \<or> digit_char c"

text \<open>The length of a string after its opening quote, the closing quote included.\<close>

fun str_body :: "str \<Rightarrow> nat option" where
  "str_body [] = None"
| "str_body (c # s) =
     (if c = dq then Some 1
      else if c = backslash then (case s of
          [] \<Rightarrow> None
        | e # r \<Rightarrow> (if e = CHR 0x0A then None else map_option (\<lambda>n. n + 2) (str_body r)))
      else map_option Suc (str_body s))"

definition number_len :: "str \<Rightarrow> tok \<times> nat" where
  "number_len s =
     (let n = length (takeWhile digit_char s) in
      case drop n s of
        c # d # r \<Rightarrow>
          (if c = CHR ''.'' \<and> digit_char d then (Tok_Float, n + 1 + length (takeWhile digit_char (d # r))) else (Tok_Int, n))
      | _ \<Rightarrow> (Tok_Int, n))"

definition symbols :: "(str \<times> tok) list" where
  "symbols = [(''...'', Tok_Dots), (''->'', Tok_Arrow), (''!='', Tok_Ne), (''>='', Tok_Ge), (''<='', Tok_Le), (''||'', Tok_Pipes),
     (''{'', Tok_LBrace), (''}'', Tok_RBrace), (''('', Tok_LParen), ('')'', Tok_RParen), (''['', Tok_LBracket), ('']'', Tok_RBracket),
     ('':'', Tok_Colon), ('','', Tok_Comma), (''.'', Tok_Dot), ('';'', Tok_Semi), (''@'', Tok_At), (''$'', Tok_Dollar),
     (''?'', Tok_Question), (''='', Tok_Eq), (''>'', Tok_Gt), (''<'', Tok_Lt), (''~'', Tok_Tilde), (''+'', Tok_Plus),
     (''-'', Tok_Minus), (''*'', Tok_Star), (''/'', Tok_Slash)]"

definition symbol_len :: "str \<Rightarrow> (tok \<times> nat) option" where
  "symbol_len s = map_option (\<lambda>(p, t). (t, length p)) (find (\<lambda>(p, t). starts_with p s) symbols)"

fun next_token :: "str \<Rightarrow> (tok \<times> nat) option" where
  "next_token [] = None"
| "next_token (c # r) =
     (if lower_start c then Some (Tok_Lower, Suc (length (takeWhile name_char r)))
      else if upper_start c then Some (Tok_Upper, Suc (length (takeWhile (\<lambda>x. name_char x \<and> x \<noteq> CHR ''_'') r)))
      else if digit_char c then Some (number_len (c # r))
      else if c = dq then map_option (\<lambda>n. (Tok_Str, Suc n)) (str_body r)
      else if c = backtick then
        (let n = length (takeWhile (\<lambda>x. x \<noteq> backtick) r) in if n < length r then Some (Tok_Raw, n + 2) else None)
      else symbol_len (c # r))"

definition lex_space :: "char \<Rightarrow> bool" where
  "lex_space c \<longleftrightarrow> c \<in> {CHR '' '', CHR 0x09, CHR 0x0D, CHR 0x0A, CHR 0x0C}"

subsection \<open>The whole text\<close>

definition push_token :: "lexed \<Rightarrow> lexing \<Rightarrow> lexing" where
  "push_token l lg = lg\<lparr>lg_tokens := l # lg_tokens lg\<rparr>"

definition push_error :: "nat \<times> nat \<Rightarrow> lexing \<Rightarrow> lexing" where
  "push_error e lg = lg\<lparr>lg_errors := e # lg_errors lg\<rparr>"

definition dropped :: "(str \<Rightarrow> nat) \<Rightarrow> str \<Rightarrow> nat" where
  "dropped skip s = max 1 (min (skip s) (length s))"

function lex_from :: "(str \<Rightarrow> nat) \<Rightarrow> nat \<Rightarrow> str \<Rightarrow> lexing" where
  "lex_from skip i s =
     (if s = [] then \<lparr>lg_tokens = [], lg_errors = []\<rparr>
      else if lex_space (hd s) then lex_from skip (Suc i) (tl s)
      else if hd s = CHR ''#'' then
        (let n = length (takeWhile (\<lambda>x. x \<noteq> CHR 0x0A) s) in lex_from skip (i + n) (drop n s))
      else (case next_token s of
          Some (t, n) \<Rightarrow>
            push_token \<lparr>lx_tok = t, lx_start = i, lx_end = i + n\<rparr> (lex_from skip (i + max 1 n) (drop (max 1 n) s))
        | None \<Rightarrow> (let n = dropped skip s in push_error (i, i + n) (lex_from skip (i + n) (drop n s)))))"
  by pat_completeness auto
termination
  by (relation "measure (\<lambda>(_, _, s). length s)") (auto simp: dropped_def neq_Nil_conv)

definition lex :: "(str \<Rightarrow> nat) \<Rightarrow> str \<Rightarrow> lexing" where
  "lex skip src = lex_from skip 0 src"

declare lex_from.simps [simp del]

subsection \<open>Bounds\<close>

lemma str_body_bounds: "str_body s = Some n \<Longrightarrow> 0 < n \<and> n \<le> length s"
  by (induction s arbitrary: n rule: str_body.induct) (auto split: if_splits list.splits)

lemma symbols_nonempty: "(p, t) \<in> set symbols \<Longrightarrow> p \<noteq> []"
  by (auto simp: symbols_def)

lemma symbol_bounds: "symbol_len s = Some (t, n) \<Longrightarrow> 0 < n \<and> n \<le> length s"
  by (auto simp: symbol_len_def starts_with_def strip_prefix_Some_iff dest!: find_SomeD dest: symbols_nonempty)

lemma number_bounds:
  assumes "number_len s = (t, n)" and "s = c # r" and "digit_char c"
  shows "0 < n \<and> n \<le> length s"
proof -
  let ?k = "length (takeWhile digit_char s)"
  have "?k \<le> length s" by (rule length_takeWhile_le)
  moreover have "0 < ?k" using assms(2,3) by simp
  moreover have "?k + 1 + length (takeWhile digit_char (d # q)) \<le> length s" if "drop ?k s = x # d # q" for x d q
    using length_takeWhile_le [of digit_char "d # q"] arg_cong [OF that, of length] by simp
  ultimately show ?thesis using assms(1)
    by (auto simp: number_len_def Let_def simp del: takeWhile.simps split: list.splits if_splits)
qed

lemma next_token_bounds: "next_token s = Some (t, n) \<Longrightarrow> 0 < n \<and> n \<le> length s"
  using length_takeWhile_le [of name_char "tl s"]
    length_takeWhile_le [of "\<lambda>x. name_char x \<and> x \<noteq> CHR ''_''" "tl s"]
  by (cases s)
    (auto simp: Let_def dest: str_body_bounds symbol_bounds number_bounds [OF _ refl] split: if_splits)

subsection \<open>The tokens lie in the text, in order\<close>

definition token_at :: "nat \<Rightarrow> str \<Rightarrow> lexed \<Rightarrow> bool" where
  "token_at i s l \<longleftrightarrow> i \<le> lx_start l \<and> lx_start l < lx_end l \<and> lx_end l \<le> i + length s
     \<and> next_token (drop (lx_start l - i) s) = Some (lx_tok l, lx_end l - lx_start l)"

lemma token_at_shift: "token_at (i + n) (drop n s) l \<Longrightarrow> n \<le> length s \<Longrightarrow> token_at i s l"
  by (auto simp: token_at_def algebra_simps)

definition lexed_in_order :: "nat \<Rightarrow> str \<Rightarrow> lexing \<Rightarrow> bool" where
  "lexed_in_order i s lg \<longleftrightarrow>
     (\<forall>l \<in> set (lg_tokens lg). token_at i s l) \<and> sorted_wrt (\<lambda>a b. lx_end a \<le> lx_start b) (lg_tokens lg) \<and>
     (\<forall>(a, b) \<in> set (lg_errors lg). i \<le> a \<and> a < b \<and> b \<le> i + length s)"

lemma in_order_shift: "lexed_in_order (i + n) (drop n s) lg \<Longrightarrow> n \<le> length s \<Longrightarrow> lexed_in_order i s lg"
  by (fastforce simp: lexed_in_order_def intro: token_at_shift)

lemma in_order_push_token:
  assumes "lexed_in_order (i + n) (drop n s) lg" and "next_token s = Some (t, n)"
  shows "lexed_in_order i s (push_token \<lparr>lx_tok = t, lx_start = i, lx_end = i + n\<rparr> lg)"
proof -
  have n: "0 < n" "n \<le> length s" using next_token_bounds [OF assms(2)] by auto
  have "\<forall>l \<in> set (lg_tokens lg). i + n \<le> lx_start l"
    using assms(1) by (auto simp: lexed_in_order_def token_at_def)
  then show ?thesis using in_order_shift [OF assms(1) n(2)] n assms(2)
    by (auto simp: lexed_in_order_def push_token_def token_at_def)
qed

lemma in_order_push_error:
  "lexed_in_order (i + n) (drop n s) lg \<Longrightarrow> 0 < n \<Longrightarrow> n \<le> length s \<Longrightarrow> lexed_in_order i s (push_error (i, i + n) lg)"
  by (drule in_order_shift) (auto simp: lexed_in_order_def push_error_def)

lemma lex_from_in_order: "lexed_in_order i s (lex_from skip i s)"
proof (induction skip i s rule: lex_from.induct)
  case (1 skip i s)
  let ?n = "length (takeWhile (\<lambda>x. x \<noteq> CHR 0x0A) s)"
  consider "s = []" | (space) "s \<noteq> []" "lex_space (hd s)" | (comment) "s \<noteq> []" "\<not> lex_space (hd s)" "hd s = CHR ''#''"
    | (token) t n where "s \<noteq> []" "\<not> lex_space (hd s)" "hd s \<noteq> CHR ''#''" "next_token s = Some (t, n)"
    | (error) "s \<noteq> []" "\<not> lex_space (hd s)" "hd s \<noteq> CHR ''#''" "next_token s = None"
    by fastforce
  then show ?case
  proof cases
    case space
    then show ?thesis using 1(1) in_order_shift [of i 1 s]
      by (subst lex_from.simps) (auto simp: drop_Suc Suc_le_eq)
  next
    case comment
    then show ?thesis using 1(2) [OF comment refl] in_order_shift [of i ?n s] length_takeWhile_le [of _ s]
      by (subst lex_from.simps) (auto simp: Let_def)
  next
    case (token t n)
    then show ?thesis using 1(4) [OF token(1,2,3,4) refl] in_order_push_token [of i n s] next_token_bounds [OF token(4)]
      by (subst lex_from.simps) (auto simp: max_def)
  next
    case error
    have "0 < dropped skip s" "dropped skip s \<le> length s" using error(1) by (auto simp: dropped_def Suc_le_eq)
    then show ?thesis using error 1(3) [OF error refl] in_order_push_error [of i "dropped skip s" s]
      by (subst lex_from.simps) (auto simp: Let_def)
  qed (subst lex_from.simps, simp add: lexed_in_order_def)
qed

end
