(* ===== verification/Parse_Base.thy ===== *)
theory Parse_Base
  imports Ast Lexer
begin

text \<open>
  The parser's state and cursor (\<open>based-parser/src/parser/mod.rs\<close>, \<open>cursor.rs\<close>). A parsing method is
  a function on the state: \<open>Some (Some a, q)\<close> is \<open>Ok(a)\<close> with the state after it, \<open>Some (None, q)\<close> is
  \<open>Err(())\<close>, and \<open>None\<close> stands for a panic or a loop that does not end. \<open>ok\<close> is the contract every
  method is proved to meet: it returns, only moves forward, keeps the text and the tokens, adds only
  diagnostics that point into the text, and adds at least one when it fails.
\<close>

record diagnostic =
  dg_code :: str
  dg_message :: str
  dg_span :: span

record pstate =
  ps_src :: str
  ps_file :: nat
  ps_toks :: "lexed list"
  ps_pos :: nat
  ps_diags :: "diagnostic list"
  ps_any_case :: bool

type_synonym 'a parse = "pstate \<Rightarrow> ('a option \<times> pstate) option"

subsection \<open>Sequencing\<close>

definition give :: "'a \<Rightarrow> 'a parse" where
  "give a p = Some (Some a, p)"

definition seq :: "'a parse \<Rightarrow> ('a \<Rightarrow> 'b parse) \<Rightarrow> 'b parse" where
  "seq m f p = (case m p of
       None \<Rightarrow> None
     | Some (None, q) \<Rightarrow> Some (None, q)
     | Some (Some a, q) \<Rightarrow> f a q)"

text \<open>Reading the state before going on.\<close>

definition look :: "(pstate \<Rightarrow> 'a parse) \<Rightarrow> 'a parse" where
  "look f p = f p p"

subsection \<open>The cursor (cursor.rs)\<close>

definition tok_at :: "nat \<Rightarrow> pstate \<Rightarrow> lexed option" where
  "tok_at i p = (if ps_pos p + i < length (ps_toks p) then Some (ps_toks p ! (ps_pos p + i)) else None)"

definition peek :: "pstate \<Rightarrow> lexed option" where
  "peek p = tok_at 0 p"

definition kind_at :: "nat \<Rightarrow> pstate \<Rightarrow> tok option" where
  "kind_at i p = map_option lx_tok (tok_at i p)"

definition token_text :: "pstate \<Rightarrow> lexed \<Rightarrow> str" where
  "token_text p l = take (lx_end l - lx_start l) (drop (lx_start l) (ps_src p))"

definition ident_at :: "nat \<Rightarrow> pstate \<Rightarrow> str option" where
  "ident_at i p = (case tok_at i p of
       Some l \<Rightarrow> (if lx_tok l = Tok_Lower then Some (token_text p l) else None)
     | None \<Rightarrow> None)"

definition span_at :: "pstate \<Rightarrow> nat \<Rightarrow> nat \<Rightarrow> span" where
  "span_at p s e = \<lparr>span_file = ps_file p, span_start = s, span_end = e\<rparr>"

definition token_span :: "pstate \<Rightarrow> lexed \<Rightarrow> span" where
  "token_span p l = span_at p (lx_start l) (lx_end l)"

definition here :: "pstate \<Rightarrow> span" where
  "here p = (case peek p of
       Some l \<Rightarrow> token_span p l
     | None \<Rightarrow> span_at p (length (ps_src p)) (length (ps_src p)))"

definition advance :: "pstate \<Rightarrow> pstate" where
  "advance p = p\<lparr>ps_pos := Suc (ps_pos p)\<rparr>"

text \<open>\<open>bump()\<close> as a statement, and \<open>bump().unwrap()\<close>.\<close>

definition bump :: "unit parse" where
  "bump p = Some (Some (), if peek p = None then p else advance p)"

definition bump_token :: "lexed parse" where
  "bump_token p = (case peek p of None \<Rightarrow> None | Some l \<Rightarrow> Some (Some l, advance p))"

definition at_tok :: "tok \<Rightarrow> pstate \<Rightarrow> bool" where
  "at_tok t p \<longleftrightarrow> kind_at 0 p = Some t"

definition at_kw :: "str \<Rightarrow> pstate \<Rightarrow> bool" where
  "at_kw kw p \<longleftrightarrow> ident_at 0 p = Some kw"

definition eat :: "tok \<Rightarrow> bool parse" where
  "eat t p = (if at_tok t p then Some (Some True, advance p) else Some (Some False, p))"

definition eat_kw :: "str \<Rightarrow> bool parse" where
  "eat_kw kw p = (if at_kw kw p then Some (Some True, advance p) else Some (Some False, p))"

definition add_diag :: "str \<Rightarrow> pstate \<Rightarrow> pstate" where
  "add_diag msg p = p\<lparr>ps_diags := ps_diags p @ [\<lparr>dg_code = ''E0002'', dg_message = msg, dg_span = here p\<rparr>]\<rparr>"

text \<open>\<open>self.err(msg); return Err(())\<close>.\<close>

definition fails :: "str \<Rightarrow> 'a parse" where
  "fails msg p = Some (None, add_diag msg p)"

abbreviation ellipsis :: str where "ellipsis \<equiv> [CHR 0xE2, CHR 0x80, CHR 0xA6]"
abbreviation mdash :: str where "mdash \<equiv> [CHR 0xE2, CHR 0x80, CHR 0x94]"

abbreviation expected :: "str \<Rightarrow> str" where
  "expected what \<equiv> ''expected '' @ what"

definition expect_kw :: "str \<Rightarrow> str \<Rightarrow> unit parse" where
  "expect_kw kw what = seq (eat_kw kw) (\<lambda>b. if b then give () else fails (expected what))"

definition expect :: "tok \<Rightarrow> str \<Rightarrow> lexed parse" where
  "expect t what = look (\<lambda>p. if at_tok t p then bump_token else fails (expected what))"

definition left :: "pstate \<Rightarrow> nat" where
  "left p = length (ps_toks p) - ps_pos p"

fun skip_seps_n :: "nat \<Rightarrow> pstate \<Rightarrow> pstate" where
  "skip_seps_n 0 p = p"
| "skip_seps_n (Suc n) p = (if at_tok Tok_Comma p \<or> at_tok Tok_Semi p then skip_seps_n n (advance p) else p)"

definition skip_seps :: "unit parse" where
  "skip_seps p = Some (Some (), skip_seps_n (left p) p)"

text \<open>\<open>sync\<close>: past the offending token, then to the next token that may start a declaration.\<close>

definition decl_start :: "pstate \<Rightarrow> bool" where
  "decl_start p \<longleftrightarrow> at_tok Tok_At p \<or> at_tok Tok_Upper p
     \<or> ident_at 0 p \<in> Some ` set [''shape'', ''scope'', ''enum'', ''query'', ''mutation'', ''filter'']"

fun sync_n :: "nat \<Rightarrow> pstate \<Rightarrow> pstate" where
  "sync_n 0 p = p"
| "sync_n (Suc n) p = (if peek p = None \<or> decl_start p then p else sync_n n (advance p))"

definition sync :: "pstate \<Rightarrow> pstate" where
  "sync p = (let q = if peek p = None then p else advance p in sync_n (left q) q)"

definition ident_of :: "pstate \<Rightarrow> lexed \<Rightarrow> ident_node" where
  "ident_of p l = \<lparr>id_node = token_text p l, id_span = token_span p l\<rparr>"

definition lower_ident :: "str \<Rightarrow> ident_node parse" where
  "lower_ident what = seq (expect Tok_Lower what) (\<lambda>l. look (\<lambda>p. give (ident_of p l)))"

definition upper_ident :: "str \<Rightarrow> ident_node parse" where
  "upper_ident what = seq (expect Tok_Upper what) (\<lambda>l. look (\<lambda>p. give (ident_of p l)))"

definition any_ident :: "str \<Rightarrow> ident_node parse" where
  "any_ident what = look (\<lambda>p.
     if at_tok Tok_Lower p \<or> at_tok Tok_Upper p then seq bump_token (\<lambda>l. give (ident_of p l))
     else fails (expected what))"

definition prev_end :: "pstate \<Rightarrow> nat" where
  "prev_end p = (case ps_pos p of
       0 \<Rightarrow> 0
     | Suc i \<Rightarrow> (if i < length (ps_toks p) then lx_end (ps_toks p ! i) else 0))"

definition span_from :: "nat \<Rightarrow> pstate \<Rightarrow> span" where
  "span_from s p = span_at p s (prev_end p)"

definition need_kw :: "str \<Rightarrow> str \<Rightarrow> unit parse" where
  "need_kw kw msg = seq (eat_kw kw) (\<lambda>b. if b then give () else fails msg)"

text \<open>A call whose \<open>Err\<close> the caller looks at instead of returning it.\<close>

definition attempted :: "'a parse \<Rightarrow> 'a option parse" where
  "attempted m p = map_option (\<lambda>(r, q). (Some r, q)) (m p)"

subsection \<open>Loops\<close>

text \<open>\<open>loop \<dots>\<close>: the step goes on with \<open>Inl\<close> and breaks with \<open>Inr\<close>. Each turn that goes on consumes
  a token, so one turn more than there are tokens is enough.\<close>

fun loop_n :: "nat \<Rightarrow> ('s \<Rightarrow> ('s + 'a) parse) \<Rightarrow> 's \<Rightarrow> 'a parse" where
  "loop_n 0 step s = (\<lambda>p. None)"
| "loop_n (Suc n) step s = seq (step s) (\<lambda>r. case r of Inl s' \<Rightarrow> loop_n n step s' | Inr a \<Rightarrow> give a)"

definition loop :: "('s \<Rightarrow> ('s + 'a) parse) \<Rightarrow> 's \<Rightarrow> 'a parse" where
  "loop step s = look (\<lambda>p. loop_n (Suc (left p)) step s)"

text \<open>\<open>loop { xs.push(item); if !self.eat(Comma) { break } }\<close>.\<close>

definition comma_list :: "'a parse \<Rightarrow> 'a list parse" where
  "comma_list item = loop (\<lambda>xs.
     seq item (\<lambda>x.
     seq (eat Tok_Comma) (\<lambda>more. give (if more then Inl (xs @ [x]) else Inr (xs @ [x]))))) []"

text \<open>\<open>( [item { , item }] )\<close> after its opening parenthesis.\<close>

definition comma_args :: "'a parse \<Rightarrow> 'a list parse" where
  "comma_args item = look (\<lambda>p. if at_tok Tok_RParen p then give [] else comma_list item)"

text \<open>\<open>items_until\<close>, and the same loop where a method has it inline.\<close>

definition items_until :: "tok \<Rightarrow> ('a list \<Rightarrow> 'a parse) \<Rightarrow> 'a list parse" where
  "items_until close item = loop (\<lambda>xs.
     seq skip_seps (\<lambda>_. look (\<lambda>p.
       if at_tok close p \<or> peek p = None then give (Inr xs)
       else seq (item xs) (\<lambda>x. give (Inl (xs @ [x])))))) []"

text \<open>A left-associative level: \<open>lhs = mk(lhs, op, term)\<close> while an operator follows.\<close>

definition left_assoc :: "'o option parse \<Rightarrow> 'a parse \<Rightarrow> (pstate \<Rightarrow> 'a \<Rightarrow> 'o \<Rightarrow> 'a \<Rightarrow> 'a) \<Rightarrow> 'a \<Rightarrow> 'a parse" where
  "left_assoc oper operand mk = loop (\<lambda>lhs.
     seq oper (\<lambda>o'. case o' of
         None \<Rightarrow> give (Inr lhs)
       | Some o' \<Rightarrow> seq operand (\<lambda>rhs. look (\<lambda>p. give (Inl (mk p lhs o' rhs))))))"

definition eat_op :: "(tok \<times> 'o) list \<Rightarrow> 'o option parse" where
  "eat_op ops = look (\<lambda>p. case find (\<lambda>(t, _). at_tok t p) ops of
       None \<Rightarrow> give None
     | Some (_, o') \<Rightarrow> seq bump_token (\<lambda>_. give (Some o')))"

subsection \<open>The contract of a parsing method\<close>

definition in_text :: "pstate \<Rightarrow> diagnostic \<Rightarrow> bool" where
  "in_text p d \<longleftrightarrow> span_file (dg_span d) = ps_file p \<and> span_start (dg_span d) \<le> span_end (dg_span d)
     \<and> span_end (dg_span d) \<le> length (ps_src p)"

definition wf_state :: "pstate \<Rightarrow> bool" where
  "wf_state p \<longleftrightarrow> ps_pos p \<le> length (ps_toks p) \<and> (\<forall>l \<in> set (ps_toks p). token_at 0 (ps_src p) l)"

definition extends :: "pstate \<Rightarrow> pstate \<Rightarrow> bool" where
  "extends p q \<longleftrightarrow> ps_src q = ps_src p \<and> ps_file q = ps_file p \<and> ps_toks q = ps_toks p \<and> ps_any_case q = ps_any_case p
     \<and> ps_pos p \<le> ps_pos q \<and> ps_pos q \<le> length (ps_toks q)
     \<and> (\<exists>ds. ps_diags q = ps_diags p @ ds \<and> (\<forall>d \<in> set ds. in_text p d))"

definition ok :: "nat \<Rightarrow> ('a \<Rightarrow> nat) \<Rightarrow> 'a parse \<Rightarrow> pstate \<Rightarrow> bool" where
  "ok n k m p \<longleftrightarrow> (wf_state p \<longrightarrow> left p < n \<longrightarrow>
     (\<exists>r q. m p = Some (r, q) \<and> extends p q
        \<and> (case r of None \<Rightarrow> length (ps_diags p) < length (ps_diags q) | Some a \<Rightarrow> ps_pos p + k a \<le> ps_pos q)))"

named_theorems parse_ok "contracts of the parsing methods"

lemma extends_trans: "extends p q \<Longrightarrow> extends q r \<Longrightarrow> extends p r"
  by (auto simp: extends_def in_text_def)

lemma extends_wf: "wf_state p \<Longrightarrow> extends p q \<Longrightarrow> wf_state q"
  by (auto simp: wf_state_def extends_def)

lemma extends_left: "extends p q \<Longrightarrow> left q = left p - (ps_pos q - ps_pos p)"
  by (auto simp: extends_def left_def)

lemma extends_diags: "extends p q \<Longrightarrow> length (ps_diags p) \<le> length (ps_diags q)"
  by (auto simp: extends_def)

lemma ok_give: "k a = 0 \<Longrightarrow> ok n k (give a) p"
  by (auto simp: ok_def give_def extends_def wf_state_def)

lemma ok_fails: "ok n k (fails msg) p"
proof -
  have "extends p (add_diag msg p)" if "wf_state p"
  proof (cases "peek p")
    case None
    then show ?thesis using that by (auto simp: extends_def wf_state_def add_diag_def in_text_def here_def span_at_def)
  next
    case (Some l)
    then have "l \<in> set (ps_toks p)" by (auto simp: peek_def tok_at_def split: if_splits)
    then show ?thesis using that Some
      by (auto simp: extends_def wf_state_def add_diag_def in_text_def here_def span_at_def token_span_def token_at_def)
  qed
  then show ?thesis by (auto simp: ok_def fails_def) (simp add: add_diag_def)
qed

lemma ok_seq:
  assumes m: "ok n j m p" and f: "\<And>x q. ok (n - j x) (\<lambda>y. k y - j x) (f x) q"
  shows "ok n k (seq m f) p"
  unfolding ok_def
proof (intro impI)
  assume p: "wf_state p" "left p < n"
  from m p obtain r q where 1: "m p = Some (r, q)" "extends p q"
      "case r of None \<Rightarrow> length (ps_diags p) < length (ps_diags q) | Some a \<Rightarrow> ps_pos p + j a \<le> ps_pos q"
    by (auto simp: ok_def)
  show "\<exists>r q. seq m f p = Some (r, q) \<and> extends p q \<and>
      (case r of None \<Rightarrow> length (ps_diags p) < length (ps_diags q) | Some a \<Rightarrow> ps_pos p + k a \<le> ps_pos q)"
  proof (cases r)
    case None
    then show ?thesis using 1 by (auto simp: seq_def)
  next
    case (Some a)
    have pos: "ps_pos q \<le> length (ps_toks p)" using 1(2) by (auto simp: extends_def)
    have le: "ps_pos p + j a \<le> ps_pos q" using 1(3) Some by simp
    have "left q < n - j a" using p(2) 1(2) le pos by (auto simp: left_def extends_def)
    then obtain r' q' where 2: "f a q = Some (r', q')" "extends q q'"
        "case r' of None \<Rightarrow> length (ps_diags q) < length (ps_diags q') | Some b \<Rightarrow> ps_pos q + (k b - j a) \<le> ps_pos q'"
      using f [of a q] extends_wf [OF p(1) 1(2)] by (auto simp: ok_def)
    have "extends p q'" using 1(2) 2(2) by (rule extends_trans)
    moreover have "seq m f p = Some (r', q')" using 1(1) Some 2(1) by (simp add: seq_def)
    ultimately show ?thesis using 2(3) le extends_diags [OF 1(2)] by (cases r') auto
  qed
qed

lemma ok_look: "ok n k (f p) p \<Longrightarrow> ok n k (look f) p"
  by (simp add: ok_def look_def)

lemma ok_if: "(c \<Longrightarrow> ok n k m p) \<Longrightarrow> (\<not> c \<Longrightarrow> ok n k m' p) \<Longrightarrow> ok n k (if c then m else m') p"
  by simp

lemma ok_le:
  assumes "ok n j m p" and "n' \<le> n" and k: "\<And>y. k y \<le> j y"
  shows "ok n' k m p"
  unfolding ok_def
proof (intro impI)
  assume "wf_state p" "left p < n'"
  then obtain r q where 1: "m p = Some (r, q)" "extends p q"
      "case r of None \<Rightarrow> length (ps_diags p) < length (ps_diags q) | Some a \<Rightarrow> ps_pos p + j a \<le> ps_pos q"
    using assms by (auto simp: ok_def)
  then show "\<exists>r q. m p = Some (r, q) \<and> extends p q \<and>
      (case r of None \<Rightarrow> length (ps_diags p) < length (ps_diags q) | Some a \<Rightarrow> ps_pos p + k a \<le> ps_pos q)"
    using k by (cases r) (auto intro: le_trans add_left_mono)
qed

lemma extends_advance: "peek p \<noteq> None \<Longrightarrow> extends p (advance p)"
  by (auto simp: extends_def advance_def peek_def tok_at_def split: if_splits)

lemma extends_refl: "wf_state p \<Longrightarrow> extends p p"
  by (auto simp: extends_def wf_state_def)

lemma advance_pos [simp]: "ps_pos (advance p) = Suc (ps_pos p)"
  by (simp add: advance_def)

lemma at_tok_peek: "at_tok t p \<Longrightarrow> peek p \<noteq> None"
  by (auto simp: at_tok_def kind_at_def peek_def)

lemma at_kw_peek: "at_kw kw p \<Longrightarrow> peek p \<noteq> None"
  by (auto simp: at_kw_def ident_at_def peek_def split: option.splits)

definition has_token :: "pstate \<Rightarrow> bool" where
  "has_token p \<longleftrightarrow> peek p \<noteq> None"

named_theorems has_token_intros "tests that only hold at a token"

lemma ok_bump_token [parse_ok]: "has_token p \<Longrightarrow> ok n (\<lambda>_. 1) bump_token p"
  using extends_advance [of p] by (auto simp: ok_def bump_token_def has_token_def)

lemma has_token_tests [has_token_intros]:
  "at_tok t p \<Longrightarrow> has_token p" "at_kw kw p \<Longrightarrow> has_token p" "peek p = Some l \<Longrightarrow> has_token p"
  by (auto simp: has_token_def at_tok_peek at_kw_peek)

lemma ok_bump [parse_ok]: "ok n (\<lambda>_. 0) bump p"
  using extends_advance [of p] extends_refl [of p] by (auto simp: ok_def bump_def)

lemma ok_eat [parse_ok]: "ok n (\<lambda>b. if b then 1 else 0) (eat t) p"
  using extends_advance [of p] extends_refl [of p] at_tok_peek [of t p] by (auto simp: ok_def eat_def)

lemma ok_eat_kw [parse_ok]: "ok n (\<lambda>b. if b then 1 else 0) (eat_kw kw) p"
  using extends_advance [of p] extends_refl [of p] at_kw_peek [of kw p] by (auto simp: ok_def eat_kw_def)

lemma ok_expect [parse_ok]: "ok n (\<lambda>_. 1) (expect t what) p"
  unfolding expect_def by (intro ok_look ok_if ok_bump_token ok_fails has_token_tests)

lemma ok_expect_kw [parse_ok]: "ok n (\<lambda>_. 1) (expect_kw kw what) p"
  unfolding expect_kw_def by (rule ok_seq [OF ok_eat_kw]) (auto intro: ok_give ok_fails)

lemma ok_lower_ident [parse_ok]: "ok n (\<lambda>_. 1) (lower_ident what) p"
  unfolding lower_ident_def by (rule ok_seq [OF ok_expect]) (auto intro!: ok_look ok_give)

lemma ok_upper_ident [parse_ok]: "ok n (\<lambda>_. 1) (upper_ident what) p"
  unfolding upper_ident_def by (rule ok_seq [OF ok_expect]) (auto intro!: ok_look ok_give)

lemma ok_any_ident [parse_ok]: "ok n (\<lambda>_. 1) (any_ident what) p"
  unfolding any_ident_def
  by (intro ok_look ok_if ok_fails ok_seq [OF ok_bump_token] ok_give) (auto intro: has_token_intros)

lemma skip_seps_n_extends: "wf_state p \<Longrightarrow> extends p (skip_seps_n n p)"
proof (induction n arbitrary: p)
  case (Suc n)
  show ?case
  proof (cases "at_tok Tok_Comma p \<or> at_tok Tok_Semi p")
    case True
    then have "extends p (advance p)" by (auto dest: at_tok_peek intro: extends_advance)
    then show ?thesis using Suc True by (auto intro: extends_trans extends_wf)
  qed (simp add: extends_refl Suc.prems)
qed (simp add: extends_refl)

lemma ok_skip_seps [parse_ok]: "ok n (\<lambda>_. 0) skip_seps p"
  using skip_seps_n_extends [of p "left p"] by (auto simp: ok_def skip_seps_def extends_def)

subsection \<open>Loops keep the contract\<close>

lemma ok_loop_n:
  assumes step: "\<And>s q. ok n (\<lambda>r. case r of Inl _ \<Rightarrow> 1 | Inr _ \<Rightarrow> 0) (step s) q"
  shows "\<lbrakk>wf_state p; left p < n; left p < m\<rbrakk> \<Longrightarrow> \<exists>r q. loop_n m step s p = Some (r, q) \<and> extends p q \<and>
      (r = None \<longrightarrow> length (ps_diags p) < length (ps_diags q))"
proof (induction m arbitrary: s p)
  case (Suc m)
  obtain r q where 1: "step s p = Some (r, q)" "extends p q"
      "case r of None \<Rightarrow> length (ps_diags p) < length (ps_diags q)
       | Some a \<Rightarrow> ps_pos p + (case a of Inl _ \<Rightarrow> 1 | Inr _ \<Rightarrow> 0) \<le> ps_pos q"
    using step [of s p] Suc.prems by (auto simp: ok_def)
  show ?case
  proof (cases "\<exists>s'. r = Some (Inl s')")
    case True
    then obtain s' where r: "r = Some (Inl s')" by auto
    have "ps_pos q \<le> length (ps_toks p)" using 1(2) by (auto simp: extends_def)
    then have "left q < left p" using 1 r by (auto simp: left_def extends_def)
    then have "left q < n" "left q < m" using Suc.prems by auto
    then obtain r' q' where 2: "loop_n m step s' q = Some (r', q')" "extends q q'"
        "r' = None \<longrightarrow> length (ps_diags q) < length (ps_diags q')"
      using Suc.IH [of q s'] extends_wf [OF Suc.prems(1) 1(2)] by auto
    then show ?thesis using 1 r extends_trans [OF 1(2) 2(2)] extends_diags [OF 1(2)] by (auto simp: seq_def)
  next
    case False
    then show ?thesis using 1 by (auto simp: seq_def give_def split: option.splits sum.splits)
  qed
qed simp

lemma ok_loop: "(\<And>s q. ok n (\<lambda>r. case r of Inl _ \<Rightarrow> 1 | Inr _ \<Rightarrow> 0) (step s) q) \<Longrightarrow> ok n (\<lambda>_. 0) (loop step s) p"
  unfolding loop_def look_def ok_def [of n "\<lambda>_. 0"]
  using ok_loop_n [of n step p "Suc (left p)" s] by (fastforce simp: extends_def split: option.splits)

text \<open>Reading a branch of the code.\<close>

lemma ok_option: "(x = None \<Longrightarrow> ok n k m p) \<Longrightarrow> (\<And>a. x = Some a \<Longrightarrow> ok n k (f a) p) \<Longrightarrow> ok n k (case x of None \<Rightarrow> m | Some a \<Rightarrow> f a) p"
  by (cases x) simp_all

lemma ok_sum: "(\<And>a. x = Inl a \<Longrightarrow> ok n k (f a) p) \<Longrightarrow> (\<And>b. x = Inr b \<Longrightarrow> ok n k (g b) p) \<Longrightarrow>
    ok n k (case x of Inl a \<Rightarrow> f a | Inr b \<Rightarrow> g b) p"
  by (cases x) simp_all

lemma ok_fewer: "ok n j m p \<Longrightarrow> n' \<le> n \<Longrightarrow> ok n' j m p"
  by (erule ok_le) simp_all

lemma ok_more: "ok n j m p \<Longrightarrow> (\<And>y. k y \<le> j y) \<Longrightarrow> ok n k m p"
  by (erule ok_le) simp_all

lemma ok_fuel: "(\<And>n. ok n k (f n) p) \<Longrightarrow> ok n k (look (\<lambda>p. f (Suc (left p)))) p"
  by (rule ok_look) (auto simp: ok_def)

lemma ok_need_kw [parse_ok]: "ok n (\<lambda>_. 1) (need_kw kw msg) p"
  unfolding need_kw_def by (rule ok_seq [OF ok_eat_kw]) (auto intro: ok_give ok_fails)

lemma ok_attempted:
  assumes "ok n j m p"
  shows "ok n (\<lambda>r. case r of None \<Rightarrow> 0 | Some a \<Rightarrow> j a) (attempted m) p"
  unfolding ok_def
proof (intro impI)
  assume "wf_state p" "left p < n"
  then obtain r q where 1: "m p = Some (r, q)" "extends p q"
      "case r of None \<Rightarrow> length (ps_diags p) < length (ps_diags q) | Some a \<Rightarrow> ps_pos p + j a \<le> ps_pos q"
    using assms by (auto simp: ok_def)
  then have "ps_pos p + (case r of None \<Rightarrow> 0 | Some a \<Rightarrow> j a) \<le> ps_pos q"
    by (cases r) (simp_all add: extends_def)
  then show "\<exists>r' q. attempted m p = Some (r', q) \<and> extends p q \<and>
      (case r' of None \<Rightarrow> length (ps_diags p) < length (ps_diags q)
       | Some a \<Rightarrow> ps_pos p + (case a of None \<Rightarrow> 0 | Some a \<Rightarrow> j a) \<le> ps_pos q)"
    using 1 by (simp add: attempted_def)
qed

lemma ok_pair: "(\<And>a b. ok n k (f a b) p) \<Longrightarrow> ok n k (case x of (a, b) \<Rightarrow> f a b) p"
  by (cases x) simp

lemmas parse_intros = ok_look ok_if ok_option ok_give ok_fails ok_pair

lemma ok_comma_list:
  assumes "\<And>q. ok n (\<lambda>_. 0) item q"
  shows "ok n (\<lambda>_. 0) (comma_list item) p"
  unfolding comma_list_def
  by (rule ok_loop, rule ok_seq [OF assms], rule ok_seq [OF ok_eat], rule ok_give) simp

lemma ok_comma_args: "(\<And>q. ok n (\<lambda>_. 0) item q) \<Longrightarrow> ok n (\<lambda>_. 0) (comma_args item) p"
  unfolding comma_args_def by (intro parse_intros ok_comma_list) simp_all

lemma ok_items_until:
  assumes "\<And>xs q. ok n (\<lambda>_. 1) (item xs) q"
  shows "ok n (\<lambda>_. 0) (items_until close item) p"
  unfolding items_until_def
  by (rule ok_loop, rule ok_seq [OF ok_skip_seps], intro ok_look ok_if ok_give,
      simp, rule ok_seq, rule ok_fewer [OF assms], simp, rule ok_give, simp)

lemma ok_eat_op [parse_ok]: "ok n (\<lambda>r. case r of None \<Rightarrow> 0 | Some _ \<Rightarrow> 1) (eat_op ops) p"
  unfolding eat_op_def
  by (intro ok_look ok_option ok_give)
    (auto intro!: ok_seq [OF ok_bump_token] ok_give simp: find_Some_iff intro: has_token_intros)

lemma ok_left_assoc:
  assumes "\<And>q. ok n (\<lambda>r. case r of None \<Rightarrow> 0 | Some _ \<Rightarrow> 1) oper q" and "\<And>q. ok n (\<lambda>_. 1) operand q"
  shows "ok n (\<lambda>_. 0) (left_assoc oper operand mk lhs) p"
  unfolding left_assoc_def
  by (rule ok_loop, rule ok_seq [OF assms(1)], rule ok_option, rule ok_give, simp,
      rule ok_seq, rule ok_fewer [OF assms(2)], simp, rule ok_look, rule ok_give, simp)

end
