(* ===== verification/Parse_Expr.thy ===== *)
theory Parse_Expr
  imports Parse_Base
begin

text \<open>
  Values, paths, raw SQL, predicates and scalar expressions: \<open>value.rs\<close>, \<open>path.rs\<close>, \<open>raw.rs\<close>,
  \<open>unquote.rs\<close>, \<open>call_args.rs\<close>, \<open>predicate.rs\<close> and \<open>shape_expr.rs\<close> of the parser. A method that calls
  itself takes fuel; the public one starts it with one more than the tokens left, which is enough
  because each call has consumed a token.
\<close>

subsection \<open>Quoted text and raw SQL\<close>

fun unescaped :: "str \<Rightarrow> str" where
  "unescaped [] = []"
| "unescaped [c] = [c]"
| "unescaped (c # d # s) = (if c = backslash then d # unescaped s else c # unescaped (d # s))"

definition unquote :: "str \<Rightarrow> str" where
  "unquote s = unescaped (take (length s - 2) (drop 1 s))"

definition flush_text :: "str \<Rightarrow> raw_part list" where
  "flush_text t = (if t = [] then [] else [Raw_Text t])"

definition raw_param :: "span \<Rightarrow> str \<Rightarrow> raw_part" where
  "raw_param sp raw = (let mk = (\<lambda>s. \<lparr>id_node = trim s, id_span = sp\<rparr>); segs = split_on (CHR ''.'') raw in
     Raw_Param \<lparr>pr_name = mk (hd segs), pr_path = map mk (tl segs), pr_optional = False\<rparr>)"

text \<open>The parts of a body; \<open>t\<close> is the literal text collected so far.\<close>

function raw_parts :: "span \<Rightarrow> str \<Rightarrow> str \<Rightarrow> raw_part list" where
  "raw_parts sp t s =
     (case s of
        [] \<Rightarrow> flush_text t
      | c # r \<Rightarrow>
          (if c = CHR ''$'' \<and> r \<noteq> [] \<and> hd r = CHR ''{'' then
             (case split_once ''}'' (tl r) of
                Some (raw, rest) \<Rightarrow> flush_text t @ raw_param sp raw # raw_parts sp [] rest
              | None \<Rightarrow> raw_parts sp (t @ [c]) r)
           else if c = CHR ''{'' then
             (case split_once ''}'' r of
                Some (raw, rest) \<Rightarrow> flush_text t @ Raw_Engine \<lparr>id_node = trim raw, id_span = sp\<rparr> # raw_parts sp [] rest
              | None \<Rightarrow> raw_parts sp (t @ [c]) r)
           else raw_parts sp (t @ [c]) r))"
  by pat_completeness auto
termination
  by (relation "measure (\<lambda>(_, _, s). length s)") (auto dest!: split_once_shorter [rotated] simp: less_Suc_eq)

declare raw_parts.simps [simp del]

definition is_raw_start :: "pstate \<Rightarrow> bool" where
  "is_raw_start p \<longleftrightarrow> at_kw ''raw'' p \<and> kind_at 1 p = Some Tok_Raw"

definition p_raw_sql :: "raw_sql parse" where
  "p_raw_sql =
     seq (expect Tok_Lower ''`raw`'') (\<lambda>kw.
     seq (expect Tok_Raw ''a `...` raw SQL body'') (\<lambda>body. look (\<lambda>p.
       let sp = span_at p (lx_start kw) (lx_end body); s = token_text p body in
       give \<lparr>rs_parts = raw_parts sp [] (take (length s - 2) (drop 1 s)), rs_span = sp\<rparr>)))"

subsection \<open>Paths and parameters\<close>

definition p_path_from :: "ident_node \<Rightarrow> path parse" where
  "p_path_from first = loop (\<lambda>segs.
     seq (eat Tok_Dot) (\<lambda>dot.
       if dot then seq (attempted (lower_ident ''path segment'')) (\<lambda>seg.
         give (case seg of Some s \<Rightarrow> Inl (segs @ [s]) | None \<Rightarrow> Inr segs))
       else give (Inr segs))) [first]"

definition p_path :: "path parse" where
  "p_path = seq (lower_ident ''a path'') p_path_from"

definition p_dotted :: "ident_node list parse" where
  "p_dotted = loop (\<lambda>segs. seq (eat Tok_Dot) (\<lambda>dot.
     if dot then seq (lower_ident ''path segment'') (\<lambda>s. give (Inl (segs @ [s]))) else give (Inr segs))) []"

definition p_param_ref :: "param_ref parse" where
  "p_param_ref =
     seq (expect Tok_Dollar ''`$`'') (\<lambda>_.
     seq (lower_ident ''parameter name'') (\<lambda>name.
     seq p_dotted (\<lambda>segs.
     seq (eat Tok_Question) (\<lambda>optional.
       give \<lparr>pr_name = name, pr_path = segs, pr_optional = optional\<rparr>))))"

subsection \<open>Literals and values\<close>

definition digits_value :: "str \<Rightarrow> nat" where
  "digits_value s = foldl (\<lambda>n c. 10 * n + ((of_char c :: nat) - 48)) 0 s"

text \<open>\<open>parse::<i64>\<close> of an optional minus and digits.\<close>

definition int_literal :: "bool \<Rightarrow> str \<Rightarrow> int option" where
  "int_literal negative s =
     (let n = int (digits_value s); v = (if negative then - n else n) in
      if - (2 ^ 63) \<le> v \<and> v < 2 ^ 63 then Some v else None)"

definition signed_number :: "pstate \<Rightarrow> bool" where
  "signed_number p \<longleftrightarrow> at_tok Tok_Minus p \<and> kind_at 1 p \<in> {Some Tok_Int, Some Tok_Float}"

text \<open>The literal the token \<open>l\<close> is, or the message.\<close>

definition literal_of :: "bool \<Rightarrow> pstate \<Rightarrow> lexed \<Rightarrow> str + literal" where
  "literal_of negative p l =
     (let s = token_text p l in
      if lx_tok l = Tok_Int then
        (case int_literal negative s of Some n \<Rightarrow> Inr (Lit_Int n) | None \<Rightarrow> Inl ''integer literal out of range'')
      else if lx_tok l = Tok_Float then Inr (Lit_Decimal ((if negative then ''-'' else []) @ s))
      else if lx_tok l = Tok_Str then Inr (Lit_Str (unquote s))
      else if lx_tok l = Tok_Lower \<and> s = ''true'' then Inr (Lit_Bool True)
      else if lx_tok l = Tok_Lower \<and> s = ''false'' then Inr (Lit_Bool False)
      else if lx_tok l = Tok_Lower \<and> s = ''null'' then Inr Lit_Null
      else Inl ''expected a literal'')"

definition p_literal_after :: "bool \<Rightarrow> literal parse" where
  "p_literal_after negative = look (\<lambda>p. case peek p of
       None \<Rightarrow> fails ''expected a literal''
     | Some l \<Rightarrow> (case literal_of negative p l of
           Inl msg \<Rightarrow> fails msg
         | Inr lit \<Rightarrow> seq bump_token (\<lambda>_. give lit)))"

definition p_literal :: "literal parse" where
  "p_literal = look (\<lambda>p.
     if signed_number p then seq bump_token (\<lambda>_. p_literal_after True) else p_literal_after False)"

definition p_int_lit :: "nat parse" where
  "p_int_lit = seq (expect Tok_Int ''an integer'') (\<lambda>l. look (\<lambda>p.
     case int_literal False (token_text p l) of
       Some n \<Rightarrow> give (nat n)
     | None \<Rightarrow> fails ''integer literal out of range''))"

text \<open>A capitalized enum value: the word and the identifier or number tokens glued to it.\<close>

definition glued :: "pstate \<Rightarrow> ident_node \<Rightarrow> bool" where
  "glued p label \<longleftrightarrow> (case peek p of
       None \<Rightarrow> False
     | Some l \<Rightarrow> lx_start l = span_end (id_span label) \<and> lx_tok l \<in> {Tok_Lower, Tok_Upper, Tok_Int})"

definition p_label :: "ident_node parse" where
  "p_label = seq (upper_ident ''an enum value'') (loop (\<lambda>label. look (\<lambda>p.
     if glued p label then seq bump_token (\<lambda>l.
       give (Inl (label\<lparr>id_node := id_node label @ token_text p l,
                       id_span := (id_span label)\<lparr>span_end := lx_end l\<rparr>\<rparr>)))
     else give (Inr label))))"

definition p_call_args_with :: "ast_value parse \<Rightarrow> ast_value list parse" where
  "p_call_args_with item =
     seq (expect Tok_LParen ''`(`'') (\<lambda>_.
     seq (comma_args item) (\<lambda>args.
     seq (expect Tok_RParen ''`)`'') (\<lambda>_. give args)))"

definition p_func_call_with :: "ast_value parse \<Rightarrow> (ident_node \<times> ast_value list) parse" where
  "p_func_call_with item =
     seq (lower_ident ''function name'') (\<lambda>name.
     seq (p_call_args_with item) (\<lambda>args. give (name, args)))"

fun p_value_n :: "nat \<Rightarrow> ast_value parse" where
  "p_value_n 0 = (\<lambda>p. None)"
| "p_value_n (Suc n) = look (\<lambda>p.
     if at_tok Tok_Dollar p then seq p_param_ref (\<lambda>x. give (Val_Param x))
     else if kind_at 0 p \<in> {Some Tok_Int, Some Tok_Float, Some Tok_Str} \<or> signed_number p then
       seq p_literal (\<lambda>x. give (Val_Lit x))
     else if at_tok Tok_Lower p then
       (if ident_at 0 p \<in> {Some ''true'', Some ''false'', Some ''null''} then seq p_literal (\<lambda>x. give (Val_Lit x))
        else if kind_at 1 p = Some Tok_LParen then seq (p_func_call_with (p_value_n n)) (\<lambda>(f, args). give (Val_Func f args))
        else seq p_path (\<lambda>x. give (Val_Path x)))
     else if at_tok Tok_Upper p \<and> ps_any_case p then seq p_label (\<lambda>x. give (Val_Path [x]))
     else fails ''expected a value ($param, path, literal, or function call)'')"

definition p_value :: "ast_value parse" where
  "p_value = look (\<lambda>p. p_value_n (Suc (left p)))"

definition p_call_args :: "ast_value list parse" where
  "p_call_args = p_call_args_with p_value"

definition p_func_call :: "(ident_node \<times> ast_value list) parse" where
  "p_func_call = p_func_call_with p_value"

subsection \<open>Predicates (predicate.rs)\<close>

definition cmp_tokens :: "(tok \<times> cmp_op) list" where
  "cmp_tokens = [(Tok_Eq, Op_Eq), (Tok_Ne, Op_Ne), (Tok_Gt, Op_Gt), (Tok_Lt, Op_Lt), (Tok_Ge, Op_Ge), (Tok_Le, Op_Le)]"

definition simple_op :: "pstate \<Rightarrow> cmp_op option" where
  "simple_op p =
     (if at_kw ''in'' p then Some Op_In else if at_kw ''has'' p then Some Op_Has
      else map_option snd (find (\<lambda>(t, _). at_tok t p) cmp_tokens))"

definition at_op :: "pstate \<Rightarrow> bool" where
  "at_op p \<longleftrightarrow> simple_op p \<noteq> None \<or> at_tok Tok_Tilde p"

definition operand_follows :: "pstate \<Rightarrow> bool" where
  "operand_follows p \<longleftrightarrow>
     kind_at 1 p \<in> Some ` {Tok_Dollar, Tok_Str, Tok_Int, Tok_Float, Tok_Minus}
     \<or> (case ident_at 1 p of Some w \<Rightarrow> w \<notin> {''and'', ''or'', ''then''} | None \<Rightarrow> False)"

definition p_like_quantifier :: "cmp_op parse" where
  "p_like_quantifier = look (\<lambda>p.
     if at_kw ''all'' p \<and> operand_follows p then seq bump_token (\<lambda>_. give Op_Like_All)
     else if at_kw ''any'' p \<and> operand_follows p then seq bump_token (\<lambda>_. give Op_Like_Any)
     else give Op_Like)"

definition p_op :: "cmp_op parse" where
  "p_op = look (\<lambda>p.
     if at_tok Tok_Tilde p then seq bump_token (\<lambda>_. p_like_quantifier)
     else (case simple_op p of
         Some o' \<Rightarrow> seq bump_token (\<lambda>_. give o')
       | None \<Rightarrow> fails ''expected a comparison operator''))"

definition p_any_by :: "ident_node option parse" where
  "p_any_by = look (\<lambda>p.
     if at_kw ''by'' p \<and> kind_at 1 p = Some Tok_Lower \<and> kind_at 2 p \<in> {Some Tok_Comma, Some Tok_RParen} then
       seq bump_token (\<lambda>_.
       seq (lower_ident ''a foreign-key column'') (\<lambda>col.
       seq (eat Tok_Comma) (\<lambda>_. give (Some col))))
     else give None)"

definition p_any_pred :: "predicate parse \<Rightarrow> predicate option parse" where
  "p_any_pred pred = look (\<lambda>p.
     if at_tok Tok_RParen p then give None else seq pred (\<lambda>x. give (Some x)))"

definition p_relation_any :: "predicate parse \<Rightarrow> path \<Rightarrow> predicate option parse" where
  "p_relation_any pred path = look (\<lambda>p.
     if length path > 1 \<and> id_node (last path) = ''any'' \<and> at_tok Tok_LParen p then
       seq bump_token (\<lambda>_.
       seq p_any_by (\<lambda>by_col.
       seq (p_any_pred pred) (\<lambda>inner.
       seq (expect Tok_RParen ''`)`'') (\<lambda>_. give (Some (Pred_Any (butlast path) by_col inner))))))
     else give None)"

definition p_compare :: "path \<Rightarrow> predicate parse" where
  "p_compare path =
     seq p_op (\<lambda>o'. look (\<lambda>p.
       if o' = Op_In \<and> at_tok Tok_LParen p then
         seq bump_token (\<lambda>_.
         seq (comma_list p_value) (\<lambda>vs.
         seq (expect Tok_RParen ''`)`'') (\<lambda>_. give (Pred_In path vs))))
       else seq p_value (\<lambda>v. give (Pred_Cmp path o' v))))"

definition p_leaf :: "predicate parse \<Rightarrow> predicate parse" where
  "p_leaf pred =
     seq (lower_ident ''a column, filter, or predicate'') (\<lambda>first. look (\<lambda>p.
       if at_tok Tok_LParen p then seq p_call_args (\<lambda>args. give (Pred_Filter first args))
       else
         seq (p_path_from first) (\<lambda>path.
         seq (p_relation_any pred path) (\<lambda>any.
           case any of
             Some x \<Rightarrow> give x
           | None \<Rightarrow> look (\<lambda>p. if at_op p then p_compare path else give (Pred_Bare path))))))"

definition p_atom :: "predicate parse \<Rightarrow> predicate parse" where
  "p_atom pred = look (\<lambda>p.
     if at_tok Tok_LParen p then
       seq bump_token (\<lambda>_.
       seq pred (\<lambda>x.
       seq (expect Tok_RParen ''`)`'') (\<lambda>_. give x)))
     else if is_raw_start p then seq p_raw_sql (\<lambda>r. give (Pred_Raw r))
     else p_leaf pred)"

definition p_not_expr :: "predicate parse \<Rightarrow> predicate parse" where
  "p_not_expr atom = seq (eat_kw ''not'') (\<lambda>b. if b then seq atom (\<lambda>x. give (Pred_Not x)) else atom)"

definition eat_kw_op :: "str \<Rightarrow> unit option parse" where
  "eat_kw_op kw = seq (eat_kw kw) (\<lambda>b. give (if b then Some () else None))"

definition p_and_expr :: "predicate parse \<Rightarrow> predicate parse" where
  "p_and_expr operand = seq operand (left_assoc (eat_kw_op ''and'') operand (\<lambda>_ l _ r. Pred_And l r))"

definition p_or_expr :: "predicate parse \<Rightarrow> predicate parse" where
  "p_or_expr operand = seq operand (left_assoc (eat_kw_op ''or'') operand (\<lambda>_ l _ r. Pred_Or l r))"

fun p_predicate_n :: "nat \<Rightarrow> predicate parse" where
  "p_predicate_n 0 = (\<lambda>p. None)"
| "p_predicate_n (Suc n) = p_or_expr (p_and_expr (p_not_expr (p_atom (p_predicate_n n))))"

definition p_predicate :: "predicate parse" where
  "p_predicate = look (\<lambda>p. p_predicate_n (Suc (left p)))"

subsection \<open>Scalar expressions (shape_expr.rs)\<close>

definition p_case_arm :: "shape_expr parse \<Rightarrow> case_arm parse" where
  "p_case_arm expr =
     seq p_predicate (\<lambda>w.
     seq (need_kw ''then'' ''expected `then` after a `case` condition'') (\<lambda>_.
     seq expr (\<lambda>e. give (Case_Arm w e))))"

definition p_case_arms :: "shape_expr parse \<Rightarrow> case_arm list parse" where
  "p_case_arms expr = loop (\<lambda>arms. seq (eat_kw ''when'') (\<lambda>b.
     if b then seq (p_case_arm expr) (\<lambda>a. give (Inl (arms @ [a]))) else give (Inr arms))) []"

definition p_case :: "shape_expr parse \<Rightarrow> shape_expr parse" where
  "p_case expr =
     seq bump_token (\<lambda>kw.
     seq (p_case_arms expr) (\<lambda>arms.
       if arms = [] then fails (''a `case` needs at least one `when '' @ ellipsis @ '' then '' @ ellipsis @ ''`'')
       else
         seq (need_kw ''else'' ''a `case` needs an `else` branch'') (\<lambda>_.
         seq expr (\<lambda>e.
         seq (need_kw ''end'' ''expected `end` to close the `case`'') (\<lambda>_. look (\<lambda>p.
           give (Expr_Case arms e (span_from (lx_start kw) p))))))))"

definition p_primary :: "shape_expr parse \<Rightarrow> shape_expr parse" where
  "p_primary expr = look (\<lambda>p.
     if at_tok Tok_LParen p then
       seq bump_token (\<lambda>_.
       seq expr (\<lambda>e.
       seq (expect Tok_RParen ''`)`'') (\<lambda>_. give e)))
     else if at_kw ''case'' p then p_case expr
     else seq p_value (\<lambda>v. give (Expr_Value v)))"

definition p_mul :: "shape_expr parse \<Rightarrow> shape_expr parse" where
  "p_mul primary = look (\<lambda>p0. seq primary
     (left_assoc (eat_op [(Tok_Star, Arith_Mul), (Tok_Slash, Arith_Div)]) primary
       (\<lambda>p l o' r. Expr_Arith l o' r (span_from (span_start (here p0)) p))))"

definition p_add :: "shape_expr parse \<Rightarrow> shape_expr parse" where
  "p_add operand = look (\<lambda>p0. seq operand
     (left_assoc (eat_op [(Tok_Plus, Arith_Add), (Tok_Minus, Arith_Sub)]) operand
       (\<lambda>p l o' r. Expr_Arith l o' r (span_from (span_start (here p0)) p))))"

definition p_concat :: "shape_expr parse \<Rightarrow> shape_expr parse" where
  "p_concat operand = look (\<lambda>p0. seq operand
     (left_assoc (eat_op [(Tok_Pipes, ())]) operand
       (\<lambda>p l o' r. Expr_Concat l r (span_from (span_start (here p0)) p))))"

fun p_shape_expr_n :: "nat \<Rightarrow> shape_expr parse" where
  "p_shape_expr_n 0 = (\<lambda>p. None)"
| "p_shape_expr_n (Suc n) = p_concat (p_add (p_mul (p_primary (p_shape_expr_n n))))"

definition p_shape_expr :: "shape_expr parse" where
  "p_shape_expr = look (\<lambda>p. p_shape_expr_n (Suc (left p)))"

subsection \<open>The contracts\<close>

lemma ok_raw_sql [parse_ok]: "ok n (\<lambda>_. 1) p_raw_sql p"
  unfolding p_raw_sql_def Let_def by (rule ok_seq [OF ok_expect], rule ok_seq [OF ok_expect]) (simp add: ok_look ok_give)

lemma ok_path_from [parse_ok]: "ok n (\<lambda>_. 0) (p_path_from first) p"
  unfolding p_path_from_def
  by (rule ok_loop, rule ok_seq [OF ok_eat])
    (auto intro!: ok_seq [OF ok_attempted [OF ok_lower_ident]] ok_give split: option.split)

lemma ok_path [parse_ok]: "ok n (\<lambda>_. 1) p_path p"
  unfolding p_path_def by (rule parse_ok [THEN ok_seq] parse_ok [THEN ok_more] | simp)+

lemma ok_dotted [parse_ok]: "ok n (\<lambda>_. 0) p_dotted p"
  unfolding p_dotted_def
  by (rule ok_loop) (rule parse_intros parse_ok [THEN ok_seq] | simp)+

lemma ok_param_ref [parse_ok]: "ok n (\<lambda>_. 1) p_param_ref p"
  unfolding p_param_ref_def by (rule parse_intros parse_ok [THEN ok_seq] | simp)+

lemma ok_literal_after [parse_ok]: "ok n (\<lambda>_. 1) (p_literal_after b) p"
  unfolding p_literal_after_def
  by (rule parse_intros ok_sum parse_ok [THEN ok_seq] | blast intro: has_token_intros | simp)+

lemma signed_number_token [has_token_intros]: "signed_number p \<Longrightarrow> has_token p"
  by (auto simp: signed_number_def intro: has_token_intros)

lemma ok_literal [parse_ok]: "ok n (\<lambda>_. 1) p_literal p"
  unfolding p_literal_def
  by (rule parse_intros parse_ok [THEN ok_seq] parse_ok [THEN ok_more] | blast intro: has_token_intros | simp)+

lemma ok_int_lit [parse_ok]: "ok n (\<lambda>_. 1) p_int_lit p"
  unfolding p_int_lit_def by (rule parse_intros parse_ok [THEN ok_seq] | simp)+

lemma glued_token [has_token_intros]: "glued p label \<Longrightarrow> has_token p"
  by (auto simp: glued_def has_token_def split: option.splits)

lemma ok_label [parse_ok]: "ok n (\<lambda>_. 1) p_label p"
  unfolding p_label_def
  by (rule parse_intros parse_ok [THEN ok_seq] ok_loop [THEN ok_more] | blast intro: has_token_intros | simp)+

lemma ok_call_args_with:
  assumes item: "\<And>m q. m \<le> n \<Longrightarrow> ok m (\<lambda>_. 1) item q"
  shows "ok n (\<lambda>_. 1) (p_call_args_with item) p"
  unfolding p_call_args_with_def
  by (rule parse_intros parse_ok [THEN ok_seq] ok_comma_args [THEN ok_seq] item [THEN ok_more] | simp)+

lemma ok_func_call_with:
  assumes item: "\<And>m q. m \<le> n \<Longrightarrow> ok m (\<lambda>_. 1) item q"
  shows "ok (Suc n) (\<lambda>_. 1) (p_func_call_with item) p"
  unfolding p_func_call_with_def
  by (rule parse_intros parse_ok [THEN ok_seq] ok_call_args_with [THEN ok_seq] item | simp)+

lemma ok_value_n: "m \<le> n \<Longrightarrow> ok m (\<lambda>_. 1) (p_value_n n) p"
proof (induction n arbitrary: m p)
  case (Suc n)
  have "ok (Suc n) (\<lambda>_. 1) (p_value_n (Suc n)) q" for q
    unfolding p_value_n.simps
    by (rule parse_intros parse_ok [THEN ok_seq] ok_func_call_with [THEN ok_seq] Suc.IH | simp)+
  then show ?case using Suc.prems by (rule ok_fewer)
qed (simp add: ok_def)

lemma ok_value [parse_ok]: "ok n (\<lambda>_. 1) p_value p"
  unfolding p_value_def by (rule ok_fuel) (rule ok_value_n, simp)

lemma ok_call_args [parse_ok]: "ok n (\<lambda>_. 1) p_call_args p"
  unfolding p_call_args_def by (rule ok_call_args_with) (rule ok_value)

lemma ok_func_call [parse_ok]: "ok n (\<lambda>_. 1) p_func_call p"
  unfolding p_func_call_def by (rule ok_fewer [OF ok_func_call_with [of n p_value p, OF ok_value]]) simp

lemma ok_like_quantifier [parse_ok]: "ok n (\<lambda>_. 0) p_like_quantifier p"
  unfolding p_like_quantifier_def
  by (rule parse_intros parse_ok [THEN ok_seq] | blast intro: has_token_intros | simp)+

lemma simple_op_token [has_token_intros]: "simple_op p = Some o' \<Longrightarrow> has_token p"
  by (auto simp: simple_op_def find_Some_iff split: if_splits intro: has_token_intros)

lemma ok_op [parse_ok]: "ok n (\<lambda>_. 1) p_op p"
  unfolding p_op_def
  by (rule parse_intros parse_ok [THEN ok_seq] parse_ok [THEN ok_more] | blast intro: has_token_intros | simp)+

lemma ok_any_by [parse_ok]: "ok n (\<lambda>_. 0) p_any_by p"
  unfolding p_any_by_def
  by (rule parse_intros parse_ok [THEN ok_seq] | blast intro: has_token_intros | simp)+

lemma ok_any_pred:
  assumes pred: "\<And>m q. m \<le> n \<Longrightarrow> ok m (\<lambda>_. 1) pred q"
  shows "ok n (\<lambda>_. 0) (p_any_pred pred) p"
  unfolding p_any_pred_def by (rule parse_intros pred [THEN ok_seq] | simp)+

lemma ok_relation_any:
  assumes pred: "\<And>m q. m \<le> n \<Longrightarrow> ok m (\<lambda>_. 1) pred q"
  shows "ok n (\<lambda>_. 0) (p_relation_any pred path) p"
  unfolding p_relation_any_def
  by (rule parse_intros parse_ok [THEN ok_seq] ok_any_pred [THEN ok_seq] pred | blast intro: has_token_intros | simp)+

lemma ok_compare [parse_ok]: "ok n (\<lambda>_. 1) (p_compare path) p"
  unfolding p_compare_def
  by (rule parse_intros parse_ok [THEN ok_seq] ok_comma_list [THEN ok_seq] parse_ok [THEN ok_more]
      | blast intro: has_token_intros | simp)+

lemma ok_leaf:
  assumes pred: "\<And>m q. m \<le> n \<Longrightarrow> ok m (\<lambda>_. 1) pred q"
  shows "ok (Suc n) (\<lambda>_. 1) (p_leaf pred) p"
  unfolding p_leaf_def
  by (rule parse_intros parse_ok [THEN ok_seq] ok_relation_any [THEN ok_seq] pred parse_ok [THEN ok_more] | simp)+

lemma ok_atom:
  assumes pred: "\<And>m q. m \<le> n \<Longrightarrow> ok m (\<lambda>_. 1) pred q"
  shows "ok (Suc n) (\<lambda>_. 1) (p_atom pred) p"
  unfolding p_atom_def
  by (rule parse_intros parse_ok [THEN ok_seq] pred [THEN ok_seq] pred ok_leaf | blast intro: has_token_intros | simp)+

lemma ok_not_expr:
  assumes atom: "\<And>m q. m \<le> n \<Longrightarrow> ok m (\<lambda>_. 1) atom q"
  shows "ok n (\<lambda>_. 1) (p_not_expr atom) p"
  unfolding p_not_expr_def
  by (rule parse_intros parse_ok [THEN ok_seq] atom [THEN ok_seq] atom [THEN ok_more] | simp)+

lemma ok_eat_kw_op [parse_ok]: "ok n (\<lambda>r. case r of None \<Rightarrow> 0 | Some _ \<Rightarrow> 1) (eat_kw_op kw) p"
  unfolding eat_kw_op_def by (rule parse_intros parse_ok [THEN ok_seq] | simp)+

lemma ok_and_expr:
  assumes operand: "\<And>m q. m \<le> n \<Longrightarrow> ok m (\<lambda>_. 1) operand q"
  shows "ok n (\<lambda>_. 1) (p_and_expr operand) p"
  unfolding p_and_expr_def
  by (rule operand [THEN ok_seq] ok_left_assoc [THEN ok_more] parse_ok operand | simp)+

lemma ok_or_expr:
  assumes operand: "\<And>m q. m \<le> n \<Longrightarrow> ok m (\<lambda>_. 1) operand q"
  shows "ok n (\<lambda>_. 1) (p_or_expr operand) p"
  unfolding p_or_expr_def
  by (rule operand [THEN ok_seq] ok_left_assoc [THEN ok_more] parse_ok operand | simp)+

lemma ok_predicate_n: "m \<le> n \<Longrightarrow> ok m (\<lambda>_. 1) (p_predicate_n n) p"
proof (induction n arbitrary: m p)
  case (Suc n)
  let ?atom = "p_atom (p_predicate_n n)"
  have atom: "ok m (\<lambda>_. 1) ?atom q" if "m \<le> Suc n" for m q
    using ok_atom [OF Suc.IH] that by (rule ok_fewer)
  have neg: "ok m (\<lambda>_. 1) (p_not_expr ?atom) q" if "m \<le> Suc n" for m q
    using ok_not_expr [OF atom] that by (rule ok_fewer)
  have conj: "ok m (\<lambda>_. 1) (p_and_expr (p_not_expr ?atom)) q" if "m \<le> Suc n" for m q
    using ok_and_expr [OF neg] that by (rule ok_fewer)
  show ?case unfolding p_predicate_n.simps using ok_or_expr [OF conj] Suc.prems by (rule ok_fewer)
qed (simp add: ok_def)

lemma ok_predicate [parse_ok]: "ok n (\<lambda>_. 1) p_predicate p"
  unfolding p_predicate_def by (rule ok_fuel) (rule ok_predicate_n, simp)

lemma ok_case_arm:
  assumes expr: "\<And>m q. m \<le> n \<Longrightarrow> ok m (\<lambda>_. 1) expr q"
  shows "ok n (\<lambda>_. 1) (p_case_arm expr) p"
  unfolding p_case_arm_def by (rule parse_intros parse_ok [THEN ok_seq] expr [THEN ok_seq] | simp)+

lemma ok_case_arms:
  assumes expr: "\<And>m q. m \<le> n \<Longrightarrow> ok m (\<lambda>_. 1) expr q"
  shows "ok n (\<lambda>_. 0) (p_case_arms expr) p"
  unfolding p_case_arms_def
  by (rule ok_loop) (rule parse_intros parse_ok [THEN ok_seq] ok_case_arm [THEN ok_seq] expr | simp)+

lemma ok_case:
  assumes expr: "\<And>m q. m \<le> n \<Longrightarrow> ok m (\<lambda>_. 1) expr q" and "has_token p"
  shows "ok (Suc n) (\<lambda>_. 1) (p_case expr) p"
  unfolding p_case_def
  by (rule parse_intros parse_ok [THEN ok_seq] ok_case_arms [THEN ok_seq] expr [THEN ok_seq] expr assms(2) | simp)+

lemma ok_primary:
  assumes expr: "\<And>m q. m \<le> n \<Longrightarrow> ok m (\<lambda>_. 1) expr q"
  shows "ok (Suc n) (\<lambda>_. 1) (p_primary expr) p"
  unfolding p_primary_def
  by (rule parse_intros ok_case expr parse_ok [THEN ok_seq] expr [THEN ok_seq] | blast intro: has_token_intros | simp)+

lemma ok_mul:
  assumes operand: "\<And>m q. m \<le> n \<Longrightarrow> ok m (\<lambda>_. 1) operand q"
  shows "ok n (\<lambda>_. 1) (p_mul operand) p"
  unfolding p_mul_def
  by (rule ok_look operand [THEN ok_seq] ok_left_assoc [THEN ok_more] parse_ok operand | simp)+

lemma ok_add:
  assumes operand: "\<And>m q. m \<le> n \<Longrightarrow> ok m (\<lambda>_. 1) operand q"
  shows "ok n (\<lambda>_. 1) (p_add operand) p"
  unfolding p_add_def
  by (rule ok_look operand [THEN ok_seq] ok_left_assoc [THEN ok_more] parse_ok operand | simp)+

lemma ok_concat:
  assumes operand: "\<And>m q. m \<le> n \<Longrightarrow> ok m (\<lambda>_. 1) operand q"
  shows "ok n (\<lambda>_. 1) (p_concat operand) p"
  unfolding p_concat_def
  by (rule ok_look operand [THEN ok_seq] ok_left_assoc [THEN ok_more] parse_ok operand | simp)+

lemma ok_shape_expr_n: "m \<le> n \<Longrightarrow> ok m (\<lambda>_. 1) (p_shape_expr_n n) p"
proof (induction n arbitrary: m p)
  case (Suc n)
  let ?primary = "p_primary (p_shape_expr_n n)"
  have primary: "ok m (\<lambda>_. 1) ?primary q" if "m \<le> Suc n" for m q
    using ok_primary [OF Suc.IH] that by (rule ok_fewer)
  have mul: "ok m (\<lambda>_. 1) (p_mul ?primary) q" if "m \<le> Suc n" for m q
    using ok_mul [OF primary] that by (rule ok_fewer)
  have add: "ok m (\<lambda>_. 1) (p_add (p_mul ?primary)) q" if "m \<le> Suc n" for m q
    using ok_add [OF mul] that by (rule ok_fewer)
  show ?case unfolding p_shape_expr_n.simps using ok_concat [OF add] Suc.prems by (rule ok_fewer)
qed (simp add: ok_def)

lemma ok_shape_expr [parse_ok]: "ok n (\<lambda>_. 1) p_shape_expr p"
  unfolding p_shape_expr_def by (rule ok_fuel) (rule ok_shape_expr_n, simp)

end
