(* ===== verification/Parse_Step.thy ===== *)
theory Parse_Step
  imports Parse_Expr
begin

text \<open>
  Migration data steps (\<open>parser/data_step.rs\<close>) and the two entry points a migration uses,
  \<open>parse_data_step\<close> and \<open>parse_expr\<close> (\<open>parser/mod.rs\<close>), with the contracts.
\<close>

subsection \<open>Numbers\<close>

definition u64_max :: int where
  "u64_max = 2 ^ 64 - 1"

definition p_positive_int :: "str \<Rightarrow> nat parse" where
  "p_positive_int what = seq (expect Tok_Int what) (\<lambda>l. look (\<lambda>p.
     let n = digits_value (token_text p l) in
     if 0 < n \<and> int n \<le> u64_max then give n
     else (\<lambda>q. fails (expected what @ '' greater than zero'') (q\<lparr>ps_pos := ps_pos q - 1\<rparr>))))"

definition p_pause_ms :: "nat parse" where
  "p_pause_ms = seq (p_positive_int ''a pause duration (`200ms`, `2s`)'') (\<lambda>n. look (\<lambda>p.
     if at_kw ''ms'' p then seq bump_token (\<lambda>_. give n)
     else if at_kw ''s'' p then seq bump_token (\<lambda>_. give (nat (min u64_max (int n * 1000))))
     else fails ''expected a duration unit (`ms` or `s`)''))"

definition p_opt_kw :: "str \<Rightarrow> 'a parse \<Rightarrow> 'a option parse" where
  "p_opt_kw kw m = seq (eat_kw kw) (\<lambda>b. if b then seq m (\<lambda>x. give (Some x)) else give None)"

definition p_chunk_modifier :: "chunk_mod option parse" where
  "p_chunk_modifier = look (\<lambda>p0.
     if \<not> at_kw ''chunk'' p0 then give None
     else
       seq bump_token (\<lambda>_.
       seq (p_positive_int ''a chunk size (rows per batch)'') (\<lambda>size.
       seq (p_opt_kw ''by'' (any_ident ''a column to walk by'')) (\<lambda>by_col.
       seq (p_opt_kw ''pause'' p_pause_ms) (\<lambda>pause. look (\<lambda>p.
         give (Some \<lparr>ch_size = size, ch_by = by_col, ch_pause_ms = pause,
                     ch_span = span_from (span_start (here p0)) p\<rparr>)))))))"

subsection \<open>Assignments and rows\<close>

definition p_data_assign :: "data_assign parse" where
  "p_data_assign =
     seq (any_ident ''a column'') (\<lambda>col.
     seq (expect Tok_Eq ''`=`'') (\<lambda>_.
     seq p_shape_expr (\<lambda>e. give \<lparr>da_col = col, da_value = e\<rparr>)))"

definition p_data_assign_block :: "data_assign list parse" where
  "p_data_assign_block =
     seq (expect Tok_LBrace ''`{`'') (\<lambda>_.
     seq (items_until Tok_RBrace (\<lambda>_. p_data_assign)) (\<lambda>assigns.
     seq (expect Tok_RBrace ''`}`'') (\<lambda>_. give assigns)))"

definition p_data_row :: "data_row parse" where
  "p_data_row = look (\<lambda>p0. seq p_data_assign_block (\<lambda>assigns. look (\<lambda>p.
     give \<lparr>dr_assigns = assigns, dr_span = span_from (span_start (here p0)) p\<rparr>)))"

subsection \<open>The upsert tail\<close>

datatype update_item = Upd_Assign data_assign | Upd_Spread conflict_spread

fun is_spread :: "update_item \<Rightarrow> bool" where
  "is_spread (Upd_Spread _) = True"
| "is_spread (Upd_Assign _) = False"

definition p_update_item :: "update_item list \<Rightarrow> update_item parse" where
  "p_update_item seen = look (\<lambda>p0.
     if \<not> at_tok Tok_Dots p0 then seq p_data_assign (\<lambda>a. give (Upd_Assign a))
     else
       seq bump_token (\<lambda>_.
       seq (lower_ident ''`incoming`'') (\<lambda>src. look (\<lambda>p.
         if list_ex is_spread seen then fails ''duplicate `...incoming`''
         else give (Upd_Spread \<lparr>cs_source = src, cs_preceding = length seen,
                                cs_span = span_from (span_start (here p0)) p\<rparr>)))))"

fun add_update :: "update_item \<Rightarrow> data_assign list \<times> conflict_spread option \<Rightarrow> data_assign list \<times> conflict_spread option" where
  "add_update (Upd_Assign a) (update, sp) = (update @ [a], sp)"
| "add_update (Upd_Spread s) (update, sp) = (update, Some s)"

definition p_data_conflict :: "data_conflict option parse" where
  "p_data_conflict = look (\<lambda>p0.
     if \<not> at_kw ''on'' p0 then give None
     else
       seq bump_token (\<lambda>_.
       seq (expect_kw ''conflict'' ''`conflict` after `on`'') (\<lambda>_.
       seq (expect Tok_LParen ''`(`'') (\<lambda>_.
       seq (comma_list (any_ident ''a conflict column'')) (\<lambda>target.
       seq (expect Tok_RParen ''`)`'') (\<lambda>_.
       seq (expect_kw ''update'' (''`update` after `on conflict ('' @ ellipsis @ '')`'')) (\<lambda>_.
       seq (expect Tok_LBrace ''`{`'') (\<lambda>_.
       seq (items_until Tok_RBrace p_update_item) (\<lambda>items.
       seq (expect Tok_RBrace ''`}`'') (\<lambda>_. look (\<lambda>p.
         let r = fold add_update items ([], None) in
         give (Some \<lparr>dc_target = target, dc_update = fst r, dc_spread = snd r,
                     dc_span = span_from (span_start (here p0)) p\<rparr>))))))))))))"

subsection \<open>The step\<close>

definition p_data_rows :: "bool \<Rightarrow> data_row list parse" where
  "p_data_rows bulk =
     (if bulk then
        seq (expect Tok_RBracket (''`]` (`create t[] from [ '' @ ellipsis @ '' ]`)'')) (\<lambda>_.
        seq (expect_kw ''from'' (''`from [ '' @ ellipsis @ '' ]` after `create t[]`'')) (\<lambda>_.
        seq (expect Tok_LBracket ''`[` opening the row list'') (\<lambda>_.
        seq (items_until Tok_RBracket (\<lambda>_. p_data_row)) (\<lambda>rows.
        seq (expect Tok_RBracket ''`]` closing the row list'') (\<lambda>_. give rows)))))
      else seq p_data_row (\<lambda>row. give [row]))"

definition p_data_create :: "data_op parse" where
  "p_data_create =
     seq (any_ident ''a table name'') (\<lambda>table.
     seq (eat Tok_LBracket) (\<lambda>bulk.
     seq (p_data_rows bulk) (\<lambda>rows.
     seq p_data_conflict (\<lambda>conflict. give (Op_Create table rows bulk conflict)))))"

definition p_data_target :: "(ident_node \<times> predicate option) parse" where
  "p_data_target = seq (eat_kw ''all'') (\<lambda>b.
     if b then seq (any_ident ''a table name'') (\<lambda>table. give (table, None))
     else
       seq (any_ident ''a table name'') (\<lambda>table.
       seq (need_kw ''where'' (''expected `where ('' @ ellipsis @ '')` to filter, or `all` for the whole table'')) (\<lambda>_.
       seq (expect Tok_LParen ''`(`'') (\<lambda>_.
       seq p_predicate (\<lambda>pred.
       seq (expect Tok_RParen ''`)`'') (\<lambda>_. give (table, Some pred)))))))"

definition p_data_op :: "data_op parse" where
  "p_data_op = look (\<lambda>p.
     if at_kw ''create'' p then seq bump_token (\<lambda>_. p_data_create)
     else if at_kw ''update'' p then
       seq bump_token (\<lambda>_.
       seq p_data_target (\<lambda>(table, cond).
       seq p_data_assign_block (\<lambda>assigns. give (Op_Update table cond assigns))))
     else if at_kw ''delete'' p then
       seq bump_token (\<lambda>_.
       seq p_data_target (\<lambda>(table, cond). give (Op_Delete table cond)))
     else fails ''expected a data step (`create`, `update`, or `delete`)'')"

definition p_data_step :: "data_step parse" where
  "p_data_step = look (\<lambda>p0.
     seq p_data_op (\<lambda>oper.
     seq p_chunk_modifier (\<lambda>chunk. look (\<lambda>p.
       give \<lparr>ds_op = oper, ds_chunk = chunk, ds_span = span_from (span_start (here p0)) p\<rparr>))))"

subsection \<open>Entry points (mod.rs)\<close>

definition lex_diag :: "nat \<Rightarrow> str \<Rightarrow> nat \<times> nat \<Rightarrow> diagnostic" where
  "lex_diag file msg e = \<lparr>dg_code = ''E0001'', dg_message = msg,
     dg_span = \<lparr>span_file = file, span_start = fst e, span_end = snd e\<rparr>\<rparr>"

definition start_state :: "(str \<Rightarrow> nat) \<Rightarrow> bool \<Rightarrow> (nat \<times> nat \<Rightarrow> str) \<Rightarrow> str \<Rightarrow> nat \<Rightarrow> pstate" where
  "start_state skip any_case msg src file = (let lg = lex skip src in
     \<lparr>ps_src = src, ps_file = file, ps_toks = lg_tokens lg, ps_pos = 0,
      ps_diags = map (\<lambda>e. lex_diag file (msg e) e) (lg_errors lg), ps_any_case = any_case\<rparr>)"

text \<open>The result of a parse that must use the whole text: \<open>None\<close> would be a panic or an endless loop.\<close>

definition whole_text :: "str \<Rightarrow> 'a parse \<Rightarrow> pstate \<Rightarrow> (diagnostic list + 'a) option" where
  "whole_text trailing m p = (case m p of
       None \<Rightarrow> None
     | Some (None, q) \<Rightarrow> Some (Inl (ps_diags q))
     | Some (Some a, q) \<Rightarrow>
         (let r = if peek q = None then q else add_diag trailing q in
          Some (if ps_diags r = [] then Inr a else Inl (ps_diags r))))"

definition parse_data_step :: "(str \<Rightarrow> nat) \<Rightarrow> str \<Rightarrow> nat \<Rightarrow> (diagnostic list + data_step) option" where
  "parse_data_step skip src file =
     whole_text ''trailing tokens after the data step'' p_data_step
       (start_state skip True (\<lambda>_. ''unexpected character'') src file)"

definition parse_expr :: "(str \<Rightarrow> nat) \<Rightarrow> str \<Rightarrow> nat \<Rightarrow> (diagnostic list + shape_expr) option" where
  "parse_expr skip src file =
     whole_text ''trailing tokens after expression'' p_shape_expr
       (start_state skip False (\<lambda>_. ''unexpected character'') src file)"

subsection \<open>The contracts\<close>

lemma ok_positive_int [parse_ok]: "ok n (\<lambda>_. 1) (p_positive_int what) p"
proof (cases "at_tok Tok_Int p")
  case True
  then obtain l where l: "peek p = Some l" using at_tok_peek by fastforce
  have undone: "(advance p)\<lparr>ps_pos := ps_pos p\<rparr> = p" by (simp add: advance_def)
  show ?thesis
  proof (cases "0 < digits_value (token_text (advance p) l) \<and> int (digits_value (token_text (advance p) l)) \<le> u64_max")
    case good: True
    then have "p_positive_int what p = Some (Some (digits_value (token_text (advance p) l)), advance p)"
      using True l by (simp add: p_positive_int_def seq_def expect_def look_def bump_token_def give_def Let_def)
    then show ?thesis using extends_advance [of p] l by (simp add: ok_def)
  next
    case bad: False
    then have "p_positive_int what p = fails (expected what @ '' greater than zero'') p"
      using True l undone by (auto simp: p_positive_int_def seq_def expect_def look_def bump_token_def Let_def)
    then show ?thesis using ok_fails [of n "\<lambda>_. 1" _ p] by (auto simp: ok_def)
  qed
next
  case False
  then have "p_positive_int what p = fails (expected what) p"
    by (simp add: p_positive_int_def seq_def expect_def look_def fails_def)
  then show ?thesis using ok_fails [of n "\<lambda>_. 1" _ p] by (auto simp: ok_def)
qed

lemma ok_pause_ms [parse_ok]: "ok n (\<lambda>_. 1) p_pause_ms p"
  unfolding p_pause_ms_def
  by (rule parse_intros parse_ok [THEN ok_seq] | blast intro: has_token_intros | simp)+

lemma ok_opt_kw: "(\<And>m q. ok m (\<lambda>_. 1) item q) \<Longrightarrow> ok n (\<lambda>r. case r of None \<Rightarrow> 0 | Some _ \<Rightarrow> 1) (p_opt_kw kw item) p"
  unfolding p_opt_kw_def
  by (rule ok_seq [OF ok_eat_kw], rule ok_if, rule ok_seq, assumption) (auto intro: ok_give)

lemma ok_chunk_modifier [parse_ok]: "ok n (\<lambda>_. 0) p_chunk_modifier p"
  unfolding p_chunk_modifier_def
  by (rule parse_intros parse_ok [THEN ok_seq] ok_opt_kw [THEN ok_seq] parse_ok | blast intro: has_token_intros | simp)+

lemma ok_data_assign [parse_ok]: "ok n (\<lambda>_. 1) p_data_assign p"
  unfolding p_data_assign_def by (rule parse_intros parse_ok [THEN ok_seq] | simp)+

lemma ok_data_assign_block [parse_ok]: "ok n (\<lambda>_. 1) p_data_assign_block p"
  unfolding p_data_assign_block_def
  by (rule parse_intros parse_ok [THEN ok_seq] ok_items_until [THEN ok_seq] parse_ok | simp)+

lemma ok_data_row [parse_ok]: "ok n (\<lambda>_. 1) p_data_row p"
  unfolding p_data_row_def by (rule parse_intros parse_ok [THEN ok_seq] | simp)+

lemma ok_update_item [parse_ok]: "ok n (\<lambda>_. 1) (p_update_item seen) p"
  unfolding p_update_item_def
  by (rule parse_intros parse_ok [THEN ok_seq] | blast intro: has_token_intros | simp)+

lemma ok_data_conflict [parse_ok]: "ok n (\<lambda>_. 0) p_data_conflict p"
  unfolding p_data_conflict_def Let_def
  by (rule parse_intros parse_ok [THEN ok_seq] ok_items_until [THEN ok_seq] ok_comma_list [THEN ok_seq] parse_ok [THEN ok_more]
      | blast intro: has_token_intros | simp)+

lemma ok_data_rows [parse_ok]: "ok n (\<lambda>_. 1) (p_data_rows bulk) p"
  unfolding p_data_rows_def
  by (rule parse_intros parse_ok [THEN ok_seq] ok_items_until [THEN ok_seq] parse_ok | simp)+

lemma ok_data_create [parse_ok]: "ok n (\<lambda>_. 1) p_data_create p"
  unfolding p_data_create_def by (rule parse_intros parse_ok [THEN ok_seq] | simp)+

lemma ok_data_target [parse_ok]: "ok n (\<lambda>_. 1) p_data_target p"
  unfolding p_data_target_def by (rule parse_intros parse_ok [THEN ok_seq] | simp)+

lemma ok_data_op [parse_ok]: "ok n (\<lambda>_. 1) p_data_op p"
  unfolding p_data_op_def
  by (rule parse_intros parse_ok [THEN ok_seq] parse_ok [THEN ok_more] | blast intro: has_token_intros | simp)+

lemma ok_data_step [parse_ok]: "ok n (\<lambda>_. 1) p_data_step p"
  unfolding p_data_step_def by (rule parse_intros parse_ok [THEN ok_seq] | simp)+

lemma start_state_wf: "wf_state (start_state skip any_case msg src file)"
  using lex_from_in_order [of 0 src skip]
  by (auto simp: start_state_def Let_def wf_state_def lex_def lexed_in_order_def)

lemma start_state_in_text: "d \<in> set (ps_diags (start_state skip any_case msg src file)) \<Longrightarrow>
    in_text (start_state skip any_case msg src file) d"
  using lex_from_in_order [of 0 src skip]
  by (fastforce simp: start_state_def Let_def lex_def lexed_in_order_def in_text_def lex_diag_def)

text \<open>What parsing a whole text promises: it returns, an error has a message, and every message points
  into the text.\<close>

definition well_reported :: "nat \<Rightarrow> str \<Rightarrow> (diagnostic list + 'a) option \<Rightarrow> bool" where
  "well_reported file src r \<longleftrightarrow> (case r of
       None \<Rightarrow> False
     | Some (Inr _) \<Rightarrow> True
     | Some (Inl ds) \<Rightarrow> ds \<noteq> [] \<and> (\<forall>d \<in> set ds. span_file (dg_span d) = file \<and>
         span_start (dg_span d) \<le> span_end (dg_span d) \<and> span_end (dg_span d) \<le> length src))"

lemma whole_text_reported:
  assumes "\<And>n. ok n (\<lambda>_. 1) m (start_state skip any_case msg src file)"
  shows "well_reported file src (whole_text trailing m (start_state skip any_case msg src file))"
proof -
  let ?p = "start_state skip any_case msg src file"
  have text_of: "ps_file ?p = file" "ps_src ?p = src" by (simp_all add: start_state_def Let_def)
  obtain r q where 1: "m ?p = Some (r, q)" "extends ?p q" "r = None \<Longrightarrow> length (ps_diags ?p) < length (ps_diags q)"
    using assms [of "Suc (left ?p)"] start_state_wf [of skip any_case msg src "file"]
    by (force simp: ok_def split: option.splits)
  have wf: "wf_state q" using start_state_wf 1(2) by (rule extends_wf)
  have diags: "\<forall>d \<in> set (ps_diags q'). in_text ?p d" if "extends ?p q'" for q'
    using that start_state_in_text by (auto simp: extends_def)
  have "extends ?p (add_diag trailing q)"
    using 1(2) ok_fails [of "Suc (left q)" "\<lambda>_. 0" trailing q] wf
    by (auto simp: ok_def fails_def intro: extends_trans)
  then have trail: "\<forall>d \<in> set (ps_diags (add_diag trailing q)). in_text ?p d" by (rule diags)
  show ?thesis using 1 diags [OF 1(2)] trail text_of
    by (auto simp: whole_text_def well_reported_def Let_def in_text_def split: option.splits)
qed

end
