(* ===== verification/Parse_Type.thy ===== *)
theory Parse_Type
  imports Parse_Step
begin

text \<open>
  The pieces of a declaration: opaque bodies (\<open>raw.rs\<close>), types (\<open>type_expr.rs\<close>), defaults
  (\<open>value.rs\<close>), parameters (\<open>params.rs\<close>), sort terms (\<open>sort.rs\<close>), calls in a shape
  (\<open>aggregate.rs\<close>, \<open>bucket.rs\<close>, \<open>filter_projection.rs\<close>), foreign-key decorators (\<open>fk.rs\<close>) and the
  generic decorator (\<open>decorator.rs\<close>), with their contracts.
\<close>

subsection \<open>Opaque bodies\<close>

definition quoted_node :: "lexed \<Rightarrow> pstate \<Rightarrow> ident_node" where
  "quoted_node l p = \<lparr>id_node = unquote (token_text p l), id_span = token_span p l\<rparr>"

definition p_raw_dialect :: "raw_dialect parse" where
  "p_raw_dialect =
     seq (lower_ident ''a dialect name'') (\<lambda>d.
     seq (expect Tok_Colon ''`:`'') (\<lambda>_.
     seq (expect Tok_Str ''a quoted literal'') (\<lambda>s. look (\<lambda>p. give \<lparr>rd_dialect = d, rd_text = quoted_node s p\<rparr>))))"

definition p_raw_dialects :: "raw_dialect list parse" where
  "p_raw_dialects = loop (\<lambda>es.
     seq p_raw_dialect (\<lambda>e.
     seq (eat Tok_Comma) (\<lambda>more. look (\<lambda>p.
       give (if \<not> more \<or> at_tok Tok_RBrace p then Inr (es @ [e]) else Inl (es @ [e])))))) []"

definition p_raw_spec_body :: "raw_spec_body parse" where
  "p_raw_spec_body = seq (eat Tok_LBrace) (\<lambda>b.
     if b then
       seq p_raw_dialects (\<lambda>es.
       seq (expect Tok_RBrace ''`}`'') (\<lambda>_. give (Spec_Per_Dialect es)))
     else
       seq (expect Tok_Str (''a quoted literal or a `{ dialect: \"'' @ ellipsis @ ''\" }` map'')) (\<lambda>s. look (\<lambda>p.
         give (Spec_All (quoted_node s p)))))"

definition p_raw_spec :: "raw_spec parse" where
  "p_raw_spec =
     seq (expect Tok_Lower ''`raw`'') (\<lambda>kw.
     seq (expect Tok_LParen (''`(` (a `raw('' @ ellipsis @ '')` body)'')) (\<lambda>_.
     seq p_raw_spec_body (\<lambda>body.
     seq (expect Tok_RParen ''`)`'') (\<lambda>r. look (\<lambda>p.
       give \<lparr>rw_body = body, rw_span = span_at p (lx_start kw) (lx_end r)\<rparr>)))))"

definition is_raw_spec_start :: "pstate \<Rightarrow> bool" where
  "is_raw_spec_start p \<longleftrightarrow> at_kw ''raw'' p \<and> kind_at 1 p = Some Tok_LParen"

subsection \<open>Types\<close>

text \<open>Two \<open>bump()\<close> calls, the second unwrapped.\<close>

definition bump_two :: "lexed parse" where
  "bump_two p = (case tok_at 1 p of None \<Rightarrow> None | Some l \<Rightarrow> Some (Some l, advance (advance p)))"

definition p_question_end :: "nat option parse" where
  "p_question_end = look (\<lambda>p.
     if at_tok Tok_Question p then seq bump_token (\<lambda>l. give (Some (lx_end l))) else give None)"

definition p_raw_type_expr :: "bool \<Rightarrow> type_expr parse" where
  "p_raw_type_expr allow_raw =
     (if \<not> allow_raw then fails (''an opaque `raw('' @ ellipsis @ '')` type may only type a model field'')
      else
        seq p_raw_spec (\<lambda>spec.
        seq p_question_end (\<lambda>q. look (\<lambda>p.
          if at_tok Tok_LBracket p then fails (''an opaque `raw('' @ ellipsis @ '')` type has no array form'')
          else give \<lparr>ty_base = Base_Raw spec, ty_optional = q \<noteq> None, ty_many = False,
                     ty_span = span_at p (span_start (rw_span spec))
                       (case q of Some e \<Rightarrow> e | None \<Rightarrow> span_end (rw_span spec))\<rparr>))))"

definition u32_max :: int where
  "u32_max = 2 ^ 32 - 1"

definition p_uint_arg :: "str \<Rightarrow> nat parse" where
  "p_uint_arg what = seq (expect Tok_Int what) (\<lambda>l. look (\<lambda>p.
     case int_literal False (token_text p l) of
       Some n \<Rightarrow> give (nat (min n u32_max))
     | None \<Rightarrow> fails (what @ '' must be a non-negative integer'')))"

definition p_decimal_args :: "nat \<Rightarrow> (nat \<times> nat \<times> nat) parse" where
  "p_decimal_args bare_end = look (\<lambda>p.
     if \<not> at_tok Tok_LParen p then give (38, 9, bare_end)
     else
       seq bump_token (\<lambda>_.
       seq (p_uint_arg ''decimal precision'') (\<lambda>precision.
       seq (expect Tok_Comma ''`,`'') (\<lambda>_.
       seq (p_uint_arg ''decimal scale'') (\<lambda>scale.
       seq (expect Tok_RParen ''`)`'') (\<lambda>r. give (precision, scale, lx_end r)))))))"

definition primitive_words :: "(str \<times> primitive) list" where
  "primitive_words =
     [(''text'', P_Text), (''int'', P_Int), (''bool'', P_Bool), (''timestamp'', P_Timestamp), (''date'', P_Date), (''time'', P_Time),
      (''bytes'', P_Bytes), (''json'', P_Json), (''uuid'', P_Uuid), (''ulid'', P_Ulid), (''serial'', P_Serial), (''float'', P_Float)]"

definition p_primitive :: "lexed \<Rightarrow> str \<Rightarrow> (base_type \<times> nat \<times> nat) parse" where
  "p_primitive l w = (case map_of primitive_words w of
       Some t \<Rightarrow> give (Base_Primitive t, lx_start l, lx_end l)
     | None \<Rightarrow>
         (if w = ''decimal'' then
            seq (p_decimal_args (lx_end l)) (\<lambda>(precision, scale, e).
              give (Base_Primitive (P_Decimal precision scale), lx_start l, e))
          else fails ''unknown type (expected a primitive or a model reference)''))"

definition p_base_type :: "(base_type \<times> nat \<times> nat) parse" where
  "p_base_type = look (\<lambda>p.
     if at_tok Tok_Upper p then
       seq bump_token (\<lambda>l.
         give (if token_text p l = ''Id'' then Base_Primitive P_Id else Base_Model (ident_of p l), lx_start l, lx_end l))
     else if at_tok Tok_Lower p then seq bump_token (\<lambda>l. p_primitive l (token_text p l))
     else fails ''expected a type'')"

definition p_type_suffix :: "base_type \<Rightarrow> nat \<Rightarrow> nat \<Rightarrow> type_expr parse" where
  "p_type_suffix base start base_end = loop (\<lambda>ty. look (\<lambda>p.
     if at_tok Tok_Question p then
       seq bump_token (\<lambda>l. give (Inl (ty\<lparr>ty_optional := True, ty_span := span_at p start (lx_end l)\<rparr>)))
     else if at_tok Tok_LBracket p \<and> kind_at 1 p = Some Tok_RBracket then
       seq bump_two (\<lambda>l. give (Inl (ty\<lparr>ty_many := True, ty_span := span_at p start (lx_end l)\<rparr>)))
     else give (Inr (ty\<lparr>ty_span := span_at p start (span_end (ty_span ty))\<rparr>))))
     \<lparr>ty_base = base, ty_optional = False, ty_many = False,
      ty_span = \<lparr>span_file = 0, span_start = start, span_end = base_end\<rparr>\<rparr>"

definition p_type_expr_inner :: "bool \<Rightarrow> type_expr parse" where
  "p_type_expr_inner allow_raw = look (\<lambda>p.
     if is_raw_spec_start p then p_raw_type_expr allow_raw
     else seq p_base_type (\<lambda>(base, start, base_end). p_type_suffix base start base_end))"

definition p_type_expr :: "type_expr parse" where
  "p_type_expr = p_type_expr_inner False"

subsection \<open>Defaults and parameters\<close>

definition p_default_val :: "default_val parse" where
  "p_default_val = look (\<lambda>p.
     if at_tok Tok_Lower p \<and> kind_at 1 p = Some Tok_LParen then
       seq p_func_call (\<lambda>(f, args). give (Default_Func f args))
     else if at_tok Tok_Lower p \<and> ident_at 0 p \<notin> {Some ''true'', Some ''false'', Some ''null''} then
       seq (lower_ident ''default variant'') (\<lambda>v. give (Default_Variant v))
     else seq p_literal (\<lambda>l. give (Default_Lit l)))"

definition at_binding_op :: "pstate \<Rightarrow> bool" where
  "at_binding_op p \<longleftrightarrow>
     kind_at 0 p \<in> Some ` {Tok_Ne, Tok_Gt, Tok_Lt, Tok_Ge, Tok_Le, Tok_Tilde} \<or> at_kw ''in'' p \<or> at_kw ''has'' p"

definition p_param_binding :: "param_binding option parse" where
  "p_param_binding = seq (eat Tok_Arrow) (\<lambda>b.
     if b then seq (lower_ident ''edge field'') (\<lambda>e. give (Some (Bind_Edge e)))
     else look (\<lambda>p.
       if at_binding_op p then
         seq p_op (\<lambda>o'.
         seq (lower_ident ''column'') (\<lambda>col. give (Some (Bind_Col_Op o' col))))
       else give None))"

definition p_opt_tok :: "tok \<Rightarrow> 'a parse \<Rightarrow> 'a option parse" where
  "p_opt_tok t m = seq (eat t) (\<lambda>b. if b then seq m (\<lambda>x. give (Some x)) else give None)"

definition p_param :: "param parse" where
  "p_param =
     seq (lower_ident ''parameter name'') (\<lambda>name.
     seq (eat Tok_Question) (\<lambda>optional.
     seq (p_opt_tok Tok_Colon p_type_expr) (\<lambda>ty.
     seq p_param_binding (\<lambda>binding.
     seq (p_opt_tok Tok_Eq p_default_val) (\<lambda>dflt.
       give \<lparr>pm_name = name, pm_optional = optional, pm_ty = ty, pm_binding = binding, pm_default = dflt\<rparr>)))))"

definition p_param_list :: "param list parse" where
  "p_param_list =
     seq (expect Tok_LParen ''`(`'') (\<lambda>_.
     seq (comma_args p_param) (\<lambda>params.
     seq (expect Tok_RParen ''`)`'') (\<lambda>_. give params)))"

subsection \<open>Sort terms and the calls of a shape\<close>

definition p_nulls :: "nulls_placement option parse" where
  "p_nulls = seq (eat_kw ''nulls'') (\<lambda>b.
     if b then
       seq (eat_kw ''first'') (\<lambda>f.
         if f then give (Some Nulls_First) else seq (eat_kw ''last'') (\<lambda>_. give (Some Nulls_Last)))
     else give None)"

definition p_sort_dir :: "sort_dir parse" where
  "p_sort_dir = seq (eat_kw ''desc'') (\<lambda>b.
     if b then give Sort_Desc else seq (eat_kw ''asc'') (\<lambda>_. give Sort_Asc))"

definition p_sort_term :: "sort_term parse" where
  "p_sort_term =
     seq p_path (\<lambda>path.
     seq p_sort_dir (\<lambda>dir.
     seq p_nulls (\<lambda>nulls. give \<lparr>so_path = path, so_dir = dir, so_nulls = nulls\<rparr>)))"

definition p_agg_arg :: "path option parse" where
  "p_agg_arg = look (\<lambda>p. if at_tok Tok_RParen p then give None else seq p_path (\<lambda>x. give (Some x)))"

definition p_aggregate :: "agg_call parse" where
  "p_aggregate =
     seq (lower_ident ''aggregate function'') (\<lambda>func.
     seq (expect Tok_LParen ''`(`'') (\<lambda>_.
     seq p_agg_arg (\<lambda>arg.
     seq (expect Tok_RParen ''`)`'') (\<lambda>r. look (\<lambda>p.
       give \<lparr>ag_func = func, ag_arg = arg, ag_span = span_at p (span_start (id_span func)) (lx_end r)\<rparr>)))))"

definition at_bucket_call :: "pstate \<Rightarrow> bool" where
  "at_bucket_call p \<longleftrightarrow> kind_at 1 p = Some Tok_LParen \<and> (at_kw ''date'' p \<or> at_kw ''week'' p)"

definition p_bucket_call :: "bucket_call parse" where
  "p_bucket_call =
     seq (lower_ident ''date function'') (\<lambda>func.
     seq (expect Tok_LParen ''`(`'') (\<lambda>_.
     seq (comma_args p_path) (\<lambda>args.
     seq (expect Tok_RParen ''`)`'') (\<lambda>r. look (\<lambda>p.
       give \<lparr>bc_bucket = (case bucket_from_name (id_node func) of Some b \<Rightarrow> b | None \<Rightarrow> Bucket_Day),
             bc_func = func, bc_args = args, bc_span = span_at p (span_start (id_span func)) (lx_end r)\<rparr>)))))"

definition p_filter_projection :: "filter_projection parse" where
  "p_filter_projection =
     seq (lower_ident ''filter name'') (\<lambda>name.
     seq p_call_args (\<lambda>args. look (\<lambda>p.
       give \<lparr>fp_name = name, fp_args = args, fp_span = span_from (span_start (id_span name)) p\<rparr>)))"

subsection \<open>Foreign-key decorators\<close>

text \<open>\<open>self.toks.get(self.pos.saturating_sub(1)).map_or(dflt, |l| l.end)\<close>.\<close>

definition last_end :: "nat \<Rightarrow> pstate \<Rightarrow> nat" where
  "last_end dflt p = (let i = ps_pos p - 1 in if i < length (ps_toks p) then lx_end (ps_toks p ! i) else dflt)"

definition p_reason :: "ident_node option parse" where
  "p_reason = look (\<lambda>p.
     if at_tok Tok_Str p then seq (expect Tok_Str ''a quoted reason'') (\<lambda>s. give (Some (quoted_node s p))) else give None)"

definition p_fk_actions :: "(ident_node option \<times> ident_node option) parse" where
  "p_fk_actions = loop (\<lambda>(od, ou). look (\<lambda>p.
     if at_tok Tok_RParen p then give (Inr (od, ou))
     else
       seq (lower_ident ''`on_delete` or `on_update`'') (\<lambda>kw.
       seq (expect Tok_Colon ''`:`'') (\<lambda>_.
       seq (lower_ident ''a referential action'') (\<lambda>action.
       if id_node kw = ''on_delete'' then
         seq (eat Tok_Comma) (\<lambda>more. give (if more then Inl (Some action, ou) else Inr (Some action, ou)))
       else if id_node kw = ''on_update'' then
         seq (eat Tok_Comma) (\<lambda>more. give (if more then Inl (od, Some action) else Inr (od, Some action)))
       else fails ''expected `on_delete` or `on_update`''))))) (None, None)"

definition p_fk_args :: "nat \<Rightarrow> (ident_node option \<times> ident_node option \<times> ident_node option \<times> nat) parse" where
  "p_fk_args dflt = seq (eat Tok_LParen) (\<lambda>b.
     if b then
       seq p_reason (\<lambda>reason.
       seq (if reason = None then give False else eat Tok_Comma) (\<lambda>_.
       seq p_fk_actions (\<lambda>(od, ou).
       seq (expect Tok_RParen ''`)`'') (\<lambda>r. give (reason, od, ou, lx_end r)))))
     else give (None, None, None, dflt))"

definition p_fk_annot :: "(fk_annot \<times> nat) parse" where
  "p_fk_annot =
     seq (expect Tok_At ''`@`'') (\<lambda>at.
     seq (eat_kw ''fk'') (\<lambda>_. look (\<lambda>p.
     seq (p_fk_args (last_end (lx_end at + 2) p)) (\<lambda>(reason, od, ou, e).
       give (\<lparr>fa_reason = reason, fa_on_delete = od, fa_on_update = ou, fa_span = span_at p (lx_start at) e\<rparr>, e)))))"

definition p_no_fk_args :: "nat \<Rightarrow> (ident_node option \<times> nat) parse" where
  "p_no_fk_args dflt = seq (eat Tok_LParen) (\<lambda>b.
     if b then
       seq p_reason (\<lambda>reason.
       seq (expect Tok_RParen ''`)`'') (\<lambda>r. give (reason, lx_end r)))
     else give (None, dflt))"

definition p_no_fk_annot :: "(no_fk_annot \<times> nat) parse" where
  "p_no_fk_annot =
     seq (expect Tok_At ''`@`'') (\<lambda>at.
     seq (eat_kw ''no_fk'') (\<lambda>_. look (\<lambda>p.
     seq (p_no_fk_args (last_end (lx_end at + 5) p)) (\<lambda>(reason, e).
       give (\<lparr>nf_reason = reason, nf_span = span_at p (lx_start at) e\<rparr>, e)))))"

subsection \<open>The generic decorator\<close>

datatype arg_kind = Arg_Pred | Arg_Sort | Arg_Path

text \<open>\<open>scan_arg\<close> over the tokens ahead, with the bracket depth and whether a direction was seen.\<close>

fun scan_arg_from :: "pstate \<Rightarrow> lexed list \<Rightarrow> int \<Rightarrow> bool \<Rightarrow> arg_kind" where
  "scan_arg_from p [] depth sorts = (if sorts then Arg_Sort else Arg_Path)"
| "scan_arg_from p (l # ls) depth sorts =
     (let t = lx_tok l; w = token_text p l in
      if t \<in> {Tok_LParen, Tok_LBrace, Tok_LBracket} then scan_arg_from p ls (depth + 1) sorts
      else if t = Tok_RParen \<and> depth = 0 then (if sorts then Arg_Sort else Arg_Path)
      else if t \<in> {Tok_RParen, Tok_RBrace, Tok_RBracket} then scan_arg_from p ls (depth - 1) sorts
      else if t = Tok_Comma \<and> depth = 0 then (if sorts then Arg_Sort else Arg_Path)
      else if t \<in> {Tok_Eq, Tok_Ne, Tok_Gt, Tok_Lt, Tok_Ge, Tok_Le, Tok_Tilde, Tok_Raw} then Arg_Pred
      else if t = Tok_Lower \<and> w \<in> {''and'', ''or'', ''not'', ''in'', ''has''} then Arg_Pred
      else scan_arg_from p ls depth (sorts \<or> t = Tok_Lower \<and> w \<in> {''asc'', ''desc''}))"

definition scan_arg :: "pstate \<Rightarrow> arg_kind" where
  "scan_arg p = scan_arg_from p (drop (ps_pos p) (ps_toks p)) 0 False"

definition p_deco_arg :: "deco_arg parse" where
  "p_deco_arg = look (\<lambda>p.
     if kind_at 0 p \<in> {Some Tok_Str, Some Tok_Int, Some Tok_Float} then seq p_literal (\<lambda>l. give (Deco_Lit l))
     else if scan_arg p = Arg_Pred then seq p_predicate (\<lambda>x. give (Deco_Pred x))
     else if scan_arg p = Arg_Sort then seq p_sort_term (\<lambda>x. give (Deco_Sort x))
     else seq p_path (\<lambda>path. give (if length path = 1 then Deco_Ident (hd path) else Deco_Path path)))"

definition p_deco_args :: "nat \<Rightarrow> (deco_arg list \<times> nat) parse" where
  "p_deco_args dflt = seq (eat Tok_LParen) (\<lambda>b.
     if b then
       seq (comma_args p_deco_arg) (\<lambda>args.
       seq (expect Tok_RParen ''`)`'') (\<lambda>r. give (args, lx_end r)))
     else give ([], dflt))"

definition p_decorator :: "decorator parse" where
  "p_decorator =
     seq (expect Tok_At ''`@`'') (\<lambda>at.
     seq (any_ident ''decorator name'') (\<lambda>name.
     seq (p_deco_args (span_end (id_span name))) (\<lambda>(args, e). look (\<lambda>p.
       give \<lparr>dk_name = name, dk_args = args, dk_span = span_at p (lx_start at) e\<rparr>))))"

subsection \<open>The contracts\<close>

lemma ok_raw_dialect [parse_ok]: "ok n (\<lambda>_. 1) p_raw_dialect p"
  unfolding p_raw_dialect_def by (rule parse_intros parse_ok [THEN ok_seq] | simp)+

lemma ok_raw_dialects [parse_ok]: "ok n (\<lambda>_. 0) p_raw_dialects p"
  unfolding p_raw_dialects_def by (rule ok_loop) (rule parse_intros parse_ok [THEN ok_seq] | simp)+

lemma ok_raw_spec_body [parse_ok]: "ok n (\<lambda>_. 1) p_raw_spec_body p"
  unfolding p_raw_spec_body_def by (rule parse_intros parse_ok [THEN ok_seq] | simp)+

lemma ok_raw_spec [parse_ok]: "ok n (\<lambda>_. 1) p_raw_spec p"
  unfolding p_raw_spec_def by (rule parse_intros parse_ok [THEN ok_seq] | simp)+

lemma ok_bump_two: "kind_at 1 p = Some t \<Longrightarrow> ok n (\<lambda>_. 1) bump_two p"
  by (auto simp: ok_def bump_two_def kind_at_def tok_at_def extends_def advance_def split: if_splits)

lemma ok_question_end [parse_ok]: "ok n (\<lambda>_. 0) p_question_end p"
  unfolding p_question_end_def
  by (rule parse_intros parse_ok [THEN ok_seq] | blast intro: has_token_intros | simp)+

lemma ok_raw_type_expr [parse_ok]: "ok n (\<lambda>_. 1) (p_raw_type_expr b) p"
  unfolding p_raw_type_expr_def by (rule parse_intros parse_ok [THEN ok_seq] | simp)+

lemma ok_uint_arg [parse_ok]: "ok n (\<lambda>_. 1) (p_uint_arg what) p"
  unfolding p_uint_arg_def by (rule parse_intros parse_ok [THEN ok_seq] | simp)+

lemma ok_decimal_args [parse_ok]: "ok n (\<lambda>_. 0) (p_decimal_args e) p"
  unfolding p_decimal_args_def
  by (rule parse_intros parse_ok [THEN ok_seq] | blast intro: has_token_intros | simp)+

lemma ok_primitive [parse_ok]: "ok n (\<lambda>_. 0) (p_primitive l w) p"
  unfolding p_primitive_def by (rule parse_intros parse_ok [THEN ok_seq] | simp)+

lemma ok_base_type [parse_ok]: "ok n (\<lambda>_. 1) p_base_type p"
  unfolding p_base_type_def
  by (rule parse_intros parse_ok [THEN ok_seq] parse_ok [THEN ok_more] | blast intro: has_token_intros | simp)+

lemma ok_type_suffix [parse_ok]: "ok n (\<lambda>_. 0) (p_type_suffix b s e) p"
  unfolding p_type_suffix_def
  by (rule ok_loop) (rule parse_intros parse_ok [THEN ok_seq] ok_bump_two [THEN ok_seq] | blast intro: has_token_intros | simp)+

lemma ok_type_expr_inner [parse_ok]: "ok n (\<lambda>_. 1) (p_type_expr_inner b) p"
  unfolding p_type_expr_inner_def by (rule parse_intros parse_ok [THEN ok_seq] parse_ok parse_ok [THEN ok_more] | simp)+

lemma ok_type_expr [parse_ok]: "ok n (\<lambda>_. 1) p_type_expr p"
  unfolding p_type_expr_def by (rule ok_type_expr_inner)

lemma ok_default_val [parse_ok]: "ok n (\<lambda>_. 1) p_default_val p"
  unfolding p_default_val_def by (rule parse_intros parse_ok [THEN ok_seq] | simp)+

lemma ok_param_binding [parse_ok]: "ok n (\<lambda>_. 0) p_param_binding p"
  unfolding p_param_binding_def by (rule parse_intros parse_ok [THEN ok_seq] | simp)+

lemma ok_opt_tok: "(\<And>m q. ok m (\<lambda>_. 1) item q) \<Longrightarrow> ok n (\<lambda>r. case r of None \<Rightarrow> 0 | Some _ \<Rightarrow> 1) (p_opt_tok t item) p"
  unfolding p_opt_tok_def
  by (rule ok_seq [OF ok_eat], rule ok_if, rule ok_seq, assumption) (auto intro: ok_give)

lemma ok_param [parse_ok]: "ok n (\<lambda>_. 1) p_param p"
  unfolding p_param_def by (rule parse_intros parse_ok [THEN ok_seq] ok_opt_tok [THEN ok_seq] parse_ok | simp)+

lemma ok_param_list [parse_ok]: "ok n (\<lambda>_. 1) p_param_list p"
  unfolding p_param_list_def
  by (rule parse_intros parse_ok [THEN ok_seq] ok_comma_args [THEN ok_seq] parse_ok [THEN ok_more] | simp)+

lemma ok_nulls [parse_ok]: "ok n (\<lambda>_. 0) p_nulls p"
  unfolding p_nulls_def by (rule parse_intros parse_ok [THEN ok_seq] | simp)+

lemma ok_sort_dir [parse_ok]: "ok n (\<lambda>_. 0) p_sort_dir p"
  unfolding p_sort_dir_def by (rule parse_intros parse_ok [THEN ok_seq] | simp)+

lemma ok_sort_term [parse_ok]: "ok n (\<lambda>_. 1) p_sort_term p"
  unfolding p_sort_term_def by (rule parse_intros parse_ok [THEN ok_seq] | simp)+

lemma ok_agg_arg [parse_ok]: "ok n (\<lambda>_. 0) p_agg_arg p"
  unfolding p_agg_arg_def by (rule parse_intros parse_ok [THEN ok_seq] | simp)+

lemma ok_aggregate [parse_ok]: "ok n (\<lambda>_. 1) p_aggregate p"
  unfolding p_aggregate_def by (rule parse_intros parse_ok [THEN ok_seq] | simp)+

lemma ok_bucket_call [parse_ok]: "ok n (\<lambda>_. 1) p_bucket_call p"
  unfolding p_bucket_call_def
  by (rule parse_intros parse_ok [THEN ok_seq] ok_comma_args [THEN ok_seq] parse_ok [THEN ok_more] | simp)+

lemma ok_filter_projection [parse_ok]: "ok n (\<lambda>_. 1) p_filter_projection p"
  unfolding p_filter_projection_def by (rule parse_intros parse_ok [THEN ok_seq] | simp)+

lemma ok_reason [parse_ok]: "ok n (\<lambda>_. 0) p_reason p"
  unfolding p_reason_def by (rule parse_intros parse_ok [THEN ok_seq] | simp)+

lemma ok_fk_actions [parse_ok]: "ok n (\<lambda>_. 0) p_fk_actions p"
  unfolding p_fk_actions_def by (rule ok_loop) (rule parse_intros parse_ok [THEN ok_seq] | simp)+

lemma ok_reason_comma [parse_ok]: "ok n (\<lambda>_. 0) (if reason = None then give False else eat Tok_Comma) p"
  by (rule parse_intros parse_ok [THEN ok_more] | simp)+

lemma ok_fk_args [parse_ok]: "ok n (\<lambda>_. 0) (p_fk_args e) p"
  unfolding p_fk_args_def by (rule parse_intros parse_ok [THEN ok_seq] | simp)+

lemma ok_fk_annot [parse_ok]: "ok n (\<lambda>_. 1) p_fk_annot p"
  unfolding p_fk_annot_def by (rule parse_intros parse_ok [THEN ok_seq] | simp)+

lemma ok_no_fk_args [parse_ok]: "ok n (\<lambda>_. 0) (p_no_fk_args e) p"
  unfolding p_no_fk_args_def by (rule parse_intros parse_ok [THEN ok_seq] | simp)+

lemma ok_no_fk_annot [parse_ok]: "ok n (\<lambda>_. 1) p_no_fk_annot p"
  unfolding p_no_fk_annot_def by (rule parse_intros parse_ok [THEN ok_seq] | simp)+

lemma ok_deco_arg [parse_ok]: "ok n (\<lambda>_. 1) p_deco_arg p"
  unfolding p_deco_arg_def by (rule parse_intros parse_ok [THEN ok_seq] | simp)+

lemma ok_deco_args [parse_ok]: "ok n (\<lambda>_. 0) (p_deco_args e) p"
  unfolding p_deco_args_def
  by (rule parse_intros parse_ok [THEN ok_seq] ok_comma_args [THEN ok_seq] parse_ok [THEN ok_more] | simp)+

lemma ok_decorator [parse_ok]: "ok n (\<lambda>_. 1) p_decorator p"
  unfolding p_decorator_def by (rule parse_intros parse_ok [THEN ok_seq] | simp)+

end
