(* ===== verification/Parse_Model.thy ===== *)
theory Parse_Model
  imports Parse_Type
begin

text \<open>
  Models, enums and scopes: \<open>field.rs\<close>, \<open>member.rs\<close>, \<open>model.rs\<close>, \<open>enums.rs\<close>, \<open>scope.rs\<close> and
  \<open>scope_ack.rs\<close> of the parser, with their contracts.
\<close>

subsection \<open>Field suffixes\<close>

definition p_was_annot :: "(ident_node \<times> nat) parse" where
  "p_was_annot =
     seq bump (\<lambda>_. seq bump (\<lambda>_.
     seq (expect Tok_LParen ''`(`'') (\<lambda>_.
     seq (expect Tok_Str ''a quoted previous column name'') (\<lambda>s.
     seq (expect Tok_RParen ''`)`'') (\<lambda>r. look (\<lambda>p. give (quoted_node s p, lx_end r)))))))"

definition p_field_sort :: "(sort_term list \<times> nat) parse" where
  "p_field_sort =
     seq bump (\<lambda>_. seq bump (\<lambda>_.
     seq (expect Tok_LParen ''`(`'') (\<lambda>_.
     seq (comma_list p_sort_term) (\<lambda>terms.
     seq (expect Tok_RParen ''`)`'') (\<lambda>r. give (terms, lx_end r))))))"

datatype paren_opt = Paren_Inverse | Paren_Relation_On | Paren_Modifiers

definition paren_field_opt :: "pstate \<Rightarrow> paren_opt" where
  "paren_field_opt p =
     (if kind_at 1 p = Some Tok_Upper then Paren_Inverse
      else if ident_at 1 p = Some ''on'' \<and> kind_at 2 p = Some Tok_Colon then Paren_Relation_On
      else Paren_Modifiers)"

definition p_inverse_ref :: "(inverse_ref \<times> nat) parse" where
  "p_inverse_ref =
     seq (expect Tok_LParen ''`(`'') (\<lambda>_.
     seq (upper_ident ''inverse model'') (\<lambda>m.
     seq (expect Tok_Dot ''`.`'') (\<lambda>_.
     seq (lower_ident ''inverse field'') (\<lambda>f.
     seq (expect Tok_RParen ''`)`'') (\<lambda>r. give (\<lparr>iv_model = m, iv_field = f\<rparr>, lx_end r))))))"

definition p_relation_opts :: "(predicate \<times> nat) parse" where
  "p_relation_opts =
     seq (expect Tok_LParen ''`(`'') (\<lambda>_.
     seq (eat_kw ''on'') (\<lambda>_.
     seq (expect Tok_Colon ''`:`'') (\<lambda>_.
     seq p_predicate (\<lambda>pred.
     seq (expect Tok_RParen ''`)`'') (\<lambda>r. give (pred, lx_end r))))))"

definition p_column_map :: "column_alias list parse" where
  "p_column_map = loop (\<lambda>aliases.
     seq (lower_ident ''key part'') (\<lambda>part.
     seq (expect Tok_Eq ''`=`'') (\<lambda>_.
     seq (expect Tok_Str ''a quoted column name'') (\<lambda>s. look (\<lambda>p.
       let a = \<lparr>ca_part = part, ca_column = unquote (token_text p s),
                ca_span = span_at p (span_start (id_span part)) (lx_end s)\<rparr> in
       if at_tok Tok_Comma p \<and> kind_at 1 p = Some Tok_Lower \<and> kind_at 2 p = Some Tok_Eq then
         seq bump (\<lambda>_. give (Inl (aliases @ [a])))
       else give (Inr (aliases @ [a]))))))) []"

definition p_column_modifier :: "modifier parse" where
  "p_column_modifier = look (\<lambda>p.
     if at_tok Tok_Lower p \<and> kind_at 1 p = Some Tok_Eq then seq p_column_map (\<lambda>m. give (Mod_Column_Map m))
     else seq (expect Tok_Str ''a quoted column name'') (\<lambda>s. give (Mod_Column (unquote (token_text p s)))))"

definition p_modifier :: "modifier parse" where
  "p_modifier =
     seq (eat_kw ''unique'') (\<lambda>u. if u then give Mod_Unique else
     seq (eat_kw ''default'') (\<lambda>d. if d then seq p_default_val (\<lambda>v. give (Mod_Default v)) else
     seq (eat_kw ''column'') (\<lambda>c. if c then p_column_modifier
       else fails ''expected `unique`, `default`, or `column`'')))"

definition p_modifiers :: "(modifier list \<times> nat) parse" where
  "p_modifiers =
     seq (expect Tok_LParen ''`(`'') (\<lambda>_.
     seq (comma_list p_modifier) (\<lambda>mods.
     seq (expect Tok_RParen ''`)`'') (\<lambda>r. give (mods, lx_end r))))"

text \<open>The variables of \<open>field_after_colon\<close> are the field so far; \<open>end\<close> is where its span ends.\<close>

definition ends_at :: "nat \<Rightarrow> field_decl \<Rightarrow> field_decl" where
  "ends_at e f = f\<lparr>fd_span := (fd_span f)\<lparr>span_end := e\<rparr>\<rparr>"

definition p_paren_suffix :: "field_decl \<Rightarrow> field_decl parse" where
  "p_paren_suffix f = look (\<lambda>p.
     if paren_field_opt p = Paren_Inverse then seq p_inverse_ref (\<lambda>(iv, e). give (ends_at e (f\<lparr>fd_inverse := Some iv\<rparr>)))
     else if paren_field_opt p = Paren_Relation_On then
       seq p_relation_opts (\<lambda>(pred, e). give (ends_at e (f\<lparr>fd_relation_on := Some pred\<rparr>)))
     else seq p_modifiers (\<lambda>(mods, e). give (ends_at e (f\<lparr>fd_modifiers := fd_modifiers f @ mods\<rparr>))))"

definition p_field_suffix :: "field_decl \<Rightarrow> (field_decl + field_decl) parse" where
  "p_field_suffix f = look (\<lambda>p.
     if at_tok Tok_At p \<and> ident_at 1 p = Some ''fk'' then
       seq p_fk_annot (\<lambda>(a, e). give (Inl (ends_at e (f\<lparr>fd_fk := Some a\<rparr>))))
     else if at_tok Tok_At p \<and> ident_at 1 p = Some ''no_fk'' then
       seq p_no_fk_annot (\<lambda>(a, e). give (Inl (ends_at e (f\<lparr>fd_no_fk := Some a\<rparr>))))
     else if at_tok Tok_At p \<and> ident_at 1 p = Some ''was'' then
       seq p_was_annot (\<lambda>(w, e). give (Inl (ends_at e (f\<lparr>fd_was := Some w\<rparr>))))
     else if at_tok Tok_At p \<and> ident_at 1 p = Some ''sort'' then
       seq p_field_sort (\<lambda>(terms, e). give (Inl (ends_at e (f\<lparr>fd_sort := Some terms\<rparr>))))
     else if at_tok Tok_LParen p then seq (p_paren_suffix f) (\<lambda>g. give (Inl g))
     else give (Inr f))"

definition p_field_after_colon :: "ident_node \<Rightarrow> field_decl parse" where
  "p_field_after_colon name =
     seq (p_type_expr_inner True) (\<lambda>ty. look (\<lambda>p.
       loop p_field_suffix
         \<lparr>fd_name = name, fd_ty = ty, fd_inverse = None, fd_modifiers = [], fd_relation_on = None, fd_sort = None,
          fd_was = None, fd_fk = None, fd_no_fk = None,
          fd_span = span_at p (span_start (id_span name)) (span_end (ty_span ty))\<rparr>))"

subsection \<open>Members\<close>

definition p_index_columns :: "ident_node list parse" where
  "p_index_columns = seq (eat Tok_LParen) (\<lambda>b.
     if b then
       seq (comma_list (lower_ident ''index column'')) (\<lambda>cols.
       seq (expect Tok_RParen ''`)`'') (\<lambda>_. give cols))
     else seq (lower_ident ''index column'') (\<lambda>c. give [c]))"

text \<open>Columns, \<open>unique\<close>, method and opaque body.\<close>

definition p_index_body :: "(ident_node list \<times> bool \<times> ident_node option \<times> raw_spec option) parse" where
  "p_index_body = look (\<lambda>p.
     if is_raw_spec_start p then seq p_raw_spec (\<lambda>raw. give ([], False, None, Some raw))
     else
       seq p_index_columns (\<lambda>cols.
       seq (eat_kw ''unique'') (\<lambda>u.
       seq (p_opt_kw ''using'' (lower_ident ''an index access method'')) (\<lambda>m. give (cols, u, m, None)))))"

definition p_index_decl :: "index_decl parse" where
  "p_index_decl =
     seq (expect Tok_At ''`@`'') (\<lambda>at.
     seq (need_kw ''index'' ''expected `@index` (only index declarations use `@` inside a model body)'') (\<lambda>_.
     seq p_index_body (\<lambda>(cols, u, m, raw). look (\<lambda>p.
       give \<lparr>xd_columns = cols, xd_unique = u, xd_method = m, xd_raw = raw,
             xd_span = span_at p (lx_start at) (last_end (lx_end at) p)\<rparr>))))"

definition soft_op_of :: "str \<Rightarrow> soft_op option" where
  "soft_op_of s =
     (if s = ''restore'' then Some Soft_Restore else if s = ''delete'' then Some Soft_Delete
      else if s = ''read'' then Some Soft_Read else None)"

definition p_member_after :: "ident_node \<Rightarrow> member parse" where
  "p_member_after name =
     seq (expect Tok_Colon ''`:`'') (\<lambda>_. look (\<lambda>p.
       if is_raw_start p then
         (case soft_op_of (id_node name) of
            Some o' \<Rightarrow> seq p_raw_sql (\<lambda>raw. give (Member_Soft \<lparr>sv_op = o', sv_raw = raw\<rparr>))
          | None \<Rightarrow> fails ''only `restore`, `delete`, or `read` may take a raw SQL override'')
       else seq (p_field_after_colon name) (\<lambda>f. give (Member_Field f))))"

definition p_member :: "member parse" where
  "p_member = look (\<lambda>p.
     if at_tok Tok_At p then seq p_index_decl (\<lambda>i. give (Member_Index i))
     else
       seq (lower_ident ''field name'') (\<lambda>name. look (\<lambda>p.
         if at_tok Tok_Eq p then
           seq bump_token (\<lambda>_.
           seq p_shape_expr (\<lambda>e. look (\<lambda>p.
             give (Member_Generated
               \<lparr>gf_name = name, gf_expr = e, gf_span = span_from (span_start (id_span name)) p\<rparr>))))
         else p_member_after name)))"

text \<open>\<open>{ items }\<close>: the items and where the closing brace ends.\<close>

definition p_braced :: "'a parse \<Rightarrow> ('a list \<times> nat) parse" where
  "p_braced item =
     seq (expect Tok_LBrace ''`{`'') (\<lambda>_.
     seq (items_until Tok_RBrace (\<lambda>_. item)) (\<lambda>xs.
     seq (expect Tok_RBrace ''`}`'') (\<lambda>close. give (xs, lx_end close))))"

subsection \<open>Models\<close>

definition names_end :: "nat \<Rightarrow> ident_node list \<Rightarrow> nat" where
  "names_end dflt names = (if names = [] then dflt else span_end (id_span (last names)))"

definition p_scope_deco :: "scope_ref parse" where
  "p_scope_deco =
     seq (expect Tok_At ''`@`'') (\<lambda>at.
     seq (need_kw ''scope'' ''expected `@scope`'') (\<lambda>_.
     seq (comma_list (upper_ident ''scope name'')) (\<lambda>names. look (\<lambda>p.
       give \<lparr>sr_names = names, sr_span = span_at p (lx_start at) (names_end (lx_end at) names)\<rparr>))))"

definition p_model_decorators :: "(decorator list \<times> scope_ref list) parse" where
  "p_model_decorators = loop (\<lambda>(decorators, scopes). look (\<lambda>p.
     if \<not> at_tok Tok_At p then give (Inr (decorators, scopes))
     else if ident_at 1 p = Some ''scope'' then seq p_scope_deco (\<lambda>s. give (Inl (decorators, scopes @ [s])))
     else seq p_decorator (\<lambda>d. give (Inl (decorators @ [d], scopes))))) ([], [])"

definition p_model :: "model_decl parse" where
  "p_model = look (\<lambda>p0.
     seq p_model_decorators (\<lambda>(decorators, scopes).
     seq (upper_ident ''model name'') (\<lambda>name.
     seq (p_braced p_member) (\<lambda>(members, e). look (\<lambda>p.
       give \<lparr>md_decorators = decorators, md_scopes = scopes, md_name = name, md_members = members,
             md_span = span_at p (span_start (here p0)) e\<rparr>)))))"

subsection \<open>Enums\<close>

definition p_variant_value :: "(variant_value \<times> span) parse" where
  "p_variant_value = look (\<lambda>p.
     case peek p of
       None \<Rightarrow> fails ''expected a string or integer''
     | Some l \<Rightarrow>
         (if lx_tok l = Tok_Str then seq bump_token (\<lambda>_. give (Variant_Str (unquote (token_text p l)), token_span p l))
          else if lx_tok l = Tok_Int then
            seq bump_token (\<lambda>_. case int_literal False (token_text p l) of
                Some n \<Rightarrow> give (Variant_Int n, token_span p l)
              | None \<Rightarrow> fails ''integer variant value out of range'')
          else fails ''expected a string or integer variant value''))"

definition p_enum_variant :: "enum_variant parse" where
  "p_enum_variant =
     seq (lower_ident ''enum variant'') (\<lambda>name.
     seq (p_opt_tok Tok_Eq p_variant_value) (\<lambda>v. give \<lparr>ev_name = name, ev_value = v\<rparr>))"

definition p_enum_decl :: "enum_decl parse" where
  "p_enum_decl = look (\<lambda>p0.
     seq (eat_kw ''enum'') (\<lambda>_.
     seq (upper_ident ''enum name'') (\<lambda>name.
     seq (p_braced p_enum_variant) (\<lambda>(variants, e). look (\<lambda>p.
       give \<lparr>en_name = name, en_variants = variants, en_span = span_at p (span_start (here p0)) e\<rparr>)))))"

subsection \<open>Scopes\<close>

definition p_scope_term :: "scope_term parse" where
  "p_scope_term =
     seq (lower_ident ''scope column'') (\<lambda>col.
     seq (expect Tok_Colon ''`:`'') (\<lambda>_.
     seq p_type_expr (\<lambda>ty.
     seq (expect Tok_Eq ''`=` (a scope term is `col: Type = $ctx.field`)'') (\<lambda>_.
     seq p_param_ref (\<lambda>ctx. look (\<lambda>p.
       give \<lparr>stm_col = col, stm_ty = ty, stm_ctx = ctx,
             stm_span = span_at p (span_start (id_span col)) (names_end (span_end (ty_span ty)) (pr_path ctx))\<rparr>))))))"

definition p_scope_decl :: "scope_decl parse" where
  "p_scope_decl = look (\<lambda>p0.
     seq (eat_kw ''scope'') (\<lambda>_.
     seq (upper_ident ''scope name'') (\<lambda>name.
     seq (expect Tok_LParen ''`(`'') (\<lambda>_.
     seq (comma_args p_scope_term) (\<lambda>terms.
     seq (expect Tok_RParen ''`)`'') (\<lambda>r. look (\<lambda>p.
       give \<lparr>sdc_name = name, sdc_terms = terms, sdc_span = span_at p (span_start (here p0)) (lx_end r)\<rparr>)))))))"

definition p_scoped_clause :: "scoped parse" where
  "p_scoped_clause =
     seq bump_token (\<lambda>kw.
     seq (comma_list (upper_ident ''scope name'')) (\<lambda>names. look (\<lambda>p.
       give \<lparr>sc_names = names, sc_span = span_at p (lx_start kw) (names_end (lx_start kw) names)\<rparr>)))"

definition p_unscoped_clause :: "unscoped option parse" where
  "p_unscoped_clause = look (\<lambda>p.
     if \<not> at_kw ''unscoped'' p then give None
     else
       seq bump_token (\<lambda>kw.
       seq (expect Tok_LParen ''`(`'') (\<lambda>_.
       seq (expect Tok_Str ''a reason string (`unscoped` is never silent)'') (\<lambda>s.
       seq (expect Tok_RParen ''`)`'') (\<lambda>r.
         give (Some \<lparr>us_reason = unquote (token_text p s), us_span = span_at p (lx_start kw) (lx_end r)\<rparr>))))))"

definition p_scope_ack :: "(scoped option \<times> unscoped option) parse" where
  "p_scope_ack = look (\<lambda>p.
     if at_kw ''scoped'' p then seq p_scoped_clause (\<lambda>s. give (Some s, None))
     else seq p_unscoped_clause (\<lambda>u. give (None, u)))"

subsection \<open>The contracts\<close>

lemma ok_was_annot [parse_ok]: "ok n (\<lambda>_. 1) p_was_annot p"
  unfolding p_was_annot_def by (rule parse_intros parse_ok [THEN ok_seq] | simp)+

lemma ok_field_sort [parse_ok]: "ok n (\<lambda>_. 1) p_field_sort p"
  unfolding p_field_sort_def
  by (rule parse_intros parse_ok [THEN ok_seq] ok_comma_list [THEN ok_seq] parse_ok [THEN ok_more] | simp)+

lemma ok_inverse_ref [parse_ok]: "ok n (\<lambda>_. 1) p_inverse_ref p"
  unfolding p_inverse_ref_def by (rule parse_intros parse_ok [THEN ok_seq] | simp)+

lemma ok_relation_opts [parse_ok]: "ok n (\<lambda>_. 1) p_relation_opts p"
  unfolding p_relation_opts_def by (rule parse_intros parse_ok [THEN ok_seq] | simp)+

lemma ok_column_map [parse_ok]: "ok n (\<lambda>_. 0) p_column_map p"
  unfolding p_column_map_def Let_def by (rule ok_loop) (rule parse_intros parse_ok [THEN ok_seq] | simp)+

lemma ok_column_modifier [parse_ok]: "ok n (\<lambda>_. 0) p_column_modifier p"
  unfolding p_column_modifier_def by (rule parse_intros parse_ok [THEN ok_seq] | simp)+

lemma ok_modifier [parse_ok]: "ok n (\<lambda>_. 1) p_modifier p"
  unfolding p_modifier_def by (rule parse_intros parse_ok [THEN ok_seq] parse_ok [THEN ok_more] | simp)+

lemma ok_modifiers [parse_ok]: "ok n (\<lambda>_. 1) p_modifiers p"
  unfolding p_modifiers_def
  by (rule parse_intros parse_ok [THEN ok_seq] ok_comma_list [THEN ok_seq] parse_ok [THEN ok_more] | simp)+

lemma ok_paren_suffix [parse_ok]: "ok n (\<lambda>_. 1) (p_paren_suffix f) p"
  unfolding p_paren_suffix_def by (rule parse_intros parse_ok [THEN ok_seq] | simp)+

lemma ok_field_suffix: "ok n (\<lambda>r. case r of Inl _ \<Rightarrow> 1 | Inr _ \<Rightarrow> 0) (p_field_suffix f) p"
  unfolding p_field_suffix_def by (rule parse_intros parse_ok [THEN ok_seq] | simp)+

lemma ok_field_after_colon [parse_ok]: "ok n (\<lambda>_. 1) (p_field_after_colon name) p"
  unfolding p_field_after_colon_def
  by (rule parse_intros parse_ok [THEN ok_seq] ok_loop [THEN ok_more] ok_field_suffix | simp)+

lemma ok_index_columns [parse_ok]: "ok n (\<lambda>_. 1) p_index_columns p"
  unfolding p_index_columns_def
  by (rule parse_intros parse_ok [THEN ok_seq] ok_comma_list [THEN ok_seq] parse_ok [THEN ok_more] | simp)+

lemma ok_index_body [parse_ok]: "ok n (\<lambda>_. 1) p_index_body p"
  unfolding p_index_body_def by (rule parse_intros parse_ok [THEN ok_seq] ok_opt_kw [THEN ok_seq] parse_ok | simp)+

lemma ok_index_decl [parse_ok]: "ok n (\<lambda>_. 1) p_index_decl p"
  unfolding p_index_decl_def by (rule parse_intros parse_ok [THEN ok_seq] | simp)+

lemma ok_member_after [parse_ok]: "ok n (\<lambda>_. 1) (p_member_after name) p"
  unfolding p_member_after_def by (rule parse_intros parse_ok [THEN ok_seq] | simp)+

lemma ok_member [parse_ok]: "ok n (\<lambda>_. 1) p_member p"
  unfolding p_member_def
  by (rule parse_intros parse_ok [THEN ok_seq] parse_ok [THEN ok_more] | blast intro: has_token_intros | simp)+

lemma ok_braced: "(\<And>m q. m \<le> n \<Longrightarrow> ok m (\<lambda>_. 1) item q) \<Longrightarrow> ok (Suc n) (\<lambda>_. 1) (p_braced item) p"
  unfolding p_braced_def
  by (rule ok_seq [OF ok_expect], rule ok_seq, rule ok_items_until, simp)
    (rule parse_intros parse_ok [THEN ok_seq] | simp)+

lemma ok_braced_free: "(\<And>m q. ok m (\<lambda>_. 1) item q) \<Longrightarrow> ok n (\<lambda>_. 1) (p_braced item) p"
  by (rule ok_fewer [OF ok_braced [of n]]) simp_all

lemma ok_scope_deco [parse_ok]: "ok n (\<lambda>_. 1) p_scope_deco p"
  unfolding p_scope_deco_def
  by (rule parse_intros parse_ok [THEN ok_seq] ok_comma_list [THEN ok_seq] parse_ok [THEN ok_more] | simp)+

lemma ok_model_decorators [parse_ok]: "ok n (\<lambda>_. 0) p_model_decorators p"
  unfolding p_model_decorators_def by (rule ok_loop) (rule parse_intros parse_ok [THEN ok_seq] | simp)+

lemma ok_model [parse_ok]: "ok n (\<lambda>_. 1) p_model p"
  unfolding p_model_def by (rule parse_intros parse_ok [THEN ok_seq] ok_braced_free [THEN ok_seq] parse_ok | simp)+

lemma ok_variant_value [parse_ok]: "ok n (\<lambda>_. 1) p_variant_value p"
  unfolding p_variant_value_def
  by (rule parse_intros parse_ok [THEN ok_seq] | blast intro: has_token_intros | simp)+

lemma ok_enum_variant [parse_ok]: "ok n (\<lambda>_. 1) p_enum_variant p"
  unfolding p_enum_variant_def by (rule parse_intros parse_ok [THEN ok_seq] ok_opt_tok [THEN ok_seq] parse_ok | simp)+

lemma ok_enum_decl [parse_ok]: "ok n (\<lambda>_. 1) p_enum_decl p"
  unfolding p_enum_decl_def by (rule parse_intros parse_ok [THEN ok_seq] ok_braced_free [THEN ok_seq] parse_ok | simp)+

lemma ok_scope_term [parse_ok]: "ok n (\<lambda>_. 1) p_scope_term p"
  unfolding p_scope_term_def by (rule parse_intros parse_ok [THEN ok_seq] | simp)+

lemma ok_scope_decl [parse_ok]: "ok n (\<lambda>_. 1) p_scope_decl p"
  unfolding p_scope_decl_def
  by (rule parse_intros parse_ok [THEN ok_seq] ok_comma_args [THEN ok_seq] parse_ok [THEN ok_more] | simp)+

lemma ok_scoped_clause: "has_token p \<Longrightarrow> ok n (\<lambda>_. 1) p_scoped_clause p"
  unfolding p_scoped_clause_def
  by (rule parse_intros parse_ok [THEN ok_seq] ok_comma_list [THEN ok_seq] parse_ok [THEN ok_more] | simp)+

lemma ok_unscoped_clause [parse_ok]: "ok n (\<lambda>_. 0) p_unscoped_clause p"
  unfolding p_unscoped_clause_def
  by (rule parse_intros parse_ok [THEN ok_seq] | blast intro: has_token_intros | simp)+

lemma ok_scope_ack [parse_ok]: "ok n (\<lambda>_. 0) p_scope_ack p"
  unfolding p_scope_ack_def
  by (rule parse_intros parse_ok [THEN ok_seq] ok_scoped_clause [THEN ok_seq] | blast intro: has_token_intros | simp)+

end
