(* ===== verification/Parse_File.thy ===== *)
theory Parse_File
  imports Parse_Model
begin

text \<open>
  Shapes, queries, mutations and filters (\<open>shape.rs\<close>, \<open>query.rs\<close>, \<open>mutation.rs\<close>, \<open>conflict.rs\<close>,
  \<open>arith.rs\<close>, \<open>filter.rs\<close>), the dispatch on a declaration (\<open>decl.rs\<close>) and the whole file with its
  recovery (\<open>parse\<close> of \<open>mod.rs\<close>, \<open>parse_file\<close> of \<open>lib.rs\<close>), with their contracts.
\<close>

subsection \<open>Shapes (shape.rs)\<close>

definition agg_funcs :: "str list" where
  "agg_funcs = [''count'', ''sum'', ''avg'', ''min'', ''max'']"

definition p_shape_call :: "shape_value parse" where
  "p_shape_call = look (\<lambda>p.
     if \<exists>f \<in> set agg_funcs. at_kw f p then seq p_aggregate (\<lambda>x. give (Sval_Agg x))
     else if at_bucket_call p then seq p_bucket_call (\<lambda>x. give (Sval_Bucket x))
     else seq p_filter_projection (\<lambda>x. give (Sval_Filter x)))"

definition p_flatten :: "shape_field parse \<Rightarrow> ident_node \<Rightarrow> path \<Rightarrow> shape_field parse" where
  "p_flatten field name path = look (\<lambda>p.
     if at_tok Tok_LBrace p then seq (p_braced field) (\<lambda>(body, _). give (Shape_Flatten name path body))
     else give (Shape_Rename name (Sval_Path path)))"

definition p_shape_value :: "shape_field parse \<Rightarrow> ident_node \<Rightarrow> shape_field parse" where
  "p_shape_value field name = look (\<lambda>p.
     if is_raw_start p then seq p_raw_sql (\<lambda>r. give (Shape_Rename name (Sval_Raw r)))
     else if at_tok Tok_Lower p \<and> kind_at 1 p = Some Tok_LParen \<and> \<not> at_kw ''case'' p then
       seq p_shape_call (\<lambda>v. give (Shape_Rename name v))
     else
       seq p_shape_expr (\<lambda>e. case lone_path e of
           Some path \<Rightarrow> p_flatten field name path
         | None \<Rightarrow> give (Shape_Rename name (Sval_Computed e))))"

definition p_shape_field_after :: "shape_field parse \<Rightarrow> ident_node \<Rightarrow> shape_field parse" where
  "p_shape_field_after field name =
     seq (eat Tok_Eq) (\<lambda>b. if b then p_shape_value field name else look (\<lambda>p.
       if at_tok Tok_LBrace p then seq (p_braced field) (\<lambda>(body, _). give (Shape_Nest name body))
       else seq (eat Tok_Arrow) (\<lambda>b.
         if b then seq (upper_ident ''shape name'') (\<lambda>s. give (Shape_Nest_Ref name s))
         else give (Shape_Bare name))))"

fun p_shape_field_n :: "nat \<Rightarrow> shape_field parse" where
  "p_shape_field_n 0 = (\<lambda>p. None)"
| "p_shape_field_n (Suc n) = seq (eat Tok_Dots) (\<lambda>b.
     if b then seq (upper_ident ''shape name'') (\<lambda>s. give (Shape_Spread s))
     else seq (lower_ident ''shape field'') (p_shape_field_after (p_shape_field_n n)))"

definition p_shape_field :: "shape_field parse" where
  "p_shape_field = look (\<lambda>p. p_shape_field_n (Suc (left p)))"

definition p_full_or_upper :: "str \<Rightarrow> ident_node parse" where
  "p_full_or_upper what = look (\<lambda>p.
     if at_kw ''full'' p then seq bump_token (\<lambda>l. give \<lparr>id_node = ''full'', id_span = token_span p l\<rparr>)
     else upper_ident what)"

definition p_shape :: "shape_decl parse" where
  "p_shape = look (\<lambda>p0.
     seq (eat_kw ''shape'') (\<lambda>_.
     seq (p_full_or_upper ''shape name'') (\<lambda>name.
     seq (need_kw ''from'' ''expected `from`'') (\<lambda>_.
     seq (upper_ident ''source model'') (\<lambda>src.
     seq (p_braced p_shape_field) (\<lambda>(body, e). look (\<lambda>p.
       give \<lparr>sh_name = name, sh_from = src, sh_body = body, sh_span = span_at p (span_start (here p0)) e\<rparr>)))))))"

subsection \<open>Return types and clauses (query.rs)\<close>

definition p_ret_ok :: "ret_type parse" where
  "p_ret_ok = seq bump_token (\<lambda>l. look (\<lambda>p.
     if at_tok Tok_LBracket p then fails (''`ok` is a bare acknowledgement '' @ mdash @ '' drop the `[]`'')
     else give \<lparr>rt_ty = \<lparr>id_node = ''ok'', id_span = token_span p l\<rparr>, rt_many = False, rt_stream = False, rt_ack = True\<rparr>))"

definition p_ret_type :: "ret_type parse" where
  "p_ret_type = seq (eat_kw ''stream'') (\<lambda>stream. look (\<lambda>p.
     if \<not> stream \<and> at_kw ''ok'' p then p_ret_ok
     else seq (p_full_or_upper ''return type (a shape or model)'') (\<lambda>ty. look (\<lambda>p.
       if at_tok Tok_LBracket p \<and> kind_at 1 p = Some Tok_RBracket then
         (if stream then fails (''`stream` already means many '' @ mdash @ '' drop the `[]`'')
          else seq bump (\<lambda>_. seq bump (\<lambda>_. give \<lparr>rt_ty = ty, rt_many = True, rt_stream = False, rt_ack = False\<rparr>)))
       else give \<lparr>rt_ty = ty, rt_many = False, rt_stream = stream, rt_ack = False\<rparr>))))"

definition p_paren :: "'a parse \<Rightarrow> 'a parse" where
  "p_paren m =
     seq (expect Tok_LParen ''`(`'') (\<lambda>_.
     seq m (\<lambda>x.
     seq (expect Tok_RParen ''`)`'') (\<lambda>_. give x)))"

definition p_page_clause :: "clause parse" where
  "p_page_clause =
     seq (p_paren p_int_lit) (\<lambda>n.
     seq (eat_kw ''offset'') (\<lambda>offset.
     seq (eat_kw ''with'') (\<lambda>w.
     seq (if w then eat_kw ''count'' else give False) (\<lambda>c.
       give (Clause_Page \<lparr>pg_size = n, pg_offset = offset, pg_with_count = c\<rparr>)))))"

definition p_limit_value :: "limit_value parse" where
  "p_limit_value = look (\<lambda>p.
     if at_tok Tok_Dollar p then seq p_param_ref (\<lambda>x. give (Limit_Param x))
     else seq p_int_lit (\<lambda>n. give (Limit_Lit n)))"

definition p_limit_max :: "nat option parse" where
  "p_limit_max = p_opt_tok Tok_Comma (seq (expect_kw ''max'' ''`max`'') (\<lambda>_. p_int_lit))"

definition p_limit_clause :: "clause parse" where
  "p_limit_clause =
     seq bump_token (\<lambda>kw.
     seq (expect Tok_LParen ''`(`'') (\<lambda>_.
     seq p_limit_value (\<lambda>v.
     seq p_limit_max (\<lambda>m.
     seq (expect Tok_RParen ''`)`'') (\<lambda>r. look (\<lambda>p.
       give (Clause_Limit \<lparr>li_value = v, li_max = m, li_span = span_at p (lx_start kw) (lx_end r)\<rparr>)))))))"

definition p_group_key :: "group_key parse" where
  "p_group_key = look (\<lambda>p.
     if at_bucket_call p then seq p_bucket_call (\<lambda>b. give (Group_Bucket b))
     else seq p_path (\<lambda>c. give (Group_Column c)))"

definition p_unindexed_kind :: "unindexed_kind parse" where
  "p_unindexed_kind = seq (eat_kw ''unsafe'') (\<lambda>u.
     if u then
       seq (p_opt_tok Tok_Comma (expect Tok_Str ''a reason string'')) (\<lambda>s. look (\<lambda>p.
         give (Unindexed_Unsafe (map_option (\<lambda>l. unquote (token_text p l)) s))))
     else
       seq (eat_kw ''max_rows'') (\<lambda>m.
         if m then seq (expect Tok_Colon ''`:`'') (\<lambda>_. seq p_int_lit (\<lambda>n. give (Unindexed_Max_Rows n)))
         else fails ''expected `max_rows: N` or `unsafe`''))"

definition p_unindexed_clause :: "clause parse" where
  "p_unindexed_clause =
     seq bump_token (\<lambda>kw.
     seq (expect Tok_LParen ''`(`'') (\<lambda>_.
     seq p_unindexed_kind (\<lambda>k.
     seq (expect Tok_RParen ''`)`'') (\<lambda>r. look (\<lambda>p.
       give (Clause_Unindexed \<lparr>ui_kind = k, ui_span = span_at p (lx_start kw) (lx_end r)\<rparr>))))))"

definition at_clause :: "pstate \<Rightarrow> bool" where
  "at_clause p \<longleftrightarrow> (\<exists>kw \<in> set [''where'', ''order'', ''page'', ''limit'', ''unindexed'', ''group'', ''having'']. at_kw kw p)"

definition p_clause :: "clause parse" where
  "p_clause = look (\<lambda>p.
     if at_kw ''where'' p then seq bump_token (\<lambda>_. seq (p_paren p_predicate) (\<lambda>x. give (Clause_Where x)))
     else if at_kw ''order'' p then
       seq bump_token (\<lambda>_. seq (p_paren (comma_list p_sort_term)) (\<lambda>x. give (Clause_Order x)))
     else if at_kw ''page'' p then seq bump_token (\<lambda>_. p_page_clause)
     else if at_kw ''limit'' p then p_limit_clause
     else if at_kw ''group'' p then
       seq bump_token (\<lambda>_.
       seq (expect_kw ''by'' ''`by`'') (\<lambda>_.
       seq (p_paren (comma_list p_group_key)) (\<lambda>x. give (Clause_Group_By x))))
     else if at_kw ''having'' p then seq bump_token (\<lambda>_. seq (p_paren p_predicate) (\<lambda>x. give (Clause_Having x)))
     else if at_kw ''unindexed'' p then p_unindexed_clause
     else fails ''expected `where`, `order`, `page`, `limit`, or `unindexed`'')"

text \<open>\<open>while self.at_clause() { clauses.push(self.clause()?) }\<close>.\<close>

definition p_clauses :: "clause list parse" where
  "p_clauses = loop (\<lambda>cs. look (\<lambda>p.
     if at_clause p then seq p_clause (\<lambda>c. give (Inl (cs @ [c]))) else give (Inr cs))) []"

subsection \<open>Queries\<close>

definition p_lock_wait :: "lock_wait parse" where
  "p_lock_wait =
     seq (expect_kw ''update'' ''`update` (the `for update` locking modifier)'') (\<lambda>_.
     seq (eat_kw ''nowait'') (\<lambda>nw. if nw then give Lock_No_Wait else
     seq (eat_kw ''skip'') (\<lambda>sk.
       if sk then seq (expect_kw ''locked'' ''`locked` (the `for update skip locked` modifier)'') (\<lambda>_. give Lock_Skip_Locked)
       else give Lock_Wait)))"

definition p_verb :: "(verb \<times> bool) parse" where
  "p_verb =
     seq (eat_kw ''get'') (\<lambda>g. if g then give (Verb_Get, False) else
     seq (eat_kw ''list'') (\<lambda>l.
       if l then seq (eat_kw ''distinct'') (\<lambda>d. give (Verb_List, d))
       else fails ''expected `get`, `list`, or a `raw` body''))"

definition p_statement :: "statement parse" where
  "p_statement =
     seq p_verb (\<lambda>(verb, distinct).
     seq (upper_ident ''model'') (\<lambda>model.
     seq p_clauses (\<lambda>clauses.
     seq (p_opt_kw ''for'' p_lock_wait) (\<lambda>for_update.
       give \<lparr>sm_verb = verb, sm_model = model, sm_clauses = clauses, sm_distinct = distinct, sm_for_update = for_update\<rparr>))))"

definition p_query_inner :: "query_body parse" where
  "p_query_inner = look (\<lambda>p.
     if is_raw_start p then seq p_raw_sql (\<lambda>r. give (Body_Raw r)) else seq p_statement (\<lambda>s. give (Body_Block s)))"

definition p_query_block :: "(query_body \<times> nat) parse" where
  "p_query_block =
     seq (expect Tok_LBrace ''`{`'') (\<lambda>_.
     seq p_query_inner (\<lambda>body.
     seq skip_seps (\<lambda>_.
     seq (expect Tok_RBrace ''`}`'') (\<lambda>r. give (body, lx_end r)))))"

definition p_query_body :: "(query_body \<times> nat) parse" where
  "p_query_body = look (\<lambda>p.
     if at_tok Tok_Semi p then seq bump_token (\<lambda>l. give (Body_Bare, lx_end l))
     else if at_tok Tok_LBrace p then p_query_block
     else
       seq p_clauses (\<lambda>clauses.
       seq (expect Tok_Semi ''`;`'') (\<lambda>l. give (Body_Inline clauses, lx_end l))))"

definition p_query :: "query_decl parse" where
  "p_query = look (\<lambda>p0.
     seq (eat_kw ''query'') (\<lambda>_.
     seq (lower_ident ''query name'') (\<lambda>name.
     seq p_param_list (\<lambda>params.
     seq (expect Tok_Arrow ''`->`'') (\<lambda>_.
     seq p_ret_type (\<lambda>rt.
     seq p_scope_ack (\<lambda>(scoped, unscoped).
     seq p_query_body (\<lambda>(body, e). look (\<lambda>p.
       give \<lparr>qu_name = name, qu_params = params, qu_ret = rt, qu_scoped = scoped, qu_unscoped = unscoped,
             qu_body = body, qu_span = span_at p (span_start (here p0)) e\<rparr>)))))))))"

subsection \<open>Assignments (arith.rs, mutation.rs)\<close>

definition p_arith_factor :: "assign_rhs parse \<Rightarrow> assign_rhs parse" where
  "p_arith_factor rhs = look (\<lambda>p.
     if at_tok Tok_LParen p then
       seq bump_token (\<lambda>_.
       seq rhs (\<lambda>x.
       seq (expect Tok_RParen ''`)`'') (\<lambda>_. give x)))
     else seq p_value (\<lambda>v. give (Rhs_Value v)))"

definition p_arith_term :: "assign_rhs parse \<Rightarrow> assign_rhs parse" where
  "p_arith_term operand = look (\<lambda>p0. seq operand
     (left_assoc (eat_op [(Tok_Star, Arith_Mul), (Tok_Slash, Arith_Div)]) operand
       (\<lambda>p l o' r. Rhs_Arith l o' r (span_from (span_start (here p0)) p))))"

definition p_arith_sum :: "assign_rhs parse \<Rightarrow> assign_rhs parse" where
  "p_arith_sum operand = look (\<lambda>p0. seq operand
     (left_assoc (eat_op [(Tok_Plus, Arith_Add), (Tok_Minus, Arith_Sub)]) operand
       (\<lambda>p l o' r. Rhs_Arith l o' r (span_from (span_start (here p0)) p))))"

fun p_assign_rhs_n :: "nat \<Rightarrow> assign_rhs parse" where
  "p_assign_rhs_n 0 = (\<lambda>p. None)"
| "p_assign_rhs_n (Suc n) = p_arith_sum (p_arith_term (p_arith_factor (p_assign_rhs_n n)))"

definition p_assign_rhs :: "assign_rhs parse" where
  "p_assign_rhs = look (\<lambda>p. p_assign_rhs_n (Suc (left p)))"

definition p_assign :: "assign parse" where
  "p_assign =
     seq (lower_ident ''column'') (\<lambda>col.
     seq (expect Tok_Eq ''`=`'') (\<lambda>_.
     seq p_assign_rhs (\<lambda>v. give \<lparr>as_col = col, as_value = v\<rparr>)))"

definition p_assign_block :: "assign list parse" where
  "p_assign_block = seq (p_braced p_assign) (\<lambda>(assigns, _). give assigns)"

subsection \<open>The upsert tail (conflict.rs)\<close>

definition p_conflict_item :: "assign list \<times> conflict_spread option \<Rightarrow>
    ((assign list \<times> conflict_spread option) + (assign list \<times> conflict_spread option)) parse" where
  "p_conflict_item st = (case st of (assigns, sp) \<Rightarrow>
     seq skip_seps (\<lambda>_. look (\<lambda>p.
       if at_tok Tok_RBrace p \<or> peek p = None then give (Inr (assigns, sp))
       else if at_tok Tok_Dots p then
         (if sp \<noteq> None then fails ''duplicate `...incoming` in an `on conflict update` branch''
          else
            seq bump_token (\<lambda>l.
            seq (lower_ident ''`incoming`'') (\<lambda>src. look (\<lambda>q.
              give (Inl (assigns, Some \<lparr>cs_source = src, cs_preceding = length assigns,
                                        cs_span = span_from (lx_start l) q\<rparr>))))))
       else seq p_assign (\<lambda>a. give (Inl (assigns @ [a], sp))))))"

definition p_on_conflict :: "on_conflict option parse" where
  "p_on_conflict = look (\<lambda>p0.
     if \<not> at_kw ''on'' p0 then give None
     else
       seq bump_token (\<lambda>_.
       seq (need_kw ''conflict'' ''expected `conflict` after `on`'') (\<lambda>_.
       seq (p_paren (comma_list (lower_ident ''conflict column''))) (\<lambda>target.
       seq (need_kw ''update'' ''expected `update` after `on conflict (...)`'') (\<lambda>_.
       seq (expect Tok_LBrace ''`{`'') (\<lambda>_.
       seq (loop p_conflict_item ([], None)) (\<lambda>(update, sp).
       seq (expect Tok_RBrace ''`}`'') (\<lambda>_. look (\<lambda>p.
         give (Some \<lparr>oc_target = target, oc_update = update, oc_spread = sp,
                     oc_span = span_from (span_start (here p0)) p\<rparr>))))))))))"

subsection \<open>Write statements (mutation.rs)\<close>

definition p_where_clause :: "predicate parse" where
  "p_where_clause = seq (need_kw ''where'' ''expected `where`'') (\<lambda>_. p_paren p_predicate)"

definition p_delete_target :: "(ident_node \<times> predicate option) parse" where
  "p_delete_target =
     seq (eat_kw ''all'') (\<lambda>whole.
     seq (upper_ident ''model'') (\<lambda>model. look (\<lambda>p.
       if whole then give (model, None)
       else if \<not> at_kw ''where'' p then
         fails (''expected `where ('' @ ellipsis @ '')` to filter, or `all` to wipe the whole table'')
       else seq p_where_clause (\<lambda>x. give (model, Some x)))))"

definition p_create_from :: "create_from parse" where
  "p_create_from = look (\<lambda>p0.
     seq (eat Tok_LBracket) (\<lambda>bulk.
     seq (if bulk then seq (expect Tok_RBracket (''`]` (bulk `create Model[] from '' @ ellipsis @ ''`)'')) (\<lambda>_. give ()) else give ()) (\<lambda>_.
     seq (need_kw ''from'' ''expected `from $param` after `create Model[]`'') (\<lambda>_.
     seq p_param_ref (\<lambda>pr. look (\<lambda>p.
       if pr_path pr \<noteq> [] then fails (''`create '' @ ellipsis @ '' from` takes a bare `$param`, not a field path'')
       else give \<lparr>cf_param = pr_name pr, cf_bulk = bulk, cf_span = span_from (span_start (here p0)) p\<rparr>))))))"

definition p_create_source :: "(create_from option \<times> assign list) parse" where
  "p_create_source = look (\<lambda>p.
     if at_tok Tok_LBracket p \<or> at_kw ''from'' p then seq p_create_from (\<lambda>f. give (Some f, []))
     else seq p_assign_block (\<lambda>a. give (None, a)))"

definition p_create_stmt :: "write_stmt parse" where
  "p_create_stmt =
     seq (upper_ident ''model'') (\<lambda>model.
     seq p_create_source (\<lambda>(src, assigns).
     seq p_on_conflict (\<lambda>conflict.
     seq (p_opt_kw ''as'' (lower_ident ''a step binding name after `as`'')) (\<lambda>binding.
       give (Write_Create model assigns src conflict binding)))))"

fun p_write_stmt_n :: "nat \<Rightarrow> write_stmt parse" where
  "p_write_stmt_n 0 = (\<lambda>p. None)"
| "p_write_stmt_n (Suc n) = look (\<lambda>p.
     if at_kw ''create'' p then seq bump_token (\<lambda>_. p_create_stmt)
     else if at_kw ''update'' p then
       seq bump_token (\<lambda>_.
       seq (upper_ident ''model'') (\<lambda>model.
       seq p_where_clause (\<lambda>cond.
       seq p_assign_block (\<lambda>assigns. give (Write_Update model cond assigns)))))
     else if at_kw ''delete'' p then
       seq bump_token (\<lambda>_. seq p_delete_target (\<lambda>(model, cond). give (Write_Delete model cond)))
     else if at_kw ''restore'' p then
       seq bump_token (\<lambda>_.
       seq (upper_ident ''model'') (\<lambda>model.
       seq p_where_clause (\<lambda>cond. give (Write_Restore model cond))))
     else if at_kw ''hard'' p then
       seq bump_token (\<lambda>_.
       seq (need_kw ''delete'' ''expected `delete` after `hard`'') (\<lambda>_.
       seq p_delete_target (\<lambda>(model, cond). give (Write_Hard_Delete model cond))))
     else if at_kw ''tx'' p then
       seq bump_token (\<lambda>_. seq (p_braced (p_write_stmt_n n)) (\<lambda>(inner, _). give (Write_Tx inner)))
     else if is_raw_start p then seq p_raw_sql (\<lambda>r. give (Write_Raw r))
     else fails ''expected a write statement (create/update/delete/restore/hard delete/tx/raw)'')"

definition p_write_stmt :: "write_stmt parse" where
  "p_write_stmt = look (\<lambda>p. p_write_stmt_n (Suc (left p)))"

definition p_mutation :: "mutation_decl parse" where
  "p_mutation = look (\<lambda>p0.
     seq (eat_kw ''mutation'') (\<lambda>_.
     seq (lower_ident ''mutation name'') (\<lambda>name.
     seq p_param_list (\<lambda>params.
     seq (expect Tok_Arrow ''`->`'') (\<lambda>_.
     seq p_ret_type (\<lambda>rt.
     seq (p_opt_kw ''guard'' (lower_ident ''guard name'')) (\<lambda>guard.
     seq p_scope_ack (\<lambda>(scoped, unscoped).
     seq (p_braced p_write_stmt) (\<lambda>(body, e). look (\<lambda>p.
       give \<lparr>mu_name = name, mu_params = params, mu_ret = rt, mu_guard = guard, mu_scoped = scoped,
             mu_unscoped = unscoped, mu_body = body, mu_span = span_at p (span_start (here p0)) e\<rparr>))))))))))"

subsection \<open>Files\<close>

definition p_named_filter :: "named_filter parse" where
  "p_named_filter = look (\<lambda>p0.
     seq (eat_kw ''filter'') (\<lambda>_.
     seq (lower_ident ''filter name'') (\<lambda>name. look (\<lambda>p1.
     seq (if at_tok Tok_LParen p1 then p_param_list else give []) (\<lambda>params.
     seq (expect Tok_Eq ''`=`'') (\<lambda>_.
     seq p_predicate (\<lambda>pred.
     seq (expect Tok_Semi ''`;`'') (\<lambda>r. look (\<lambda>p.
       give \<lparr>ft_name = name, ft_params = params, ft_pred = pred,
             ft_span = span_at p (span_start (here p0)) (lx_end r)\<rparr>)))))))))"

definition p_decl :: "decl parse" where
  "p_decl = look (\<lambda>p.
     if at_tok Tok_At p \<or> at_tok Tok_Upper p then seq p_model (\<lambda>x. give (Decl_Model x))
     else if at_kw ''shape'' p then seq p_shape (\<lambda>x. give (Decl_Shape x))
     else if at_kw ''scope'' p then seq p_scope_decl (\<lambda>x. give (Decl_Scope x))
     else if at_kw ''enum'' p then seq p_enum_decl (\<lambda>x. give (Decl_Enum x))
     else if at_kw ''query'' p then seq p_query (\<lambda>x. give (Decl_Query x))
     else if at_kw ''mutation'' p then seq p_mutation (\<lambda>x. give (Decl_Mutation x))
     else if at_kw ''filter'' p then seq p_named_filter (\<lambda>x. give (Decl_Filter x))
     else fails ''expected a declaration (model, shape, query, mutation, or filter)'')"

text \<open>\<open>match p.decl() { Ok(d) => decls.push(d), Err(()) => p.sync() }\<close>.\<close>

definition p_decl_or_sync :: "decl option parse" where
  "p_decl_or_sync p = (case p_decl p of
       None \<Rightarrow> None
     | Some (Some d, q) \<Rightarrow> Some (Some (Some d), q)
     | Some (None, q) \<Rightarrow> Some (Some None, sync q))"

definition p_decls :: "decl list parse" where
  "p_decls = loop (\<lambda>ds.
     seq skip_seps (\<lambda>_. look (\<lambda>p.
       if peek p = None then give (Inr ds)
       else seq p_decl_or_sync (\<lambda>r. give (Inl (case r of Some d \<Rightarrow> ds @ [d] | None \<Rightarrow> ds)))))) []"

definition bad_char_msg :: "str \<Rightarrow> nat \<times> nat \<Rightarrow> str" where
  "bad_char_msg src e =
     (if CHR ''^'' \<in> set (take (snd e - fst e) (drop (fst e) src)) then
        ''`^` tx back-references were removed '' @ mdash @ '' bind the step with `create '' @ ellipsis @
        '' as <name>;` and reference it as `$name.field`''
      else ''unexpected character'')"

definition parse_file :: "(str \<Rightarrow> nat) \<Rightarrow> str \<Rightarrow> nat \<Rightarrow> (diagnostic list + schema_file) option" where
  "parse_file skip src file = (case p_decls (start_state skip False (bad_char_msg src) src file) of
       Some (Some ds, q) \<Rightarrow> Some (if ps_diags q = [] then Inr \<lparr>sf_decls = ds\<rparr> else Inl (ps_diags q))
     | _ \<Rightarrow> None)"

subsection \<open>The contracts\<close>

lemma ok_shape_call [parse_ok]: "ok n (\<lambda>_. 1) p_shape_call p"
  unfolding p_shape_call_def by (rule parse_intros parse_ok [THEN ok_seq] | simp)+

lemma ok_flatten:
  assumes field: "\<And>m q. m \<le> n \<Longrightarrow> ok m (\<lambda>_. 1) field q"
  shows "ok (Suc n) (\<lambda>_. 0) (p_flatten field name path) p"
  unfolding p_flatten_def by (rule parse_intros ok_braced [THEN ok_seq] field | simp)+

lemma ok_shape_value:
  assumes field: "\<And>m q. m \<le> n \<Longrightarrow> ok m (\<lambda>_. 1) field q"
  shows "ok (Suc n) (\<lambda>_. 1) (p_shape_value field name) p"
  unfolding p_shape_value_def
  by (rule parse_intros parse_ok [THEN ok_seq] ok_flatten [THEN ok_le] field | simp)+

lemma ok_shape_field_after:
  assumes field: "\<And>m q. m \<le> n \<Longrightarrow> ok m (\<lambda>_. 1) field q"
  shows "ok (Suc n) (\<lambda>_. 0) (p_shape_field_after field name) p"
  unfolding p_shape_field_after_def
  by (rule parse_intros parse_ok [THEN ok_seq] ok_shape_value [THEN ok_le] ok_braced [THEN ok_seq] field | simp)+

lemma ok_shape_field_n: "m \<le> n \<Longrightarrow> ok m (\<lambda>_. 1) (p_shape_field_n n) p"
proof (induction n arbitrary: m p)
  case (Suc n)
  have "ok (Suc n) (\<lambda>_. 1) (p_shape_field_n (Suc n)) q" for q
    unfolding p_shape_field_n.simps
    by (rule parse_intros parse_ok [THEN ok_seq] ok_shape_field_after [THEN ok_le] Suc.IH | simp)+
  then show ?case using Suc.prems by (rule ok_fewer)
qed (simp add: ok_def)

lemma ok_shape_field [parse_ok]: "ok n (\<lambda>_. 1) p_shape_field p"
  unfolding p_shape_field_def by (rule ok_fuel) (rule ok_shape_field_n, simp)

lemma ok_full_or_upper [parse_ok]: "ok n (\<lambda>_. 1) (p_full_or_upper what) p"
  unfolding p_full_or_upper_def
  by (rule parse_intros parse_ok [THEN ok_seq] parse_ok | blast intro: has_token_intros | simp)+

lemma ok_shape [parse_ok]: "ok n (\<lambda>_. 1) p_shape p"
  unfolding p_shape_def by (rule parse_intros parse_ok [THEN ok_seq] ok_braced_free [THEN ok_seq] parse_ok | simp)+

lemma ok_ret_ok: "has_token p \<Longrightarrow> ok n (\<lambda>_. 1) p_ret_ok p"
  unfolding p_ret_ok_def by (rule parse_intros parse_ok [THEN ok_seq] | simp)+

lemma ok_ret_type [parse_ok]: "ok n (\<lambda>_. 1) p_ret_type p"
  unfolding p_ret_type_def
  by (rule parse_intros parse_ok [THEN ok_seq] ok_ret_ok [THEN ok_more] | blast intro: has_token_intros | simp)+

lemma ok_paren: "(\<And>q. ok n (\<lambda>_. 0) m q) \<Longrightarrow> ok n (\<lambda>_. 1) (p_paren m) p"
  unfolding p_paren_def
  by (rule ok_seq [OF ok_expect], rule ok_seq, rule ok_fewer, assumption, simp) (rule parse_intros parse_ok [THEN ok_seq] | simp)+

lemma ok_if_word [parse_ok]: "ok n (\<lambda>_. 0) (if w then eat_kw kw else give False) p"
  by (rule parse_intros parse_ok [THEN ok_more] | simp)+

lemma ok_page_clause [parse_ok]: "ok n (\<lambda>_. 1) p_page_clause p"
  unfolding p_page_clause_def
  by (rule parse_intros parse_ok [THEN ok_seq] ok_paren [THEN ok_seq] parse_ok [THEN ok_more] | simp)+

lemma ok_limit_value [parse_ok]: "ok n (\<lambda>_. 1) p_limit_value p"
  unfolding p_limit_value_def by (rule parse_intros parse_ok [THEN ok_seq] | simp)+

lemma ok_limit_max [parse_ok]: "ok n (\<lambda>_. 0) p_limit_max p"
  unfolding p_limit_max_def
  by (rule ok_more, rule ok_opt_tok) (rule parse_ok [THEN ok_seq] parse_ok [THEN ok_more] | simp split: option.split)+

lemma ok_limit_clause: "has_token p \<Longrightarrow> ok n (\<lambda>_. 1) p_limit_clause p"
  unfolding p_limit_clause_def by (rule parse_intros parse_ok [THEN ok_seq] | simp)+

lemma ok_group_key [parse_ok]: "ok n (\<lambda>_. 1) p_group_key p"
  unfolding p_group_key_def by (rule parse_intros parse_ok [THEN ok_seq] | simp)+

lemma ok_unindexed_kind [parse_ok]: "ok n (\<lambda>_. 1) p_unindexed_kind p"
  unfolding p_unindexed_kind_def
  by (rule parse_intros parse_ok [THEN ok_seq] ok_opt_tok [THEN ok_seq] parse_ok | simp)+

lemma ok_unindexed_clause: "has_token p \<Longrightarrow> ok n (\<lambda>_. 1) p_unindexed_clause p"
  unfolding p_unindexed_clause_def by (rule parse_intros parse_ok [THEN ok_seq] | simp)+

lemma ok_clause [parse_ok]: "ok n (\<lambda>_. 1) p_clause p"
  unfolding p_clause_def
  by (rule parse_intros parse_ok [THEN ok_seq] ok_paren [THEN ok_seq] ok_comma_list ok_limit_clause ok_unindexed_clause
      parse_ok [THEN ok_more] | blast intro: has_token_intros | simp)+

lemma ok_clauses [parse_ok]: "ok n (\<lambda>_. 0) p_clauses p"
  unfolding p_clauses_def by (rule ok_loop) (rule parse_intros parse_ok [THEN ok_seq] | simp)+

lemma ok_lock_wait [parse_ok]: "ok n (\<lambda>_. 1) p_lock_wait p"
  unfolding p_lock_wait_def by (rule parse_intros parse_ok [THEN ok_seq] | simp)+

lemma ok_verb [parse_ok]: "ok n (\<lambda>_. 1) p_verb p"
  unfolding p_verb_def by (rule parse_intros parse_ok [THEN ok_seq] | simp)+

lemma ok_statement [parse_ok]: "ok n (\<lambda>_. 1) p_statement p"
  unfolding p_statement_def by (rule parse_intros parse_ok [THEN ok_seq] ok_opt_kw [THEN ok_seq] parse_ok | simp)+

lemma ok_query_inner [parse_ok]: "ok n (\<lambda>_. 1) p_query_inner p"
  unfolding p_query_inner_def by (rule parse_intros parse_ok [THEN ok_seq] | simp)+

lemma ok_query_block [parse_ok]: "ok n (\<lambda>_. 1) p_query_block p"
  unfolding p_query_block_def by (rule parse_intros parse_ok [THEN ok_seq] | simp)+

lemma ok_query_body [parse_ok]: "ok n (\<lambda>_. 1) p_query_body p"
  unfolding p_query_body_def
  by (rule parse_intros parse_ok [THEN ok_seq] parse_ok | blast intro: has_token_intros | simp)+

lemma ok_query [parse_ok]: "ok n (\<lambda>_. 1) p_query p"
  unfolding p_query_def by (rule parse_intros parse_ok [THEN ok_seq] | simp)+

lemma ok_arith_factor:
  assumes rhs: "\<And>m q. m \<le> n \<Longrightarrow> ok m (\<lambda>_. 1) rhs q"
  shows "ok (Suc n) (\<lambda>_. 1) (p_arith_factor rhs) p"
  unfolding p_arith_factor_def
  by (rule parse_intros parse_ok [THEN ok_seq] rhs [THEN ok_seq] | blast intro: has_token_intros | simp)+

lemma ok_arith_term:
  assumes operand: "\<And>m q. m \<le> n \<Longrightarrow> ok m (\<lambda>_. 1) operand q"
  shows "ok n (\<lambda>_. 1) (p_arith_term operand) p"
  unfolding p_arith_term_def
  by (rule ok_look operand [THEN ok_seq] ok_left_assoc [THEN ok_more] parse_ok operand | simp)+

lemma ok_arith_sum:
  assumes operand: "\<And>m q. m \<le> n \<Longrightarrow> ok m (\<lambda>_. 1) operand q"
  shows "ok n (\<lambda>_. 1) (p_arith_sum operand) p"
  unfolding p_arith_sum_def
  by (rule ok_look operand [THEN ok_seq] ok_left_assoc [THEN ok_more] parse_ok operand | simp)+

lemma ok_assign_rhs_n: "m \<le> n \<Longrightarrow> ok m (\<lambda>_. 1) (p_assign_rhs_n n) p"
proof (induction n arbitrary: m p)
  case (Suc n)
  let ?factor = "p_arith_factor (p_assign_rhs_n n)"
  have factor: "ok m (\<lambda>_. 1) ?factor q" if "m \<le> Suc n" for m q
    using ok_arith_factor [OF Suc.IH] that by (rule ok_fewer)
  have operand: "ok m (\<lambda>_. 1) (p_arith_term ?factor) q" if "m \<le> Suc n" for m q
    using ok_arith_term [OF factor] that by (rule ok_fewer)
  show ?case unfolding p_assign_rhs_n.simps using ok_arith_sum [OF operand] Suc.prems by (rule ok_fewer)
qed (simp add: ok_def)

lemma ok_assign_rhs [parse_ok]: "ok n (\<lambda>_. 1) p_assign_rhs p"
  unfolding p_assign_rhs_def by (rule ok_fuel) (rule ok_assign_rhs_n, simp)

lemma ok_assign [parse_ok]: "ok n (\<lambda>_. 1) p_assign p"
  unfolding p_assign_def by (rule parse_intros parse_ok [THEN ok_seq] | simp)+

lemma ok_assign_block [parse_ok]: "ok n (\<lambda>_. 1) p_assign_block p"
  unfolding p_assign_block_def by (rule parse_intros ok_braced_free [THEN ok_seq] parse_ok | simp)+

lemma ok_conflict_item: "ok n (\<lambda>r. case r of Inl _ \<Rightarrow> 1 | Inr _ \<Rightarrow> 0) (p_conflict_item st) p"
  unfolding p_conflict_item_def
  by (rule parse_intros parse_ok [THEN ok_seq] | blast intro: has_token_intros | simp)+

lemma ok_on_conflict [parse_ok]: "ok n (\<lambda>_. 0) p_on_conflict p"
  unfolding p_on_conflict_def
  by (rule parse_intros parse_ok [THEN ok_seq] ok_paren [THEN ok_seq] ok_comma_list ok_loop [THEN ok_seq] ok_conflict_item
      parse_ok [THEN ok_more] | blast intro: has_token_intros | simp)+

lemma ok_where_clause [parse_ok]: "ok n (\<lambda>_. 1) p_where_clause p"
  unfolding p_where_clause_def
  by (rule parse_ok [THEN ok_seq] ok_paren [THEN ok_more] parse_ok [THEN ok_more] | simp)+

lemma ok_delete_target [parse_ok]: "ok n (\<lambda>_. 1) p_delete_target p"
  unfolding p_delete_target_def by (rule parse_intros parse_ok [THEN ok_seq] | simp)+

lemma ok_bulk_close [parse_ok]: "ok n (\<lambda>_. 0) (if b then seq (expect t what) (\<lambda>_. give ()) else give ()) p"
  by (rule parse_intros parse_ok [THEN ok_seq] | simp)+

lemma ok_create_from [parse_ok]: "ok n (\<lambda>_. 1) p_create_from p"
  unfolding p_create_from_def by (rule parse_intros parse_ok [THEN ok_seq] | simp)+

lemma ok_create_source [parse_ok]: "ok n (\<lambda>_. 1) p_create_source p"
  unfolding p_create_source_def by (rule parse_intros parse_ok [THEN ok_seq] | simp)+

lemma ok_create_stmt [parse_ok]: "ok n (\<lambda>_. 1) p_create_stmt p"
  unfolding p_create_stmt_def by (rule parse_intros parse_ok [THEN ok_seq] ok_opt_kw [THEN ok_seq] parse_ok | simp)+

lemma ok_write_stmt_n: "m \<le> n \<Longrightarrow> ok m (\<lambda>_. 1) (p_write_stmt_n n) p"
proof (induction n arbitrary: m p)
  case (Suc n)
  have tx: "ok (Suc n) (\<lambda>_. 1) (p_braced (p_write_stmt_n n)) q" for q
    by (rule ok_braced) (rule Suc.IH)
  have "ok (Suc n) (\<lambda>_. 1) (p_write_stmt_n (Suc n)) q" for q
    unfolding p_write_stmt_n.simps
    by (rule parse_intros parse_ok [THEN ok_seq] tx [THEN ok_fewer, THEN ok_seq] parse_ok [THEN ok_more]
        | blast intro: has_token_intros | simp)+
  then show ?case using Suc.prems by (rule ok_fewer)
qed (simp add: ok_def)

lemma ok_write_stmt [parse_ok]: "ok n (\<lambda>_. 1) p_write_stmt p"
  unfolding p_write_stmt_def by (rule ok_fuel) (rule ok_write_stmt_n, simp)

lemma ok_mutation [parse_ok]: "ok n (\<lambda>_. 1) p_mutation p"
  unfolding p_mutation_def
  by (rule parse_intros parse_ok [THEN ok_seq] ok_opt_kw [THEN ok_seq] ok_braced_free [THEN ok_seq] parse_ok | simp)+

lemma ok_filter_params [parse_ok]: "ok n (\<lambda>_. 0) (if c then p_param_list else give []) p"
  by (rule parse_intros parse_ok [THEN ok_more] | simp)+

lemma ok_named_filter [parse_ok]: "ok n (\<lambda>_. 1) p_named_filter p"
  unfolding p_named_filter_def by (rule parse_intros parse_ok [THEN ok_seq] | simp)+

lemma ok_decl [parse_ok]: "ok n (\<lambda>_. 1) p_decl p"
  unfolding p_decl_def by (rule parse_intros parse_ok [THEN ok_seq] | simp)+

subsection \<open>Recovery\<close>

lemma sync_n_extends: "wf_state p \<Longrightarrow> extends p (sync_n n p)"
proof (induction n arbitrary: p)
  case (Suc n)
  show ?case
  proof (cases "peek p = None \<or> decl_start p")
    case False
    then have "extends p (advance p)" by (auto intro: extends_advance)
    then show ?thesis using Suc False by (auto intro: extends_trans extends_wf)
  qed (simp add: extends_refl Suc.prems)
qed (simp add: extends_refl)

lemma left_Suc: "peek p \<noteq> None \<Longrightarrow> left p = Suc (left (advance p))"
  by (auto simp: left_def peek_def tok_at_def advance_def split: if_splits)

lemma sync_n_lands: "left p \<le> n \<Longrightarrow> peek (sync_n n p) = None \<or> decl_start (sync_n n p)"
proof (induction n arbitrary: p)
  case 0
  then show ?case by (simp add: left_def peek_def tok_at_def)
next
  case (Suc n)
  show ?case using Suc.prems Suc.IH [of "advance p"] left_Suc [of p] by auto
qed

text \<open>Recovery stops at the end of the text or at a token that may start a declaration.\<close>

lemma sync_lands: "peek (sync p) = None \<or> decl_start (sync p)"
  by (simp add: sync_def Let_def sync_n_lands)

lemma sync_extends:
  assumes "wf_state p"
  shows "extends p (sync p) \<and> (ps_pos p < length (ps_toks p) \<longrightarrow> ps_pos p < ps_pos (sync p))"
proof -
  let ?q = "if peek p = None then p else advance p"
  have q: "extends p ?q" using assms by (auto intro: extends_refl extends_advance)
  moreover have "extends ?q (sync p)" unfolding sync_def Let_def by (rule sync_n_extends, rule extends_wf [OF assms q])
  moreover have "ps_pos p < length (ps_toks p) \<Longrightarrow> ps_pos ?q = Suc (ps_pos p)" by (simp add: peek_def tok_at_def)
  ultimately show ?thesis using extends_trans [OF q] by (fastforce simp: extends_def [of ?q])
qed

lemma ok_decl_or_sync:
  assumes "peek p \<noteq> None"
  shows "ok n (\<lambda>_. 1) p_decl_or_sync p"
  unfolding ok_def
proof (intro impI)
  assume p: "wf_state p" "left p < n"
  obtain r q where 1: "p_decl p = Some (r, q)" "extends p q" "\<And>d. r = Some d \<Longrightarrow> ps_pos p + 1 \<le> ps_pos q"
    using ok_decl [of n p] p by (force simp: ok_def split: option.splits)
  have lt: "ps_pos p < length (ps_toks p)" using assms by (auto simp: peek_def tok_at_def split: if_splits)
  have s: "extends q (sync q)" "ps_pos q < length (ps_toks q) \<longrightarrow> ps_pos q < ps_pos (sync q)"
    using sync_extends [OF extends_wf [OF p(1) 1(2)]] by auto
  show "\<exists>r q. p_decl_or_sync p = Some (r, q) \<and> extends p q \<and>
      (case r of None \<Rightarrow> length (ps_diags p) < length (ps_diags q) | Some a \<Rightarrow> ps_pos p + 1 \<le> ps_pos q)"
  proof (cases r)
    case None
    have "extends p (sync q)" using 1(2) s(1) by (rule extends_trans)
    moreover have "ps_pos p + 1 \<le> ps_pos (sync q)" using lt s 1(2) by (auto simp: extends_def)
    ultimately show ?thesis using None 1(1) by (simp add: p_decl_or_sync_def)
  next
    case (Some d)
    then show ?thesis using 1 by (simp add: p_decl_or_sync_def)
  qed
qed

lemma ok_decls [parse_ok]: "ok n (\<lambda>_. 0) p_decls p"
  unfolding p_decls_def
  by (rule ok_loop) (rule parse_intros parse_ok [THEN ok_seq] ok_decl_or_sync [THEN ok_seq] | simp)+

lemma parse_file_reports: "well_reported file src (parse_file skip src file)"
proof -
  let ?p = "start_state skip False (bad_char_msg src) src file"
  have text_of: "ps_file ?p = file" "ps_src ?p = src" by (simp_all add: start_state_def Let_def)
  have "loop_n n step s p \<noteq> Some (None, q)" if "\<And>s p q. step s p \<noteq> Some (None, q)" for n s p q
    and step :: "decl list \<Rightarrow> (decl list + decl list) parse"
    using that
    by (induction n arbitrary: s p) (auto simp: seq_def give_def split: option.splits sum.splits)
  then have never: "p_decls ?p \<noteq> Some (None, q)" for q
    unfolding p_decls_def loop_def look_def
    by (auto simp: seq_def skip_seps_def look_def give_def p_decl_or_sync_def split: option.splits if_splits)
  obtain r q where 1: "p_decls ?p = Some (r, q)" "extends ?p q"
    using ok_decls [of "Suc (left ?p)" ?p] start_state_wf [of skip False "bad_char_msg src" src "file"] by (auto simp: ok_def)
  obtain ds where r: "r = Some ds" using 1(1) never by (cases r) auto
  have "\<forall>d \<in> set (ps_diags q). in_text ?p d"
    using 1(2) start_state_in_text by (auto simp: extends_def)
  then show ?thesis using 1 r text_of by (auto simp: parse_file_def well_reported_def in_text_def)
qed

end
