(* ===== verification/Parse_Props.thy ===== *)
theory Parse_Props
  imports Parse_File Plan_Props
begin

text \<open>
  What the parser promises its callers: every text gets an answer, and the data steps of a script
  are either all run or the script is refused. \<open>step_parser\<close> is the parser the planner is given.
\<close>

subsection \<open>Every text gets an answer\<close>

text \<open>C10: Whatever the text and whatever the token library drops at an error, the three entry points of
  the parser return: no panic and no endless loop. A refusal carries at least one diagnostic, and
  every diagnostic points into the text.\<close>

theorem parser_answers:
  "well_reported file src (parse_file skip src file)
   \<and> well_reported file src (parse_data_step skip src file)
   \<and> well_reported file src (parse_expr skip src file)"
  unfolding parse_data_step_def parse_expr_def
  by (intro conjI parse_file_reports whole_text_reported ok_data_step ok_shape_expr)

subsection \<open>Data steps of a script\<close>

definition step_parser :: "(str \<Rightarrow> nat) \<Rightarrow> parser" where
  "step_parser skip s = (case parse_data_step skip s 0 of
       Some (Inr st) \<Rightarrow> Inr st
     | Some (Inl ds) \<Rightarrow> Inl (map (\<lambda>d. (Some (span_start (dg_span d)), dg_message d)) ds)
     | None \<Rightarrow> Inl [])"

lemma step_parser_refuses: "step_parser skip s = Inl ds \<Longrightarrow> ds \<noteq> []"
proof -
  have "well_reported 0 s (parse_data_step skip s 0)"
    unfolding parse_data_step_def by (intro whole_text_reported ok_data_step)
  then show "step_parser skip s = Inl ds \<Longrightarrow> ds \<noteq> []"
    by (auto simp: step_parser_def well_reported_def split: option.splits sum.splits)
qed

lemma data_unit_refuses: "data_unit (step_parser skip) file line s snap d = Inl ps \<Longrightarrow> ps \<noteq> []"
  by (auto simp: data_unit_def dest: step_parser_refuses split: sum.splits if_splits)

lemma data_unit_unit:
  "data_unit (step_parser skip) file line s snap d = Inr (st, u) \<Longrightarrow>
   parse_data_step skip s 0 = Some (Inr st) \<and> check_step st snap = [] \<and> lower_step st snap d = Inr u"
  by (auto simp: data_unit_def step_parser_def split: sum.splits if_splits option.splits)

definition walk_grows :: "walk \<Rightarrow> walk \<Rightarrow> bool" where
  "walk_grows w v \<longleftrightarrow> set (wk_units w) \<subseteq> set (wk_units v) \<and> set (wk_problems w) \<subseteq> set (wk_problems v)"

lemma walk_grows_trans: "walk_grows u v \<Longrightarrow> walk_grows v w \<Longrightarrow> walk_grows u w"
  by (auto simp: walk_grows_def)

lemma flush_grows: "walk_grows w (flush gen file d w)"
  by (auto simp: walk_grows_def flush_def split: sum.split)

lemma walk_entry_grows: "walk_grows w (walk_entry gen parse file d e w)"
proof (cases e)
  case (Placed_Raw st)
  have "walk_grows w (flush gen file d (w\<lparr>wk_downs := None\<rparr>))"
    using flush_grows [of "w\<lparr>wk_downs := None\<rparr>"] by (simp add: walk_grows_def)
  then show ?thesis using Placed_Raw by (auto simp: walk_grows_def walk_raw_def)
next
  case (Placed_Data line s)
  have "walk_grows v (walk_data parse file d line s v)" for v
    by (auto simp: walk_grows_def walk_data_def split: sum.split)
  then show ?thesis using Placed_Data flush_grows walk_grows_trans by fastforce
qed (simp add: walk_grows_def)

lemma fold_grows: "walk_grows w (fold (walk_entry gen parse file d) es w)"
proof (induction es arbitrary: w)
  case (Cons e es)
  then show ?case using walk_grows_trans [OF walk_entry_grows Cons.IH] by simp
qed (simp add: walk_grows_def)

definition step_runs :: "(str \<Rightarrow> nat) \<Rightarrow> dialect \<Rightarrow> str \<Rightarrow> plan_unit list \<Rightarrow> bool" where
  "step_runs skip d s units \<longleftrightarrow> (\<exists>st snap u. parse_data_step skip s 0 = Some (Inr st) \<and> check_step st snap = []
     \<and> lower_step st snap d = Inr u \<and> u \<in> set units)"

lemma walk_data_runs:
  "wk_problems (walk_data (step_parser skip) file d line s w) = [] \<Longrightarrow>
   step_runs skip d s (wk_units (walk_data (step_parser skip) file d line s w))"
  by (auto simp: walk_data_def step_runs_def split: sum.splits dest!: data_unit_refuses data_unit_unit)

lemma step_runs_mono: "step_runs skip d s us \<Longrightarrow> set us \<subseteq> set vs \<Longrightarrow> step_runs skip d s vs"
  by (auto simp: step_runs_def)

lemma fold_runs:
  "\<lbrakk>Placed_Data line s \<in> set es; v = fold (walk_entry gen (step_parser skip) file d) es w; wk_problems v = []\<rbrakk> \<Longrightarrow>
   step_runs skip d s (wk_units v)"
proof (induction es arbitrary: w)
  case (Cons e es)
  let ?entry = "walk_entry gen (step_parser skip) file d"
  have grows: "walk_grows (?entry e w) v" using Cons.prems(2) fold_grows by simp
  show ?case
  proof (cases "e = Placed_Data line s")
    case True
    have "wk_problems (?entry e w) = []" using grows Cons.prems(3) by (simp add: walk_grows_def)
    then have "step_runs skip d s (wk_units (?entry e w))" using True by (simp add: walk_data_runs)
    then show ?thesis using grows step_runs_mono by (auto simp: walk_grows_def)
  next
    case False
    then show ?thesis using Cons by (auto simp del: walk_entry.simps)
  qed
qed simp

text \<open>C9: No data step of a script is lost on the way to the database: when a plan is made, the text of
  every data step placed in it has parsed to a step that passes the check against a state of the
  schema, and the unit it lowers to is one of the units that run.\<close>

theorem no_data_step_lost:
  assumes "place file steps sc = Inr ps"
    and "plan_in_order gen (step_parser skip) file prev target steps sc d = Inr p"
    and "Placed_Data line s \<in> set ps"
  shows "step_runs skip d s (up_units p)"
proof -
  let ?w = "fold (walk_entry gen (step_parser skip) file d) ps (start_walk prev d)"
  let ?e = "flush gen file d (?w\<lparr>wk_snap := target\<rparr>)"
  have e: "wk_problems ?e = []" "up_units p = wk_units ?e"
    using assms(1,2) by (auto simp: plan_in_order_def walk_end_def Let_def split: if_splits)
  have "walk_grows ?w ?e" using flush_grows [of "?w\<lparr>wk_snap := target\<rparr>"] by (simp add: walk_grows_def)
  then show ?thesis using fold_runs [OF assms(3) refl, of gen skip "file" d "start_walk prev d"] e step_runs_mono
    by (auto simp: walk_grows_def)
qed

definition wipe_script :: str where
  "wipe_script = unlines [''format 2'', ''delete all card'']"

definition wipe_plan :: up_plan where
  "wipe_plan = (case plan_in_order (\<lambda>d s. None) (step_parser (\<lambda>_. 1)) ''up.mig'' card_before card_before [] (scan wipe_script) Sqlite of
     Inr p \<Rightarrow> p | Inl _ \<Rightarrow> \<lparr>up_units = [], up_review = [], up_auto_down = None, up_has_data = False\<rparr>)"

theorem no_data_step_lost_witness: "step_runs (\<lambda>_. 1) Sqlite ''delete all card'' (up_units wipe_plan)"
proof -
  have "place ''up.mig'' [] (scan wipe_script) = Inr [Placed_Data 2 ''delete all card'']" by code_simp
  moreover have "plan_in_order (\<lambda>d s. None) (step_parser (\<lambda>_. 1)) ''up.mig'' card_before card_before [] (scan wipe_script) Sqlite
      = Inr wipe_plan"
    by code_simp
  ultimately show ?thesis by (rule no_data_step_lost) simp
qed

end
